(* ===== verification/Prelude.thy ===== *)
theory Prelude
  imports Main "HOL-Library.Word"
begin

unbundle bit_operations_syntax

text \<open>
  Shared vocabulary of the development: the machine integers of the C code, the
  outcome of a kernel routine (it returns, or it never does because an \<open>ASSERT\<close>
  panicked or a loop spins for ever), little-endian byte encodings, and the lemmas on
  words that the components share.
\<close>

type_synonym u8 = "8 word"
type_synonym u16 = "16 word"
type_synonym u32 = "32 word"
type_synonym u64 = "64 word"

named_theorems kres_simps \<open>sequencing of fallible kernel routines\<close>
named_theorems page_simps \<open>page arithmetic\<close>

subsection \<open>Outcomes\<close>

text \<open>
  \<open>ASSERT(expr)\<close> calls \<open>panic\<close>, which is \<open>noreturn\<close>; a loop whose exit test never
  fails does not return either; a division by zero and an access through a null pointer trap,
  and a format string that does not fit its arguments has no defined behaviour. All are values
  of the left summand, so that every statement after them in the C code is skipped in the model.
\<close>

datatype kfault = Assertion string | Diverges | DivideError | NullPointer | BadFormat

type_synonym ('a, 's) kres = "kfault + ('a \<times> 's)"

definition kret :: "'a \<Rightarrow> 's \<Rightarrow> ('a, 's) kres" where
  "kret x s = Inr (x, s)"

definition kbind :: "('a, 's) kres \<Rightarrow> ('a \<Rightarrow> 's \<Rightarrow> ('b, 't) kres) \<Rightarrow> ('b, 't) kres" where
  "kbind r f = (case r of Inl e \<Rightarrow> Inl e | Inr (x, s) \<Rightarrow> f x s)"

definition kassert :: "string \<Rightarrow> bool \<Rightarrow> 's \<Rightarrow> (unit, 's) kres" where
  "kassert msg b s = (if b then kret () s else Inl (Assertion msg))"

lemma kbind_Inl [simp, kres_simps]: "kbind (Inl e) f = Inl e"
  by (simp add: kbind_def)

lemma kbind_Inr [simp, kres_simps]: "kbind (Inr (x, s)) f = f x s"
  by (simp add: kbind_def)

lemma kbind_kret [simp, kres_simps]: "kbind (kret x s) f = f x s"
  by (simp add: kret_def)

lemma kassert_True [simp, kres_simps]: "kassert msg True s = kret () s"
  by (simp add: kassert_def)

lemma kassert_False [simp, kres_simps]: "kassert msg False s = Inl (Assertion msg)"
  by (simp add: kassert_def)

lemma kret_Inr [simp, kres_simps]: "kret x s = Inr y \<longleftrightarrow> y = (x, s)"
  by (auto simp: kret_def)

lemma kret_not_Inl [simp, kres_simps]: "kret x s \<noteq> Inl e"
  by (simp add: kret_def)

lemma kbind_eq_Inr: "kbind r f = Inr y \<longleftrightarrow> (\<exists>x s. r = Inr (x, s) \<and> f x s = Inr y)"
  by (cases r) auto

lemma kassert_eq_Inr [simp]: "kassert msg b s = Inr y \<longleftrightarrow> b \<and> y = ((), s)"
  by (auto simp: kassert_def)

lemma kbind_kassert: "kbind (kassert msg b s) f = (if b then f () s else Inl (Assertion msg))"
  by (simp add: kassert_def)

subsection \<open>Bytes and words\<close>

definition bytes_of :: "'a::len word \<Rightarrow> u8 list" where
  "bytes_of w = map (\<lambda>i. ucast (drop_bit (8 * i) w)) [0..<LENGTH('a) div 8]"

definition word_of :: "u8 list \<Rightarrow> 'a::len word" where
  "word_of bs = foldr (\<lambda>b acc. ucast b OR push_bit 8 acc) bs 0"

lemma word_of_Nil [simp]: "word_of [] = 0"
  by (simp add: word_of_def)

lemma word_of_Cons [simp]: "word_of (b # bs) = ucast b OR push_bit 8 (word_of bs)"
  by (simp add: word_of_def)

lemma length_bytes_of [simp]: "length (bytes_of (w :: 'a::len word)) = LENGTH('a) div 8"
  by (simp add: bytes_of_def)

lemma bit_word_of:
  "bit (word_of bs :: 'a::len word) n \<longleftrightarrow>
     n < LENGTH('a) \<and> n div 8 < length bs \<and> bit (bs ! (n div 8)) (n mod 8)"
proof (induction bs arbitrary: n)
  case Nil
  then show ?case by simp
next
  case (Cons b bs)
  show ?case
  proof (cases "n < 8")
    case True
    then show ?thesis by (auto simp: bit_simps)
  next
    case False
    then obtain k where n: "n = k + 8" by (metis add.commute le_Suc_ex not_less)
    have "(k + 8) div 8 = Suc (k div 8)" by simp
    with n Cons.IH [of k] show ?thesis
      by (auto simp: bit_simps dest: bit_imp_le_length)
  qed
qed

lemma word_of_bytes_of:
  assumes "LENGTH('a::len) mod 8 = 0"
  shows "word_of (bytes_of (w :: 'a word)) = w"
proof (rule bit_word_eqI)
  fix n assume "n < LENGTH('a)"
  moreover from this assms have "n div 8 < LENGTH('a) div 8"
    by (metis mod_0_imp_dvd dvd_div_mult_self less_mult_imp_div_less)
  ultimately show "bit (word_of (bytes_of w) :: 'a word) n = bit w n"
    by (simp add: bit_word_of bytes_of_def bit_simps)
qed

subsection \<open>64-bit arithmetic through \<open>unat\<close>\<close>

lemma unat_of_nat64: "i < 2 ^ 64 \<Longrightarrow> unat (of_nat i :: u64) = i"
  by (simp add: unat_of_nat take_bit_nat_eq_self_iff)

lemma unat64_less: "unat (x :: u64) < 18446744073709551616"
  using unsigned_less [of x, where ?'a = nat] by simp

lemma unat64_inject: "unat (x :: u64) = unat y \<longleftrightarrow> x = y"
  by (metis unsigned_word_eqI)

lemma unat_add_sub64:
  "unat (d :: u64) + unat i < 18446744073709551616 \<Longrightarrow> unat j \<le> unat d + unat i \<Longrightarrow>
    unat (d + i - j) = unat d + unat i - unat j"
  by (simp add: unat_sub_if' unat_plus_if')

lemma unat_Suc64: "i < (n :: u64) \<Longrightarrow> unat (i + 1) = Suc (unat i)"
  using unat64_less [of n] by (simp add: word_less_nat_alt unat_plus_if')

lemma loop_up_measure: "i < (n :: u64) \<Longrightarrow> unat (n - (i + 1)) < unat (n - i)"
  using unat_Suc64 [of i n] by (simp add: word_less_nat_alt unat_sub_if')

lemma loop_down_measure: "0 < (i :: u64) \<Longrightarrow> unat (i - 1) < unat i"
  by (simp add: word_less_nat_alt unat_sub_if')

lemma unat_minus_1_64: "0 < (i :: u64) \<Longrightarrow> unat (i - 1) = unat i - 1"
  by (simp add: word_less_nat_alt unat_sub_if')

lemma unat_eq_of_nat64: "unat (x :: u64) = n \<Longrightarrow> x = of_nat n"
  by (metis of_nat_unat ucast_id)

subsection \<open>Bits\<close>

lemma word_bit_ge: "unat x < 2 ^ k \<Longrightarrow> k \<le> n \<Longrightarrow> \<not> bit (x :: 'a::len word) n"
proof
  assume x: "unat x < 2 ^ k" "k \<le> n" and "bit x n"
  then have "bit (unat x) n" by (simp add: bit_unsigned_iff bit_imp_le_length)
  then have "odd (unat x div 2 ^ n)" by (simp add: bit_iff_odd)
  moreover have "unat x < 2 ^ n" using x by (meson less_le_trans one_le_numeral power_increasing)
  ultimately show False by simp
qed

end
