(* ===== verification/Machine.thy ===== *)
theory Machine
  imports Prelude
begin

unbundle bit_operations_syntax

text \<open>
  The memory the C code sees: one flat, byte-addressed 64-bit virtual address space, with
  little-endian loads and stores of the widths the kernel uses. \<open>sep a n b k\<close> says that
  the ranges \<open>[a, a+n)\<close> and \<open>[b, b+k)\<close> do not meet, on addresses that wrap at
  \<open>2\<^sup>6\<^sup>4\<close>. The physical page mapped at \<open>p\<close> is seen through the higher-half direct
  map at \<open>offset + p\<close> (\<open>src/kernel/src/memory/hhdm.c\<close>).
\<close>

type_synonym memory = "u64 \<Rightarrow> u8"

definition put_bytes :: "u64 \<Rightarrow> u8 list \<Rightarrow> memory \<Rightarrow> memory" where
  "put_bytes a bs m = (\<lambda>x. if unat (x - a) < length bs then bs ! unat (x - a) else m x)"

definition get_bytes :: "u64 \<Rightarrow> nat \<Rightarrow> memory \<Rightarrow> u8 list" where
  "get_bytes a n m = map (\<lambda>i. m (a + of_nat i)) [0..<n]"

definition load16 :: "u64 \<Rightarrow> memory \<Rightarrow> u16" where
  "load16 a m = word_of (get_bytes a 2 m)"

definition load32 :: "u64 \<Rightarrow> memory \<Rightarrow> u32" where
  "load32 a m = word_of (get_bytes a 4 m)"

definition load64 :: "u64 \<Rightarrow> memory \<Rightarrow> u64" where
  "load64 a m = word_of (get_bytes a 8 m)"

definition store16 :: "u64 \<Rightarrow> u16 \<Rightarrow> memory \<Rightarrow> memory" where
  "store16 a v m = put_bytes a (bytes_of v) m"

definition store32 :: "u64 \<Rightarrow> u32 \<Rightarrow> memory \<Rightarrow> memory" where
  "store32 a v m = put_bytes a (bytes_of v) m"

definition store64 :: "u64 \<Rightarrow> u64 \<Rightarrow> memory \<Rightarrow> memory" where
  "store64 a v m = put_bytes a (bytes_of v) m"

definition sep :: "u64 \<Rightarrow> nat \<Rightarrow> u64 \<Rightarrow> nat \<Rightarrow> bool" where
  "sep a n b k \<longleftrightarrow> k \<le> unat (a - b) \<and> n \<le> unat (b - a)"

subsection \<open>Reading back what was written\<close>

lemma length_get_bytes [simp]: "length (get_bytes a n m) = n"
  by (simp add: get_bytes_def)

lemma nth_get_bytes [simp]: "i < n \<Longrightarrow> get_bytes a n m ! i = m (a + of_nat i)"
  by (simp add: get_bytes_def)

lemma put_bytes_Nil [simp]: "put_bytes a [] m = m"
  by (simp add: put_bytes_def)

lemma get_put_same:
  assumes "n = length bs" and "n \<le> 2 ^ 64"
  shows "get_bytes a n (put_bytes a bs m) = bs"
  using assms by (intro nth_equalityI) (auto simp: put_bytes_def unat_of_nat64)

lemma sep_commute: "sep a n b k \<longleftrightarrow> sep b k a n"
  by (auto simp: sep_def)

lemma sep_0 [simp]: "sep a 0 b k \<longleftrightarrow> k \<le> unat (a - b)" "sep a n b 0 \<longleftrightarrow> n \<le> unat (b - a)"
  by (auto simp: sep_def)

lemma unat_minus_pair: "(a :: u64) \<noteq> b \<Longrightarrow> unat (a - b) + unat (b - a) = 18446744073709551616"
  using unat64_less [of a] unat64_less [of b] unat_sub_if' [of a b] unat_sub_if' [of b a]
  by (cases "unat a = unat b") (auto simp: unat64_inject split: if_splits)

lemma sep_offset:
  assumes "sep a n b k" and "i < n" and "0 < k"
  shows "k \<le> unat (a + of_nat i - b)"
proof -
  have ne: "a \<noteq> b" using assms by (auto simp: sep_def)
  have i: "i < 2 ^ 64" using assms unat64_less [of "b - a"] by (auto simp: sep_def)
  have *: "a + of_nat i - b = (a - b) + of_nat i" by simp
  have "unat (a - b) + i < 2 ^ 64"
    using unat_minus_pair [OF ne] assms(1,2) by (auto simp: sep_def)
  then have "unat (a + of_nat i - b) = unat (a - b) + i"
    unfolding * using i by (simp add: unat_plus_if' unat_of_nat64)
  then show ?thesis using assms(1) by (simp add: sep_def)
qed

lemma get_put_sep:
  assumes "sep a n b (length bs)"
  shows "get_bytes a n (put_bytes b bs m) = get_bytes a n m"
proof (cases "bs = []")
  case True
  then show ?thesis by (simp add: put_bytes_def)
next
  case False
  then have "\<not> unat (a + of_nat i - b) < length bs" if "i < n" for i
    using sep_offset [OF assms that] by (simp add: not_less)
  then show ?thesis
    by (intro nth_equalityI) (simp_all add: put_bytes_def)
qed

lemma put_bytes_outside:
  "length bs \<le> unat (x - a) \<Longrightarrow> put_bytes a bs m x = m x"
  by (simp add: put_bytes_def)

lemma load64_store64 [simp]: "load64 a (store64 a v m) = v"
  by (simp add: load64_def store64_def get_put_same word_of_bytes_of)

lemma load32_store32 [simp]: "load32 a (store32 a v m) = v"
  by (simp add: load32_def store32_def get_put_same word_of_bytes_of)

lemma load16_store16 [simp]: "load16 a (store16 a v m) = v"
  by (simp add: load16_def store16_def get_put_same word_of_bytes_of)

lemma load64_put_sep: "sep a 8 b (length bs) \<Longrightarrow> load64 a (put_bytes b bs m) = load64 a m"
  by (simp add: load64_def get_put_sep)

lemma load64_store64_sep: "sep a 8 b 8 \<Longrightarrow> load64 a (store64 b v m) = load64 a m"
  by (simp add: store64_def load64_put_sep)

lemma load64_cong: "(\<And>i. i < 8 \<Longrightarrow> m (a + of_nat i) = m' (a + of_nat i)) \<Longrightarrow> load64 a m = load64 a m'"
  unfolding load64_def get_bytes_def by (rule arg_cong [where f = word_of], rule map_cong) simp_all

subsection \<open>Ranges and pages\<close>

lemma sep_add_left [page_simps]: "sep (p + i) n (p + j) k \<longleftrightarrow> sep i n j k"
  by (simp add: sep_def)

lemma sep_subrange:
  assumes "sep a n b k" and "unat i + n' \<le> n" and "unat j + k' \<le> k" and "0 < n'" and "0 < k'"
  shows "sep (a + i) n' (b + j) k'"
proof -
  have ne: "a \<noteq> b" using assms by (auto simp: sep_def)
  have ab: "unat (a - b) + unat (b - a) = 18446744073709551616" by (rule unat_minus_pair [OF ne])
  have "unat (a - b) + unat i < 18446744073709551616" "unat (b - a) + unat j < 18446744073709551616"
    using assms ab by (auto simp: sep_def)
  then have "unat ((a - b) + i - j) = unat (a - b) + unat i - unat j"
    "unat ((b - a) + j - i) = unat (b - a) + unat j - unat i"
    using assms by (auto intro!: unat_add_sub64 simp: sep_def)
  moreover have "a + i - (b + j) = (a - b) + i - j" "b + j - (a + i) = (b - a) + j - i" by simp_all
  ultimately show ?thesis using assms by (simp only: sep_def) linarith
qed

definition page_aligned :: "u64 \<Rightarrow> bool" where
  "page_aligned p \<longleftrightarrow> p mod 0x1000 = 0"

lemma page_aligned_unat: "page_aligned p \<longleftrightarrow> unat p mod 4096 = 0"
  by (simp add: page_aligned_def word_eq_iff_unsigned unat_mod_distrib flip: unat_0_iff)

lemma page_aligned_0 [simp]: "page_aligned 0"
  by (simp add: page_aligned_def)

lemma page_aligned_add: "page_aligned p \<Longrightarrow> page_aligned q \<Longrightarrow> page_aligned (p + q)"
  unfolding page_aligned_unat unat_word_ariths
  by (simp add: mod_mod_cancel) (metis add_0 mod_add_eq mod_0)

lemma page_aligned_sep:
  assumes "page_aligned p" and "page_aligned q" and "p \<noteq> q"
  shows "sep p 4096 q 4096"
proof -
  obtain k l where kl: "unat p = 4096 * k" "unat q = 4096 * l"
    using assms(1,2) by (auto simp: page_aligned_unat elim!: dvdE)
  have "k \<noteq> l" using kl assms(3) by (simp add: unat64_inject [symmetric])
  then have "4096 \<le> unat (p - q)" "4096 \<le> unat (q - p)"
    using kl unat64_less [of p] unat64_less [of q] by (auto simp: unat_sub_if')
  then show ?thesis by (simp add: sep_def)
qed

end
