(* ===== verification/Memory.thy ===== *)
theory Memory
  imports Machine
begin

text \<open>
  The byte routines of \<open>src/kernel/src/memory.c\<close>. Each loop is a function over its
  own counter, with the C code's test and update; the lemmas give the closed form of the
  memory it leaves.
\<close>

function memset_loop :: "u64 \<Rightarrow> u64 \<Rightarrow> u8 \<Rightarrow> u64 \<Rightarrow> memory \<Rightarrow> memory" where
  "memset_loop i dest ch count m =
     (if i < count then memset_loop (i + 1) dest ch count (m(dest + i := ch)) else m)"
  by pat_completeness auto
termination
  by (relation "measure (\<lambda>(i, _, _, count, _). unat (count - i))")
    (auto simp: loop_up_measure)

definition memset :: "u64 \<Rightarrow> u32 \<Rightarrow> u64 \<Rightarrow> memory \<Rightarrow> memory" where
  "memset dest ch count m = memset_loop 0 dest (ucast ch) count m"

function memcpy_loop :: "u64 \<Rightarrow> u64 \<Rightarrow> u64 \<Rightarrow> u64 \<Rightarrow> memory \<Rightarrow> memory" where
  "memcpy_loop i dest src count m =
     (if i < count then memcpy_loop (i + 1) dest src count (m(dest + i := m (src + i))) else m)"
  by pat_completeness auto
termination
  by (relation "measure (\<lambda>(i, _, _, count, _). unat (count - i))")
    (auto simp: loop_up_measure)

definition memcpy :: "u64 \<Rightarrow> u64 \<Rightarrow> u64 \<Rightarrow> memory \<Rightarrow> memory" where
  "memcpy dest src count m = memcpy_loop 0 dest src count m"

function memmove_down_loop :: "u64 \<Rightarrow> u64 \<Rightarrow> u64 \<Rightarrow> memory \<Rightarrow> memory" where
  "memmove_down_loop i dest src m =
     (if i > 0 then memmove_down_loop (i - 1) dest src (m(dest + (i - 1) := m (src + (i - 1)))) else m)"
  by pat_completeness auto
termination
  by (relation "measure (\<lambda>(i, _, _, _). unat i)") (auto simp: loop_down_measure)

definition memmove :: "u64 \<Rightarrow> u64 \<Rightarrow> u64 \<Rightarrow> memory \<Rightarrow> memory" where
  "memmove dest src count m =
     (if src = dest then m
      else if src > dest then memcpy_loop 0 dest src count m
      else memmove_down_loop count dest src m)"

function memcmp_loop :: "u64 \<Rightarrow> u64 \<Rightarrow> u64 \<Rightarrow> u64 \<Rightarrow> memory \<Rightarrow> int" where
  "memcmp_loop i lhs rhs count m =
     (if i < count then
        if m (lhs + i) > m (rhs + i) then -1
        else if m (lhs + i) < m (rhs + i) then 1
        else memcmp_loop (i + 1) lhs rhs count m
      else 0)"
  by pat_completeness auto
termination
  by (relation "measure (\<lambda>(i, _, _, count, _). unat (count - i))")
    (auto simp: loop_up_measure)

definition memcmp :: "u64 \<Rightarrow> u64 \<Rightarrow> u64 \<Rightarrow> memory \<Rightarrow> int" where
  "memcmp lhs rhs count m = memcmp_loop 0 lhs rhs count m"

declare memset_loop.simps [simp del] memcpy_loop.simps [simp del]
  memmove_down_loop.simps [simp del] memcmp_loop.simps [simp del]

subsection \<open>Closed forms of the loops\<close>

lemma put_bytes_snoc:
  "length bs < 18446744073709551616 \<Longrightarrow>
   put_bytes a (bs @ [b]) m = (put_bytes a bs m)(a + of_nat (length bs) := b)"
proof (rule ext)
  fix x assume len: "length bs < 18446744073709551616"
  show "put_bytes a (bs @ [b]) m x = ((put_bytes a bs m)(a + of_nat (length bs) := b)) x"
  proof (cases "unat (x - a) = length bs")
    case True
    then have "x - a = of_nat (length bs)" by (rule unat_eq_of_nat64)
    then have "x = a + of_nat (length bs)" by (simp add: algebra_simps)
    with True show ?thesis by (simp add: put_bytes_def)
  next
    case False
    with len have "x \<noteq> a + of_nat (length bs)" by (auto simp: unat_of_nat64)
    with False show ?thesis by (simp add: put_bytes_def nth_append)
  qed
qed

lemma memset_loop_eq:
  "i \<le> count \<Longrightarrow> memset_loop i dest ch count (put_bytes dest (replicate (unat i) ch) m) =
     put_bytes dest (replicate (unat count) ch) m"
proof (induction "unat count - unat i" arbitrary: i)
  case 0
  then have "i = count" by (simp add: word_le_nat_alt unat64_inject [symmetric])
  then show ?case by (subst memset_loop.simps) simp
next
  case (Suc n)
  then have i: "i < count" by (simp add: word_less_nat_alt)
  have "(put_bytes dest (replicate (unat i) ch) m)(dest + i := ch) =
      put_bytes dest (replicate (unat (i + 1)) ch) m"
    using put_bytes_snoc [of "replicate (unat i) ch" dest ch m] unat64_less [of i]
    by (simp add: unat_Suc64 [OF i] replicate_append_same)
  moreover have "n = unat count - unat (i + 1)" "i + 1 \<le> count"
    using Suc.hyps(2) i by (simp_all add: inc_le unat_Suc64 [OF i])
  ultimately show ?case using Suc.hyps(1) [of "i + 1"] i
    by (subst memset_loop.simps) (simp del: replicate_Suc)
qed

lemma memset_eq: "memset dest ch count m = put_bytes dest (replicate (unat count) (ucast ch)) m"
  using memset_loop_eq [of 0 count dest "ucast ch" m] by (simp add: memset_def)

lemma put_bytes_cons:
  assumes "length bs < 18446744073709551616"
  shows "put_bytes a (b # bs) m = (put_bytes (a + 1) bs m)(a := b)"
proof (rule ext)
  fix x
  show "put_bytes a (b # bs) m x = ((put_bytes (a + 1) bs m)(a := b)) x"
  proof (cases "x = a")
    case True
    then show ?thesis by (simp add: put_bytes_def)
  next
    case False
    then have "0 < x - a" by (simp add: word_neq_0_conv [symmetric])
    moreover have "x - (a + 1) = x - a - 1" by simp
    ultimately have "unat (x - a) = Suc (unat (x - (a + 1)))"
      by (simp only: unat_minus_1_64) (simp add: word_less_nat_alt)
    with False show ?thesis by (simp add: put_bytes_def)
  qed
qed

lemma memcpy_loop_eq:
  assumes apart: "\<forall>j<unat count. j \<le> unat (src + of_nat j - dest)"
    and bs: "bs = get_bytes src (unat count) m"
  shows "i \<le> count \<Longrightarrow> memcpy_loop i dest src count (put_bytes dest (take (unat i) bs) m) = put_bytes dest bs m"
proof (induction "unat count - unat i" arbitrary: i)
  case 0
  then have "i = count" by (simp add: word_le_nat_alt unat64_inject [symmetric])
  then show ?case using bs by (subst memcpy_loop.simps) simp
next
  case (Suc n)
  then have i: "i < count" by (simp add: word_less_nat_alt)
  then have ui: "unat i < unat count" by (simp add: word_less_nat_alt)
  let ?m = "put_bytes dest (take (unat i) bs) m"
  have "?m (src + i) = bs ! unat i"
    using apart [rule_format, OF ui] ui bs by (simp add: put_bytes_def)
  then have "?m(dest + i := ?m (src + i)) = put_bytes dest (take (unat (i + 1)) bs) m"
    using put_bytes_snoc [of "take (unat i) bs" dest "bs ! unat i" m] ui unat64_less [of i] bs
    by (simp add: unat_Suc64 [OF i] take_Suc_conv_app_nth)
  moreover have "n = unat count - unat (i + 1)" "i + 1 \<le> count"
    using Suc.hyps(2) i by (simp_all add: inc_le unat_Suc64 [OF i])
  ultimately show ?case using Suc.hyps(1) [of "i + 1"] i
    by (subst memcpy_loop.simps) simp
qed

lemma memmove_down_loop_eq:
  assumes room: "n \<le> unat (src - dest)" and ne: "src \<noteq> dest" and bs: "bs = get_bytes src n m"
  shows "unat i \<le> n \<Longrightarrow>
    memmove_down_loop i dest src (put_bytes (dest + i) (drop (unat i) bs) m) = put_bytes dest bs m"
proof (induction "unat i" arbitrary: i)
  case 0
  then have "i = 0" by (simp add: unat_0_iff)
  then show ?case by (subst memmove_down_loop.simps) simp
next
  case (Suc k)
  then have i: "0 < i" by (simp add: word_less_nat_alt)
  let ?m = "put_bytes (dest + i) (drop (unat i) bs) m" and ?i = "i - 1"
  have ui: "unat i = Suc (unat ?i)" using unat_minus_1_64 [OF i] Suc.hyps(2) by simp
  have "unat (src - dest - 1) = unat (src - dest) - 1"
    using ne by (intro unat_minus_1_64) (simp add: word_neq_0_conv [symmetric])
  moreover have "src + ?i - (dest + i) = src - dest - 1" by simp
  ultimately have "length (drop (unat i) bs) \<le> unat (src + ?i - (dest + i))"
    using room bs ui by (simp only: length_drop length_get_bytes)
  then have "?m (src + ?i) = bs ! unat ?i"
    using bs ui Suc.prems by (simp add: put_bytes_outside)
  moreover have "drop (unat ?i) bs = bs ! unat ?i # drop (unat i) bs"
    using Cons_nth_drop_Suc [of "unat ?i" bs] ui Suc.prems bs by simp
  moreover have "dest + ?i + 1 = dest + i" by simp
  ultimately have "?m(dest + ?i := ?m (src + ?i)) = put_bytes (dest + ?i) (drop (unat ?i) bs) m"
    using put_bytes_cons [of "drop (unat i) bs" "dest + ?i" "bs ! unat ?i" m] room bs
      unat64_less [of "src - dest"] by simp
  then show ?case using Suc i ui
    by (subst memmove_down_loop.simps) simp
qed

lemma memcpy_eq_sep:
  assumes "sep src (unat count) dest (unat count)"
  shows "memcpy dest src count m = put_bytes dest (get_bytes src (unat count) m) m"
proof -
  have "\<forall>j<unat count. j \<le> unat (src + of_nat j - dest)"
  proof (intro allI impI)
    fix j assume j: "j < unat count"
    then have "unat count \<le> unat (src + of_nat j - dest)" by (intro sep_offset [OF assms]) auto
    with j show "j \<le> unat (src + of_nat j - dest)" by simp
  qed
  from memcpy_loop_eq [OF this refl, of 0] show ?thesis
    by (simp add: memcpy_def)
qed

lemma memcpy_loop_up:
  assumes "dest < src" and "unat src + unat count \<le> 2 ^ 64"
  shows "memcpy_loop 0 dest src count m = put_bytes dest (get_bytes src (unat count) m) m"
proof -
  have "\<forall>j<unat count. j \<le> unat (src + of_nat j - dest)"
  proof (intro allI impI)
    fix j assume j: "j < unat count"
    have "j < 18446744073709551616" using j unat64_less [of count] by simp
    then have "unat (src + of_nat j) = unat src + j"
      using j assms(2) by (simp add: unat_plus_if' unat_of_nat64)
    then show "j \<le> unat (src + of_nat j - dest)"
      using assms(1) by (simp add: unat_sub_if' word_less_nat_alt)
  qed
  from memcpy_loop_eq [OF this refl, of 0] show ?thesis by simp
qed

lemma memmove_eq:
  assumes "unat src + unat count \<le> 2 ^ 64" and "unat dest + unat count \<le> 2 ^ 64"
  shows "memmove dest src count m = put_bytes dest (get_bytes src (unat count) m) m"
proof -
  consider "src = dest" | "dest < src" | "src < dest" by (rule linorder_cases)
  then show ?thesis
  proof cases
    case 1
    have "put_bytes dest (get_bytes dest (unat count) m) m = m"
      by (rule ext) (simp add: put_bytes_def)
    with 1 show ?thesis by (simp add: memmove_def)
  next
    case 2
    then have "src \<noteq> dest" by auto
    with 2 show ?thesis using memcpy_loop_up [OF 2 assms(1)] by (simp add: memmove_def)
  next
    case 3
    then have "unat count \<le> unat (src - dest)"
      using assms(2) by (simp add: unat_sub_if' word_less_nat_alt)
    moreover have "src \<noteq> dest" "\<not> dest < src" using 3 by auto
    ultimately show ?thesis
      using memmove_down_loop_eq [of "unat count" src dest _ m count] by (simp add: memmove_def)
  qed
qed

text \<open>The result the C standard fixes for a comparison: the sign of the first difference.\<close>

fun byte_order :: "u8 list \<Rightarrow> u8 list \<Rightarrow> int" where
  "byte_order (a # as) (b # bs) = (if a > b then 1 else if a < b then -1 else byte_order as bs)"
| "byte_order _ _ = 0"

lemma memcmp_loop_eq:
  "memcmp_loop i lhs rhs count m =
     - byte_order (drop (unat i) (get_bytes lhs (unat count) m)) (drop (unat i) (get_bytes rhs (unat count) m))"
proof (induction i lhs rhs count m rule: memcmp_loop.induct)
  case (1 i lhs rhs count m)
  show ?case
  proof (cases "i < count")
    case True
    then have i: "unat i < unat count" by (simp add: word_less_nat_alt)
    have "drop (unat i) (get_bytes a (unat count) m) = m (a + i) # drop (unat (i + 1)) (get_bytes a (unat count) m)" for a
      using i by (simp add: unat_Suc64 [OF True] Cons_nth_drop_Suc [symmetric])
    then show ?thesis using 1 True
      by (subst memcmp_loop.simps) simp
  next
    case False
    then show ?thesis by (subst memcmp_loop.simps) (simp add: word_less_nat_alt)
  qed
qed

lemma memcmp_eq:
  "memcmp lhs rhs count m = - byte_order (get_bytes lhs (unat count) m) (get_bytes rhs (unat count) m)"
  by (simp add: memcmp_def memcmp_loop_eq)

lemma byte_order_0_iff: "length as = length bs \<Longrightarrow> byte_order as bs = 0 \<longleftrightarrow> as = bs"
  by (induction as bs rule: byte_order.induct) (auto simp: not_less)

end
