(* ===== verification/Frame.thy ===== *)
theory Frame
  imports Machine
begin

text \<open>
  The higher-half direct map (\<open>src/kernel/src/memory/hhdm.c\<close>) and the physical frame
  allocator (\<open>src/kernel/src/memory/frame.c\<close>). The free frames form a linked list
  whose links are stored in the free frames themselves, at their direct-map addresses.
\<close>

subsection \<open>State and operations\<close>

record hhdm_state =
  mem :: memory
  offset :: u64

record frame_state = hhdm_state +
  page_list :: u64

definition hhdm_init :: "u64 \<Rightarrow> 'z hhdm_state_scheme \<Rightarrow> 'z hhdm_state_scheme" where
  "hhdm_init response_offset s = s\<lparr>offset := response_offset\<rparr>"

definition phys_virt :: "'z hhdm_state_scheme \<Rightarrow> u64 \<Rightarrow> u64" where
  "phys_virt s phys = offset s + phys"

definition virt_phys :: "'z hhdm_state_scheme \<Rightarrow> u64 \<Rightarrow> u64" where
  "virt_phys s virt = virt - offset s"

definition frame_alloc :: "'z frame_state_scheme \<Rightarrow> u64 \<times> 'z frame_state_scheme" where
  "frame_alloc s =
     (let page = page_list s in
      if page = 0 then (0, s)
      else let next_ptr = phys_virt s page in (page, s\<lparr>page_list := load64 next_ptr (mem s)\<rparr>))"

definition frame_free :: "u64 \<Rightarrow> 'z frame_state_scheme \<Rightarrow> 'z frame_state_scheme" where
  "frame_free ptr s =
     (let next_ptr = phys_virt s ptr;
          s1 = s\<lparr>mem := store64 next_ptr (page_list s) (mem s)\<rparr>
      in s1\<lparr>page_list := ptr\<rparr>)"

text \<open>
  The boot loader's memory map: the entries' fields the code reads
  (\<open>struct limine_memmap_entry\<close>), and the type value that marks usable memory, a
  constant of the boot protocol's header.
\<close>

record memmap_entry =
  me_base :: u64
  me_length :: u64
  me_type :: u64

partial_function (option) frame_init_region ::
  "u64 \<Rightarrow> u64 \<Rightarrow> 'z frame_state_scheme \<Rightarrow> 'z frame_state_scheme option" where
  "frame_init_region j end_addr s =
     (if j < end_addr then frame_init_region (j + 4096) end_addr (frame_free j s) else Some s)"

fun frame_init :: "u64 \<Rightarrow> memmap_entry list \<Rightarrow> 'z frame_state_scheme \<Rightarrow> 'z frame_state_scheme option" where
  "frame_init usable [] s = Some s"
| "frame_init usable (e # es) s =
     (if me_type e \<noteq> usable then frame_init usable es s
      else case frame_init_region (me_base e) (me_base e + me_length e) s of
             None \<Rightarrow> None
           | Some s' \<Rightarrow> frame_init usable es s')"

subsection \<open>The chain of free frames\<close>

fun chain :: "memory \<Rightarrow> u64 \<Rightarrow> u64 \<Rightarrow> u64 list \<Rightarrow> bool" where
  "chain m off p [] \<longleftrightarrow> p = 0"
| "chain m off p (f # fs) \<longleftrightarrow> p = f \<and> f \<noteq> 0 \<and> page_aligned f \<and> chain m off (load64 (off + f) m) fs"

definition free_frames :: "'z frame_state_scheme \<Rightarrow> u64 list \<Rightarrow> bool" where
  "free_frames s fs \<longleftrightarrow> chain (mem s) (offset s) (page_list s) fs"

lemma chain_unique: "chain m off p fs \<Longrightarrow> chain m off p gs \<Longrightarrow> fs = gs"
proof (induction fs arbitrary: p gs)
  case Nil
  then show ?case by (cases gs) auto
next
  case (Cons f fs)
  then show ?case by (cases gs) auto
qed

lemma chain_append:
  "chain m off p (fs @ gs) \<Longrightarrow> gs \<noteq> [] \<Longrightarrow> chain m off (hd gs) gs"
  by (induction fs arbitrary: p) (auto simp: neq_Nil_conv)

lemma chain_distinct: "chain m off p fs \<Longrightarrow> distinct fs"
proof (induction fs arbitrary: p)
  case Nil
  then show ?case by simp
next
  case (Cons f fs)
  have "f \<notin> set fs"
  proof
    assume "f \<in> set fs"
    then obtain xs ys where fs: "fs = xs @ f # ys" by (meson split_list)
    have "chain m off f (f # ys)"
      using chain_append [of m off p "f # xs" "f # ys"] Cons.prems fs by simp
    moreover have "chain m off f (f # fs)" using Cons.prems by simp
    ultimately have "f # ys = f # fs" by (rule chain_unique)
    then show False using fs by simp
  qed
  with Cons show ?case by auto
qed

lemma chain_nonzero: "chain m off p fs \<Longrightarrow> f \<in> set fs \<Longrightarrow> f \<noteq> 0 \<and> page_aligned f"
  by (induction fs arbitrary: p) auto

lemma chain_cong:
  "(\<And>f. f \<in> set fs \<Longrightarrow> load64 (off + f) m' = load64 (off + f) m) \<Longrightarrow>
    chain m' off p fs = chain m off p fs"
  by (induction fs arbitrary: p) auto

lemma free_frames_distinct: "free_frames s fs \<Longrightarrow> distinct fs"
  unfolding free_frames_def by (rule chain_distinct)

lemma free_frames_wf: "free_frames s fs \<Longrightarrow> f \<in> set fs \<Longrightarrow> f \<noteq> 0 \<and> page_aligned f"
  unfolding free_frames_def by (rule chain_nonzero)

lemma page_sep_8:
  "page_aligned f \<Longrightarrow> page_aligned g \<Longrightarrow> f \<noteq> g \<Longrightarrow> sep (off + f) 8 (off + g) 8"
  using sep_subrange [OF page_aligned_sep, of f g 0 8 0 8] by (simp add: page_simps)

lemma free_frames_cong:
  assumes "\<And>f. f \<in> set fs \<Longrightarrow> load64 (offset s + f) (mem s') = load64 (offset s + f) (mem s)"
    and "offset s' = offset s" and "page_list s' = page_list s"
  shows "free_frames s' fs = free_frames s fs"
  unfolding free_frames_def assms(2,3) by (rule chain_cong) (rule assms(1))

lemma free_frames_write:
  assumes "\<And>f. f \<in> set fs \<Longrightarrow> sep (offset s + f) 8 a (length bs)"
  shows "free_frames (s\<lparr>mem := put_bytes a bs (mem s)\<rparr>) fs = free_frames s fs"
  by (rule free_frames_cong) (simp_all add: load64_put_sep assms)

subsection \<open>The allocator's contract\<close>

text \<open>
  What the paging and virtual-memory code relies on: a pool of distinct frames that
  \<open>alloc\<close> takes from and \<open>free\<close> gives back to, in LIFO order, with 0 for "no frame".
\<close>

primrec alloc_times :: "('s \<Rightarrow> u64 \<times> 's) \<Rightarrow> nat \<Rightarrow> 's \<Rightarrow> u64 list \<times> 's" where
  "alloc_times alloc 0 s = ([], s)"
| "alloc_times alloc (Suc n) s =
     (let (f, s1) = alloc s; (fs, s2) = alloc_times alloc n s1 in (f # fs, s2))"

locale frame_pool =
  fixes alloc :: "'s \<Rightarrow> u64 \<times> 's"
    and free :: "u64 \<Rightarrow> 's \<Rightarrow> 's"
    and pool :: "'s \<Rightarrow> u64 list \<Rightarrow> bool"
  assumes alloc_Cons: "pool s (f # fs) \<Longrightarrow> fst (alloc s) = f \<and> pool (snd (alloc s)) fs"
    and alloc_Nil: "pool s [] \<Longrightarrow> alloc s = (0, s)"
    and free_pool: "pool s fs \<Longrightarrow> f \<noteq> 0 \<Longrightarrow> page_aligned f \<Longrightarrow> f \<notin> set fs \<Longrightarrow> pool (free f s) (f # fs)"
    and pool_distinct: "pool s fs \<Longrightarrow> distinct fs"
    and pool_wf: "pool s fs \<Longrightarrow> f \<in> set fs \<Longrightarrow> f \<noteq> 0 \<and> page_aligned f"
begin

lemma alloc_free:
  assumes "pool s fs" and "f \<noteq> 0" and "page_aligned f" and "f \<notin> set fs"
  shows "fst (alloc (free f s)) = f \<and> pool (snd (alloc (free f s))) fs"
  by (rule alloc_Cons [OF free_pool [OF assms]])

lemma alloc_times_take:
  "pool s fs \<Longrightarrow> n \<le> length fs \<Longrightarrow>
    fst (alloc_times alloc n s) = take n fs \<and> pool (snd (alloc_times alloc n s)) (drop n fs)"
proof (induction n arbitrary: s fs)
  case 0
  then show ?case by simp
next
  case (Suc n)
  then obtain f gs where fs: "fs = f # gs" by (cases fs) auto
  obtain s1 where s1: "alloc s = (f, s1)" "pool s1 gs"
    using alloc_Cons Suc.prems(1) unfolding fs by (metis prod.collapse)
  then show ?case using Suc.IH [OF s1(2)] Suc.prems(2) fs
    by (auto simp: Let_def split: prod.splits)
qed

lemma alloc_times_distinct:
  assumes "pool s fs" and "n \<le> length fs"
  shows "distinct (fst (alloc_times alloc n s))"
    and "set (fst (alloc_times alloc n s)) \<inter> set (drop n fs) = {}"
  using alloc_times_take [OF assms] pool_distinct [OF assms(1)]
  by (auto simp: set_take_disj_set_drop_if_distinct)

lemma free_all:
  "pool s fs \<Longrightarrow> distinct (gs @ fs) \<Longrightarrow> (\<And>g. g \<in> set gs \<Longrightarrow> g \<noteq> 0 \<and> page_aligned g) \<Longrightarrow>
    pool (fold free gs s) (rev gs @ fs)"
proof (induction gs arbitrary: s fs)
  case Nil
  then show ?case by simp
next
  case (Cons g gs)
  have "pool (free g s) (g # fs)"
    using Cons.prems by (intro free_pool) auto
  from Cons.IH [OF this] Cons.prems show ?case by auto
qed

end

lemma frame_alloc_Cons:
  assumes "free_frames s (f # fs)"
  shows "frame_alloc s = (f, s\<lparr>page_list := load64 (offset s + f) (mem s)\<rparr>)"
    and "free_frames (s\<lparr>page_list := load64 (offset s + f) (mem s)\<rparr>) fs"
  using assms by (simp_all add: free_frames_def frame_alloc_def phys_virt_def)

lemma frame_alloc_Nil: "free_frames s [] \<Longrightarrow> frame_alloc s = (0, s)"
  by (simp add: free_frames_def frame_alloc_def)

lemma frame_free_eq:
  "frame_free f s = s\<lparr>mem := store64 (offset s + f) (page_list s) (mem s), page_list := f\<rparr>"
  by (simp add: frame_free_def phys_virt_def)

lemma frame_free_frames:
  assumes "free_frames s fs" and "f \<noteq> 0" and "page_aligned f" and "f \<notin> set fs"
  shows "free_frames (frame_free f s) (f # fs)"
proof -
  have "sep (offset s + g) 8 (offset s + f) 8" if "g \<in> set fs" for g
    using free_frames_wf [OF assms(1) that] assms(3,4) that by (intro page_sep_8) auto
  then have "chain (store64 (offset s + f) (page_list s) (mem s)) (offset s) (page_list s) fs"
    using assms(1) unfolding free_frames_def
    by (subst chain_cong [where m = "mem s"]) (auto simp: load64_store64_sep)
  then show ?thesis using assms(2,3) by (simp add: frame_free_eq free_frames_def)
qed

interpretation fp: frame_pool frame_alloc frame_free free_frames
proof unfold_locales
  show "fst (frame_alloc s) = f \<and> free_frames (snd (frame_alloc s)) fs"
    if "free_frames s (f # fs)" for s :: "'a frame_state_scheme" and f fs
    using frame_alloc_Cons [OF that] by simp
qed (auto simp: frame_alloc_Nil frame_free_frames free_frames_distinct dest: free_frames_wf)

subsection \<open>Building the pool from the memory map\<close>

definition region_pages :: "u64 \<Rightarrow> nat \<Rightarrow> u64 list" where
  "region_pages b n = map (\<lambda>i. b + of_nat (4096 * i)) [0..<n]"

lemma region_pages_Suc: "region_pages b (Suc n) = b # region_pages (b + 4096) n"
  by (simp add: region_pages_def upt_rec [of 0 "Suc n"] map_Suc_upt [symmetric] algebra_simps del: upt_Suc)

lemma frame_init_region_eq:
  "unat j + 4096 * n < 18446744073709551616 \<Longrightarrow>
    frame_init_region j (j + of_nat (4096 * n)) s = Some (fold frame_free (region_pages j n) s)"
proof (induction n arbitrary: j s)
  case 0
  then show ?case by (simp add: frame_init_region.simps region_pages_def)
next
  case (Suc n)
  have e: "j + of_nat (4096 * Suc n) = (j + 4096) + of_nat (4096 * n)" by (simp add: algebra_simps)
  have "unat (j + of_nat (4096 * Suc n)) = unat j + 4096 * Suc n"
    using Suc.prems by (simp add: unat_plus_if' unat_of_nat64 del: of_nat_mult of_nat_Suc)
  then have lt: "j < j + of_nat (4096 * Suc n)" by (simp add: word_less_nat_alt)
  have "unat (j + 4096) = unat j + 4096" using Suc.prems by (simp add: unat_plus_if')
  then have "unat (j + 4096) + 4096 * n < 18446744073709551616" using Suc.prems by simp
  from Suc.IH [OF this] show ?case
    by (subst frame_init_region.simps) (simp only: lt [unfolded e] if_True e region_pages_Suc fold_Cons comp_apply)
qed

definition usable_pages :: "u64 \<Rightarrow> memmap_entry list \<Rightarrow> u64 list" where
  "usable_pages usable es = concat (map (\<lambda>e. region_pages (me_base e) (unat (me_length e) div 4096))
     (filter (\<lambda>e. me_type e = usable) es))"

text \<open>
  What the boot protocol promises of usable entries: page-aligned, disjoint, not at
  address 0, and not reaching the end of the address space.
\<close>

definition memmap_ok :: "u64 \<Rightarrow> memmap_entry list \<Rightarrow> bool" where
  "memmap_ok usable es \<longleftrightarrow>
     list_all (\<lambda>e. me_type e = usable \<longrightarrow> page_aligned (me_base e) \<and> page_aligned (me_length e) \<and>
       me_base e \<noteq> 0 \<and> unat (me_base e) + unat (me_length e) < 18446744073709551616) es \<and>
     distinct (usable_pages usable es)"

lemma unat_page_in_region:
  assumes "unat (b :: u64) + 4096 * n < 18446744073709551616" and "i < n"
  shows "unat (b + of_nat (4096 * i)) = unat b + 4096 * i"
  using assms by (simp add: unat_plus_if' unat_of_nat64 del: of_nat_mult)

lemma region_pages_wf:
  assumes "page_aligned b" and "b \<noteq> 0" and "unat b + 4096 * n < 18446744073709551616"
    and "p \<in> set (region_pages b n)"
  shows "p \<noteq> 0 \<and> page_aligned p"
proof -
  obtain i where i: "i < n" "p = b + of_nat (4096 * i)"
    using assms(4) by (auto simp: region_pages_def)
  have "unat p = unat b + 4096 * i" using unat_page_in_region [OF assms(3) i(1)] i(2) by simp
  moreover have "unat b \<noteq> 0" using assms(2) by (simp add: unat_0_iff)
  ultimately have "unat p \<noteq> 0" "unat p mod 4096 = 0" using assms(1) by (auto simp: page_aligned_unat)
  then show ?thesis by (auto simp: page_aligned_unat)
qed

lemma frame_init_eq:
  "memmap_ok usable es \<Longrightarrow> frame_init usable es s = Some (fold frame_free (usable_pages usable es) s)"
proof (induction es arbitrary: s)
  case Nil
  then show ?case by (simp add: usable_pages_def)
next
  case (Cons e es)
  have "memmap_ok usable es" using Cons.prems by (auto simp: memmap_ok_def usable_pages_def split: if_splits)
  note IH = Cons.IH [OF this]
  show ?case
  proof (cases "me_type e = usable")
    case False
    then show ?thesis using IH by (simp add: usable_pages_def)
  next
    case True
    let ?n = "unat (me_length e) div 4096"
    have len: "unat (me_length e) = 4096 * ?n" and bound: "unat (me_base e) + 4096 * ?n < 18446744073709551616"
      using Cons.prems True by (auto simp: memmap_ok_def page_aligned_unat)
    have "me_length e = of_nat (4096 * ?n)" by (rule unat_eq_of_nat64 [OF len])
    then have "frame_init_region (me_base e) (me_base e + me_length e) s =
        Some (fold frame_free (region_pages (me_base e) ?n) s)"
      using frame_init_region_eq [OF bound] by metis
    then show ?thesis using IH True by (simp add: usable_pages_def)
  qed
qed

lemma usable_pages_wf:
  assumes "memmap_ok usable es" and "p \<in> set (usable_pages usable es)"
  shows "p \<noteq> 0 \<and> page_aligned p"
proof -
  obtain e where e: "e \<in> set es" "me_type e = usable"
    and p: "p \<in> set (region_pages (me_base e) (unat (me_length e) div 4096))"
    using assms(2) by (auto simp: usable_pages_def)
  from p show ?thesis
    using assms(1) e by (intro region_pages_wf) (auto simp: memmap_ok_def list_all_iff page_aligned_unat)
qed

lemma frame_init_pool:
  assumes "memmap_ok usable es" and "page_list s = 0"
  shows "\<exists>s'. frame_init usable es s = Some s' \<and> free_frames s' (rev (usable_pages usable es))"
proof -
  have "free_frames s []" using assms(2) by (simp add: free_frames_def)
  from fp.free_all [OF this, of "usable_pages usable es"]
  have "free_frames (fold frame_free (usable_pages usable es) s) (rev (usable_pages usable es))"
    using assms(1) usable_pages_wf [OF assms(1)] by (simp add: memmap_ok_def)
  then show ?thesis using frame_init_eq [OF assms(1)] by blast
qed

end
