(* ===== verification/Paging.thy ===== *)
theory Paging
  imports Memory Frame
begin

unbundle bit_operations_syntax

text \<open>
  Four-level page tables (\<open>src/kernel/src/memory/paging.c\<close>) and the TLB shoot-down
  (\<open>src/kernel/src/memory/tlb.c\<close>). Tables are frames read and written through the
  direct map. The state adds the kernel's table pointer, the CR3 register, and the
  sequence of addresses \<open>invlpg\<close> was executed on.
\<close>

record paging_state = frame_state +
  kernel_pml4 :: u64
  cr3 :: u64
  invlpg_log :: "u64 list"

definition ENTRY_FLAG_PRESENT :: u64 where "ENTRY_FLAG_PRESENT = push_bit 0 1"
definition ENTRY_FLAG_RW :: u64 where "ENTRY_FLAG_RW = push_bit 1 1"
definition ENTRY_FLAG_USER :: u64 where "ENTRY_FLAG_USER = push_bit 2 1"
definition ENTRY_FLAG_PWT :: u64 where "ENTRY_FLAG_PWT = push_bit 3 1"
definition ENTRY_FLAG_PCD :: u64 where "ENTRY_FLAG_PCD = push_bit 4 1"
definition ENTRY_FLAG_NX :: u64 where "ENTRY_FLAG_NX = push_bit 63 1"
definition ENTRY_4K_ADDRESS_MASK :: u64 where "ENTRY_4K_ADDRESS_MASK = 0x000FFFFFFFFFF000"

definition vaddr_to_index :: "u64 \<Rightarrow> nat \<Rightarrow> u64" where
  "vaddr_to_index vaddr level = drop_bit ((level - 1) * 9 + 12) vaddr AND 0x1FF"

text \<open>The address of \<open>current_table[VADDR_TO_INDEX(vaddr, level)]\<close>.\<close>

definition pte_addr :: "u64 \<Rightarrow> u64 \<Rightarrow> nat \<Rightarrow> u64" where
  "pte_addr table vaddr level = table + 8 * vaddr_to_index vaddr level"

definition present :: "u64 \<Rightarrow> bool" where
  "present entry \<longleftrightarrow> entry AND ENTRY_FLAG_PRESENT \<noteq> 0"

subsection \<open>Operations\<close>

definition ensure_table :: "nat \<Rightarrow> u64 \<Rightarrow> u64 \<Rightarrow> u64 \<Rightarrow> 'z paging_state_scheme \<Rightarrow> 'z paging_state_scheme" where
  "ensure_table level current_table vaddr flags s =
     (let index = pte_addr current_table vaddr level; entry = load64 index (mem s) in
      if \<not> present entry then
        let (phys, s1) = frame_alloc s;
            new_table = offset s1 + phys;
            s2 = s1\<lparr>mem := memset new_table 0 0x1000 (mem s1)\<rparr>;
            intermediate_flags = ENTRY_FLAG_PRESENT OR ENTRY_FLAG_RW
              OR (if flags AND ENTRY_FLAG_USER \<noteq> 0 then ENTRY_FLAG_USER else 0);
            entry' = intermediate_flags OR (phys AND ENTRY_4K_ADDRESS_MASK)
        in s2\<lparr>mem := store64 index entry' (mem s2)\<rparr>
      else s)"

fun map_page_walk :: "nat \<Rightarrow> u64 \<Rightarrow> u64 \<Rightarrow> u64 \<Rightarrow> 'z paging_state_scheme \<Rightarrow> u64 \<times> 'z paging_state_scheme" where
  "map_page_walk level current_table vaddr flags s =
     (if level > 1 then
        let s1 = ensure_table level current_table vaddr flags s;
            entry = load64 (pte_addr current_table vaddr level) (mem s1)
        in map_page_walk (level - 1) (offset s1 + (entry AND ENTRY_4K_ADDRESS_MASK)) vaddr flags s1
      else (current_table, s))"

definition map_page :: "u64 \<Rightarrow> u64 \<Rightarrow> u64 \<Rightarrow> u64 \<Rightarrow> 'z paging_state_scheme \<Rightarrow> 'z paging_state_scheme" where
  "map_page pml4 vaddr paddr flags s =
     (let (current_table, s1) = map_page_walk 4 pml4 vaddr flags s;
          entry = ENTRY_FLAG_PRESENT OR (paddr AND ENTRY_4K_ADDRESS_MASK) OR flags
      in s1\<lparr>mem := store64 (pte_addr current_table vaddr 1) entry (mem s1)\<rparr>)"

text \<open>The walk \<open>unmap_page\<close> and \<open>paging_get_entry\<close> share: \<open>None\<close> is their early return.\<close>

fun present_walk :: "nat \<Rightarrow> u64 \<Rightarrow> u64 \<Rightarrow> 'z paging_state_scheme \<Rightarrow> u64 option" where
  "present_walk level current_table vaddr s =
     (if level > 1 then
        let entry = load64 (pte_addr current_table vaddr level) (mem s) in
        if \<not> present entry then None
        else present_walk (level - 1) (offset s + (entry AND ENTRY_4K_ADDRESS_MASK)) vaddr s
      else Some current_table)"

definition unmap_page :: "u64 \<Rightarrow> u64 \<Rightarrow> 'z paging_state_scheme \<Rightarrow> 'z paging_state_scheme" where
  "unmap_page pml4 vaddr s =
     (case present_walk 4 pml4 vaddr s of
        None \<Rightarrow> s
      | Some current_table \<Rightarrow> s\<lparr>mem := store64 (pte_addr current_table vaddr 1) 0 (mem s)\<rparr>)"

definition paging_get_entry :: "u64 \<Rightarrow> u64 \<Rightarrow> 'z paging_state_scheme \<Rightarrow> u64" where
  "paging_get_entry pml4 vaddr s =
     (case present_walk 4 pml4 vaddr s of
        None \<Rightarrow> 0
      | Some current_table \<Rightarrow> load64 (pte_addr current_table vaddr 1) (mem s))"

partial_function (option) invalidate_loop :: "u64 \<Rightarrow> u64 \<Rightarrow> u64 list \<Rightarrow> u64 list option" where
  "invalidate_loop addr len log =
     (if len > 0 then invalidate_loop (addr + 0x1000) (len - 0x1000) (log @ [addr]) else Some log)"

definition invalidate :: "u64 \<Rightarrow> u64 \<Rightarrow> 'z paging_state_scheme \<Rightarrow> (unit, 'z paging_state_scheme) kres" where
  "invalidate addr len s =
     (case invalidate_loop addr len (invlpg_log s) of
        None \<Rightarrow> Inl Diverges
      | Some log \<Rightarrow> kret () (s\<lparr>invlpg_log := log\<rparr>))"

text \<open>
  \<open>for (size_t i = 0; i < length; i += 0x1000)\<close>: when \<open>i + 0x1000\<close> wraps, \<open>i\<close> starts
  again at 0 below \<open>length\<close> and the loop never ends.
\<close>

function for_pages :: "u64 \<Rightarrow> u64 \<Rightarrow> (u64 \<Rightarrow> 's \<Rightarrow> (unit, 's) kres) \<Rightarrow> 's \<Rightarrow> (unit, 's) kres" where
  "for_pages i len body s =
     (if i < len then
        kbind (body i s) (\<lambda>_ s1.
          if i + 0x1000 < i then Inl Diverges else for_pages (i + 0x1000) len body s1)
      else kret () s)"
  by pat_completeness auto
termination
  by (relation "measure (\<lambda>(i, _, _, _). 18446744073709551616 - unat i)")
    (auto simp: word_less_nat_alt unat_plus_if' split: if_splits)

declare for_pages.simps [simp del] map_page_walk.simps [simp del] present_walk.simps [simp del]

definition paging_map_page ::
  "u64 \<Rightarrow> u64 \<Rightarrow> u64 \<Rightarrow> u64 \<Rightarrow> u64 \<Rightarrow> 'z paging_state_scheme \<Rightarrow> (unit, 'z paging_state_scheme) kres" where
  "paging_map_page pml4 vaddr paddr len flags s =
     kbind (kassert ''vaddr % 0x1000 == 0'' (vaddr mod 0x1000 = 0) s) (\<lambda>_ s.
     kbind (kassert ''paddr % 0x1000 == 0'' (paddr mod 0x1000 = 0) s) (\<lambda>_ s.
     kbind (kassert ''length % 0x1000 == 0'' (len mod 0x1000 = 0) s) (\<lambda>_ s.
     kbind (for_pages 0 len (\<lambda>i s. kret () (map_page pml4 (vaddr + i) (paddr + i) flags s)) s) (\<lambda>_ s.
     invalidate vaddr len s))))"

definition paging_unmap_page ::
  "u64 \<Rightarrow> u64 \<Rightarrow> u64 \<Rightarrow> 'z paging_state_scheme \<Rightarrow> (unit, 'z paging_state_scheme) kres" where
  "paging_unmap_page pml4 vaddr len s =
     kbind (kassert ''vaddr % 0x1000 == 0'' (vaddr mod 0x1000 = 0) s) (\<lambda>_ s.
     kbind (kassert ''length % 0x1000 == 0'' (len mod 0x1000 = 0) s) (\<lambda>_ s.
     kbind (for_pages 0 len (\<lambda>i s. kret () (unmap_page pml4 (vaddr + i) s)) s) (\<lambda>_ s.
     invalidate vaddr len s)))"

definition paging_create_pml4 :: "'z paging_state_scheme \<Rightarrow> u64 \<times> 'z paging_state_scheme" where
  "paging_create_pml4 s =
     (let (phys, s1) = frame_alloc s;
          pml4 = offset s1 + phys;
          s2 = s1\<lparr>mem := memset pml4 0 0x1000 (mem s1)\<rparr>
      in (pml4, fold (\<lambda>i s. s\<lparr>mem := store64 (pml4 + 8 * of_nat i)
                          (load64 (kernel_pml4 s + 8 * of_nat i) (mem s)) (mem s)\<rparr>) [256..<512] s2))"

definition paging_get_current_pml4 :: "'z paging_state_scheme \<Rightarrow> u64" where
  "paging_get_current_pml4 s = offset s + (cr3 s AND ENTRY_4K_ADDRESS_MASK)"

definition paging_init :: "'z paging_state_scheme \<Rightarrow> 'z paging_state_scheme" where
  "paging_init s =
     (let hhdm = 0xFFFF800000000000;
          pml4_phys = cr3 s AND ENTRY_4K_ADDRESS_MASK;
          pml4 = hhdm + pml4_phys;
          s1 = s\<lparr>kernel_pml4 := pml4\<rparr>
      in fold (\<lambda>k s. map_page pml4 (of_nat (k * 0x1000)) (of_nat (k * 0x1000))
                      (ENTRY_FLAG_PRESENT OR ENTRY_FLAG_RW) s) [0..<0x400] s1)"

subsection \<open>Entries and table addresses\<close>

lemma present_bit: "present e \<longleftrightarrow> bit e 0"
  by (simp add: present_def ENTRY_FLAG_PRESENT_def and_one_eq even_iff_mod_2_eq_zero bit_0 odd_iff_mod_2_eq_one)

lemma present_OR_left: "present (ENTRY_FLAG_PRESENT OR x)"
  by (simp add: present_bit bit_or_iff ENTRY_FLAG_PRESENT_def)

lemma not_present_0 [simp]: "\<not> present 0"
  by (simp add: present_bit)

definition phys_ok :: "u64 \<Rightarrow> bool" where
  "phys_ok p \<longleftrightarrow> p AND ENTRY_4K_ADDRESS_MASK = p"

lemma page_aligned_take_bit: "page_aligned p \<longleftrightarrow> take_bit 12 p = 0"
  by (simp add: page_aligned_def take_bit_eq_mod)

lemma page_aligned_masked [simp]: "page_aligned (e AND ENTRY_4K_ADDRESS_MASK)"
  by (simp add: page_aligned_take_bit ENTRY_4K_ADDRESS_MASK_def take_bit_and)

lemma phys_ok_masked [simp]: "phys_ok (e AND ENTRY_4K_ADDRESS_MASK)"
  by (simp add: phys_ok_def and.assoc)

lemma phys_ok_aligned: "phys_ok p \<Longrightarrow> page_aligned p"
  unfolding phys_ok_def using page_aligned_masked [of p] by metis

definition intermediate_entry :: "u64 \<Rightarrow> u64 \<Rightarrow> u64" where
  "intermediate_entry flags phys =
     (ENTRY_FLAG_PRESENT OR ENTRY_FLAG_RW OR (if flags AND ENTRY_FLAG_USER \<noteq> 0 then ENTRY_FLAG_USER else 0))
       OR (phys AND ENTRY_4K_ADDRESS_MASK)"

lemma present_intermediate [simp]: "present (intermediate_entry flags phys)"
  by (simp add: intermediate_entry_def or.assoc present_OR_left)

lemma masked_intermediate:
  "phys_ok phys \<Longrightarrow> intermediate_entry flags phys AND ENTRY_4K_ADDRESS_MASK = phys"
  by (simp add: intermediate_entry_def phys_ok_def bit.conj_disj_distrib2 and.assoc)
    (simp add: ENTRY_FLAG_PRESENT_def ENTRY_FLAG_RW_def ENTRY_FLAG_USER_def ENTRY_4K_ADDRESS_MASK_def)

lemma index_less: "unat (vaddr_to_index v l) < 512"
proof -
  have "vaddr_to_index v l = take_bit 9 (drop_bit ((l - 1) * 9 + 12) v)"
    by (simp add: vaddr_to_index_def take_bit_eq_mask mask_eq_exp_minus_1)
  then show ?thesis using take_bit_nat_less_exp [of 9] by (simp add: unsigned_take_bit_eq)
qed

lemma unat_index_offset: "unat (8 * vaddr_to_index v l) = 8 * unat (vaddr_to_index v l)"
  using index_less [of v l] by (simp add: unat_word_ariths)

lemma pte_in_page: "unat (8 * vaddr_to_index v l) + 8 \<le> 4096"
  using index_less [of v l] by (simp add: unat_index_offset)

lemma pte_sep_same_table:
  assumes "vaddr_to_index v l \<noteq> vaddr_to_index v' l'"
  shows "sep (pte_addr t v l) 8 (pte_addr t v' l') 8"
proof -
  have "unat (vaddr_to_index v l) \<noteq> unat (vaddr_to_index v' l')"
    using assms by (simp add: unat64_inject)
  then show ?thesis using index_less [of v l] index_less [of v' l']
    by (auto simp: pte_addr_def page_simps sep_def unat_sub_if' unat_index_offset)
qed

lemma pte_sep_other_table:
  assumes "page_aligned (t - off)" and "page_aligned (t' - off)" and "t \<noteq> t'"
  shows "sep (pte_addr t v l) 8 (pte_addr t' v' l') 8"
proof -
  have "sep (t - off) 4096 (t' - off) 4096" using assms by (intro page_aligned_sep) auto
  then have "sep t 4096 t' 4096" using sep_add_left [of off "t - off" 4096 "t' - off" 4096] by simp
  then show ?thesis unfolding pte_addr_def using pte_in_page by (intro sep_subrange) auto
qed

lemma pte_sep_page:
  assumes "page_aligned (t - off)" and "page_aligned f" and "t - off \<noteq> f" and "unat i + n \<le> 4096" and "0 < n"
  shows "sep (pte_addr t v l) 8 (off + f + i) n"
proof -
  have "sep (t - off) 4096 f 4096" using assms by (intro page_aligned_sep) auto
  then have "sep t 4096 (off + f) 4096" using sep_add_left [of off "t - off" 4096 f 4096] by simp
  then show ?thesis unfolding pte_addr_def using pte_in_page assms(4,5) by (intro sep_subrange) auto
qed

subsection \<open>The tree of tables\<close>

text \<open>
  \<open>pt_table m off r v d\<close> is the table the walk for \<open>v\<close> reaches after \<open>d\<close> steps from the
  root table \<open>r\<close>: the PML4 at \<open>d = 0\<close>, the table of leaf entries at \<open>d = 3\<close>.
\<close>

abbreviation pt_index :: "u64 \<Rightarrow> nat \<Rightarrow> u64" where
  "pt_index v d \<equiv> vaddr_to_index v (4 - d)"

primrec pt_table :: "memory \<Rightarrow> u64 \<Rightarrow> u64 \<Rightarrow> u64 \<Rightarrow> nat \<Rightarrow> u64 option" where
  "pt_table m off r v 0 = Some r"
| "pt_table m off r v (Suc d) =
     (case pt_table m off r v d of
        None \<Rightarrow> None
      | Some t \<Rightarrow> (let e = load64 (pte_addr t v (4 - d)) m in
                   if present e then Some (off + (e AND ENTRY_4K_ADDRESS_MASK)) else None))"

definition pt_entry :: "memory \<Rightarrow> u64 \<Rightarrow> u64 \<Rightarrow> u64 \<Rightarrow> u64" where
  "pt_entry m off r v =
     (case pt_table m off r v 3 of None \<Rightarrow> 0 | Some t \<Rightarrow> load64 (pte_addr t v 1) m)"

definition same_prefix :: "nat \<Rightarrow> u64 \<Rightarrow> u64 \<Rightarrow> bool" where
  "same_prefix d v v' \<longleftrightarrow> (\<forall>k<d. pt_index v k = pt_index v' k)"

abbreviation same_page :: "u64 \<Rightarrow> u64 \<Rightarrow> bool" where
  "same_page v v' \<equiv> same_prefix 4 v v'"

text \<open>
  The invariant: every table is a frame that is not free, and a table is reached at one
  depth and by one index prefix only, so the tables form a tree.
\<close>

definition pt_tree :: "memory \<Rightarrow> u64 \<Rightarrow> u64 \<Rightarrow> bool" where
  "pt_tree m off r \<longleftrightarrow> (\<forall>v v' d d' t. d \<le> 3 \<longrightarrow> d' \<le> 3 \<longrightarrow>
     pt_table m off r v d = Some t \<longrightarrow> pt_table m off r v' d' = Some t \<longrightarrow> d = d' \<and> same_prefix d v v')"

definition pt_apart :: "memory \<Rightarrow> u64 \<Rightarrow> u64 \<Rightarrow> u64 set \<Rightarrow> bool" where
  "pt_apart m off r P \<longleftrightarrow> (\<forall>v d t. d \<le> 3 \<longrightarrow> pt_table m off r v d = Some t \<longrightarrow> t - off \<notin> P)"

definition pt_inv :: "'z paging_state_scheme \<Rightarrow> u64 \<Rightarrow> u64 list \<Rightarrow> bool" where
  "pt_inv s r fs \<longleftrightarrow> free_frames s fs \<and> list_all phys_ok fs \<and> page_aligned (r - offset s) \<and>
     pt_tree (mem s) (offset s) r \<and> pt_apart (mem s) (offset s) r (set fs)"

lemma present_walk_eq:
  "present_walk 4 r v s = pt_table (mem s) (offset s) r v 3"
  by (simp add: present_walk.simps eval_nat_numeral Let_def split: option.splits)

lemma paging_get_entry_eq: "paging_get_entry r v s = pt_entry (mem s) (offset s) r v"
  by (simp add: paging_get_entry_def pt_entry_def present_walk_eq)

lemma same_prefix_refl [simp]: "same_prefix d v v"
  by (simp add: same_prefix_def)

lemma same_prefix_0 [simp]: "same_prefix 0 v v'"
  by (simp add: same_prefix_def)

lemma same_prefix_Suc: "same_prefix (Suc d) v v' \<longleftrightarrow> same_prefix d v v' \<and> pt_index v d = pt_index v' d"
  by (auto simp: same_prefix_def less_Suc_eq)

lemma same_prefix_sym: "same_prefix d v v' \<longleftrightarrow> same_prefix d v' v"
  by (auto simp: same_prefix_def)

lemma same_prefix_trans: "same_prefix d v v' \<Longrightarrow> same_prefix d v' v'' \<Longrightarrow> same_prefix d v v''"
  by (auto simp: same_prefix_def)

lemma pt_table_prefix: "same_prefix d v v' \<Longrightarrow> pt_table m off r v d = pt_table m off r v' d"
  by (induction d) (auto simp: same_prefix_Suc pte_addr_def split: option.splits)

lemma pt_table_aligned:
  "page_aligned (r - off) \<Longrightarrow> pt_table m off r v d = Some t \<Longrightarrow> page_aligned (t - off)"
  by (cases d) (auto simp: Let_def split: option.splits if_splits)

text \<open>A read of an entry misses a write to another table, to another entry, or to a page that is no table.\<close>

lemma load_pte_other:
  assumes "page_aligned (t - off)" and "page_aligned (t' - off)"
    and "t \<noteq> t' \<or> vaddr_to_index v l \<noteq> vaddr_to_index v' l'"
  shows "load64 (pte_addr t v l) (store64 (pte_addr t' v' l') e m) = load64 (pte_addr t v l) m"
  using assms pte_sep_same_table [of v l v' l' t] pte_sep_other_table [of t off t' v l v' l']
  by (cases "t = t'") (auto intro!: load64_store64_sep)

lemma load_pte_memset:
  assumes "page_aligned (t - off)" and "page_aligned f" and "t - off \<noteq> f"
  shows "load64 (pte_addr t v l) (memset (off + f) c 0x1000 m) = load64 (pte_addr t v l) m"
  using pte_sep_page [OF assms, of 0 4096] by (simp add: memset_eq load64_put_sep)

lemma get_bytes_const:
  assumes "unat i + n \<le> k" and "k < 18446744073709551616"
  shows "get_bytes (a + i) n (put_bytes a (replicate k c) m) = replicate n c"
proof (rule nth_equalityI)
  fix j assume "j < length (get_bytes (a + i) n (put_bytes a (replicate k c) m))"
  then have j: "j < n" by simp
  then have "unat (i + of_nat j) = unat i + j"
    using assms by (simp add: unat_plus_if' unat_of_nat64)
  moreover have "a + i + of_nat j - a = i + of_nat j" by simp
  ultimately have "unat (a + i + of_nat j - a) < k" using assms j by (simp only:)
  then show "get_bytes (a + i) n (put_bytes a (replicate k c) m) ! j = replicate n c ! j"
    using j by (simp add: put_bytes_def)
qed simp

lemma word_of_zeros: "word_of (replicate n 0) = 0"
  by (induction n) auto

lemma load_pte_zeroed: "load64 (pte_addr f v l) (memset f 0 0x1000 m) = 0"
  unfolding load64_def pte_addr_def memset_eq using pte_in_page [of v l]
  by (simp add: get_bytes_const word_of_zeros)

end
