(* ===== verification/Page_Tables.thy ===== *)
theory Page_Tables
  imports Paging
begin

unbundle bit_operations_syntax

text \<open>
  What \<open>map_page\<close> and \<open>unmap_page\<close> do to the translation: the tree of tables stays a
  tree of frames that are not free, the entry of the mapped page is the one written, and
  every other page keeps its entry. \<open>pt_step\<close> is the frame rule the virtual-memory
  layers use: a walk writes only to tables and to frames taken from the free list.
\<close>

subsection \<open>Writing a leaf entry\<close>

lemma pt_treeD:
  "pt_tree m off r \<Longrightarrow> pt_table m off r v d = Some t \<Longrightarrow> pt_table m off r v' d' = Some t \<Longrightarrow>
    d \<le> 3 \<Longrightarrow> d' \<le> 3 \<Longrightarrow> d = d' \<and> same_prefix d v v'"
  unfolding pt_tree_def by blast

lemma pt_apartD:
  "pt_apart m off r P \<Longrightarrow> pt_table m off r v d = Some t \<Longrightarrow> d \<le> 3 \<Longrightarrow> t - off \<notin> P"
  unfolding pt_apart_def by blast

lemma pt_table_leaf_write:
  assumes "pt_tree m off r" and "page_aligned (r - off)" and t0: "pt_table m off r v0 3 = Some t0"
  shows "d \<le> 3 \<Longrightarrow> pt_table (store64 (pte_addr t0 v0 1) e m) off r v d = pt_table m off r v d"
proof (induction d)
  case 0
  then show ?case by simp
next
  case (Suc d)
  show ?case
  proof (cases "pt_table m off r v d")
    case None
    then show ?thesis using Suc by simp
  next
    case (Some t)
    have "t \<noteq> t0" using pt_treeD [OF assms(1) Some] t0 Suc.prems by fastforce
    then have "load64 (pte_addr t v (4 - d)) (store64 (pte_addr t0 v0 1) e m) = load64 (pte_addr t v (4 - d)) m"
      using pt_table_aligned [OF assms(2)] Some t0 by (intro load_pte_other) auto
    then show ?thesis using Suc Some by simp
  qed
qed

lemma same_page_iff:
  "same_page v v' \<longleftrightarrow> same_prefix 3 v v' \<and> vaddr_to_index v 1 = vaddr_to_index v' 1"
  using same_prefix_Suc [of 3 v v'] by simp

lemma pt_entry_leaf_write:
  assumes "pt_tree m off r" and "page_aligned (r - off)" and t0: "pt_table m off r v0 3 = Some t0"
  shows "pt_entry (store64 (pte_addr t0 v0 1) e m) off r v =
    (if same_page v v0 then e else pt_entry m off r v)"
proof (cases "pt_table m off r v 3")
  case None
  then have "\<not> same_page v v0"
    using t0 pt_table_prefix [of 3 v v0 m off r] by (auto simp: same_page_iff)
  with None show ?thesis using pt_table_leaf_write [OF assms] by (simp add: pt_entry_def)
next
  case (Some t)
  show ?thesis
  proof (cases "same_page v v0")
    case True
    then have "same_prefix 3 v v0" "vaddr_to_index v 1 = vaddr_to_index v0 1" by (simp_all add: same_page_iff)
    moreover from this have "t = t0" using pt_table_prefix [of 3 v v0 m off r] Some t0 by simp
    ultimately have "pte_addr t v 1 = pte_addr t0 v0 1" by (simp add: pte_addr_def)
    with Some show ?thesis using pt_table_leaf_write [OF assms, of 3 e v] True
      by (simp add: pt_entry_def)
  next
    case False
    then have "t \<noteq> t0 \<or> vaddr_to_index v 1 \<noteq> vaddr_to_index v0 1"
      using pt_treeD [OF assms(1) Some, of v0 3] t0 by (auto simp: same_page_iff)
    then have "load64 (pte_addr t v 1) (store64 (pte_addr t0 v0 1) e m) = load64 (pte_addr t v 1) m"
      using pt_table_aligned [OF assms(2)] Some t0 by (intro load_pte_other) auto
    with Some False show ?thesis using pt_table_leaf_write [OF assms] by (simp add: pt_entry_def)
  qed
qed

lemma pt_tree_cong:
  "(\<And>v d. d \<le> 3 \<Longrightarrow> pt_table m' off r v d = pt_table m off r v d) \<Longrightarrow> pt_tree m' off r = pt_tree m off r"
  by (simp add: pt_tree_def)

lemma pt_apart_cong:
  "(\<And>v d. d \<le> 3 \<Longrightarrow> pt_table m' off r v d = pt_table m off r v d) \<Longrightarrow> pt_apart m' off r P = pt_apart m off r P"
  by (simp add: pt_apart_def)

lemma free_frames_pte_write:
  assumes "free_frames s fs" and "page_aligned (t - offset s)" and "t - offset s \<notin> set fs"
  shows "free_frames (s\<lparr>mem := store64 (pte_addr t v l) e (mem s)\<rparr>) fs"
proof -
  have "sep (offset s + f) 8 (pte_addr t v l) (length (bytes_of e))" if f: "f \<in> set fs" for f
  proof -
    have "page_aligned f" "t - offset s \<noteq> f" using free_frames_wf [OF assms(1) f] assms(3) f by auto
    then show ?thesis using pte_sep_page [OF assms(2), of f 0 8 v l] by (simp add: sep_commute)
  qed
  then show ?thesis using free_frames_write assms(1) unfolding store64_def by blast
qed

lemma pt_inv_leaf_write:
  assumes "pt_inv s r fs" and t0: "pt_table (mem s) (offset s) r v0 3 = Some t0"
  shows "pt_inv (s\<lparr>mem := store64 (pte_addr t0 v0 1) e (mem s)\<rparr>) r fs"
proof -
  have al: "page_aligned (t0 - offset s)" and nf: "t0 - offset s \<notin> set fs"
    using assms pt_table_aligned pt_apartD unfolding pt_inv_def by (blast, fastforce)
  note eq = pt_table_leaf_write [OF _ _ t0, of _ e]
  show ?thesis
    using assms(1) free_frames_pte_write [OF _ al nf] pt_tree_cong [OF eq] pt_apart_cong [OF eq]
    by (simp add: pt_inv_def)
qed

subsection \<open>The footprint of a page-table operation\<close>

definition footprint :: "'z paging_state_scheme \<Rightarrow> u64 \<Rightarrow> u64 list \<Rightarrow> u64 set" where
  "footprint s r fs =
     {x. (\<exists>v d t. d \<le> 3 \<and> pt_table (mem s) (offset s) r v d = Some t \<and> unat (x - t) < 4096) \<or>
         (\<exists>f\<in>set fs. unat (x - (offset s + f)) < 4096)}"

definition pt_step :: "u64 \<Rightarrow> 'z paging_state_scheme \<Rightarrow> u64 list \<Rightarrow> 'z paging_state_scheme \<Rightarrow> u64 list \<Rightarrow> bool" where
  "pt_step r s fs s' fs' \<longleftrightarrow>
     footprint s' r fs' \<subseteq> footprint s r fs \<and> (\<forall>x. x \<notin> footprint s r fs \<longrightarrow> mem s' x = mem s x) \<and>
     s' = s\<lparr>mem := mem s', page_list := page_list s', invlpg_log := invlpg_log s'\<rparr>"

lemma pt_step_refl: "pt_step r s fs s fs"
  by (simp add: pt_step_def)

lemma pt_step_trans:
  assumes "pt_step r s fs s1 fs1" and "pt_step r s1 fs1 s2 fs2"
  shows "pt_step r s fs s2 fs2"
proof -
  have e1: "s1 = s\<lparr>mem := mem s1, page_list := page_list s1, invlpg_log := invlpg_log s1\<rparr>"
    and e2: "s2 = s1\<lparr>mem := mem s2, page_list := page_list s2, invlpg_log := invlpg_log s2\<rparr>"
    using assms by (simp_all add: pt_step_def)
  have "s2 = s\<lparr>mem := mem s2, page_list := page_list s2, invlpg_log := invlpg_log s2\<rparr>"
    by (subst e2, subst e1) simp
  then show ?thesis using assms unfolding pt_step_def by (metis (no_types, lifting) subset_iff)
qed

lemma pt_step_fields:
  assumes "pt_step r s fs s' fs'"
  shows "offset s' = offset s" and "kernel_pml4 s' = kernel_pml4 s" and "cr3 s' = cr3 s"
    and "paging_state.more s' = paging_state.more s"
proof -
  have "s' = s\<lparr>mem := mem s', page_list := page_list s', invlpg_log := invlpg_log s'\<rparr>" using assms by (simp add: pt_step_def)
  then obtain m p l where "s' = s\<lparr>mem := m, page_list := p, invlpg_log := l\<rparr>" by blast
  then show "offset s' = offset s" "kernel_pml4 s' = kernel_pml4 s" "cr3 s' = cr3 s"
    "paging_state.more s' = paging_state.more s" by simp_all
qed

lemma footprintI_table:
  "d \<le> 3 \<Longrightarrow> pt_table (mem s) (offset s) r v d = Some t \<Longrightarrow> unat (x - t) < 4096 \<Longrightarrow> x \<in> footprint s r fs"
  unfolding footprint_def by blast

lemma pte_outside:
  assumes "unat (x - t) \<ge> 4096"
  shows "store64 (pte_addr t v l) e m x = m x"
proof -
  have "8 \<le> unat (x - pte_addr t v l)"
  proof (rule ccontr)
    assume "\<not> 8 \<le> unat (x - pte_addr t v l)"
    then have "unat ((x - pte_addr t v l) + 8 * vaddr_to_index v l) < 4096"
      using pte_in_page [of v l] by (simp add: unat_plus_if')
    then show False using assms by (simp add: pte_addr_def)
  qed
  then show ?thesis by (simp add: store64_def put_bytes_outside)
qed

lemma pt_step_leaf_write:
  assumes "pt_tree (mem s) (offset s) r" and "page_aligned (r - offset s)"
    and t0: "pt_table (mem s) (offset s) r v0 3 = Some t0"
  shows "pt_step r s fs (s\<lparr>mem := store64 (pte_addr t0 v0 1) e (mem s)\<rparr>) fs"
proof -
  have "mem s x = store64 (pte_addr t0 v0 1) e (mem s) x" if "x \<notin> footprint s r fs" for x
    using footprintI_table [OF order_refl t0, of x fs] that by (subst pte_outside) (auto simp: not_less [symmetric])
  moreover have "footprint (s\<lparr>mem := store64 (pte_addr t0 v0 1) e (mem s)\<rparr>) r fs = footprint s r fs"
    by (simp add: footprint_def pt_table_leaf_write [OF assms] del: One_nat_def cong: conj_cong)
  ultimately show ?thesis by (simp add: pt_step_def)
qed

subsection \<open>Growing the tree by one table\<close>

lemma load_pte_fresh:
  assumes "page_aligned (t - off)" and "page_aligned f" and "t - off \<noteq> f"
  shows "load64 (pte_addr (off + f) v l) (store64 (pte_addr t v' l') e (memset (off + f) 0 0x1000 m)) = 0"
proof -
  have "off + f \<noteq> t" using assms(3) by auto
  then show ?thesis using assms(1,2)
    by (subst load_pte_other [of _ off]) (auto simp: load_pte_zeroed)
qed

lemma pt_table_absent:
  assumes "pt_table m off r v0 d0 = Some t0" and "\<not> present (load64 (pte_addr t0 v0 (4 - d0)) m)"
    and "same_prefix (Suc d0) v v0"
  shows "pt_table m off r v (Suc d0) = None"
  unfolding pt_table_prefix [OF assms(3)] using assms(1,2) by (simp add: Let_def)

lemma pt_table_grow:
  assumes tree: "pt_tree m off r" and al: "page_aligned (r - off)" and ap: "pt_apart m off r {f}"
    and f: "page_aligned f" and t0: "pt_table m off r v0 d0 = Some t0" and d0: "d0 \<le> 2"
    and ne: "\<not> present (load64 (pte_addr t0 v0 (4 - d0)) m)"
    and e: "present e" "e AND ENTRY_4K_ADDRESS_MASK = f"
    and m': "m' = store64 (pte_addr t0 v0 (4 - d0)) e (memset (off + f) 0 0x1000 m)"
  shows "d \<le> 3 \<Longrightarrow> pt_table m' off r v d =
    (if d = Suc d0 \<and> same_prefix (Suc d0) v v0 then Some (off + f) else pt_table m off r v d)"
proof (induction d)
  case 0
  then show ?case by simp
next
  case (Suc d)
  have al0: "page_aligned (t0 - off)" and f0: "t0 - off \<noteq> f"
    using pt_table_aligned [OF al t0] pt_apartD [OF ap t0] d0 by auto
  show ?case
  proof (cases "d = Suc d0 \<and> same_prefix (Suc d0) v v0")
    case True
    with pt_table_absent [OF t0 ne, of v] have "pt_table m off r v d = None"
      by blast
    moreover have "load64 (pte_addr (off + f) v (4 - d)) m' = 0"
      unfolding m' by (rule load_pte_fresh [OF al0 f f0])
    ultimately show ?thesis using Suc True by simp
  next
    case False
    have "d \<le> 3" using Suc.prems by simp
    note IH = Suc.IH [OF this, unfolded if_not_P [OF False]]
    show ?thesis
    proof (cases "pt_table m off r v d")
      case None
      then show ?thesis using IH t0 pt_table_prefix [of d0 v v0 m off r] by (auto simp: same_prefix_Suc)
    next
      case (Some t)
      have alt: "page_aligned (t - off)" and ft: "t - off \<noteq> f"
        using pt_table_aligned [OF al Some] pt_apartD [OF ap Some] Suc.prems by auto
      have hit: "d = d0 \<and> same_prefix d0 v v0" if "t = t0"
        using pt_treeD [OF tree Some, of v0 d0] t0 d0 Suc.prems that by auto
      have hit': "t = t0" if "d = d0" "same_prefix d0 v v0"
        using pt_table_prefix [of d0 v v0 m off r] that Some t0 by auto
      show ?thesis
      proof (cases "Suc d = Suc d0 \<and> same_prefix (Suc d0) v v0")
        case True
        then have "t = t0" "d = d0" "pt_index v d0 = pt_index v0 d0" using hit' by (auto simp: same_prefix_Suc)
        then have "pte_addr t v (4 - d) = pte_addr t0 v0 (4 - d0)" by (simp add: pte_addr_def)
        then show ?thesis using True IH Some e by (simp add: m')
      next
        case False
        then have "t \<noteq> t0 \<or> vaddr_to_index v (4 - d) \<noteq> vaddr_to_index v0 (4 - d0)"
          using hit by (auto simp: same_prefix_Suc)
        then have "load64 (pte_addr t v (4 - d)) m' = load64 (pte_addr t v (4 - d)) m"
          using alt al0 ft f by (simp add: m' load_pte_other load_pte_memset)
        then show ?thesis using IH Some False by auto
      qed
    qed
  qed
qed

lemma pt_entry_grow:
  assumes tree: "pt_tree m off r" and al: "page_aligned (r - off)" and ap: "pt_apart m off r {f}"
    and f: "page_aligned f" and t0: "pt_table m off r v0 d0 = Some t0" and d0: "d0 \<le> 2"
    and ne: "\<not> present (load64 (pte_addr t0 v0 (4 - d0)) m)"
    and e: "present e" "e AND ENTRY_4K_ADDRESS_MASK = f"
    and m': "m' = store64 (pte_addr t0 v0 (4 - d0)) e (memset (off + f) 0 0x1000 m)"
  shows "pt_entry m' off r v = pt_entry m off r v"
proof -
  note grow = pt_table_grow [OF assms, of 3 v]
  have al0: "page_aligned (t0 - off)" and f0: "t0 - off \<noteq> f"
    using pt_table_aligned [OF al t0] pt_apartD [OF ap t0] d0 by auto
  show ?thesis
  proof (cases "3 = Suc d0 \<and> same_prefix (Suc d0) v v0")
    case True
    with pt_table_absent [OF t0 ne, of v] have "pt_table m off r v 3 = None"
      by metis
    moreover have "load64 (pte_addr (off + f) v 1) m' = 0"
      unfolding m' by (rule load_pte_fresh [OF al0 f f0])
    moreover have "pt_table m' off r v 3 = Some (off + f)"
      unfolding grow [OF order_refl] using True by (rule if_P)
    ultimately show ?thesis by (simp only: pt_entry_def option.case)
  next
    case False
    then have same: "pt_table m' off r v 3 = pt_table m off r v 3" using grow by auto
    show ?thesis
    proof (cases "pt_table m off r v 3")
      case None
      then show ?thesis using same by (simp add: pt_entry_def)
    next
      case (Some t)
      have "page_aligned (t - off)" "t - off \<noteq> f" "t \<noteq> t0"
        using pt_table_aligned [OF al Some] pt_apartD [OF ap Some] pt_treeD [OF tree Some, of v0 d0] t0 d0
        by auto
      then have "load64 (pte_addr t v 1) m' = load64 (pte_addr t v 1) m"
        using al0 f by (simp add: m' load_pte_other load_pte_memset)
      then show ?thesis using same Some by (simp add: pt_entry_def)
    qed
  qed
qed

lemma pt_inv_grow:
  fixes s :: "'z paging_state_scheme"
  assumes inv: "pt_inv s r (f # fs)" and t0: "pt_table (mem s) (offset s) r v0 d0 = Some t0" and d0: "d0 \<le> 2"
    and ne: "\<not> present (load64 (pte_addr t0 v0 (4 - d0)) (mem s))"
    and e: "present e" "e AND ENTRY_4K_ADDRESS_MASK = f"
    and s': "s' = s\<lparr>page_list := load64 (offset s + f) (mem s),
      mem := store64 (pte_addr t0 v0 (4 - d0)) e (memset (offset s + f) 0 0x1000 (mem s))\<rparr>"
  shows "pt_inv s' r fs"
    and "paging_get_entry r v s' = paging_get_entry r v s"
    and "pt_table (mem s') (offset s') r v0 (Suc d0) = Some (offset s + f)"
    and "pt_step r s (f # fs) s' fs"
proof -
  have tree: "pt_tree (mem s) (offset s) r" and al: "page_aligned (r - offset s)"
    and ap: "pt_apart (mem s) (offset s) r (set (f # fs))" and fr: "free_frames s (f # fs)"
    and ok: "list_all phys_ok (f # fs)"
    using inv by (simp_all only: pt_inv_def)
  have apf: "pt_apart (mem s) (offset s) r {f}" using ap by (auto simp: pt_apart_def)
  have f: "page_aligned f" using ok by (simp add: phys_ok_aligned)
  note grow = pt_table_grow [OF tree al apf f t0 d0 ne e refl]
  have m': "mem s' = store64 (pte_addr t0 v0 (4 - d0)) e (memset (offset s + f) 0 0x1000 (mem s))"
    and o': "offset s' = offset s" by (simp_all add: s')
  show "paging_get_entry r v s' = paging_get_entry r v s"
    unfolding paging_get_entry_eq m' o' by (rule pt_entry_grow [OF tree al apf f t0 d0 ne e refl])
  show new: "pt_table (mem s') (offset s') r v0 (Suc d0) = Some (offset s + f)"
    unfolding m' o' using grow [of "Suc d0" v0] d0 by simp
  have "free_frames s' fs"
  proof -
    have a0: "page_aligned (t0 - offset s)" and n0: "t0 - offset s \<notin> set fs"
      using pt_table_aligned [OF al t0] pt_apartD [OF ap t0] d0 by auto
    have "free_frames (s\<lparr>page_list := load64 (offset s + f) (mem s),
        mem := memset (offset s + f) 0 0x1000 (mem s)\<rparr>) fs" (is "free_frames ?s1 fs")
    proof (subst free_frames_cong [where s = "s\<lparr>page_list := load64 (offset s + f) (mem s)\<rparr>"])
      fix g assume g: "g \<in> set fs"
      have "f \<noteq> g" "page_aligned g" using free_frames_distinct [OF fr] free_frames_wf [OF fr] g by auto
      then have "sep (offset s + g) 8 (offset s + f) 4096"
        using sep_subrange [OF page_aligned_sep [of g f], of 0 8 0 4096] f by (simp add: page_simps)
      then show "load64 (offset (s\<lparr>page_list := load64 (offset s + f) (mem s)\<rparr>) + g) (mem ?s1) =
          load64 (offset (s\<lparr>page_list := load64 (offset s + f) (mem s)\<rparr>) + g)
            (mem (s\<lparr>page_list := load64 (offset s + f) (mem s)\<rparr>))"
        by (simp add: memset_eq load64_put_sep)
    qed (use frame_alloc_Cons(2) [OF fr] in simp_all)
    from free_frames_pte_write [OF this, of t0 v0 "4 - d0" e] a0 n0 show ?thesis by (simp add: s')
  qed
  moreover have "pt_tree (mem s') (offset s') r"
    unfolding pt_tree_def m' o'
  proof (intro allI impI)
    fix v v' d d' t
    assume d: "d \<le> 3" "d' \<le> 3"
      and t: "pt_table (store64 (pte_addr t0 v0 (4 - d0)) e (memset (offset s + f) 0 0x1000 (mem s))) (offset s) r v d = Some t"
      and t': "pt_table (store64 (pte_addr t0 v0 (4 - d0)) e (memset (offset s + f) 0 0x1000 (mem s))) (offset s) r v' d' = Some t"
    have fresh: "x \<noteq> offset s + f" if "pt_table (mem s) (offset s) r w k = Some x" "k \<le> 3" for w k x
      using pt_apartD [OF apf that] by auto
    show "d = d' \<and> same_prefix d v v'"
      using t t' d fresh pt_treeD [OF tree, of v d t v' d']
      unfolding grow [OF d(1)] grow [OF d(2)]
      by (auto split: if_splits intro: same_prefix_trans simp: same_prefix_sym)
  qed
  moreover have "pt_apart (mem s') (offset s') r (set fs)"
    unfolding pt_apart_def m' o'
  proof (intro allI impI)
    fix v d t
    assume d: "d \<le> 3"
      and t: "pt_table (store64 (pte_addr t0 v0 (4 - d0)) e (memset (offset s + f) 0 0x1000 (mem s))) (offset s) r v d = Some t"
    show "t - offset s \<notin> set fs"
      using t free_frames_distinct [OF fr] pt_apartD [OF ap _ d]
      unfolding grow [OF d] by (auto split: if_splits)
  qed
  ultimately show "pt_inv s' r fs" using al ok by (simp add: pt_inv_def o')
  have "footprint s' r fs \<subseteq> footprint s r (f # fs)"
    unfolding footprint_def m' o' using grow by (fastforce split: if_splits)
  moreover have "mem s' x = mem s x" if x: "x \<notin> footprint s r (f # fs)" for x
  proof -
    have "4096 \<le> unat (x - t0)" using footprintI_table [OF _ t0, of x "f # fs"] d0 x by fastforce
    moreover have "4096 \<le> unat (x - (offset s + f))" using x by (auto simp: footprint_def)
    ultimately show ?thesis by (simp add: m' pte_outside memset_eq put_bytes_outside)
  qed
  ultimately show "pt_step r s (f # fs) s' fs" by (simp add: pt_step_def s')
qed

lemma offset_frame_alloc [simp]: "offset (snd (frame_alloc s)) = offset s"
  by (simp add: frame_alloc_def Let_def)

lemma ensure_table_absent:
  assumes "free_frames s (f # fs)" and "\<not> present (load64 (pte_addr t v l) (mem s))"
  shows "ensure_table l t v flags s = s\<lparr>page_list := load64 (offset s + f) (mem s),
      mem := store64 (pte_addr t v l) (intermediate_entry flags f) (memset (offset s + f) 0 0x1000 (mem s))\<rparr>"
  using assms by (simp add: ensure_table_def Let_def frame_alloc_Cons intermediate_entry_def)

lemma ensure_table_present:
  "present (load64 (pte_addr t v l) (mem s)) \<Longrightarrow> ensure_table l t v flags s = s"
  by (simp add: ensure_table_def Let_def)

text \<open>
  One step of the walk in \<open>map_page\<close>: the next table is reached, at the cost of at most
  one frame, and no translation changes.
\<close>

lemma ensure_table_step:
  assumes inv: "pt_inv s r fs" and t: "pt_table (mem s) (offset s) r v d = Some t" and d: "d \<le> 2"
    and fs: "1 \<le> length fs" and s': "s' = ensure_table (4 - d) t v flags s"
  shows "\<exists>k\<le>1. pt_inv s' r (drop k fs) \<and> pt_step r s fs s' (drop k fs) \<and>
    (\<forall>w. paging_get_entry r w s' = paging_get_entry r w s) \<and>
    pt_table (mem s') (offset s') r v (Suc d) =
      Some (offset s' + (load64 (pte_addr t v (4 - d)) (mem s') AND ENTRY_4K_ADDRESS_MASK))"
proof (cases "present (load64 (pte_addr t v (4 - d)) (mem s))")
  case True
  then have "s' = s" by (simp add: s' ensure_table_present)
  with True inv t show ?thesis by (intro exI [of _ 0]) (simp add: Let_def pt_step_refl)
next
  case False
  obtain f gs where fs: "fs = f # gs" using fs by (cases fs) auto
  have fr: "free_frames s (f # gs)" and ok: "phys_ok f" using inv by (simp_all add: pt_inv_def fs)
  note s'' = s' [unfolded ensure_table_absent [OF fr False]]
  note g = pt_inv_grow [OF inv [unfolded fs] t d False present_intermediate masked_intermediate [OF ok] s'']
  have "load64 (pte_addr t v (4 - d)) (mem s') AND ENTRY_4K_ADDRESS_MASK = f"
    by (simp add: s'' masked_intermediate [OF ok])
  moreover have "offset s' = offset s" by (simp add: s'')
  ultimately show ?thesis using g by (intro exI [of _ 1]) (simp add: fs)
qed

lemma map_page_walk_eq:
  "map_page_walk 4 r v flags s =
    (let s3 = ensure_table 4 r v flags s;
         t3 = offset s3 + (load64 (pte_addr r v 4) (mem s3) AND ENTRY_4K_ADDRESS_MASK);
         s2 = ensure_table 3 t3 v flags s3;
         t2 = offset s2 + (load64 (pte_addr t3 v 3) (mem s2) AND ENTRY_4K_ADDRESS_MASK);
         s1 = ensure_table 2 t2 v flags s2
     in (offset s1 + (load64 (pte_addr t2 v 2) (mem s1) AND ENTRY_4K_ADDRESS_MASK), s1))"
  by (simp add: map_page_walk.simps Let_def)

lemma ensure_table_next:
  assumes "pt_inv s r fs" and "pt_table (mem s) (offset s) r v d = Some t" and l: "l + d = 4" "2 \<le> l"
    and "1 \<le> length fs"
  shows "\<exists>k\<le>1. pt_inv (ensure_table l t v flags s) r (drop k fs) \<and>
    pt_step r s fs (ensure_table l t v flags s) (drop k fs) \<and>
    (\<forall>w. paging_get_entry r w (ensure_table l t v flags s) = paging_get_entry r w s) \<and>
    pt_table (mem (ensure_table l t v flags s)) (offset (ensure_table l t v flags s)) r v (Suc d) =
      Some (offset (ensure_table l t v flags s) +
        (load64 (pte_addr t v l) (mem (ensure_table l t v flags s)) AND ENTRY_4K_ADDRESS_MASK))"
proof -
  have d: "d \<le> 2" and l: "4 - d = l" using l by simp_all
  from ensure_table_step [OF assms(1,2) d assms(5) refl, unfolded l] show ?thesis .
qed

lemma map_page_walk_inv:
  assumes inv: "pt_inv s r fs" and fs: "3 \<le> length fs" and w: "map_page_walk 4 r v flags s = (t, s')"
  shows "\<exists>k\<le>3. pt_inv s' r (drop k fs) \<and> pt_step r s fs s' (drop k fs) \<and>
    (\<forall>w. paging_get_entry r w s' = paging_get_entry r w s) \<and>
    pt_table (mem s') (offset s') r v 3 = Some t"
proof -
  define s3 where "s3 = ensure_table 4 r v flags s"
  define t3 where "t3 = offset s3 + (load64 (pte_addr r v 4) (mem s3) AND ENTRY_4K_ADDRESS_MASK)"
  define s2 where "s2 = ensure_table 3 t3 v flags s3"
  define t2 where "t2 = offset s2 + (load64 (pte_addr t3 v 3) (mem s2) AND ENTRY_4K_ADDRESS_MASK)"
  define s1 where "s1 = ensure_table 2 t2 v flags s2"
  define t1 where "t1 = offset s1 + (load64 (pte_addr t2 v 2) (mem s1) AND ENTRY_4K_ADDRESS_MASK)"
  have "map_page_walk 4 r v flags s = (t1, s1)"
    unfolding map_page_walk_eq Let_def s1_def t1_def s2_def t2_def s3_def t3_def by (rule refl)
  with w have eq: "s' = s1" "t = t1" by simp_all
  obtain a where a: "a \<le> 1" "pt_inv s3 r (drop a fs)" "pt_step r s fs s3 (drop a fs)"
    "\<forall>w. paging_get_entry r w s3 = paging_get_entry r w s"
    "pt_table (mem s3) (offset s3) r v (Suc 0) = Some t3"
    using ensure_table_next [OF inv, of v 0 r 4 flags] fs unfolding t3_def s3_def by auto
  have fa: "2 \<le> length (drop a fs)" using a(1) fs by simp
  obtain b where b: "b \<le> 1" "pt_inv s2 r (drop b (drop a fs))" "pt_step r s3 (drop a fs) s2 (drop b (drop a fs))"
   
    "\<forall>w. paging_get_entry r w s2 = paging_get_entry r w s3"
    "pt_table (mem s2) (offset s2) r v (Suc (Suc 0)) = Some t2"
    using ensure_table_next [OF a(2,5), of 3 flags] fa unfolding t2_def s2_def by auto
  have fb: "1 \<le> length (drop b (drop a fs))" using b(1) fa by simp
  obtain c where c: "c \<le> 1" "pt_inv s1 r (drop c (drop b (drop a fs)))" "pt_step r s2 (drop b (drop a fs)) s1 (drop c (drop b (drop a fs)))"
   
    "\<forall>w. paging_get_entry r w s1 = paging_get_entry r w s2"
    "pt_table (mem s1) (offset s1) r v (Suc (Suc (Suc 0))) = Some t1"
    using ensure_table_next [OF b(2,5) _ _ fb, of 2 flags] unfolding t1_def s1_def by auto
  have "Suc (Suc (Suc 0)) = 3" by simp
  with c(5) have "pt_table (mem s1) (offset s1) r v 3 = Some t1" by metis
  moreover have "pt_inv s1 r (drop (c + (b + a)) fs)" using c(2) by (simp add: add.assoc)
  moreover have "c + (b + a) \<le> 3" using a(1) b(1) c(1) by linarith
  moreover have "pt_step r s fs s1 (drop (c + (b + a)) fs)"
    using pt_step_trans [OF pt_step_trans [OF a(3) b(3)] c(3)] by (simp add: add.assoc)
  moreover have "\<forall>w. paging_get_entry r w s1 = paging_get_entry r w s" using a(4) b(4) c(4) by simp
  ultimately show ?thesis unfolding eq by blast
qed

definition leaf_entry :: "u64 \<Rightarrow> u64 \<Rightarrow> u64" where
  "leaf_entry paddr flags = ENTRY_FLAG_PRESENT OR (paddr AND ENTRY_4K_ADDRESS_MASK) OR flags"

lemma map_page_inv:
  assumes inv: "pt_inv s r fs" and fs: "3 \<le> length fs"
  shows "\<exists>k\<le>3. pt_inv (map_page r v p flags s) r (drop k fs) \<and>
    pt_step r s fs (map_page r v p flags s) (drop k fs) \<and>
    (\<forall>w. paging_get_entry r w (map_page r v p flags s) =
      (if same_page w v then leaf_entry p flags else paging_get_entry r w s))"
proof -
  obtain t s1 where w: "map_page_walk 4 r v flags s = (t, s1)" by (cases "map_page_walk 4 r v flags s")
  from map_page_walk_inv [OF inv fs w] obtain k where k: "k \<le> 3" "pt_inv s1 r (drop k fs)"
    "pt_step r s fs s1 (drop k fs)"
    "\<forall>w. paging_get_entry r w s1 = paging_get_entry r w s"
    "pt_table (mem s1) (offset s1) r v 3 = Some t"
    by blast
  have mp: "map_page r v p flags s = s1\<lparr>mem := store64 (pte_addr t v 1) (leaf_entry p flags) (mem s1)\<rparr>"
    by (simp add: map_page_def w leaf_entry_def)
  have tr: "pt_tree (mem s1) (offset s1) r" "page_aligned (r - offset s1)" using k(2) by (auto simp: pt_inv_def)
  show ?thesis
    unfolding mp using k(1,4) pt_inv_leaf_write [OF k(2,5)] pt_entry_leaf_write [OF tr k(5)]
      pt_step_trans [OF k(3) pt_step_leaf_write [OF tr k(5)]]
    by (intro exI [of _ k]) (simp add: paging_get_entry_eq)
qed

lemma unmap_page_inv:
  assumes inv: "pt_inv s r fs"
  shows "pt_inv (unmap_page r v s) r fs \<and> pt_step r s fs (unmap_page r v s) fs \<and>
    (\<forall>w. paging_get_entry r w (unmap_page r v s) = (if same_page w v then 0 else paging_get_entry r w s))"
proof (cases "pt_table (mem s) (offset s) r v 3")
  case None
  then have "unmap_page r v s = s" by (simp add: unmap_page_def present_walk_eq)
  moreover have "paging_get_entry r w s = 0" if "same_page w v" for w
    using pt_table_prefix [of 3 w v] that None by (simp add: paging_get_entry_eq pt_entry_def same_page_iff)
  ultimately show ?thesis using inv by (simp add: pt_step_refl)
next
  case (Some t)
  then have up: "unmap_page r v s = s\<lparr>mem := store64 (pte_addr t v 1) 0 (mem s)\<rparr>"
    by (simp add: unmap_page_def present_walk_eq)
  have tr: "pt_tree (mem s) (offset s) r" "page_aligned (r - offset s)" using inv by (auto simp: pt_inv_def)
  show ?thesis
    unfolding up using pt_inv_leaf_write [OF inv Some] pt_entry_leaf_write [OF tr Some]
      pt_step_leaf_write [OF tr Some] by (simp add: paging_get_entry_eq)
qed

end
