(* ===== verification/Page_Ranges.thy ===== *)
theory Page_Ranges
  imports Page_Tables
begin

unbundle bit_operations_syntax

text \<open>
  Whole ranges of pages: the loop \<open>for_pages\<close>, the TLB shoot-down, and what
  \<open>paging_map_page\<close>, \<open>paging_unmap_page\<close> and \<open>paging_create_pml4\<close> do to the
  translation of every address.
\<close>

subsection \<open>The page loop\<close>

lemma for_pages_rule:
  assumes "P 0 s"
    and step: "\<And>i s. i < n \<Longrightarrow> P i s \<Longrightarrow> \<exists>s'. body (of_nat (4096 * i)) s = Inr ((), s') \<and> P (Suc i) s'"
    and n: "4096 * n < 18446744073709551616"
  shows "\<exists>s'. for_pages 0 (of_nat (4096 * n)) body s = Inr ((), s') \<and> P n s'"
proof -
  have "k \<le> n \<Longrightarrow> P (n - k) t \<Longrightarrow>
    \<exists>s'. for_pages (of_nat (4096 * (n - k))) (of_nat (4096 * n)) body t = Inr ((), s') \<and> P n s'" for k t
  proof (induction k arbitrary: t)
    case 0
    then show ?case by (subst for_pages.simps) (simp add: kret_def)
  next
    case (Suc k)
    let ?i = "of_nat (4096 * (n - Suc k)) :: u64"
    have i: "unat ?i = 4096 * (n - Suc k)" "unat (of_nat (4096 * n) :: u64) = 4096 * n"
      using n by (simp_all add: unat_of_nat64 del: of_nat_mult)
    have nk: "n - k = Suc (n - Suc k)" using Suc.prems(1) by simp
    have lt: "?i < of_nat (4096 * n)" using i Suc.prems(1) by (simp add: word_less_nat_alt del: of_nat_mult)
    have next_i: "?i + 0x1000 = of_nat (4096 * (n - k))" by (simp add: nk algebra_simps)
    have "unat (of_nat (4096 * (n - k)) :: u64) = 4096 * (n - k)"
      using n by (simp add: unat_of_nat64 del: of_nat_mult)
    then have no_wrap: "\<not> of_nat (4096 * (n - k)) < ?i"
      using i(1) by (simp add: word_less_nat_alt nk del: of_nat_mult of_nat_Suc)
    have "P (n - Suc k) t" "n - Suc k < n" using Suc.prems by simp_all
    from step [OF this(2,1)] obtain t' where t': "body ?i t = Inr ((), t')" "P (n - k) t'"
      by (auto simp: nk)
    from Suc.IH [OF _ t'(2)] Suc.prems(1) show ?case
      by (subst for_pages.simps) (simp only: lt if_True t'(1) kbind_Inr next_i no_wrap if_False Suc_leD simp_thms)
  qed
  from this [of n s] assms(1) show ?thesis by simp
qed

lemma for_pages_kret:
  assumes "4096 * n < 18446744073709551616"
  shows "for_pages 0 (of_nat (4096 * n)) (\<lambda>i s. kret () (f i s)) s =
    Inr ((), fold (\<lambda>i. f (of_nat (4096 * i))) [0..<n] s)"
  using for_pages_rule [where P = "\<lambda>k t. t = fold (\<lambda>i. f (of_nat (4096 * i))) [0..<k] s"
    and body = "\<lambda>i s. kret () (f i s)", OF _ _ assms] by (simp add: kret_def)

lemma aligned_length:
  assumes "page_aligned len"
  obtains n where "len = of_nat (4096 * n)" and "4096 * n < 18446744073709551616" and "unat len = 4096 * n"
proof -
  obtain n where n: "unat len = 4096 * n" using assms by (auto simp: page_aligned_unat elim!: dvdE)
  then show ?thesis using that [of n] unat64_less [of len] unat_eq_of_nat64 [OF n] by simp
qed

subsection \<open>The TLB\<close>

lemma invalidate_loop_eq:
  "4096 * n < 18446744073709551616 \<Longrightarrow>
    invalidate_loop a (of_nat (4096 * n)) log = Some (log @ region_pages a n)"
proof (induction n arbitrary: a log)
  case 0
  then show ?case by (simp add: invalidate_loop.simps region_pages_def)
next
  case (Suc n)
  have e: "of_nat (4096 * Suc n) - 0x1000 = (of_nat (4096 * n) :: u64)" by (simp add: algebra_simps)
  have "unat (of_nat (4096 * Suc n) :: u64) = 4096 * Suc n"
    using Suc.prems by (intro unat_of_nat64) simp
  then have "of_nat (4096 * Suc n) > (0 :: u64)"
    by (simp only: word_less_nat_alt unat_0) simp
  then show ?case using Suc
    by (subst invalidate_loop.simps) (simp only: e if_True region_pages_Suc, simp)
qed

lemma invalidate_loop_aligned:
  assumes "invalidate_loop a len log = Some log'"
  shows "page_aligned len"
proof (rule invalidate_loop.raw_induct [OF _ assms])
  fix loop :: "u64 \<Rightarrow> u64 \<Rightarrow> u64 list \<Rightarrow> u64 list option" and a len log log'
  assume IH: "\<And>a len log log'. loop a len log = Some log' \<Longrightarrow> page_aligned len"
    and step: "(if len > 0 then loop (a + 0x1000) (len - 0x1000) (log @ [a]) else Some log) = Some log'"
  have "page_aligned len" if "page_aligned (len - 0x1000)"
    using page_aligned_add [OF that, of "0x1000"] by (simp add: page_aligned_def)
  moreover have "page_aligned (len - 0x1000)" if "len \<noteq> 0"
    by (rule IH [of "a + 0x1000" "len - 0x1000" "log @ [a]" log']) (use step that in \<open>simp add: word_gt_0\<close>)
  ultimately show "page_aligned len" by (cases "len = 0") auto
qed

lemma invalidate_eq:
  assumes "page_aligned len"
  shows "invalidate a len s = Inr ((), s\<lparr>invlpg_log := invlpg_log s @ region_pages a (unat len div 4096)\<rparr>)"
proof -
  obtain n where n: "len = of_nat (4096 * n)" "4096 * n < 18446744073709551616" "unat len = 4096 * n"
    using assms by (rule aligned_length)
  show ?thesis unfolding invalidate_def n(3) by (simp only: n(1) invalidate_loop_eq [OF n(2)]) (simp add: kret_def)
qed

lemma invalidate_diverges: "\<not> page_aligned len \<Longrightarrow> invalidate a len s = Inl Diverges"
  using invalidate_loop_aligned [of a len "invlpg_log s"]
  by (cases "invalidate_loop a len (invlpg_log s)") (auto simp: invalidate_def)

subsection \<open>Pages of a range\<close>

lemma bit_pt_index:
  "k < 4 \<Longrightarrow> bit (pt_index x k) j \<longleftrightarrow> j < 9 \<and> bit x (12 + 9 * (3 - k) + j)"
proof -
  assume k: "k < 4"
  have "pt_index x k = take_bit 9 (drop_bit (12 + 9 * (3 - k)) x)"
    using k by (simp add: vaddr_to_index_def take_bit_eq_mask mask_eq_exp_minus_1 algebra_simps)
  then show ?thesis by (auto simp: bit_take_bit_iff bit_drop_bit_eq)
qed

lemma same_page_bits: "same_page v w \<longleftrightarrow> (\<forall>i. 12 \<le> i \<and> i < 48 \<longrightarrow> bit v i = bit w i)"
proof
  assume sp: "same_page v w"
  show "\<forall>i. 12 \<le> i \<and> i < 48 \<longrightarrow> bit v i = bit w i"
  proof (intro allI impI)
    fix i :: nat assume i: "12 \<le> i \<and> i < 48"
    let ?k = "3 - (i - 12) div 9"
    have k: "?k < 4" "3 - ?k = (i - 12) div 9" using i by auto
    have e: "12 + 9 * ((i - 12) div 9) + (i - 12) mod 9 = i" using i by presburger
    have "bit (pt_index v ?k) ((i - 12) mod 9) = bit (pt_index w ?k) ((i - 12) mod 9)"
      using sp k(1) by (simp add: same_prefix_def)
    then show "bit v i = bit w i" unfolding bit_pt_index [OF k(1)] k(2) e by simp
  qed
next
  assume b: "\<forall>i. 12 \<le> i \<and> i < 48 \<longrightarrow> bit v i = bit w i"
  show "same_page v w"
    unfolding same_prefix_def
  proof (intro allI impI)
    fix k :: nat assume k: "k < 4"
    show "pt_index v k = pt_index w k"
    proof (rule bit_word_eqI)
      fix j
      show "bit (pt_index v k) j = bit (pt_index w k) j"
        using b [rule_format, of "12 + 9 * (3 - k) + j"] k by (auto simp: bit_pt_index)
    qed
  qed
qed

lemma same_page_aligned:
  assumes "page_aligned v" and "page_aligned w"
  shows "same_page v w \<longleftrightarrow> take_bit 48 v = take_bit 48 w"
proof -
  have low: "\<not> bit x i" if "i < 12" "page_aligned x" for x :: u64 and i
    using that unfolding page_aligned_take_bit by (metis bit_take_bit_iff bit_0_eq bot_apply bot_bool_def)
  show ?thesis unfolding same_page_bits
  proof
    assume "\<forall>i. 12 \<le> i \<and> i < 48 \<longrightarrow> bit v i = bit w i"
    then show "take_bit 48 v = take_bit 48 w"
      using low [OF _ assms(1)] low [OF _ assms(2)]
      by (intro bit_word_eqI) (metis bit_take_bit_iff not_le)
  next
    assume "take_bit 48 v = take_bit 48 w"
    then have "bit (take_bit 48 v) i = bit (take_bit 48 w) i" for i by simp
    then show "\<forall>i. 12 \<le> i \<and> i < 48 \<longrightarrow> bit v i = bit w i"
      by (simp add: bit_take_bit_iff) blast
  qed
qed

lemma unat_range_mod:
  assumes "i < 2 ^ 36"
  shows "unat (v + of_nat (4096 * i) :: u64) mod 2 ^ 48 = (unat v + 4096 * i) mod 2 ^ 48"
proof -
  have i: "unat (of_nat (4096 * i) :: u64) = 4096 * i" using assms by (intro unat_of_nat64) simp
  have "(2 :: nat) ^ 48 dvd 2 ^ LENGTH(64)" by (rule le_imp_power_dvd) simp
  then show ?thesis unfolding unat_word_ariths i by (rule mod_mod_cancel)
qed

lemma range_pages_differ:
  assumes "page_aligned v" and "i < j" and "j < 2 ^ 36"
  shows "\<not> same_page (v + of_nat (4096 * i)) (v + of_nat (4096 * j))"
proof
  have al: "page_aligned (v + of_nat (4096 * k))" if "k < 2 ^ 36" for k
    using that assms(1) by (intro page_aligned_add) (simp_all add: page_aligned_unat unat_of_nat64 del: of_nat_mult)
  assume "same_page (v + of_nat (4096 * i)) (v + of_nat (4096 * j))"
  then have "take_bit 48 (v + of_nat (4096 * i)) = take_bit 48 (v + of_nat (4096 * j))"
    using same_page_aligned [OF al al] assms(2,3) by simp
  then have "take_bit 48 (unat (v + of_nat (4096 * i))) = take_bit 48 (unat (v + of_nat (4096 * j)))"
    unfolding unsigned_take_bit_eq [symmetric] by (rule arg_cong)
  then have "(unat v + 4096 * j) mod 2 ^ 48 = (unat v + 4096 * i) mod 2 ^ 48"
    unfolding take_bit_eq_mod unat_range_mod [OF less_trans [OF assms(2,3)]] unat_range_mod [OF assms(3)]
    by (rule sym)
  then have "2 ^ 48 dvd 4096 * j - 4096 * i"
    using assms(2) by (subst (asm) mod_eq_dvd_iff_nat) simp_all
  then have "2 ^ 48 \<le> 4096 * j - 4096 * i" using assms(2) by (intro dvd_imp_le) simp_all
  then show False using assms(2,3) by auto
qed

subsection \<open>Mapping and unmapping a range\<close>

lemma pt_inv_invlpg_log [simp]: "pt_inv (s\<lparr>invlpg_log := l\<rparr>) r fs = pt_inv s r fs"
  by (simp add: pt_inv_def free_frames_def)

lemma paging_get_entry_invlpg_log [simp]:
  "paging_get_entry r v (s\<lparr>invlpg_log := l\<rparr>) = paging_get_entry r v s"
  by (simp add: paging_get_entry_eq)

lemma footprint_invlpg_log [simp]: "footprint (s\<lparr>invlpg_log := l\<rparr>) r fs = footprint s r fs"
  by (simp add: footprint_def)

lemma pt_step_invlpg_log: "pt_step r s fs s' fs' \<Longrightarrow> pt_step r s fs (s'\<lparr>invlpg_log := l\<rparr>) fs'"
proof -
  assume a: "pt_step r s fs s' fs'"
  then have "s' = s\<lparr>mem := mem s', page_list := page_list s', invlpg_log := invlpg_log s'\<rparr>"
    by (simp only: pt_step_def)
  then obtain m q l' where "s' = s\<lparr>mem := m, page_list := q, invlpg_log := l'\<rparr>" by blast
  then have "s'\<lparr>invlpg_log := l\<rparr> = s\<lparr>mem := mem s', page_list := page_list s', invlpg_log := l\<rparr>"
    by simp
  with a show ?thesis unfolding pt_step_def footprint_invlpg_log by auto
qed

lemma invlpg_log_ensure_table [simp]: "invlpg_log (ensure_table l t v flags s) = invlpg_log s"
  by (simp add: ensure_table_def frame_alloc_def Let_def)

lemma invlpg_log_map_page [simp]: "invlpg_log (map_page r v p flags s) = invlpg_log s"
  by (simp add: map_page_def map_page_walk_eq Let_def)

lemma invlpg_log_unmap_page [simp]: "invlpg_log (unmap_page r v s) = invlpg_log s"
  by (simp add: unmap_page_def split: option.splits)

definition in_range :: "u64 \<Rightarrow> u64 \<Rightarrow> nat \<Rightarrow> bool" where
  "in_range w v n \<longleftrightarrow> (\<exists>i<n. same_page w (v + of_nat (4096 * i)))"

lemma in_range_0 [simp]: "\<not> in_range w v 0"
  by (simp add: in_range_def)

lemma in_range_Suc: "in_range w v (Suc n) \<longleftrightarrow> in_range w v n \<or> same_page w (v + of_nat (4096 * n))"
  unfolding in_range_def using less_Suc_eq by auto

lemma same_page_refl [simp]: "same_prefix d v v"
  by (simp add: same_prefix_def)

text \<open>The translation after mapping \<open>n\<close> pages.\<close>

definition range_mapped :: "u64 \<Rightarrow> u64 \<Rightarrow> u64 \<Rightarrow> u64 \<Rightarrow> nat \<Rightarrow> 'z paging_state_scheme \<Rightarrow> 'z paging_state_scheme \<Rightarrow> bool" where
  "range_mapped r v p flags n s s' \<longleftrightarrow>
     (\<forall>i<n. paging_get_entry r (v + of_nat (4096 * i)) s' = leaf_entry (p + of_nat (4096 * i)) flags) \<and>
     (\<forall>w. \<not> in_range w v n \<longrightarrow> paging_get_entry r w s' = paging_get_entry r w s)"

lemma range_mapped_Suc:
  assumes "range_mapped r v p flags n s t" and "page_aligned v" and "n < 2 ^ 36"
    and "\<And>w. paging_get_entry r w t' = (if same_page w (v + of_nat (4096 * n))
      then leaf_entry (p + of_nat (4096 * n)) flags else paging_get_entry r w t)"
  shows "range_mapped r v p flags (Suc n) s t'"
  unfolding range_mapped_def
proof (intro conjI allI impI)
  fix i assume i: "i < Suc n"
  show "paging_get_entry r (v + of_nat (4096 * i)) t' = leaf_entry (p + of_nat (4096 * i)) flags"
  proof (cases "i = n")
    case True
    then show ?thesis unfolding assms(4) by simp
  next
    case False
    then have "\<not> same_page (v + of_nat (4096 * i)) (v + of_nat (4096 * n))"
      using i by (intro range_pages_differ assms(2,3)) simp
    then show ?thesis unfolding assms(4) using False i assms(1) by (simp add: range_mapped_def)
  qed
qed (use assms in \<open>auto simp: range_mapped_def in_range_Suc\<close>)

lemma map_range_inv:
  assumes inv: "pt_inv s r fs" and fs: "3 * n \<le> length fs" and al: "page_aligned v" and n: "n < 2 ^ 36"
  shows "\<exists>k\<le>3 * n. \<exists>s'. fold (\<lambda>i. map_page r (v + of_nat (4096 * i)) (p + of_nat (4096 * i)) flags) [0..<n] s = s' \<and>
    pt_inv s' r (drop k fs) \<and> pt_step r s fs s' (drop k fs) \<and> range_mapped r v p flags n s s' \<and>
    invlpg_log s' = invlpg_log s"
  using fs n
proof (induction n)
  case 0
  then show ?case using inv by (intro exI [of _ 0]) (simp add: pt_step_refl range_mapped_def)
next
  case (Suc n)
  then obtain k t where k: "k \<le> 3 * n"
    "fold (\<lambda>i. map_page r (v + of_nat (4096 * i)) (p + of_nat (4096 * i)) flags) [0..<n] s = t"
    "pt_inv t r (drop k fs)" "pt_step r s fs t (drop k fs)" "range_mapped r v p flags n s t"
    "invlpg_log t = invlpg_log s" by auto
  have "3 \<le> length (drop k fs)" using k(1) Suc.prems(1) by simp
  from map_page_inv [OF k(3) this, of "v + of_nat (4096 * n)" "p + of_nat (4096 * n)" flags]
  obtain j where j: "j \<le> 3"
    and j': "pt_inv (map_page r (v + of_nat (4096 * n)) (p + of_nat (4096 * n)) flags t) r (drop j (drop k fs))"
    "pt_step r t (drop k fs) (map_page r (v + of_nat (4096 * n)) (p + of_nat (4096 * n)) flags t) (drop j (drop k fs))"
    "\<And>w. paging_get_entry r w (map_page r (v + of_nat (4096 * n)) (p + of_nat (4096 * n)) flags t) =
      (if same_page w (v + of_nat (4096 * n)) then leaf_entry (p + of_nat (4096 * n)) flags
       else paging_get_entry r w t)" by blast
  show ?case
    using j j'(1) pt_step_trans [OF k(4) j'(2)] range_mapped_Suc [OF k(5) al _ j'(3)] k(1,2,6) Suc.prems(2)
    by (intro exI [of _ "j + k"]) (simp del: of_nat_mult)
qed

lemma paging_map_page_inv:
  assumes inv: "pt_inv s r fs" and fs: "3 * n \<le> length fs" and al: "page_aligned v" "page_aligned p" and n: "n < 2 ^ 36"
  shows "\<exists>k\<le>3 * n. \<exists>s'. paging_map_page r v p (of_nat (4096 * n)) flags s = Inr ((), s') \<and>
    pt_inv s' r (drop k fs) \<and> pt_step r s fs s' (drop k fs) \<and> range_mapped r v p flags n s s' \<and>
    invlpg_log s' = invlpg_log s @ region_pages v n"
proof -
  from map_range_inv [OF inv fs al(1) n, of p flags] obtain k t where k: "k \<le> 3 * n"
    "fold (\<lambda>i. map_page r (v + of_nat (4096 * i)) (p + of_nat (4096 * i)) flags) [0..<n] s = t"
    "pt_inv t r (drop k fs)" "pt_step r s fs t (drop k fs)" "range_mapped r v p flags n s t"
    "invlpg_log t = invlpg_log s" by blast
  have n64: "4096 * n < 18446744073709551616" using n by simp
  have u: "unat (of_nat (4096 * n) :: u64) = 4096 * n" using n64 by (intro unat_of_nat64) simp
  then have "page_aligned (of_nat (4096 * n))" by (simp only: page_aligned_unat) simp
  moreover from this have "paging_map_page r v p (of_nat (4096 * n)) flags s =
      Inr ((), t\<lparr>invlpg_log := invlpg_log s @ region_pages v n\<rparr>)"
    using al unfolding paging_map_page_def page_aligned_def [symmetric]
    by (simp only: kassert_True kbind_kret for_pages_kret [OF n64] k(2) kbind_Inr invalidate_eq u k(6)) simp
  ultimately show ?thesis using k(1,3,5) pt_step_invlpg_log [OF k(4)]
    by (intro exI [of _ k] conjI exI [of _ "t\<lparr>invlpg_log := invlpg_log s @ region_pages v n\<rparr>"])
      (simp_all add: range_mapped_def)
qed

lemma unmap_range_inv:
  assumes inv: "pt_inv s r fs"
  shows "\<exists>s'. fold (\<lambda>i. unmap_page r (v + of_nat (4096 * i))) [0..<n] s = s' \<and>
    pt_inv s' r fs \<and> pt_step r s fs s' fs \<and> invlpg_log s' = invlpg_log s \<and>
    (\<forall>w. paging_get_entry r w s' = (if in_range w v n then 0 else paging_get_entry r w s))"
proof (induction n)
  case 0
  then show ?case using inv by (simp add: pt_step_refl)
next
  case (Suc n)
  then obtain t where t: "fold (\<lambda>i. unmap_page r (v + of_nat (4096 * i))) [0..<n] s = t"
    "pt_inv t r fs" "pt_step r s fs t fs" "invlpg_log t = invlpg_log s"
    "\<forall>w. paging_get_entry r w t = (if in_range w v n then 0 else paging_get_entry r w s)" by blast
  note u = unmap_page_inv [OF t(2), of "v + of_nat (4096 * n)"]
  show ?case using u pt_step_trans [OF t(3) conjunct1 [OF conjunct2 [OF u]]] t(1,4,5)
    by (simp add: in_range_Suc del: of_nat_mult)
qed

lemma paging_unmap_page_inv:
  assumes inv: "pt_inv s r fs" and al: "page_aligned v" and n: "4096 * n < 18446744073709551616"
  shows "\<exists>s'. paging_unmap_page r v (of_nat (4096 * n)) s = Inr ((), s') \<and>
    pt_inv s' r fs \<and> pt_step r s fs s' fs \<and> invlpg_log s' = invlpg_log s @ region_pages v n \<and>
    (\<forall>w. paging_get_entry r w s' = (if in_range w v n then 0 else paging_get_entry r w s))"
proof -
  from unmap_range_inv [OF inv, of v n] obtain t where
    t: "fold (\<lambda>i. unmap_page r (v + of_nat (4096 * i))) [0..<n] s = t"
    "pt_inv t r fs" "pt_step r s fs t fs" "invlpg_log t = invlpg_log s"
    "\<forall>w. paging_get_entry r w t = (if in_range w v n then 0 else paging_get_entry r w s)" by blast
  have u: "unat (of_nat (4096 * n) :: u64) = 4096 * n" using n by (intro unat_of_nat64) simp
  then have "page_aligned (of_nat (4096 * n))" by (simp only: page_aligned_unat) simp
  then have "paging_unmap_page r v (of_nat (4096 * n)) s =
      Inr ((), t\<lparr>invlpg_log := invlpg_log s @ region_pages v n\<rparr>)"
    using al unfolding paging_unmap_page_def page_aligned_def [symmetric]
    by (simp only: kassert_True kbind_kret for_pages_kret [OF n] t(1) kbind_Inr invalidate_eq u t(4)) simp
  then show ?thesis using t(2,5) pt_step_invlpg_log [OF t(3)]
    by (intro exI [of _ "t\<lparr>invlpg_log := invlpg_log s @ region_pages v n\<rparr>"]) simp
qed

end
