(* ===== verification/Address_Spaces.thy ===== *)
theory Address_Spaces
  imports Page_Ranges
begin

unbundle bit_operations_syntax

text \<open>
  \<open>paging_create_pml4\<close>: the new root is empty below and shares the kernel's tables above;
  and the frame rule for page tables: a write outside their footprint changes no
  translation, so that a frame taken from the pool may be used for anything.
\<close>

subsection \<open>A new address space\<close>

lemma unat_slot: "i < 512 \<Longrightarrow> unat (8 * of_nat i :: u64) = 8 * i"
  by (simp add: unat_word_ariths unat_of_nat64)

lemma slot_sep: "i < 512 \<Longrightarrow> j < 512 \<Longrightarrow> i \<noteq> j \<Longrightarrow> sep (t + 8 * of_nat i) 8 (t + 8 * of_nat j) 8"
  by (auto simp: page_simps sep_def unat_sub_if' unat_slot)

lemma slot_sep_page: "i < 512 \<Longrightarrow> j < 512 \<Longrightarrow> sep t 4096 u 4096 \<Longrightarrow> sep (t + 8 * of_nat i) 8 (u + 8 * of_nat j) 8"
  by (rule sep_subrange) (simp_all add: unat_slot, linarith+)

definition copy_upper :: "u64 \<Rightarrow> u64 \<Rightarrow> nat list \<Rightarrow> memory \<Rightarrow> memory" where
  "copy_upper t u js m = fold (\<lambda>i m. store64 (t + 8 * of_nat i) (load64 (u + 8 * of_nat i) m) m) js m"

lemma copy_upper_outside:
  assumes "set js \<subseteq> {..<512}" and "4096 \<le> unat (x - t)"
  shows "copy_upper t u js m x = m x"
  using assms(1)
proof (induction js arbitrary: m)
  case Nil
  then show ?case by (simp add: copy_upper_def)
next
  case (Cons i js)
  have i: "i < 512" using Cons.prems by simp
  have "8 \<le> unat (x - (t + 8 * of_nat i))"
  proof (rule ccontr)
    assume "\<not> 8 \<le> unat (x - (t + 8 * of_nat i))"
    moreover have "unat (8 * of_nat i :: u64) = 8 * i" by (rule unat_slot [OF i])
    ultimately have "unat ((x - (t + 8 * of_nat i)) + 8 * of_nat i) < 4096"
      using i by (simp only: unat_plus_if') simp
    then show False using assms(2) by simp
  qed
  then show ?case using Cons by (simp add: copy_upper_def store64_def put_bytes_outside)
qed

lemma copy_upper_slot:
  assumes "set js \<subseteq> {..<512}" and "sep t 4096 u 4096" and "distinct js" and "j < 512"
  shows "load64 (t + 8 * of_nat j) (copy_upper t u js m) =
    (if j \<in> set js then load64 (u + 8 * of_nat j) m else load64 (t + 8 * of_nat j) m)"
  using assms(1,3)
proof (induction js arbitrary: m)
  case Nil
  then show ?case by (simp add: copy_upper_def)
next
  case (Cons i js)
  let ?m = "store64 (t + 8 * of_nat i) (load64 (u + 8 * of_nat i) m) m"
  have i: "i < 512" "i \<notin> set js" using Cons.prems by auto
  have "load64 (u + 8 * of_nat j) ?m = load64 (u + 8 * of_nat j) m"
    using slot_sep_page [OF i(1) assms(4,2)] by (intro load64_store64_sep) (simp add: sep_commute)
  moreover have "load64 (t + 8 * of_nat j) ?m = load64 (t + 8 * of_nat j) m" if "i \<noteq> j"
    using slot_sep [OF assms(4) i(1)] that by (intro load64_store64_sep) simp
  ultimately show ?case using Cons i(2) by (auto simp: copy_upper_def)
qed

lemma paging_create_pml4_eq:
  assumes "free_frames s (f # fs)"
  shows "paging_create_pml4 s = (offset s + f,
    s\<lparr>page_list := load64 (offset s + f) (mem s),
      mem := copy_upper (offset s + f) (kernel_pml4 s) [256..<512] (memset (offset s + f) 0 0x1000 (mem s))\<rparr>)"
proof -
  have fold_eq: "fold (\<lambda>i s. s\<lparr>mem := store64 (t + 8 * of_nat i) (load64 (kernel_pml4 s + 8 * of_nat i) (mem s)) (mem s)\<rparr>) xs s =
    s\<lparr>mem := copy_upper t (kernel_pml4 s) xs (mem s)\<rparr>" for t xs and s :: "'z paging_state_scheme"
    by (induction xs arbitrary: s) (simp_all add: copy_upper_def)
  then show ?thesis
    unfolding paging_create_pml4_def Let_def frame_alloc_Cons [OF assms] by (simp only: split_conv fold_eq) (simp del: upt_rec_numeral)
qed

subsection \<open>Writes outside the footprint\<close>

lemma load_pte_cong:
  assumes "\<And>x. unat (x - t) < 4096 \<Longrightarrow> m' x = m x"
  shows "load64 (pte_addr t v l) m' = load64 (pte_addr t v l) m"
proof (rule load64_cong)
  fix i :: nat assume i: "i < 8"
  then have "unat (of_nat i :: u64) = i" by (intro unat_of_nat64) simp
  then have "unat (8 * vaddr_to_index v l + of_nat i) < 4096"
    using i pte_in_page [of v l] by (simp add: unat_plus_if')
  then show "m' (pte_addr t v l + of_nat i) = m (pte_addr t v l + of_nat i)"
    by (intro assms) (simp add: pte_addr_def)
qed

lemma pt_table_cong:
  assumes "\<And>v d t x. d \<le> 3 \<Longrightarrow> pt_table m off r v d = Some t \<Longrightarrow> unat (x - t) < 4096 \<Longrightarrow> m' x = m x"
  shows "d \<le> 3 \<Longrightarrow> pt_table m' off r v d = pt_table m off r v d"
    and "pt_entry m' off r v = pt_entry m off r v"
proof -
  show tab: "pt_table m' off r v d = pt_table m off r v d" if "d \<le> 3" for d
    using that
  proof (induction d)
    case 0
    then show ?case by simp
  next
    case (Suc d)
    show ?case
    proof (cases "pt_table m off r v d")
      case None
      then show ?thesis using Suc by simp
    next
      case (Some t)
      have "load64 (pte_addr t v (4 - d)) m' = load64 (pte_addr t v (4 - d)) m"
        using Suc.prems by (intro load_pte_cong assms [OF _ Some]) auto
      with Some Suc show ?thesis by simp
    qed
  qed
  show "pt_entry m' off r v = pt_entry m off r v"
  proof (cases "pt_table m off r v 3")
    case None
    then show ?thesis using tab [OF order_refl] by (simp add: pt_entry_def)
  next
    case (Some t)
    have "load64 (pte_addr t v 1) m' = load64 (pte_addr t v 1) m"
      by (rule load_pte_cong) (rule assms [OF order_refl Some])
    then show ?thesis using Some tab [OF order_refl] by (simp add: pt_entry_def)
  qed
qed

lemma footprintI_free: "f \<in> set fs \<Longrightarrow> unat (x - (offset s + f)) < 4096 \<Longrightarrow> x \<in> footprint s r fs"
  unfolding footprint_def by blast

lemma pt_inv_frame_rule:
  assumes inv: "pt_inv s r fs" and agree: "\<And>x. x \<in> footprint s r fs \<Longrightarrow> mem s' x = mem s x"
    and same: "offset s' = offset s" "page_list s' = page_list s"
  shows "pt_inv s' r fs" and "footprint s' r fs = footprint s r fs"
    and "paging_get_entry r v s' = paging_get_entry r v s"
proof -
  have tables: "mem s' x = mem s x"
    if "d \<le> 3" "pt_table (mem s) (offset s) r v d = Some t" "unat (x - t) < 4096" for v d t x
    using that by (intro agree footprintI_table)
  have eq: "pt_table (mem s') (offset s') r v d = pt_table (mem s) (offset s) r v d" if "d \<le> 3" for v d
    unfolding same using tables that by (intro pt_table_cong) auto
  show "paging_get_entry r v s' = paging_get_entry r v s"
    unfolding paging_get_entry_eq same using tables by (intro pt_table_cong) auto
  show "footprint s' r fs = footprint s r fs"
    using eq by (auto simp: footprint_def same)
  have "free_frames s' fs = free_frames s fs"
  proof (rule free_frames_cong [OF _ same])
    fix f assume f: "f \<in> set fs"
    show "load64 (offset s + f) (mem s') = load64 (offset s + f) (mem s)"
    proof (rule load64_cong)
      fix i :: nat assume "i < 8"
      then have "unat (offset s + f + of_nat i - (offset s + f)) < 4096" by (simp add: unat_of_nat64)
      then show "mem s' (offset s + f + of_nat i) = mem s (offset s + f + of_nat i)"
        using f by (intro agree footprintI_free)
    qed
  qed
  then show "pt_inv s' r fs"
    using inv pt_tree_cong [of "mem s'" "offset s" r "mem s"] pt_apart_cong [of "mem s'" "offset s" r "mem s"] eq
    by (simp add: pt_inv_def same)
qed

lemma outside_page_footprint:
  assumes inv: "pt_inv s r fs" and f: "page_aligned f" "f \<notin> set fs"
    and ap: "pt_apart (mem s) (offset s) r {f}" and x: "x \<in> footprint s r fs"
  shows "4096 \<le> unat (x - (offset s + f))"
proof -
  have page: "4096 \<le> unat (x - (offset s + f))"
    if "page_aligned p" "p \<noteq> f" "unat (x - (offset s + p)) < 4096" for p
  proof -
    have "sep (offset s + p) 4096 (offset s + f) 4096"
      using page_aligned_sep [OF that(1) f(1) that(2)] by (simp add: page_simps)
    from sep_offset [OF this that(3)] show ?thesis by simp
  qed
  from x consider v d t where "d \<le> 3" "pt_table (mem s) (offset s) r v d = Some t" "unat (x - t) < 4096"
    | g where "g \<in> set fs" "unat (x - (offset s + g)) < 4096"
    by (auto simp: footprint_def)
  then show ?thesis
  proof cases
    case 1
    have "page_aligned (t - offset s)" "t - offset s \<noteq> f"
      using 1 inv ap pt_table_aligned pt_apartD by (fastforce simp: pt_inv_def)+
    then show ?thesis using 1(3) by (intro page) auto
  next
    case 2
    have "page_aligned g" "g \<noteq> f" using 2 inv f free_frames_wf by (auto simp: pt_inv_def)
    then show ?thesis using 2 by (intro page) auto
  qed
qed

lemma pt_inv_pop:
  assumes inv: "pt_inv s r (f # fs)"
  shows "frame_alloc s = (f, s\<lparr>page_list := load64 (offset s + f) (mem s)\<rparr>)"
    and "pt_inv (s\<lparr>page_list := load64 (offset s + f) (mem s)\<rparr>) r fs"
    and "pt_step r s (f # fs) (s\<lparr>page_list := load64 (offset s + f) (mem s)\<rparr>) fs"
    and "pt_apart (mem s) (offset s) r {f}" and "f \<notin> set fs" and "page_aligned f" and "f \<noteq> 0" and "phys_ok f"
proof -
  have fr: "free_frames s (f # fs)" using inv by (simp add: pt_inv_def)
  show "frame_alloc s = (f, s\<lparr>page_list := load64 (offset s + f) (mem s)\<rparr>)"
    by (rule frame_alloc_Cons [OF fr])
  show "pt_inv (s\<lparr>page_list := load64 (offset s + f) (mem s)\<rparr>) r fs"
    using inv frame_alloc_Cons(2) [OF fr] by (auto simp: pt_inv_def pt_apart_def)
  show "pt_step r s (f # fs) (s\<lparr>page_list := load64 (offset s + f) (mem s)\<rparr>) fs"
    by (auto simp: pt_step_def footprint_def)
  show "pt_apart (mem s) (offset s) r {f}" using inv by (auto simp: pt_inv_def pt_apart_def)
  show "f \<notin> set fs" "page_aligned f" "f \<noteq> 0" "phys_ok f"
    using free_frames_distinct [OF fr] free_frames_wf [OF fr, of f] inv by (auto simp: pt_inv_def)
qed

text \<open>A frame taken from the pool may be written freely: the translation does not see it.\<close>

lemma pt_inv_page_write:
  assumes inv: "pt_inv s r fs" and f: "page_aligned f" "f \<notin> set fs" "pt_apart (mem s) (offset s) r {f}"
    and m': "\<And>x. 4096 \<le> unat (x - (offset s + f)) \<Longrightarrow> m' x = mem s x"
  shows "pt_inv (s\<lparr>mem := m'\<rparr>) r fs" and "footprint (s\<lparr>mem := m'\<rparr>) r fs = footprint s r fs"
    and "paging_get_entry r v (s\<lparr>mem := m'\<rparr>) = paging_get_entry r v s"
    and "pt_apart m' (offset s) r {f}"
proof -
  have agree: "mem (s\<lparr>mem := m'\<rparr>) x = mem s x" if "x \<in> footprint s r fs" for x
    using m' [OF outside_page_footprint [OF inv f that]] by simp
  show "pt_inv (s\<lparr>mem := m'\<rparr>) r fs" "footprint (s\<lparr>mem := m'\<rparr>) r fs = footprint s r fs"
    "paging_get_entry r v (s\<lparr>mem := m'\<rparr>) = paging_get_entry r v s"
    by (rule pt_inv_frame_rule [OF inv agree], simp_all)+
  have "pt_table m' (offset s) r v d = pt_table (mem s) (offset s) r v d" if "d \<le> 3" for v d
  proof (rule pt_table_cong(1) [OF _ that])
    fix v d t x
    assume "d \<le> 3" "pt_table (mem s) (offset s) r v d = Some t" "unat (x - t) < 4096"
    then show "m' x = mem s x" using agree footprintI_table [of d s r v t x fs] by simp
  qed
  then show "pt_apart m' (offset s) r {f}" using f(3) pt_apart_cong by metis
qed

lemma pt_table_share:
  assumes upper: "\<And>v. 256 \<le> unat (pt_index v 0) \<Longrightarrow> load64 (pte_addr t v 4) m = load64 (pte_addr k v 4) m"
    and lower: "\<And>v. unat (pt_index v 0) < 256 \<Longrightarrow> load64 (pte_addr t v 4) m = 0"
  shows "pt_table m off t v (Suc d) = (if 256 \<le> unat (pt_index v 0) then pt_table m off k v (Suc d) else None)"
proof (induction d)
  case 0
  then show ?case using upper [of v] lower [of v] by (simp add: Let_def)
next
  case (Suc d)
  show ?case by (subst pt_table.simps(2), subst Suc) (simp split: option.splits)
qed

lemma pte_addr_slot: "pte_addr t v l = t + 8 * of_nat (unat (vaddr_to_index v l))"
  by (simp add: pte_addr_def)

lemma pt_inv_share:
  assumes inv: "pt_inv s k fs"
    and share: "\<And>v d. pt_table (mem s) (offset s) t v (Suc d) =
      (if 256 \<le> unat (pt_index v 0) then pt_table (mem s) (offset s) k v (Suc d) else None)"
    and t: "page_aligned (t - offset s)" "pt_apart (mem s) (offset s) k {t - offset s}" "t - offset s \<notin> set fs"
  shows "pt_inv s t fs"
proof -
  have tree: "pt_tree (mem s) (offset s) k" and ap: "pt_apart (mem s) (offset s) k (set fs)"
    using inv by (simp_all add: pt_inv_def)
  have sub: "pt_table (mem s) (offset s) k v d = Some u \<and> u \<noteq> t \<or> d = 0 \<and> u = t"
    if "d \<le> 3" "pt_table (mem s) (offset s) t v d = Some u" for v d u
    using that share [of v "d - 1"] pt_apartD [OF t(2), of v d u]
    by (cases d) (auto simp del: pt_table.simps(2) split: if_splits)
  have "pt_tree (mem s) (offset s) t"
    unfolding pt_tree_def
  proof (intro allI impI)
    fix v v' d d' u
    assume "d \<le> 3" "d' \<le> 3" "pt_table (mem s) (offset s) t v d = Some u"
      "pt_table (mem s) (offset s) t v' d' = Some u"
    then show "d = d' \<and> same_prefix d v v'"
      using sub [of d v u] sub [of d' v' u] pt_treeD [OF tree, of v d u v' d']
      by (auto simp: same_prefix_def)
  qed
  moreover have "pt_apart (mem s) (offset s) t (set fs)"
    unfolding pt_apart_def using sub pt_apartD [OF ap] t(3) by metis
  ultimately show ?thesis using inv t(1) by (simp add: pt_inv_def)
qed

lemma footprint_share:
  assumes share: "\<And>v d. pt_table (mem s) (offset s) t v (Suc d) =
      (if 256 \<le> unat (pt_index v 0) then pt_table (mem s) (offset s) k v (Suc d) else None)"
    and x: "x \<in> footprint s t fs"
  shows "x \<in> footprint s k fs \<or> unat (x - t) < 4096"
proof -
  from x consider v d u where "d \<le> 3" "pt_table (mem s) (offset s) t v d = Some u" "unat (x - u) < 4096"
    | g where "g \<in> set fs" "unat (x - (offset s + g)) < 4096"
    by (auto simp: footprint_def)
  then show ?thesis
  proof cases
    case 1
    show ?thesis
    proof (cases d)
      case 0
      then show ?thesis using 1 by simp
    next
      case (Suc e)
      then have "pt_table (mem s) (offset s) k v d = Some u"
        using 1(2) share [of v e] by (simp del: pt_table.simps(2) split: if_splits)
      then show ?thesis using footprintI_table [OF 1(1) _ 1(3)] by blast
    qed
  next
    case 2
    then show ?thesis using footprintI_free by blast
  qed
qed

lemma paging_create_pml4_inv:
  fixes s :: "'z paging_state_scheme"
  assumes inv: "pt_inv s (kernel_pml4 s) (f # fs)"
  defines "t \<equiv> offset s + f"
  shows "\<exists>s'. paging_create_pml4 s = (t, s') \<and> pt_inv s' t fs \<and> pt_inv s' (kernel_pml4 s) fs \<and>
    (\<forall>v. paging_get_entry t v s' =
      (if 256 \<le> unat (vaddr_to_index v 4) then paging_get_entry (kernel_pml4 s) v s else 0)) \<and>
    (\<forall>v. paging_get_entry (kernel_pml4 s) v s' = paging_get_entry (kernel_pml4 s) v s) \<and>
    (\<forall>x. 4096 \<le> unat (x - t) \<longrightarrow> mem s' x = mem s x) \<and>
    footprint s' t fs \<union> footprint s' (kernel_pml4 s) fs \<subseteq> footprint s (kernel_pml4 s) (f # fs) \<and>
    offset s' = offset s \<and> kernel_pml4 s' = kernel_pml4 s"
proof -
  let ?k = "kernel_pml4 s"
  note pop = pt_inv_pop [OF inv]
  define s0 where "s0 = s\<lparr>page_list := load64 (offset s + f) (mem s)\<rparr>"
  define m' where "m' = copy_upper t ?k [256..<512] (memset t 0 0x1000 (mem s))"
  have inv0: "pt_inv s0 ?k fs" unfolding s0_def by (rule pop(2))
  have ap0: "pt_apart (mem s0) (offset s0) ?k {f}" using pop(4) by (simp add: s0_def)
  have eq: "paging_create_pml4 s = (t, s0\<lparr>mem := m'\<rparr>)"
    using inv paging_create_pml4_eq [of s f fs] by (simp add: pt_inv_def s0_def t_def m'_def)
  have out: "m' x = mem s x" if "4096 \<le> unat (x - t)" for x
    using that unfolding m'_def by (subst copy_upper_outside) (auto simp: memset_eq put_bytes_outside)
  then have out0: "m' x = mem s0 x" if "4096 \<le> unat (x - (offset s0 + f))" for x
    using that by (simp add: s0_def t_def)
  note pw = pt_inv_page_write [OF inv0 pop(6,5) ap0 out0]
  have tk: "f \<noteq> ?k - offset s" using pt_apartD [OF pop(4), of undefined 0 ?k] by auto
  have alk: "page_aligned (?k - offset s)" using inv by (simp add: pt_inv_def)
  have sp: "sep t 4096 ?k 4096"
    using page_aligned_sep [OF pop(6) alk tk] sep_add_left [of "offset s" f 4096 "?k - offset s" 4096]
    by (simp add: t_def)
  have kpage: "4096 \<le> unat (x - t)" if "unat (x - ?k) < 4096" for x
    using sep_offset [OF sp [unfolded sep_commute [of t]] that] by simp
  have slot: "load64 (pte_addr t v 4) m' =
      (if 256 \<le> unat (pt_index v 0) then load64 (pte_addr ?k v 4) m' else 0)" for v
  proof -
    let ?j = "unat (vaddr_to_index v 4)"
    have j: "?j < 512" by (rule index_less)
    have "load64 (pte_addr ?k v 4) (memset t 0 0x1000 (mem s)) = load64 (pte_addr ?k v 4) m'"
      using kpage out by (intro load_pte_cong) (simp add: memset_eq put_bytes_outside)
    moreover have "load64 (pte_addr t v 4) (memset t 0 0x1000 (mem s)) = 0" by (rule load_pte_zeroed)
    moreover have "load64 (t + 8 * of_nat ?j) m' =
        (if ?j \<in> set [256..<512] then load64 (?k + 8 * of_nat ?j) (memset t 0 0x1000 (mem s))
         else load64 (t + 8 * of_nat ?j) (memset t 0 0x1000 (mem s)))"
      unfolding m'_def by (rule copy_upper_slot [OF _ sp _ j]) auto
    ultimately show ?thesis using j by (simp add: pte_addr_slot del: upt_rec_numeral)
  qed
  have upper: "load64 (pte_addr t v 4) m' = load64 (pte_addr ?k v 4) m'" if "256 \<le> unat (pt_index v 0)" for v
    using slot [of v] that by simp
  have lower: "load64 (pte_addr t v 4) m' = 0" if "unat (pt_index v 0) < 256" for v
    using slot [of v] that by simp
  have share: "pt_table m' off t v (Suc d) = (if 256 \<le> unat (pt_index v 0) then pt_table m' off ?k v (Suc d) else None)"
    for off v d by (rule pt_table_share) (simp_all add: upper lower)
  have inv1: "pt_inv (s0\<lparr>mem := m'\<rparr>) ?k fs" by (rule pw(1))
  have "pt_inv (s0\<lparr>mem := m'\<rparr>) t fs"
    by (rule pt_inv_share [OF inv1]) (use share pw(4) pop(5,6) in \<open>simp_all add: s0_def t_def del: pt_table.simps(2)\<close>)
  moreover have "paging_get_entry t v (s0\<lparr>mem := m'\<rparr>) =
      (if 256 \<le> unat (vaddr_to_index v 4) then paging_get_entry ?k v s else 0)" for v
    using share [of "offset s" v 2] pw(3) [of v]
    by (simp add: paging_get_entry_eq pt_entry_def numeral_3_eq_3 numeral_2_eq_2 s0_def del: pt_table.simps(2))
  moreover have "paging_get_entry ?k v (s0\<lparr>mem := m'\<rparr>) = paging_get_entry ?k v s" for v
    using pw(3) [of v] by (simp add: s0_def paging_get_entry_eq)
  moreover have fk: "footprint (s0\<lparr>mem := m'\<rparr>) ?k fs \<subseteq> footprint s ?k (f # fs)"
    using pw(2) pop(3) by (simp add: s0_def pt_step_def)
  moreover have "footprint (s0\<lparr>mem := m'\<rparr>) t fs \<subseteq> footprint s ?k (f # fs)"
  proof
    fix x assume x: "x \<in> footprint (s0\<lparr>mem := m'\<rparr>) t fs"
    have "x \<in> footprint (s0\<lparr>mem := m'\<rparr>) ?k fs \<or> unat (x - t) < 4096"
      by (rule footprint_share [OF _ x]) (use share in \<open>simp add: s0_def del: pt_table.simps(2)\<close>)
    then show "x \<in> footprint s ?k (f # fs)" using fk footprintI_free [of f "f # fs" x s ?k] by (auto simp: t_def)
  qed
  ultimately show ?thesis using eq inv1 out by (intro exI [of _ "s0\<lparr>mem := m'\<rparr>"]) (simp add: s0_def)
qed

end
