(* ===== verification/Vm.thy ===== *)
theory Vm
  imports Address_Spaces
begin

unbundle bit_operations_syntax

text \<open>
  Address spaces (\<open>src/kernel/src/memory/vm.c\<close>). A \<open>struct vm_space\<close> and each
  \<open>struct vm_region\<close> occupy one frame each and are read and written through the direct
  map: \<open>pml4\<close>, \<open>heap_base\<close>, \<open>heap_end\<close>, \<open>next_free\<close>, \<open>regions\<close> at the offsets 0, 8, 16,
  24, 32 of a space, and \<open>base\<close>, \<open>size\<close>, \<open>next\<close> at 0, 8, 16 of a region.
\<close>

subsection \<open>Structures in memory\<close>

definition get64 :: "u64 \<Rightarrow> 'z hhdm_state_scheme \<Rightarrow> u64" where
  "get64 a s = load64 a (mem s)"

definition put64 :: "u64 \<Rightarrow> u64 \<Rightarrow> 'z hhdm_state_scheme \<Rightarrow> 'z hhdm_state_scheme" where
  "put64 a v s = s\<lparr>mem := store64 a v (mem s)\<rparr>"

abbreviation (input) space_pml4 :: "u64 \<Rightarrow> u64" where "space_pml4 space \<equiv> space"
abbreviation (input) space_heap_base :: "u64 \<Rightarrow> u64" where "space_heap_base space \<equiv> space + 8"
abbreviation (input) space_heap_end :: "u64 \<Rightarrow> u64" where "space_heap_end space \<equiv> space + 16"
abbreviation (input) space_next_free :: "u64 \<Rightarrow> u64" where "space_next_free space \<equiv> space + 24"
abbreviation (input) space_regions :: "u64 \<Rightarrow> u64" where "space_regions space \<equiv> space + 32"
abbreviation (input) region_base :: "u64 \<Rightarrow> u64" where "region_base r \<equiv> r"
abbreviation (input) region_size :: "u64 \<Rightarrow> u64" where "region_size r \<equiv> r + 8"
abbreviation (input) region_next :: "u64 \<Rightarrow> u64" where "region_next r \<equiv> r + 16"

definition page_round :: "u64 \<Rightarrow> u64" where
  "page_round sz = (sz + 0xFFF) AND NOT 0xFFF"

subsection \<open>Operations\<close>

definition vm_space_create :: "u64 \<Rightarrow> u64 \<Rightarrow> 'z paging_state_scheme \<Rightarrow> u64 \<times> 'z paging_state_scheme" where
  "vm_space_create heap_base heap_size s =
     (let (phys, s1) = frame_alloc s;
          space = offset s1 + phys;
          (pml4, s2) = paging_create_pml4 s1;
          s3 = put64 (space_pml4 space) pml4 s2;
          s4 = put64 (space_heap_base space) heap_base s3;
          s5 = put64 (space_heap_end space) (heap_base + heap_size) s4;
          s6 = put64 (space_next_free space) heap_base s5;
          s7 = put64 (space_regions space) 0 s6
      in (space, s7))"

definition region_alloc :: "u64 \<Rightarrow> u64 \<Rightarrow> 'z frame_state_scheme \<Rightarrow> u64 \<times> 'z frame_state_scheme" where
  "region_alloc base sz s =
     (let (phys, s1) = frame_alloc s;
          r = offset s1 + phys;
          s2 = put64 (region_base r) base s1;
          s3 = put64 (region_size r) sz s2;
          s4 = put64 (region_next r) 0 s3
      in (r, s4))"

definition region_insert :: "u64 \<Rightarrow> u64 \<Rightarrow> 'z hhdm_state_scheme \<Rightarrow> 'z hhdm_state_scheme" where
  "region_insert space r s =
     (let s1 = put64 (region_next r) (get64 (space_regions space) s) s
      in put64 (space_regions space) r s1)"

text \<open>\<open>cur\<close> is the address of the link, as in the C code; a cyclic list never ends.\<close>

partial_function (option) region_remove_loop ::
  "u64 \<Rightarrow> u64 \<Rightarrow> 'z hhdm_state_scheme \<Rightarrow> (u64 \<times> 'z hhdm_state_scheme) option" where
  "region_remove_loop cur base s =
     (if get64 cur s \<noteq> 0 then
        if get64 (region_base (get64 cur s)) s = base then
          let found = get64 cur s in Some (found, put64 cur (get64 (region_next found) s) s)
        else region_remove_loop (region_next (get64 cur s)) base s
      else Some (0, s))"

definition region_remove :: "u64 \<Rightarrow> u64 \<Rightarrow> 'z hhdm_state_scheme \<Rightarrow> (u64, 'z hhdm_state_scheme) kres" where
  "region_remove space base s =
     (case region_remove_loop (space_regions space) base s of
        None \<Rightarrow> Inl Diverges
      | Some (r, s1) \<Rightarrow> kret r s1)"

text \<open>The loop of \<open>vm_alloc\<close> and \<open>vm_alloc_at\<close> that backs each page with a frame.\<close>

definition vm_back_pages :: "u64 \<Rightarrow> u64 \<Rightarrow> u64 \<Rightarrow> u64 \<Rightarrow> 'z paging_state_scheme \<Rightarrow> (unit, 'z paging_state_scheme) kres" where
  "vm_back_pages space vaddr sz flags s =
     for_pages 0 sz (\<lambda>i s.
       let (phys, s1) = frame_alloc s
       in paging_map_page (get64 (space_pml4 space) s1) (vaddr + i) phys 0x1000 flags s1) s"

definition vm_alloc :: "u64 \<Rightarrow> u64 \<Rightarrow> u64 \<Rightarrow> 'z paging_state_scheme \<Rightarrow> (u64, 'z paging_state_scheme) kres" where
  "vm_alloc space sz flags s =
     kbind (kassert ''space != NULL'' (space \<noteq> 0) s) (\<lambda>_ s.
     kbind (kassert ''size > 0'' (sz > 0) s) (\<lambda>_ s.
     let sz = page_round sz in
     kbind (kassert ''space->next_free + size <= space->heap_end''
       (get64 (space_next_free space) s + sz \<le> get64 (space_heap_end space) s) s) (\<lambda>_ s.
     let vaddr = get64 (space_next_free space) s in
     kbind (vm_back_pages space vaddr sz flags s) (\<lambda>_ s.
     let (r, s) = region_alloc vaddr sz s;
         s = region_insert space r s;
         s = put64 (space_next_free space) (get64 (space_next_free space) s + sz) s
     in kret vaddr s))))"

definition vm_alloc_at :: "u64 \<Rightarrow> u64 \<Rightarrow> u64 \<Rightarrow> u64 \<Rightarrow> 'z paging_state_scheme \<Rightarrow> (u64, 'z paging_state_scheme) kres" where
  "vm_alloc_at space vaddr sz flags s =
     kbind (kassert ''space != NULL'' (space \<noteq> 0) s) (\<lambda>_ s.
     kbind (kassert ''vaddr % 0x1000 == 0'' (vaddr mod 0x1000 = 0) s) (\<lambda>_ s.
     kbind (kassert ''size > 0'' (sz > 0) s) (\<lambda>_ s.
     let sz = page_round sz in
     kbind (vm_back_pages space vaddr sz flags s) (\<lambda>_ s.
     let (r, s) = region_alloc vaddr sz s;
         s = region_insert space r s
     in kret vaddr s))))"

definition vm_map :: "u64 \<Rightarrow> u64 \<Rightarrow> u64 \<Rightarrow> u64 \<Rightarrow> 'z paging_state_scheme \<Rightarrow> (u64, 'z paging_state_scheme) kres" where
  "vm_map space paddr sz flags s =
     kbind (kassert ''space != NULL'' (space \<noteq> 0) s) (\<lambda>_ s.
     kbind (kassert ''paddr % 0x1000 == 0'' (paddr mod 0x1000 = 0) s) (\<lambda>_ s.
     kbind (kassert ''size > 0'' (sz > 0) s) (\<lambda>_ s.
     let sz = page_round sz in
     kbind (kassert ''space->next_free + size <= space->heap_end''
       (get64 (space_next_free space) s + sz \<le> get64 (space_heap_end space) s) s) (\<lambda>_ s.
     let vaddr = get64 (space_next_free space) s in
     kbind (paging_map_page (get64 (space_pml4 space) s) vaddr paddr sz flags s) (\<lambda>_ s.
     let (r, s) = region_alloc vaddr sz s;
         s = region_insert space r s;
         s = put64 (space_next_free space) (get64 (space_next_free space) s + sz) s
     in kret vaddr s)))))"

definition vm_map_at ::
  "u64 \<Rightarrow> u64 \<Rightarrow> u64 \<Rightarrow> u64 \<Rightarrow> u64 \<Rightarrow> 'z paging_state_scheme \<Rightarrow> (u64, 'z paging_state_scheme) kres" where
  "vm_map_at space vaddr paddr sz flags s =
     kbind (kassert ''space != NULL'' (space \<noteq> 0) s) (\<lambda>_ s.
     kbind (kassert ''vaddr % 0x1000 == 0'' (vaddr mod 0x1000 = 0) s) (\<lambda>_ s.
     kbind (kassert ''paddr % 0x1000 == 0'' (paddr mod 0x1000 = 0) s) (\<lambda>_ s.
     kbind (kassert ''size > 0'' (sz > 0) s) (\<lambda>_ s.
     let sz = page_round sz in
     kbind (paging_map_page (get64 (space_pml4 space) s) vaddr paddr sz flags s) (\<lambda>_ s.
     let (r, s) = region_alloc vaddr sz s;
         s = region_insert space r s
     in kret vaddr s)))))"

definition vm_map_region :: "u64 \<Rightarrow> u64 \<Rightarrow> u64 \<Rightarrow> 'z paging_state_scheme \<Rightarrow> (u64, 'z paging_state_scheme) kres" where
  "vm_map_region space region flags s =
     kbind (kassert ''space != NULL'' (space \<noteq> 0) s) (\<lambda>_ s.
     kbind (kassert ''region != NULL'' (region \<noteq> 0) s) (\<lambda>_ s.
     kbind (kassert ''region->base % 0x1000 == 0'' (get64 (region_base region) s mod 0x1000 = 0) s) (\<lambda>_ s.
     kbind (kassert ''region->size > 0'' (get64 (region_size region) s > 0) s) (\<lambda>_ s.
     let sz = page_round (get64 (region_size region) s) in
     kbind (kassert ''space->next_free + size <= space->heap_end''
       (get64 (space_next_free space) s + sz \<le> get64 (space_heap_end space) s) s) (\<lambda>_ s.
     let vaddr = get64 (space_next_free space) s in
     kbind (paging_map_page (get64 (space_pml4 space) s) vaddr (get64 (region_base region) s) sz flags s) (\<lambda>_ s.
     let s = put64 (region_size region) sz s;
         s = region_insert space region s;
         s = put64 (space_next_free space) (get64 (space_next_free space) s + sz) s
     in kret vaddr s))))))"

text \<open>The loop of \<open>vm_free\<close> that gives back the frame of every mapped page.\<close>

definition vm_free_frames :: "u64 \<Rightarrow> u64 \<Rightarrow> u64 \<Rightarrow> 'z paging_state_scheme \<Rightarrow> (unit, 'z paging_state_scheme) kres" where
  "vm_free_frames space vaddr sz s =
     for_pages 0 sz (\<lambda>i s.
       let entry = paging_get_entry (get64 (space_pml4 space) s) (vaddr + i) s
       in kret () (if present entry then frame_free (entry AND ENTRY_4K_ADDRESS_MASK) s else s)) s"

definition vm_free :: "u64 \<Rightarrow> u64 \<Rightarrow> u64 \<Rightarrow> 'z paging_state_scheme \<Rightarrow> (unit, 'z paging_state_scheme) kres" where
  "vm_free space vaddr sz s =
     kbind (kassert ''space != NULL'' (space \<noteq> 0) s) (\<lambda>_ s.
     kbind (kassert ''vaddr % 0x1000 == 0'' (vaddr mod 0x1000 = 0) s) (\<lambda>_ s.
     kbind (kassert ''size > 0'' (sz > 0) s) (\<lambda>_ s.
     let sz = page_round sz in
     kbind (vm_free_frames space vaddr sz s) (\<lambda>_ s.
     kbind (paging_unmap_page (get64 (space_pml4 space) s) vaddr sz s) (\<lambda>_ s.
     kbind (region_remove space vaddr s) (\<lambda>r s.
     kret () (if r \<noteq> 0 then frame_free (r - offset s) s else s)))))))"

definition vm_switch :: "u64 \<Rightarrow> 'z paging_state_scheme \<Rightarrow> (unit, 'z paging_state_scheme) kres" where
  "vm_switch space s =
     kbind (kassert ''space != NULL'' (space \<noteq> 0) s) (\<lambda>_ s.
     kret () (s\<lparr>cr3 := get64 (space_pml4 space) s - offset s\<rparr>))"

definition vm_virt_to_phys :: "u64 \<Rightarrow> u64 \<Rightarrow> 'z paging_state_scheme \<Rightarrow> (u64, 'z paging_state_scheme) kres" where
  "vm_virt_to_phys space vaddr s =
     kbind (kassert ''space != NULL'' (space \<noteq> 0) s) (\<lambda>_ s.
     let entry = paging_get_entry (get64 (space_pml4 space) s) vaddr s in
     kbind (kassert ''entry & ENTRY_FLAG_PRESENT'' (present entry) s) (\<lambda>_ s.
     kret ((entry AND ENTRY_4K_ADDRESS_MASK) OR (vaddr AND 0xFFF)) s))"

partial_function (option) vm_destroy_loop ::
  "u64 \<Rightarrow> u64 \<Rightarrow> 'z paging_state_scheme \<Rightarrow> (unit, 'z paging_state_scheme) kres option" where
  "vm_destroy_loop space r s =
     (if r \<noteq> 0 then
        let next = get64 (region_next r) s in
        case vm_free space (get64 (region_base r) s) (get64 (region_size r) s) s of
          Inl e \<Rightarrow> Some (Inl e)
        | Inr (_, s1) \<Rightarrow> vm_destroy_loop space next s1
      else Some (kret () s))"

definition vm_space_destroy :: "u64 \<Rightarrow> 'z paging_state_scheme \<Rightarrow> (unit, 'z paging_state_scheme) kres" where
  "vm_space_destroy space s =
     kbind (kassert ''space != NULL'' (space \<noteq> 0) s) (\<lambda>_ s.
     case vm_destroy_loop space (get64 (space_regions space) s) s of
       None \<Rightarrow> Inl Diverges
     | Some res \<Rightarrow> res)"

subsection \<open>The invariant of an address space\<close>

definition vm_inv :: "'z paging_state_scheme \<Rightarrow> u64 \<Rightarrow> u64 list \<Rightarrow> bool" where
  "vm_inv s space fs \<longleftrightarrow> space \<noteq> 0 \<and> pt_inv s (get64 space s) fs \<and>
     (\<forall>x. unat (x - space) < 40 \<longrightarrow> x \<notin> footprint s (get64 space s) fs)"

definition page_outside :: "u64 \<Rightarrow> 'z paging_state_scheme \<Rightarrow> u64 \<Rightarrow> u64 list \<Rightarrow> bool" where
  "page_outside g s r fs \<longleftrightarrow> (\<forall>x. unat (x - (offset s + g)) < 4096 \<longrightarrow> x \<notin> footprint s r fs)"

lemma get64_put64 [simp]: "get64 a (put64 a v s) = v"
  by (simp add: get64_def put64_def)

lemma get64_put64_sep: "sep a 8 b 8 \<Longrightarrow> get64 a (put64 b v s) = get64 a s"
  by (simp add: get64_def put64_def load64_store64_sep)

lemma put64_fields [simp]:
  "offset (put64 a v s) = offset s" "page_list (put64 a v t) = page_list t"
  "kernel_pml4 (put64 a v u) = kernel_pml4 u" "cr3 (put64 a v u) = cr3 u" "invlpg_log (put64 a v u) = invlpg_log u"
  by (simp_all add: put64_def)

lemma field_sep:
  "unat i + 8 \<le> unat j \<or> unat j + 8 \<le> unat i \<Longrightarrow> unat i < 2 ^ 63 \<Longrightarrow> unat j < 2 ^ 63 \<Longrightarrow> sep (p + i) 8 (p + j) 8"
  by (auto simp: page_simps sep_def unat_sub_if')

lemma get64_same:
  assumes "\<And>x. unat (x - a) < n \<Longrightarrow> mem s' x = mem s x" and "unat i + 8 \<le> n"
  shows "get64 (a + i) s' = get64 (a + i) s"
  unfolding get64_def
proof (rule load64_cong)
  fix k :: nat assume k: "k < 8"
  then have "unat (of_nat k :: u64) = k" by (intro unat_of_nat64) simp
  then have "unat (i + of_nat k) \<le> unat i + k" by (simp add: unat_plus_if')
  then have "unat (i + of_nat k) < n" using k assms(2) by simp
  then show "mem s' (a + i + of_nat k) = mem s (a + i + of_nat k)"
    by (intro assms(1)) (simp add: algebra_simps)
qed

lemma vm_inv_step:
  assumes inv: "vm_inv s space fs" and st: "pt_step (get64 space s) s fs s' fs'" and pt: "pt_inv s' (get64 space s) fs'"
  shows "vm_inv s' space fs'" and "unat i + 8 \<le> 40 \<Longrightarrow> get64 (space + i) s' = get64 (space + i) s"
proof -
  have out: "mem s' x = mem s x" if "unat (x - space) < 40" for x
    using inv st that by (auto simp: vm_inv_def pt_step_def)
  show same: "get64 (space + i) s' = get64 (space + i) s" if "unat i + 8 \<le> 40" for i
    by (rule get64_same [OF out that])
  from same [of 0] have r: "get64 space s' = get64 space s" by simp
  show "vm_inv s' space fs'"
    using inv st pt unfolding vm_inv_def r pt_step_def by blast
qed

lemma page_outside_step: "page_outside g s r fs \<Longrightarrow> pt_step r s fs s' fs' \<Longrightarrow> page_outside g s' r fs'"
  using pt_step_fields(1) [of r s fs s' fs'] by (auto simp only: page_outside_def pt_step_def)

lemma pop_page_outside:
  assumes "pt_inv s r (f # fs)"
  shows "page_outside f (s\<lparr>page_list := load64 (offset s + f) (mem s)\<rparr>) r fs"
  using outside_page_footprint [OF pt_inv_pop(2) [OF assms] pt_inv_pop(6,5) [OF assms]] pt_inv_pop(4) [OF assms]
  unfolding page_outside_def by fastforce

subsection \<open>Backing pages with frames\<close>

definition backed :: "u64 \<Rightarrow> u64 \<Rightarrow> u64 \<Rightarrow> nat \<Rightarrow> u64 list \<Rightarrow> 'z paging_state_scheme \<Rightarrow> 'z paging_state_scheme \<Rightarrow> bool" where
  "backed r v flags n gs s s' \<longleftrightarrow> length gs = n \<and>
     (\<forall>i<n. paging_get_entry r (v + of_nat (4096 * i)) s' = leaf_entry (gs ! i) flags) \<and>
     (\<forall>w. \<not> in_range w v n \<longrightarrow> paging_get_entry r w s' = paging_get_entry r w s)"

lemma entry_same_page: "same_page w v \<Longrightarrow> paging_get_entry r w s = paging_get_entry r v s"
  using pt_table_prefix [of 3 w v]
  by (simp add: paging_get_entry_eq pt_entry_def same_page_iff pte_addr_def del: One_nat_def split: option.splits)

lemma back_page:
  assumes inv: "pt_inv s r fs" and fs: "4 \<le> length fs" and al: "page_aligned v"
  shows "\<exists>g fs' s'. (let (phys, s1) = frame_alloc s in paging_map_page r v phys 0x1000 flags s1) = Inr ((), s') \<and>
    pt_inv s' r fs' \<and> pt_step r s fs s' fs' \<and> page_outside g s' r fs' \<and>
    g \<in> set fs \<and> g \<notin> set fs' \<and> set fs' \<subseteq> set fs \<and> length fs \<le> length fs' + 4 \<and> phys_ok g \<and> g \<noteq> 0 \<and>
    (\<forall>w. paging_get_entry r w s' = (if same_page w v then leaf_entry g flags else paging_get_entry r w s)) \<and>
    invlpg_log s' = invlpg_log s @ [v]"
proof -
  obtain g gs where gs: "fs = g # gs" using fs by (cases fs) auto
  note pop = pt_inv_pop [OF inv [unfolded gs]]
  let ?s1 = "s\<lparr>page_list := load64 (offset s + g) (mem s)\<rparr>"
  have "3 * 1 \<le> length gs" using fs gs by simp
  from paging_map_page_inv [OF pop(2) this al pop(6), of flags] obtain k s' where
    k: "k \<le> 3" "paging_map_page r v g 0x1000 flags ?s1 = Inr ((), s')" "pt_inv s' r (drop k gs)"
    "pt_step r ?s1 gs s' (drop k gs)" "range_mapped r v g flags 1 ?s1 s'" "invlpg_log s' = invlpg_log s @ region_pages v 1"
    by auto
  have st: "pt_step r s fs s' (drop k gs)" using pt_step_trans [OF pop(3) k(4)] gs by simp
  have same: "paging_get_entry r w ?s1 = paging_get_entry r w s" for w by (simp add: paging_get_entry_eq)
  have here: "paging_get_entry r v s' = leaf_entry g flags" using k(5) by (simp add: range_mapped_def)
  have "paging_get_entry r w s' = paging_get_entry r v s'" if "same_page w v" for w
    using that by (rule entry_same_page)
  then have ent: "paging_get_entry r w s' = (if same_page w v then leaf_entry g flags else paging_get_entry r w s)" for w
    using k(5) same here by (auto simp: range_mapped_def in_range_def)
  have "g \<notin> set (drop k gs)" using pop(5) by (meson in_set_dropD)
  moreover have "region_pages v 1 = [v]" by (simp add: region_pages_def)
  ultimately show ?thesis
    using pop(1,7,8) k(1,2,3,6) st ent page_outside_step [OF pop_page_outside [OF inv [unfolded gs]] k(4)] gs
    by (intro exI [of _ g] exI [of _ "drop k gs"] exI [of _ s']) (auto dest: in_set_dropD)
qed

definition frames_taken :: "u64 list \<Rightarrow> u64 \<Rightarrow> u64 list \<Rightarrow> 'z paging_state_scheme \<Rightarrow> u64 list \<Rightarrow> bool" where
  "frames_taken gs r fs s' fs' \<longleftrightarrow> distinct gs \<and> set fs' \<subseteq> set fs \<and>
     (\<forall>g\<in>set gs. g \<in> set fs \<and> g \<notin> set fs' \<and> g \<noteq> 0 \<and> phys_ok g \<and> page_outside g s' r fs')"

lemma vm_back_pages_inv:
  fixes s :: "'z paging_state_scheme"
  assumes inv: "vm_inv s space fs" and n: "4 * n \<le> length fs" "n < 2 ^ 36" and al: "page_aligned v"
  defines "r \<equiv> get64 space s"
  shows "\<exists>s'. vm_back_pages space v (of_nat (4096 * n)) flags s = Inr ((), s') \<and>
    (\<exists>gs fs'. vm_inv s' space fs' \<and> pt_step r s fs s' fs' \<and> backed r v flags n gs s s' \<and>
      frames_taken gs r fs s' fs' \<and> length fs \<le> length fs' + 4 * n \<and>
      invlpg_log s' = invlpg_log s @ region_pages v n)"
  unfolding vm_back_pages_def
proof (rule for_pages_rule [where P = "\<lambda>i t. \<exists>gs fs'. vm_inv t space fs' \<and> pt_step r s fs t fs' \<and>
    backed r v flags i gs s t \<and> frames_taken gs r fs t fs' \<and> length fs \<le> length fs' + 4 * i \<and>
    invlpg_log t = invlpg_log s @ region_pages v i"])
  show "4096 * n < 18446744073709551616" using n by simp
  show "\<exists>gs fs'. vm_inv s space fs' \<and> pt_step r s fs s fs' \<and> backed r v flags 0 gs s s \<and>
      frames_taken gs r fs s fs' \<and> length fs \<le> length fs' + 4 * 0 \<and> invlpg_log s = invlpg_log s @ region_pages v 0"
    using inv by (intro exI [of _ "[]"] exI [of _ fs])
      (simp add: pt_step_refl backed_def frames_taken_def region_pages_def)
next
  fix i and t :: "'z paging_state_scheme"
  assume i: "i < n" and "\<exists>gs fs'. vm_inv t space fs' \<and> pt_step r s fs t fs' \<and>
    backed r v flags i gs s t \<and> frames_taken gs r fs t fs' \<and> length fs \<le> length fs' + 4 * i \<and>
    invlpg_log t = invlpg_log s @ region_pages v i"
  then obtain gs fs' where t: "vm_inv t space fs'" "pt_step r s fs t fs'" "backed r v flags i gs s t"
    "frames_taken gs r fs t fs'" "length fs \<le> length fs' + 4 * i" "invlpg_log t = invlpg_log s @ region_pages v i"
    by blast
  have i64: "unat (of_nat (4096 * i) :: u64) = 4096 * i" using i n(2) by (intro unat_of_nat64) simp
  then have al': "page_aligned (v + of_nat (4096 * i))"
    using al by (intro page_aligned_add) (simp_all only: page_aligned_unat mod_mult_self1_is_0)
  have r: "get64 space t = r"
    using vm_inv_step(2) [OF inv t(2) [unfolded r_def], of 0] t(1,2) inv
    by (auto simp: r_def vm_inv_def pt_step_def intro!: get64_same [of space 8 t s 0, simplified])
  have pt: "pt_inv t r fs'" using t(1) by (simp add: vm_inv_def r)
  have "4 \<le> length fs'" using t(5) i n(1) by simp
  from back_page [OF pt this al', of flags] obtain g fs2 t' where
    b: "(let (phys, s1) = frame_alloc t in paging_map_page r (v + of_nat (4096 * i)) phys 0x1000 flags s1) = Inr ((), t')"
    "pt_inv t' r fs2" "pt_step r t fs' t' fs2" "page_outside g t' r fs2"
    "g \<in> set fs'" "g \<notin> set fs2" "set fs2 \<subseteq> set fs'" "length fs' \<le> length fs2 + 4" "phys_ok g" "g \<noteq> 0"
    "\<forall>w. paging_get_entry r w t' = (if same_page w (v + of_nat (4096 * i)) then leaf_entry g flags else paging_get_entry r w t)"
    "invlpg_log t' = invlpg_log t @ [v + of_nat (4096 * i)]" by blast
  have "frame_alloc t = (fst (frame_alloc t), snd (frame_alloc t))" by simp
  have "backed r v flags (Suc i) (gs @ [g]) s t'"
    using t(3) b(11) range_pages_differ [OF al, of _ i] i n(2)
    by (auto simp: backed_def nth_append less_Suc_eq in_range_Suc simp del: of_nat_mult)
  moreover have "frames_taken (gs @ [g]) r fs t' fs2"
    using t(4) b(4-7,9,10) page_outside_step [OF _ b(3)] by (auto simp: frames_taken_def)
  moreover have "vm_inv t' space fs2" by (rule vm_inv_step(1) [OF t(1)]) (simp_all only: r b)
  moreover have "region_pages v (Suc i) = region_pages v i @ [v + of_nat (4096 * i)]"
    by (simp add: region_pages_def)
  moreover have "(let (phys, s1) = frame_alloc t in
      paging_map_page (get64 space s1) (v + of_nat (4096 * i)) phys 0x1000 flags s1) = Inr ((), t')"
    using b(1) r by (simp add: frame_alloc_def Let_def get64_def split: if_splits)
  ultimately show "\<exists>s'. (let (phys, s1) = frame_alloc t in
      paging_map_page (get64 space s1) (v + of_nat (4096 * i)) phys 0x1000 flags s1) = Inr ((), s') \<and>
    (\<exists>gs fs'. vm_inv s' space fs' \<and> pt_step r s fs s' fs' \<and> backed r v flags (Suc i) gs s s' \<and>
      frames_taken gs r fs s' fs' \<and> length fs \<le> length fs' + 4 * Suc i \<and>
      invlpg_log s' = invlpg_log s @ region_pages v (Suc i))"
    using pt_step_trans [OF t(2) b(3)] t(5,6) b(8,12)
    by (intro exI [of _ t'] exI [of _ "gs @ [g]"] exI [of _ fs2] conjI) simp_all
qed

subsection \<open>Recording a region\<close>

lemma sep_of_outside:
  assumes "\<And>x. unat (x - a) < n \<Longrightarrow> k \<le> unat (x - b)" and "0 < n" and "0 < k"
  shows "sep a n b k"
  using assms(1) [of a] assms(1) [of b] assms(2,3) by (force simp: sep_def)

lemma store64_outside:
  assumes "n \<le> unat (x - p)" and "unat i + 8 \<le> n"
  shows "store64 (p + i) v m x = m x"
proof -
  have "unat (x - p - i) = unat (x - p) - unat i" using assms by (intro unat_sub) (simp add: word_le_nat_alt)
  moreover have "8 \<le> unat (x - p) - unat i" using assms by linarith
  ultimately have "8 \<le> unat (x - (p + i))" by (metis diff_diff_eq)
  then show ?thesis by (simp add: store64_def put_bytes_outside)
qed

lemma space_apart_free:
  assumes "vm_inv s space fs" and "g \<in> set fs"
  shows "sep space 40 (offset s + g) 4096"
  using assms by (intro sep_of_outside) (auto simp: vm_inv_def not_less [symmetric] dest: footprintI_free)

definition new_region :: "u64 \<Rightarrow> u64 \<Rightarrow> u64 \<Rightarrow> 'z frame_state_scheme \<Rightarrow> 'z frame_state_scheme" where
  "new_region space base sz s = (let (r, s1) = region_alloc base sz s in region_insert space r s1)"

lemma new_region_eq:
  assumes "vm_inv s space (g # fs)"
  defines "r \<equiv> offset s + g" and "s0 \<equiv> s\<lparr>page_list := load64 (offset s + g) (mem s)\<rparr>"
  shows "region_alloc base sz s = (r, put64 (r + 16) 0 (put64 (r + 8) sz (put64 r base s0)))"
    and "new_region space base sz s =
      put64 (space + 32) r (put64 (r + 16) (get64 (space + 32) s) (put64 (r + 16) 0 (put64 (r + 8) sz (put64 r base s0))))"
proof -
  have pop: "frame_alloc s = (g, s0)" unfolding s0_def
    using pt_inv_pop(1) assms(1) unfolding vm_inv_def by blast
  then show ra: "region_alloc base sz s = (r, put64 (r + 16) 0 (put64 (r + 8) sz (put64 r base s0)))"
    by (simp add: region_alloc_def r_def s0_def Let_def)
  have sp: "sep (space + 32) 8 (r + i) 8" if "unat i + 8 \<le> 4096" for i
    using space_apart_free [OF assms(1), of g] that unfolding r_def by (intro sep_subrange) (assumption | linarith | simp)+
  have "get64 (space + 32) (put64 (r + 16) 0 (put64 (r + 8) sz (put64 r base s0))) = get64 (space + 32) s0"
    using sp [of 16] sp [of 8] sp [of 0] by (simp add: get64_put64_sep)
  also have "\<dots> = get64 (space + 32) s" by (simp add: s0_def get64_def)
  finally show "new_region space base sz s =
      put64 (space + 32) r (put64 (r + 16) (get64 (space + 32) s) (put64 (r + 16) 0 (put64 (r + 8) sz (put64 r base s0))))"
    by (simp add: new_region_def ra region_insert_def Let_def)
qed

lemma mem_put64: "mem (put64 a v s) = store64 a v (mem s)"
  by (simp add: put64_def)

lemma new_region_inv:
  fixes s :: "'z paging_state_scheme" and base sz :: u64
  assumes inv: "vm_inv s space (g # fs)"
  defines "s' \<equiv> new_region space base sz s" and "r \<equiv> offset s + g"
  shows "vm_inv s' space fs" and "footprint s' (get64 space s) fs \<subseteq> footprint s (get64 space s) (g # fs)"
    and "paging_get_entry (get64 space s) w s' = paging_get_entry (get64 space s) w s"
    and "get64 (space + 32) s' = r" and "get64 r s' = base" and "get64 (r + 8) s' = sz"
    and "get64 (r + 16) s' = get64 (space + 32) s"
    and "unat i + 8 \<le> 32 \<Longrightarrow> get64 (space + i) s' = get64 (space + i) s"
    and "offset s' = offset s" and "invlpg_log s' = invlpg_log s"
    and "40 \<le> unat (x - space) \<Longrightarrow> 4096 \<le> unat (x - r) \<Longrightarrow> mem s' x = mem s x"
    and "page_outside g s' (get64 space s) fs"
proof -
  let ?p = "get64 space s"
  let ?s0 = "s\<lparr>page_list := load64 (offset s + g) (mem s)\<rparr>"
  have pti: "pt_inv s ?p (g # fs)" using inv by (simp add: vm_inv_def)
  note pop = pt_inv_pop [OF pti]
  have eq: "new_region space base sz s = put64 (space + 32) r
      (put64 (r + 16) (get64 (space + 32) s) (put64 (r + 16) 0 (put64 (r + 8) sz (put64 r base ?s0))))"
    unfolding r_def by (rule new_region_eq(2) [OF inv])
  have sp: "sep (space + j) 8 (r + i) 8" if "unat i + 8 \<le> 4096" "unat j + 8 \<le> 40" for i j
    using space_apart_free [OF inv, of g] that unfolding r_def by (intro sep_subrange) (assumption | linarith | simp)+
  have sp': "sep (r + i) 8 (space + j) 8" if "unat i + 8 \<le> 4096" "unat j + 8 \<le> 40" for i j
    using sp [OF that] by (simp add: sep_commute)
  have fs: "sep (a + i) 8 (a + j) 8" if "unat i + 8 \<le> unat j \<or> unat j + 8 \<le> unat i" "unat i < 2 ^ 63" "unat j < 2 ^ 63"
    for a i j using that by (rule field_sep)
  show out: "mem s' x = mem s x" if "40 \<le> unat (x - space)" "4096 \<le> unat (x - r)" for x
    using that store64_outside [of 40 x space 32] store64_outside [of 4096 x r 16]
      store64_outside [of 4096 x r 8] store64_outside [of 4096 x r 0]
    by (simp add: s'_def eq mem_put64)
  show off: "offset s' = offset s" "invlpg_log s' = invlpg_log s" by (simp_all add: s'_def eq)
  show "get64 (space + 32) s' = r" by (simp add: s'_def eq)
  show "get64 r s' = base" "get64 (r + 8) s' = sz" "get64 (r + 16) s' = get64 (space + 32) s"
    using sp' [of 0 32] sp' [of 8 32] sp' [of 16 32] fs [of 0 8 r] fs [of 0 16 r] fs [of 8 16 r]
    by (simp_all add: s'_def eq get64_put64_sep)
  show same: "get64 (space + i) s' = get64 (space + i) s" if "unat i + 8 \<le> 32" for i
  proof -
    have "get64 (space + i) s' = get64 (space + i) ?s0"
      using that sp [of 0 i] sp [of 8 i] sp [of 16 i] fs [of i 32 space] by (simp only: s'_def eq) (simp add: get64_put64_sep)
    then show ?thesis by (simp add: get64_def)
  qed
  have agree: "mem s' x = mem ?s0 x" if "x \<in> footprint ?s0 ?p fs" for x
  proof -
    have "4096 \<le> unat (x - r)"
      using pop_page_outside [OF pti] that by (force simp: page_outside_def r_def not_less [symmetric])
    moreover have "x \<in> footprint s ?p (g # fs)" using that pop(3) by (auto simp: pt_step_def)
    then have "40 \<le> unat (x - space)" using inv by (force simp: vm_inv_def not_less [symmetric])
    ultimately show ?thesis using out by simp
  qed
  have pl: "page_list s' = page_list ?s0" by (simp add: s'_def eq)
  note fr = pt_inv_frame_rule [OF pop(2) agree _ pl]
  have p: "get64 space s' = ?p" using same [of 0] by simp
  have foot: "footprint s' ?p fs = footprint ?s0 ?p fs" by (rule fr(2)) (simp_all add: off)
  then show sub: "footprint s' ?p fs \<subseteq> footprint s ?p (g # fs)" using pop(3) by (simp add: pt_step_def)
  show "page_outside g s' ?p fs"
    using pop_page_outside [OF pti] by (simp add: page_outside_def foot off)
  have "paging_get_entry ?p w s' = paging_get_entry ?p w ?s0" by (rule fr(3)) (simp_all add: off)
  then show "paging_get_entry ?p w s' = paging_get_entry ?p w s" by (simp add: paging_get_entry_eq)
  have "pt_inv s' ?p fs" by (rule fr(1)) (simp_all add: off)
  with sub show "vm_inv s' space fs" using inv by (auto simp: vm_inv_def p)
qed

end
