(* ===== verification/Vm_Lemmas.thy ===== *)
theory Vm_Lemmas
  imports Vm
begin

unbundle bit_operations_syntax

text \<open>
  What \<open>vm_alloc\<close>, \<open>vm_map\<close> and \<open>vm_free\<close> do to an address space that satisfies its
  invariant: the translation of every address, the frames taken and given back, the region
  list and the allocation cursor.
\<close>

subsection \<open>Rounding a size up to pages\<close>

lemma unat_page_mask: "unat (w AND NOT 0xFFF :: u64) = 4096 * (unat w div 4096)"
proof -
  have m: "(0xFFF :: u64) = mask 12" by (simp add: mask_eq_exp_minus_1)
  have "(w AND mask 12) + (w AND NOT (mask 12)) = w"
    by (subst disjunctive_add) (auto simp: bit_simps intro!: bit_word_eqI)
  then have "w AND NOT (mask 12) = w - take_bit 12 w"
    by (simp add: take_bit_eq_mask eq_diff_eq add.commute)
  moreover have t: "unat (take_bit 12 w) = unat w mod 4096"
    by (subst unsigned_take_bit_eq) (simp add: take_bit_eq_mod)
  moreover have "unat (w - take_bit 12 w) = unat w - unat w mod 4096"
    using t by (subst unat_sub) (simp_all add: word_le_nat_alt)
  ultimately show ?thesis by (simp only: m) (simp add: minus_mod_eq_mult_div)
qed

definition pages_of :: "u64 \<Rightarrow> nat" where
  "pages_of sz = (unat sz + 4095) div 4096"

lemma page_round_eq:
  assumes "unat sz + 4095 < 18446744073709551616"
  shows "page_round sz = of_nat (4096 * pages_of sz)" and "4096 * pages_of sz < 18446744073709551616"
    and "unat (page_round sz) = 4096 * pages_of sz"
proof -
  have "unat (sz + 0xFFF) = unat sz + 4095" using assms by (simp add: unat_plus_if')
  then show u: "unat (page_round sz) = 4096 * pages_of sz"
    by (simp only: page_round_def unat_page_mask pages_of_def)
  then show "page_round sz = of_nat (4096 * pages_of sz)" by (rule unat_eq_of_nat64)
  show "4096 * pages_of sz < 18446744073709551616" using u unat64_less [of "page_round sz"] by simp
qed

text \<open>A size within one page of \<open>2\<^sup>6\<^sup>4\<close> wraps to no page at all.\<close>

lemma page_round_wraps:
  assumes "18446744073709551616 \<le> unat sz + 4095"
  shows "page_round sz = 0"
proof -
  have "unat (sz + 0xFFF) = unat sz + 4095 - 18446744073709551616"
    using assms by (simp add: unat_plus_if')
  then have "unat (sz + 0xFFF) div 4096 = 0" using unat64_less [of sz] by simp
  then have "unat (page_round sz) = 0" by (simp only: page_round_def unat_page_mask mult_0_right)
  then show ?thesis by (simp add: unat_eq_0)
qed

subsection \<open>Allocation\<close>

lemma page_outside_mono:
  "page_outside g s r fs \<Longrightarrow> footprint s' r' fs' \<subseteq> footprint s r fs \<Longrightarrow> offset s' = offset s \<Longrightarrow>
    page_outside g s' r' fs'"
  by (auto simp only: page_outside_def)

lemma put_space_inv:
  fixes v :: u64
  assumes inv: "vm_inv s space fs" and i: "8 \<le> unat i" "unat i + 8 \<le> 40"
  defines "s' \<equiv> put64 (space + i) v s"
  shows "vm_inv s' space fs" and "footprint s' (get64 space s) fs = footprint s (get64 space s) fs"
    and "paging_get_entry (get64 space s) w s' = paging_get_entry (get64 space s) w s"
    and "unat j + 8 \<le> unat i \<or> unat i + 8 \<le> unat j \<and> unat j < 2 ^ 63 \<Longrightarrow> get64 (space + j) s' = get64 (space + j) s"
    and "get64 space s' = get64 space s"
proof -
  have pti: "pt_inv s (get64 space s) fs" using inv by (simp add: vm_inv_def)
  show other: "get64 (space + j) s' = get64 (space + j) s"
    if "unat j + 8 \<le> unat i \<or> unat i + 8 \<le> unat j \<and> unat j < 2 ^ 63" for j
    using that i unfolding s'_def by (intro get64_put64_sep field_sep) auto
  from other [of 0] i show p: "get64 space s' = get64 space s" by simp
  have agree: "mem s' x = mem s x" if "x \<in> footprint s (get64 space s) fs" for x
  proof -
    have "40 \<le> unat (x - space)" using inv that by (force simp: vm_inv_def not_less [symmetric])
    then show ?thesis using i(2) by (simp add: s'_def mem_put64 store64_outside)
  qed
  note fr = pt_inv_frame_rule [OF pti agree]
  show foot: "footprint s' (get64 space s) fs = footprint s (get64 space s) fs"
    by (rule fr(2)) (simp_all add: s'_def)
  show "paging_get_entry (get64 space s) w s' = paging_get_entry (get64 space s) w s"
    by (rule fr(3)) (simp_all add: s'_def)
  have "pt_inv s' (get64 space s) fs" by (rule fr(1)) (simp_all add: s'_def)
  then show "vm_inv s' space fs" using inv foot by (simp add: vm_inv_def p)
qed

text \<open>The common end of \<open>vm_alloc\<close> and \<open>vm_map\<close>: record the region and bump \<open>next_free\<close>.\<close>

definition vm_commit :: "u64 \<Rightarrow> u64 \<Rightarrow> u64 \<Rightarrow> 'z paging_state_scheme \<Rightarrow> 'z paging_state_scheme" where
  "vm_commit space vaddr sz s =
     (let s1 = new_region space vaddr sz s in put64 (space + 24) (get64 (space + 24) s1 + sz) s1)"

definition region_recorded :: "u64 \<Rightarrow> u64 \<Rightarrow> u64 \<Rightarrow> 'z paging_state_scheme \<Rightarrow> 'z paging_state_scheme \<Rightarrow> bool" where
  "region_recorded space vaddr sz s s' \<longleftrightarrow>
     (let r = get64 (space + 32) s'
      in get64 r s' = vaddr \<and> get64 (r + 8) s' = sz \<and> get64 (r + 16) s' = get64 (space + 32) s)"

lemma vm_commit_code:
  "(case region_alloc v sz t of (r, s) \<Rightarrow>
      kret v (put64 (space + 24) (get64 (space + 24) (region_insert space r s) + sz) (region_insert space r s)))
    = Inr (v, vm_commit space v sz t)"
  by (cases "region_alloc v sz t") (simp add: vm_commit_def new_region_def kret_def Let_def)

lemma vm_commit_inv:
  fixes s :: "'z paging_state_scheme" and vaddr sz :: u64
  assumes inv: "vm_inv s space (g # fs)"
  defines "s' \<equiv> vm_commit space vaddr sz s" and "p \<equiv> get64 space s"
  shows "vm_inv s' space fs" and "footprint s' p fs \<subseteq> footprint s p (g # fs)"
    and "paging_get_entry p w s' = paging_get_entry p w s" and "get64 space s' = p"
    and "get64 (space + 24) s' = get64 (space + 24) s + sz" and "get64 (space + 16) s' = get64 (space + 16) s"
    and "region_recorded space vaddr sz s s'" and "offset s' = offset s" and "invlpg_log s' = invlpg_log s"
    and "get64 (space + 32) s' = offset s + g" and "page_outside g s' p fs"
proof -
  let ?s1 = "new_region space vaddr sz s"
  note nr = new_region_inv [OF inv, where base = vaddr and sz = sz]
  have p1: "get64 space ?s1 = p" using nr(8) [where i = 0] by (simp add: p_def)
  note ps = put_space_inv [OF nr(1), where i = 24, unfolded p1]
  have e: "s' = put64 (space + 24) (get64 (space + 24) ?s1 + sz) ?s1" by (simp add: s'_def vm_commit_def Let_def)
  show "vm_inv s' space fs" unfolding e by (rule ps(1)) simp_all
  show "footprint s' p fs \<subseteq> footprint s p (g # fs)"
    unfolding e using nr(2) by (subst ps(2)) (simp_all add: p_def)
  show "paging_get_entry p w s' = paging_get_entry p w s"
    unfolding e using nr(3) by (subst ps(3)) (simp_all add: p_def)
  show "get64 space s' = p" unfolding e using ps(5) by simp
  show "get64 (space + 24) s' = get64 (space + 24) s + sz" unfolding e using nr(8) [where i = 24] by simp
  show "get64 (space + 16) s' = get64 (space + 16) s"
    unfolding e using nr(8) [where i = 16] ps(4) [where j = 16] by simp
  show off: "offset s' = offset s" "invlpg_log s' = invlpg_log s" unfolding e using nr(9,10) by simp_all
  show "get64 (space + 32) s' = offset s + g" unfolding e using ps(4) [where j = 32] nr(4) by simp
  have "footprint s' p fs = footprint ?s1 p fs" unfolding e by (rule ps(2)) simp_all
  then show "page_outside g s' p fs" using nr(12) off(1) nr(9) by (simp add: page_outside_def p_def)
  have "sep (offset s + g + i) 8 (space + 24) 8" if "unat i + 8 \<le> 4096" for i
    using space_apart_free [OF inv, of g] that
    by (subst sep_commute) (intro sep_subrange, (assumption | linarith | simp)+)
  then have "get64 (offset s + g + i) s' = get64 (offset s + g + i) ?s1" if "unat i + 8 \<le> 4096" for i
    unfolding e using that by (intro get64_put64_sep)
  from this [of 0] this [of 8] this [of 16] show "region_recorded space vaddr sz s s'"
    using nr(4-7) ps(4) [where j = 32] by (simp add: region_recorded_def Let_def e)
qed

definition space_fits :: "u64 \<Rightarrow> u64 \<Rightarrow> 'z paging_state_scheme \<Rightarrow> bool" where
  "space_fits space sz s \<longleftrightarrow> sz > 0 \<and> unat sz + 4095 < 18446744073709551616 \<and> pages_of sz < 2 ^ 36 \<and>
     page_aligned (get64 (space + 24) s) \<and> get64 (space + 24) s + page_round sz \<le> get64 (space + 16) s"

lemma frames_taken_mono:
  assumes "frames_taken gs r fs s fs'" and "footprint s' r fs2 \<subseteq> footprint s r fs'" and "offset s' = offset s"
    and "set fs2 \<subseteq> set fs'"
  shows "frames_taken gs r fs s' fs2"
  using assms page_outside_mono [OF _ assms(2,3)] unfolding frames_taken_def by blast

lemma vm_alloc_inv:
  fixes s :: "'z paging_state_scheme"
  assumes inv: "vm_inv s space fs" and fit: "space_fits space sz s" and fs: "4 * pages_of sz + 1 \<le> length fs"
  defines "v \<equiv> get64 (space + 24) s" and "p \<equiv> get64 space s" and "n \<equiv> pages_of sz"
  shows "\<exists>s' gs fs'. vm_alloc space sz flags s = Inr (v, s') \<and> vm_inv s' space fs' \<and> get64 space s' = p \<and>
    backed p v flags n gs s s' \<and> frames_taken gs p fs s' fs' \<and> length fs \<le> length fs' + 4 * n + 1 \<and>
    get64 (space + 24) s' = v + of_nat (4096 * n) \<and> get64 (space + 16) s' = get64 (space + 16) s \<and>
    region_recorded space v (of_nat (4096 * n)) s s' \<and> invlpg_log s' = invlpg_log s @ region_pages v n \<and>
    offset s' = offset s \<and> (\<exists>g. g \<in> set fs \<and> get64 (space + 32) s' = offset s + g \<and> g \<notin> set gs \<and> g \<notin> set fs' \<and>
      g \<noteq> 0 \<and> phys_ok g \<and> page_outside g s' p fs')"
proof -
  have f: "sz > 0" "unat sz + 4095 < 18446744073709551616" "n < 2 ^ 36" "page_aligned v"
    "v + page_round sz \<le> get64 (space + 16) s"
    using fit by (simp_all only: space_fits_def n_def v_def)
  note pr = page_round_eq(1) [OF f(2), folded n_def]
  have n4: "4 * n \<le> length fs" using fs by (simp add: n_def)
  from vm_back_pages_inv [OF inv n4 f(3,4), of flags] obtain t gs fs1 where
    t: "vm_back_pages space v (of_nat (4096 * n)) flags s = Inr ((), t)" "vm_inv t space fs1"
    "pt_step p s fs t fs1" "backed p v flags n gs s t" "frames_taken gs p fs t fs1"
    "length fs \<le> length fs1 + 4 * n" "invlpg_log t = invlpg_log s @ region_pages v n"
    unfolding p_def by blast
  obtain g fs2 where g: "fs1 = g # fs2" using t(6) fs by (cases fs1) (auto simp: n_def)
  note ti = t(2) [unfolded g]
  have tp: "pt_inv t p fs1"
    using t(2,3) inv get64_same [of space 8 t s 0]
    by (auto simp: vm_inv_def pt_step_def p_def)
  note same = vm_inv_step(2) [OF inv t(3) [unfolded p_def] tp [unfolded p_def]]
  have pt: "get64 space t = p" using same [of 0] by (simp add: p_def)
  let ?u = "vm_commit space v (of_nat (4096 * n)) t"
  note c = vm_commit_inv [OF ti, where vaddr = v and sz = "of_nat (4096 * n)", unfolded pt]
  have "vm_alloc space sz flags s = Inr (v, ?u)"
  proof -
    have "space \<noteq> 0" using inv by (simp add: vm_inv_def)
    moreover have "(case region_alloc v (of_nat (4096 * n)) t of (r, s) \<Rightarrow>
        kret v (put64 (space + 24) (get64 (space + 24) (region_insert space r s) + of_nat (4096 * n)) (region_insert space r s)))
      = Inr (v, ?u)"
      by (rule vm_commit_code)
    ultimately show ?thesis
      using f(1,5) unfolding vm_alloc_def v_def [symmetric] Let_def pr
      by (simp only: kassert_True kbind_kret t(1) kbind_Inr simp_thms v_def [symmetric])
  qed
  moreover have "backed p v flags n gs s ?u" using t(4) c(3) by (simp add: backed_def)
  moreover have "frames_taken gs p fs ?u fs2"
    using t(5) g c(2,8) by (intro frames_taken_mono [OF t(5)]) (auto simp: g)
  moreover have "region_recorded space v (of_nat (4096 * n)) s ?u"
    using c(7) same [of 32] by (simp add: region_recorded_def)
  moreover have "get64 (space + 24) ?u = v + of_nat (4096 * n)" using c(5) same [of 24] by (simp add: v_def)
  moreover have "get64 (space + 16) ?u = get64 (space + 16) s" using c(6) same [of 16] by simp
  moreover have "offset ?u = offset s" using c(8) pt_step_fields(1) [OF t(3)] by simp
  moreover have "\<exists>g. g \<in> set fs \<and> get64 (space + 32) ?u = offset s + g \<and> g \<notin> set gs \<and> g \<notin> set fs2 \<and>
      g \<noteq> 0 \<and> phys_ok g \<and> page_outside g ?u p fs2"
  proof -
    have "pt_inv t p (g # fs2)" using tp g by simp
    note pop = pt_inv_pop(5,7,8) [OF this]
    have "g \<in> set fs" "g \<notin> set gs" using t(5) by (auto simp: frames_taken_def g)
    then show ?thesis using pop c(10,11) pt_step_fields(1) [OF t(3)] by (intro exI [of _ g]) simp
  qed
  ultimately show ?thesis using c(1,4,9) t(6,7) g
    by (intro exI [of _ ?u] exI [of _ gs] exI [of _ fs2] conjI) simp_all
qed

lemma vm_map_inv:
  fixes s :: "'z paging_state_scheme"
  assumes inv: "vm_inv s space fs" and fit: "space_fits space sz s" and fs: "3 * pages_of sz + 1 \<le> length fs"
    and pa: "page_aligned pa"
  defines "v \<equiv> get64 (space + 24) s" and "p \<equiv> get64 space s" and "n \<equiv> pages_of sz"
  shows "\<exists>s' fs'. vm_map space pa sz flags s = Inr (v, s') \<and> vm_inv s' space fs' \<and> get64 space s' = p \<and>
    range_mapped p v pa flags n s s' \<and> length fs \<le> length fs' + 3 * n + 1 \<and>
    get64 (space + 24) s' = v + of_nat (4096 * n) \<and> get64 (space + 16) s' = get64 (space + 16) s \<and>
    region_recorded space v (of_nat (4096 * n)) s s' \<and> invlpg_log s' = invlpg_log s @ region_pages v n \<and>
    offset s' = offset s"
proof -
  have f: "sz > 0" "unat sz + 4095 < 18446744073709551616" "n < 2 ^ 36" "page_aligned v"
    "v + page_round sz \<le> get64 (space + 16) s"
    using fit by (simp_all only: space_fits_def n_def v_def)
  note pr = page_round_eq(1) [OF f(2), folded n_def]
  have n3: "3 * n \<le> length fs" using fs by (simp add: n_def)
  have pti: "pt_inv s p fs" using inv by (simp add: vm_inv_def p_def)
  from paging_map_page_inv [OF pti n3 f(4) pa f(3), of flags] obtain k t where
    t: "k \<le> 3 * n" "paging_map_page p v pa (of_nat (4096 * n)) flags s = Inr ((), t)" "pt_inv t p (drop k fs)"
    "pt_step p s fs t (drop k fs)" "range_mapped p v pa flags n s t" "invlpg_log t = invlpg_log s @ region_pages v n"
    by blast
  obtain g fs2 where g: "drop k fs = g # fs2" using t(1) fs by (cases "drop k fs") (auto simp: n_def)
  note st = vm_inv_step [OF inv t(4) [unfolded p_def] t(3) [unfolded p_def]]
  note same = st(2)
  have pt: "get64 space t = p" using same [of 0] by (simp add: p_def)
  let ?u = "vm_commit space v (of_nat (4096 * n)) t"
  note c = vm_commit_inv [OF st(1) [unfolded g], where vaddr = v and sz = "of_nat (4096 * n)", unfolded pt]
  have "vm_map space pa sz flags s = Inr (v, ?u)"
  proof -
    have "space \<noteq> 0" using inv by (simp add: vm_inv_def)
    moreover have "(case region_alloc v (of_nat (4096 * n)) t of (r, s) \<Rightarrow>
        kret v (put64 (space + 24) (get64 (space + 24) (region_insert space r s) + of_nat (4096 * n)) (region_insert space r s)))
      = Inr (v, ?u)"
      by (rule vm_commit_code)
    ultimately show ?thesis
      using f(1,5) pa unfolding vm_map_def v_def [symmetric] p_def [symmetric] Let_def pr page_aligned_def [symmetric]
      by (simp only: kassert_True kbind_kret p_def [symmetric] t(2) kbind_Inr simp_thms v_def [symmetric])
  qed
  moreover have "range_mapped p v pa flags n s ?u" using t(5) c(3) by (simp add: range_mapped_def)
  moreover have "region_recorded space v (of_nat (4096 * n)) s ?u"
    using c(7) same [of 32] by (simp add: region_recorded_def)
  moreover have "get64 (space + 24) ?u = v + of_nat (4096 * n)" using c(5) same [of 24] by (simp add: v_def)
  moreover have "get64 (space + 16) ?u = get64 (space + 16) s" using c(6) same [of 16] by simp
  moreover have "offset ?u = offset s" using c(8) pt_step_fields(1) [OF t(4)] by simp
  moreover have "length fs \<le> length fs2 + 3 * n + 1" using arg_cong [OF g, of length] t(1) by simp
  ultimately show ?thesis using c(1,4,9) t(6)
    by (intro exI [of _ ?u] exI [of _ fs2] conjI) simp_all
qed

subsection \<open>Freeing\<close>

lemma pt_inv_push:
  assumes inv: "pt_inv s r fs" and out: "page_outside g s r fs" and g: "phys_ok g" "g \<noteq> 0" "g \<notin> set fs"
  shows "pt_inv (frame_free g s) r (g # fs)"
    and "paging_get_entry r w (frame_free g s) = paging_get_entry r w s"
    and "footprint (frame_free g s) r (g # fs) = footprint s r fs \<union> {x. unat (x - (offset s + g)) < 4096}"
proof -
  let ?m = "store64 (offset s + g) (page_list s) (mem s)"
  have keep: "?m x = mem s x" if "d \<le> 3" "pt_table (mem s) (offset s) r v d = Some t" "unat (x - t) < 4096" for v d t x
  proof -
    have "x \<in> footprint s r fs" using that by (rule footprintI_table)
    then have "4096 \<le> unat (x - (offset s + g))"
      using out unfolding page_outside_def not_less [symmetric] by blast
    then show ?thesis using store64_outside [of 4096 x "offset s + g" 0] by simp
  qed
  have eq: "pt_table ?m (offset s) r v d = pt_table (mem s) (offset s) r v d" if "d \<le> 3" for v d
    by (rule pt_table_cong(1) [OF keep that])
  show "paging_get_entry r w (frame_free g s) = paging_get_entry r w s"
    unfolding paging_get_entry_eq using pt_table_cong(2) [OF keep] by (simp add: frame_free_eq)
  show "footprint (frame_free g s) r (g # fs) = footprint s r fs \<union> {x. unat (x - (offset s + g)) < 4096}"
    by (auto simp: footprint_def frame_free_eq eq)
  have "pt_apart (mem s) (offset s) r (set (g # fs))"
  proof -
    have "t - offset s \<noteq> g" if "d \<le> 3" "pt_table (mem s) (offset s) r v d = Some t" for v d t
      using footprintI_table [OF that, of t fs] out by (auto simp: page_outside_def)
    then show ?thesis using inv by (auto simp: pt_inv_def pt_apart_def)
  qed
  moreover have "free_frames (frame_free g s) (g # fs)"
    using inv g phys_ok_aligned by (intro frame_free_frames) (auto simp: pt_inv_def)
  ultimately show "pt_inv (frame_free g s) r (g # fs)"
    using inv g pt_tree_cong [OF eq] pt_apart_cong [OF eq] by (simp add: pt_inv_def frame_free_eq)
qed

lemma vm_inv_push:
  assumes inv: "vm_inv s space fs" and out: "page_outside g s (get64 space s) fs" and g: "phys_ok g" "g \<noteq> 0" "g \<notin> set fs"
    and sp: "sep space 40 (offset s + g) 4096"
  shows "vm_inv (frame_free g s) space (g # fs)"
    and "unat i + 8 \<le> 40 \<Longrightarrow> get64 (space + i) (frame_free g s) = get64 (space + i) s"
proof -
  have far: "4096 \<le> unat (x - (offset s + g))" if "unat (x - space) < 40" for x
    using sep_offset [OF sp that] by simp
  show same: "get64 (space + i) (frame_free g s) = get64 (space + i) s" if "unat i + 8 \<le> 40" for i
    using far store64_outside [of 4096 _ "offset s + g" 0] that
    by (intro get64_same [of space 40]) (simp_all add: frame_free_eq)
  from same [of 0] have p: "get64 space (frame_free g s) = get64 space s" by simp
  have pti: "pt_inv s (get64 space s) fs" using inv by (simp add: vm_inv_def)
  note push = pt_inv_push [OF pti out g]
  show "vm_inv (frame_free g s) space (g # fs)"
    using inv push(1) far unfolding vm_inv_def p push(3) by (auto simp: not_less [symmetric])
qed

lemma leaf_present [simp]: "present (leaf_entry p flags)"
  by (simp add: leaf_entry_def or.assoc present_OR_left)

lemma leaf_masked:
  "phys_ok p \<Longrightarrow> flags AND ENTRY_4K_ADDRESS_MASK = 0 \<Longrightarrow> leaf_entry p flags AND ENTRY_4K_ADDRESS_MASK = p"
  by (simp add: leaf_entry_def phys_ok_def bit.conj_disj_distrib2 and.assoc)
    (simp add: ENTRY_FLAG_PRESENT_def ENTRY_4K_ADDRESS_MASK_def)

definition held_pages :: "u64 \<Rightarrow> u64 \<Rightarrow> u64 \<Rightarrow> u64 list \<Rightarrow> u64 list \<Rightarrow> 'z paging_state_scheme \<Rightarrow> bool" where
  "held_pages space v flags gs fs s \<longleftrightarrow> distinct gs \<and>
     (\<forall>i<length gs. paging_get_entry (get64 space s) (v + of_nat (4096 * i)) s = leaf_entry (gs ! i) flags) \<and>
     (\<forall>g\<in>set gs. g \<noteq> 0 \<and> phys_ok g \<and> g \<notin> set fs \<and> page_outside g s (get64 space s) fs \<and>
        sep space 40 (offset s + g) 4096)"

lemma pages_apart:
  assumes "page_aligned f" and "page_aligned g" and "f \<noteq> g" and "unat (x - (off + f)) < 4096"
  shows "4096 \<le> unat (x - (off + g))"
proof -
  have "sep (off + f) 4096 (off + g) 4096" using page_aligned_sep [OF assms(1-3)] by (simp add: page_simps)
  from sep_offset [OF this assms(4)] show ?thesis by simp
qed

lemma vm_free_frames_inv:
  fixes s :: "'z paging_state_scheme"
  assumes inv: "vm_inv s space fs" and held: "held_pages space v flags gs fs s"
    and flags: "flags AND ENTRY_4K_ADDRESS_MASK = 0" and n: "length gs < 2 ^ 36"
  defines "p \<equiv> get64 space s"
  shows "\<exists>t. vm_free_frames space v (of_nat (4096 * length gs)) s = Inr ((), t) \<and>
    vm_inv t space (rev gs @ fs) \<and> get64 space t = p \<and>
    (\<forall>w. paging_get_entry p w t = paging_get_entry p w s) \<and> offset t = offset s \<and> invlpg_log t = invlpg_log s \<and>
    footprint t p (rev gs @ fs) \<subseteq> footprint s p fs \<union> {x. \<exists>g\<in>set gs. unat (x - (offset s + g)) < 4096} \<and>
    (\<forall>x. (\<forall>g\<in>set gs. 4096 \<le> unat (x - (offset s + g))) \<longrightarrow> mem t x = mem s x)"
proof -
  define Q where "Q i t \<longleftrightarrow> vm_inv t space (rev (take i gs) @ fs) \<and> get64 space t = p \<and>
    (\<forall>w. paging_get_entry p w t = paging_get_entry p w s) \<and> offset t = offset s \<and> invlpg_log t = invlpg_log s \<and>
    footprint t p (rev (take i gs) @ fs) \<subseteq> footprint s p fs \<union> {x. \<exists>g\<in>set (take i gs). unat (x - (offset s + g)) < 4096} \<and>
    (\<forall>x. (\<forall>g\<in>set gs. 4096 \<le> unat (x - (offset s + g))) \<longrightarrow> mem t x = mem s x)" for i and t :: "'z paging_state_scheme"
  have g: "g \<noteq> 0" "phys_ok g" "g \<notin> set fs" "page_outside g s p fs" "sep space 40 (offset s + g) 4096" "page_aligned g"
    if "g \<in> set gs" for g using held that phys_ok_aligned by (auto simp: held_pages_def p_def)
  have step: "\<exists>t'. (let entry = paging_get_entry (get64 space t) (v + of_nat (4096 * i)) t
      in kret () (if present entry then frame_free (entry AND ENTRY_4K_ADDRESS_MASK) t else t)) = Inr ((), t') \<and> Q (Suc i) t'"
    if i: "i < length gs" and Q: "Q i t" for i t
  proof -
    let ?g = "gs ! i"
    have gi: "?g \<in> set gs" "?g \<notin> set (take i gs)"
      using i held by (auto simp: held_pages_def distinct_conv_nth in_set_conv_nth)
    have q: "vm_inv t space (rev (take i gs) @ fs)" "get64 space t = p" "offset t = offset s"
      "footprint t p (rev (take i gs) @ fs) \<subseteq> footprint s p fs \<union> {x. \<exists>g\<in>set (take i gs). unat (x - (offset s + g)) < 4096}"
      using Q by (auto simp: Q_def)
    have out: "page_outside ?g t p (rev (take i gs) @ fs)"
      unfolding page_outside_def q(3)
    proof (intro allI impI notI)
      fix x assume x: "unat (x - (offset s + ?g)) < 4096" "x \<in> footprint t p (rev (take i gs) @ fs)"
      from x(2) q(4) consider "x \<in> footprint s p fs" | h where "h \<in> set (take i gs)" "unat (x - (offset s + h)) < 4096"
        by blast
      then show False
      proof cases
        case 1
        then show False using g(4) [OF gi(1)] x(1) by (simp add: page_outside_def)
      next
        case 2
        have "h \<in> set gs" "h \<noteq> ?g" using 2(1) gi(2) by (auto dest: in_set_takeD)
        then show False using pages_apart [OF g(6) g(6), of h ?g x "offset s"] 2(2) x(1) gi(1) by simp
      qed
    qed
    have notin: "?g \<notin> set (rev (take i gs) @ fs)" using gi g(3) by auto
    have entry: "paging_get_entry p (v + of_nat (4096 * i)) t = leaf_entry ?g flags"
      using Q held i by (simp add: Q_def held_pages_def p_def)
    have pt: "pt_inv t p (rev (take i gs) @ fs)" using q(1,2) by (simp add: vm_inv_def)
    note ph = pt_inv_push [OF pt out g(2,1) [OF gi(1)] notin]
    note vp = vm_inv_push [OF q(1) out [folded q(2)] g(2,1) [OF gi(1)] notin, unfolded q(3), OF g(5) [OF gi(1)]]
    have take: "rev (take (Suc i) gs) @ fs = ?g # rev (take i gs) @ fs" using i by (simp add: take_Suc_conv_app_nth)
    have set_take: "set (take (Suc i) gs) = insert ?g (set (take i gs))" using i by (simp add: take_Suc_conv_app_nth)
    have "mem (frame_free ?g t) x = mem s x" if x: "\<forall>g\<in>set gs. 4096 \<le> unat (x - (offset s + g))" for x
      using x gi(1) Q store64_outside [of 4096 x "offset s + ?g" 0] by (simp add: frame_free_eq q(3) Q_def)
    then have "Q (Suc i) (frame_free ?g t)"
      using vp(1) vp(2) [of 0] ph(2,3) Q q(4) unfolding Q_def take set_take
      by (auto simp: q(2,3) frame_free_eq)
    then show ?thesis
      by (intro exI [of _ "frame_free ?g t"])
        (simp add: Let_def q(2) entry leaf_masked [OF g(2) [OF gi(1)] flags] kret_def del: of_nat_mult)
  qed
  have "\<exists>t. for_pages 0 (of_nat (4096 * length gs)) (\<lambda>i s.
      let entry = paging_get_entry (get64 space s) (v + i) s
      in kret () (if present entry then frame_free (entry AND ENTRY_4K_ADDRESS_MASK) s else s)) s = Inr ((), t) \<and> Q (length gs) t"
  proof (rule for_pages_rule)
    show "Q 0 s" using inv by (simp add: Q_def p_def)
    show "4096 * length gs < 18446744073709551616" using n by simp
  qed (rule step)
  then show ?thesis unfolding vm_free_frames_def Q_def by simp
qed

subsection \<open>The region list\<close>

fun region_chain :: "'z hhdm_state_scheme \<Rightarrow> u64 \<Rightarrow> u64 list \<Rightarrow> bool" where
  "region_chain s p [] \<longleftrightarrow> p = 0"
| "region_chain s p (n # ns) \<longleftrightarrow> p = n \<and> n \<noteq> 0 \<and> region_chain s (get64 (n + 16) s) ns"

fun regions_apart :: "u64 \<Rightarrow> u64 list \<Rightarrow> bool" where
  "regions_apart cur [] \<longleftrightarrow> True"
| "regions_apart cur (n # ns) \<longleftrightarrow> sep cur 8 n 24 \<and> (\<forall>m\<in>set ns. sep cur 8 m 24 \<and> sep n 24 m 24) \<and> regions_apart (n + 16) ns"

fun remove_base :: "u64 \<Rightarrow> 'z hhdm_state_scheme \<Rightarrow> u64 list \<Rightarrow> u64 list" where
  "remove_base b s [] = []"
| "remove_base b s (n # ns) = (if get64 n s = b then ns else n # remove_base b s ns)"

definition find_base :: "u64 \<Rightarrow> 'z hhdm_state_scheme \<Rightarrow> u64 list \<Rightarrow> u64" where
  "find_base b s ns = (case find (\<lambda>n. get64 n s = b) ns of None \<Rightarrow> 0 | Some n \<Rightarrow> n)"

lemma region_chain_cong:
  "(\<And>n. n \<in> set ns \<Longrightarrow> get64 (n + 16) s' = get64 (n + 16) s) \<Longrightarrow> region_chain s' p ns = region_chain s p ns"
  by (induction ns arbitrary: p) auto

lemma region_remove_loop_spec:
  "region_chain s (get64 cur s) ns \<Longrightarrow> regions_apart cur ns \<Longrightarrow>
    \<exists>s'. region_remove_loop cur base s = Some (find_base base s ns, s') \<and>
      region_chain s' (get64 cur s') (remove_base base s ns) \<and>
      (s' = s \<or> (\<exists>a\<in>insert cur ((\<lambda>n. n + 16) ` set ns). \<exists>v. s' = put64 a v s))"
proof (induction ns arbitrary: cur)
  case Nil
  then show ?case by (intro exI [of _ s]) (simp add: region_remove_loop.simps find_base_def)
next
  case (Cons n ns)
  have cur: "get64 cur s = n" "n \<noteq> 0" "region_chain s (get64 (n + 16) s) ns" using Cons.prems(1) by auto
  have ap: "sep cur 8 n 24" "regions_apart (n + 16) ns" "\<And>m. m \<in> set ns \<Longrightarrow> sep cur 8 m 24"
    "\<And>m. m \<in> set ns \<Longrightarrow> sep n 24 m 24"
    using Cons.prems(2) by auto
  show ?case
  proof (cases "get64 n s = base")
    case True
    let ?s' = "put64 cur (get64 (n + 16) s) s"
    have "get64 (m + 16) ?s' = get64 (m + 16) s" if "m \<in> set ns" for m
      using sep_subrange [OF ap(3) [OF that], of 0 8 16 8] by (intro get64_put64_sep) (simp add: sep_commute)
    then have "region_chain ?s' (get64 cur ?s') ns"
      using cur(3) by (subst region_chain_cong [of _ _ s]) simp_all
    then show ?thesis using cur True
      by (intro exI [of _ ?s']) (auto simp: region_remove_loop.simps find_base_def Let_def)
  next
    case False
    have step: "region_remove_loop cur base s = region_remove_loop (n + 16) base s"
      using cur(1,2) False by (subst region_remove_loop.simps) simp
    from Cons.IH [OF cur(3) ap(2)] obtain s' where
      s': "region_remove_loop (n + 16) base s = Some (find_base base s ns, s')"
      "region_chain s' (get64 (n + 16) s') (remove_base base s ns)"
      "s' = s \<or> (\<exists>a\<in>insert (n + 16) ((\<lambda>n. n + 16) ` set ns). \<exists>v. s' = put64 a v s)" by blast
    have "sep cur 8 (m + 16) 8" if "m \<in> insert n (set ns)" for m
      using that sep_subrange [of cur 8 m 24 0 8 16 8] ap(1,3) by auto
    then have "get64 cur s' = get64 cur s" using s'(3) by (auto simp: get64_put64_sep)
    then show ?thesis using s' cur False step
      by (intro exI [of _ s']) (auto simp: find_base_def)
  qed
qed

lemma region_remove_spec:
  assumes "region_chain s (get64 (space + 32) s) ns" and "regions_apart (space + 32) ns"
  shows "\<exists>s'. region_remove space base s = Inr (find_base base s ns, s') \<and>
    region_chain s' (get64 (space + 32) s') (remove_base base s ns)"
  using region_remove_loop_spec [OF assms, of base] by (auto simp: region_remove_def kret_def)

lemma region_insert_spec:
  assumes "region_chain s (get64 (space + 32) s) ns" and "regions_apart (space + 32) (r # ns)" and "r \<noteq> 0"
  shows "region_chain (region_insert space r s) (get64 (space + 32) (region_insert space r s)) (r # ns)"
proof -
  let ?h = "get64 (space + 32) s"
  have sp: "sep (m + 16) 8 (space + 32) 8" if "m \<in> insert r (set ns)" for m
    using that sep_subrange [of "space + 32" 8 m 24 0 8 16 8] assms(2) by (auto simp: sep_commute)
  have "sep (m + 16) 8 (r + 16) 8" if "m \<in> set ns" for m
    using that sep_subrange [of r 24 m 24 16 8 16 8] assms(2) by (auto simp: sep_commute)
  then have "get64 (m + 16) (region_insert space r s) = get64 (m + 16) s" if "m \<in> set ns" for m
    using that sp by (simp add: region_insert_def Let_def get64_put64_sep)
  then have "region_chain (region_insert space r s) ?h ns"
    using assms(1) by (subst region_chain_cong [of _ _ s]) simp_all
  moreover have "get64 (r + 16) (region_insert space r s) = ?h"
    using sp by (simp add: region_insert_def Let_def get64_put64_sep)
  ultimately show ?thesis using assms(3) by (simp add: region_insert_def Let_def)
qed

definition head_region :: "u64 \<Rightarrow> u64 \<Rightarrow> u64 \<Rightarrow> u64 list \<Rightarrow> u64 list \<Rightarrow> 'z paging_state_scheme \<Rightarrow> bool" where
  "head_region space v g gs fs s \<longleftrightarrow> get64 (space + 32) s = offset s + g \<and> get64 (offset s + g) s = v \<and>
     offset s + g \<noteq> 0 \<and> g \<noteq> 0 \<and> phys_ok g \<and> g \<notin> set gs \<and> g \<notin> set fs \<and>
     page_outside g s (get64 space s) fs \<and> sep space 40 (offset s + g) 4096"

lemma vm_free_inv:
  fixes s :: "'z paging_state_scheme"
  assumes inv: "vm_inv s space fs" and held: "held_pages space v flags gs fs s"
    and flags: "flags AND ENTRY_4K_ADDRESS_MASK = 0" and n: "length gs < 2 ^ 36"
    and sz: "unat sz + 4095 < 18446744073709551616" "pages_of sz = length gs" "sz > 0" and al: "page_aligned v"
    and reg: "head_region space v g gs fs s"
  defines "p \<equiv> get64 space s"
  shows "\<exists>s'. vm_free space v sz s = Inr ((), s') \<and> vm_inv s' space (g # rev gs @ fs) \<and> get64 space s' = p \<and>
    (\<forall>w. paging_get_entry p w s' = (if in_range w v (length gs) then 0 else paging_get_entry p w s)) \<and>
    get64 (space + 32) s' = get64 (offset s + g + 16) s \<and>
    invlpg_log s' = invlpg_log s @ region_pages v (length gs)"
proof -
  let ?n = "length gs" and ?fs = "rev gs @ fs" and ?r = "offset s + g"
  note pr = page_round_eq(1) [OF sz(1), unfolded sz(2)]
  note n64 = page_round_eq(2) [OF sz(1), unfolded sz(2)]
  have rg: "get64 (space + 32) s = ?r" "get64 ?r s = v" "?r \<noteq> 0" "g \<noteq> 0" "phys_ok g" "g \<notin> set gs" "g \<notin> set fs"
    "page_outside g s p fs" "sep space 40 ?r 4096" using reg by (simp_all add: head_region_def p_def)
  from vm_free_frames_inv [OF inv held flags n] obtain t where
    t: "vm_free_frames space v (of_nat (4096 * ?n)) s = Inr ((), t)" "vm_inv t space ?fs" "get64 space t = p"
    "\<forall>w. paging_get_entry p w t = paging_get_entry p w s" "offset t = offset s" "invlpg_log t = invlpg_log s"
    "footprint t p ?fs \<subseteq> footprint s p fs \<union> {x. \<exists>g\<in>set gs. unat (x - (offset s + g)) < 4096}"
    "\<forall>x. (\<forall>g\<in>set gs. 4096 \<le> unat (x - (offset s + g))) \<longrightarrow> mem t x = mem s x"
    unfolding p_def by blast
  have far: "4096 \<le> unat (x - (offset s + h))" if "unat (x - ?r) < 4096" "h \<in> set gs" for x h
  proof (rule pages_apart [OF _ _ _ that(1)])
    show "page_aligned g" "page_aligned h" "g \<noteq> h"
      using rg(5,6) held that(2) phys_ok_aligned by (auto simp: held_pages_def)
  qed
  have far_space: "4096 \<le> unat (x - (offset s + h))" if "unat (x - space) < 40" "h \<in> set gs" for x h
    using held that sep_offset [of space 40 "offset s + h" 4096 "unat (x - space)"] by (auto simp: held_pages_def)
  have out_t: "page_outside g t p ?fs"
    using t(7) rg(8) far unfolding page_outside_def t(5) by (auto simp: not_less [symmetric])
  have pt: "pt_inv t p ?fs" using t(2,3) by (simp add: vm_inv_def)
  from paging_unmap_page_inv [OF pt al n64] obtain u where
    u: "paging_unmap_page p v (of_nat (4096 * ?n)) t = Inr ((), u)" "pt_inv u p ?fs" "pt_step p t ?fs u ?fs"
    "invlpg_log u = invlpg_log t @ region_pages v ?n"
    "\<forall>w. paging_get_entry p w u = (if in_range w v ?n then 0 else paging_get_entry p w t)" by blast
  note vu = vm_inv_step [OF t(2), unfolded t(3), OF u(3,2)]
  have off: "offset u = offset s" using pt_step_fields(1) [OF u(3)] t(5) by simp
  have node: "get64 (?r + i) u = get64 (?r + i) s" if "unat i + 8 \<le> 4096" for i
  proof (rule get64_same [OF _ that])
    fix x assume x: "unat (x - ?r) < 4096"
    have "mem u x = mem t x" using x out_t u(3) by (auto simp: page_outside_def pt_step_def t(5))
    also have "\<dots> = mem s x" using t(8) far [OF x] by blast
    finally show "mem u x = mem s x" .
  qed
  have spc: "get64 (space + i) u = get64 (space + i) s" if "unat i + 8 \<le> 40" for i
    using vu(2) [OF that] get64_same [of space 40 t s i] that t(8) far_space by auto
  let ?w = "put64 (space + 32) (get64 (?r + 16) s) u"
  have "region_remove space v u = Inr (?r, ?w)"
    using spc [of 32] node [of 0] node [of 16] rg(1-3)
    by (simp add: region_remove_def region_remove_loop.simps [of "space + 32"] Let_def kret_def)
  then have eq: "vm_free space v sz s = Inr ((), frame_free g ?w)"
    using inv sz(3) al unfolding vm_free_def page_aligned_def [symmetric] Let_def pr
    by (simp add: vm_inv_def t(1,3) u(1) rg(3) off kret_def del: of_nat_mult)
  have up: "get64 space u = p" using spc [of 0] by (simp add: p_def)
  note w = put_space_inv [OF vu(1), where i = 32 and v = "get64 (?r + 16) s", unfolded up]
  have w1: "vm_inv ?w space ?fs" "get64 space ?w = p" "footprint ?w p ?fs = footprint u p ?fs"
    "\<And>x. paging_get_entry p x ?w = paging_get_entry p x u" using w by simp_all
  have out_w: "page_outside g ?w (get64 space ?w) ?fs"
    using page_outside_step [OF out_t u(3)] by (simp add: page_outside_def w1)
  have notin: "g \<notin> set ?fs" using rg(6,7) by simp
  have "sep space 40 (offset ?w + g) 4096" using rg(9) off by simp
  note v = vm_inv_push [OF w1(1) out_w rg(5,4) notin this]
  note e = pt_inv_push(2) [OF _ out_w rg(5,4) notin, unfolded w1(2)]
  have pw: "pt_inv ?w p ?fs" using w1(1,2) by (simp add: vm_inv_def)
  show ?thesis
    using eq v(1) v(2) [of 0] v(2) [of 32] e [OF pw] u(4,5) t(4,6) w1(2,4)
    by (intro exI [of _ "frame_free g ?w"]) (simp add: frame_free_eq)
qed

subsection \<open>A new space\<close>

lemma get64_cong: "mem s = mem s' \<Longrightarrow> get64 a s = get64 a s'"
  by (simp add: get64_def)

lemma vm_space_create_inv:
  fixes s :: "'z paging_state_scheme"
  assumes inv: "pt_inv s (kernel_pml4 s) (f # g # fs)" and nz: "offset s + f \<noteq> 0"
  shows "\<exists>s'. vm_space_create hb hs s = (offset s + f, s') \<and> vm_inv s' (offset s + f) fs \<and>
    pt_inv s' (kernel_pml4 s) fs \<and> get64 (offset s + f) s' = offset s + g \<and>
    get64 (offset s + f + 8) s' = hb \<and> get64 (offset s + f + 16) s' = hb + hs \<and>
    get64 (offset s + f + 24) s' = hb \<and> get64 (offset s + f + 32) s' = 0 \<and>
    (\<forall>v. paging_get_entry (offset s + g) v s' =
      (if 256 \<le> unat (vaddr_to_index v 4) then paging_get_entry (kernel_pml4 s) v s else 0)) \<and>
    (\<forall>v. paging_get_entry (kernel_pml4 s) v s' = paging_get_entry (kernel_pml4 s) v s)"
proof -
  let ?k = "kernel_pml4 s" and ?sp = "offset s + f" and ?t = "offset s + g"
  define s1 where "s1 = s\<lparr>page_list := load64 (offset s + f) (mem s)\<rparr>"
  note pop = pt_inv_pop [OF inv, folded s1_def]
  have k1: "kernel_pml4 s1 = ?k" "offset s1 = offset s" by (simp_all add: s1_def)
  have e1: "paging_get_entry r w s1 = paging_get_entry r w s" for r w by (simp add: s1_def paging_get_entry_eq)
  from paging_create_pml4_inv [of s1 g fs, unfolded k1, OF pop(2)] obtain s2 where
    c: "paging_create_pml4 s1 = (?t, s2)" "pt_inv s2 ?t fs" "pt_inv s2 ?k fs"
    "\<forall>v. paging_get_entry ?t v s2 = (if 256 \<le> unat (vaddr_to_index v 4) then paging_get_entry ?k v s1 else 0)"
    "\<forall>v. paging_get_entry ?k v s2 = paging_get_entry ?k v s1"
    "footprint s2 ?t fs \<union> footprint s2 ?k fs \<subseteq> footprint s1 ?k (g # fs)" "offset s2 = offset s" by blast
  have out: "page_outside f s2 r fs" if "r \<in> {?t, ?k}" for r
  proof (rule page_outside_mono [OF pop_page_outside [OF inv, folded s1_def]])
    show "footprint s2 r fs \<subseteq> footprint s1 ?k (g # fs)" using that c(6) by blast
    show "offset s2 = offset s1" using c(7) k1(2) by simp
  qed
  define s7 where "s7 = put64 (?sp + 32) 0 (put64 (?sp + 24) hb (put64 (?sp + 16) (hb + hs)
    (put64 (?sp + 8) hb (put64 ?sp ?t s2))))"
  have eq: "vm_space_create hb hs s = (?sp, s7)"
    using pop(1) c(1) by (simp add: vm_space_create_def s7_def k1 Let_def)
  have agree: "mem s7 x = mem s2 x" if "x \<in> footprint s2 r fs" "r \<in> {?t, ?k}" for x r
  proof -
    have "4096 \<le> unat (x - ?sp)" using out [OF that(2)] that(1) c(7) by (force simp: page_outside_def not_less [symmetric])
    then show ?thesis using store64_outside [of 4096 x ?sp 0] store64_outside [of 4096 x ?sp 8]
      store64_outside [of 4096 x ?sp 16] store64_outside [of 4096 x ?sp 24] store64_outside [of 4096 x ?sp 32]
      by (simp add: s7_def mem_put64)
  qed
  have same: "offset s7 = offset s2" "page_list s7 = page_list s2" by (simp_all add: s7_def)
  have agree_t: "mem s7 x = mem s2 x" if "x \<in> footprint s2 ?t fs" for x by (rule agree [OF that]) simp
  have agree_k: "mem s7 x = mem s2 x" if "x \<in> footprint s2 ?k fs" for x by (rule agree [OF that]) simp
  note frt = pt_inv_frame_rule [OF c(2) agree_t same]
  note frk = pt_inv_frame_rule [OF c(3) agree_k same]
  have inv7: "pt_inv s7 ?t fs" "pt_inv s7 ?k fs" using frt(1) frk(1) by blast+
  have ent: "paging_get_entry ?t v s7 = paging_get_entry ?t v s2" "paging_get_entry ?k v s7 = paging_get_entry ?k v s2" for v
    using frt(3) frk(3) by blast+
  have foot: "footprint s7 ?t fs = footprint s2 ?t fs" by (rule frt(2))
  have fsep: "sep (?sp + i) 8 (?sp + j) 8" if "unat i + 8 \<le> unat j \<or> unat j + 8 \<le> unat i" "unat i < 2 ^ 63" "unat j < 2 ^ 63" for i j
    using that by (rule field_sep)
  have fields: "get64 ?sp s7 = ?t" "get64 (?sp + 8) s7 = hb" "get64 (?sp + 16) s7 = hb + hs"
    "get64 (?sp + 24) s7 = hb" "get64 (?sp + 32) s7 = 0"
    using fsep [of 0 8] fsep [of 0 16] fsep [of 0 24] fsep [of 0 32] fsep [of 8 16] fsep [of 8 24] fsep [of 8 32]
      fsep [of 16 24] fsep [of 16 32] fsep [of 24 32] by (simp_all add: s7_def get64_put64_sep)
  have "vm_inv s7 ?sp fs"
    using nz inv7(1) out [of ?t] by (auto simp: vm_inv_def fields foot page_outside_def c(7))
  then show ?thesis using eq inv7(2) fields c(4,5) ent by (intro exI [of _ s7]) (simp add: e1)
qed

text \<open>What \<open>vm_alloc\<close> hands out is what \<open>vm_free\<close> takes back.\<close>

lemma vm_alloc_held:
  fixes s :: "'z paging_state_scheme"
  assumes inv: "vm_inv s space fs" and fit: "space_fits space sz s" and fs: "4 * pages_of sz + 1 \<le> length fs"
    and nz: "\<forall>f\<in>set fs. offset s + f \<noteq> 0"
  defines "v \<equiv> get64 (space + 24) s"
  shows "\<exists>s' gs g fs'. vm_alloc space sz flags s = Inr (v, s') \<and> vm_inv s' space fs' \<and>
    get64 space s' = get64 space s \<and> length gs = pages_of sz \<and> held_pages space v flags gs fs' s' \<and>
    head_region space v g gs fs' s' \<and> get64 (offset s' + g + 16) s' = get64 (space + 32) s \<and>
    set (g # gs @ fs') \<subseteq> set fs \<and> backed (get64 space s) v flags (pages_of sz) gs s s' \<and>
    invlpg_log s' = invlpg_log s @ region_pages v (pages_of sz)"
proof -
  obtain s' gs fs' g where a: "vm_alloc space sz flags s = Inr (v, s')" "vm_inv s' space fs'"
    "get64 space s' = get64 space s" "backed (get64 space s) v flags (pages_of sz) gs s s'"
    "frames_taken gs (get64 space s) fs s' fs'" "offset s' = offset s"
    "region_recorded space v (of_nat (4096 * pages_of sz)) s s'"
    "invlpg_log s' = invlpg_log s @ region_pages v (pages_of sz)"
    and g: "g \<in> set fs" "get64 (space + 32) s' = offset s + g" "g \<notin> set gs" "g \<notin> set fs'" "g \<noteq> 0" "phys_ok g"
    "page_outside g s' (get64 space s) fs'"
    using vm_alloc_inv [OF inv fit fs, of flags] unfolding v_def by blast
  have apart: "sep space 40 (offset s' + f) 4096" if "f \<in> set fs" for f
    using space_apart_free [OF inv that] a(6) by simp
  have "held_pages space v flags gs fs' s'"
    using a(3,4,5) apart unfolding held_pages_def backed_def frames_taken_def by auto
  moreover have "head_region space v g gs fs' s'"
    using a(3,6,7) g nz apart [OF g(1)] by (simp add: head_region_def region_recorded_def Let_def)
  moreover have "get64 (offset s' + g + 16) s' = get64 (space + 32) s"
    using a(6,7) g(2) by (simp add: region_recorded_def Let_def)
  moreover have "length gs = pages_of sz" "set (g # gs @ fs') \<subseteq> set fs"
    using a(4,5) g(1) by (auto simp: backed_def frames_taken_def)
  ultimately show ?thesis using a(1-4,8) by blast
qed

end
