(* ===== verification/Heap.thy ===== *)
theory Heap
  imports Vm_Lemmas
begin

unbundle bit_operations_syntax

text \<open>
  The kernel heap (\<open>src/kernel/src/memory/heap.c\<close>): a first-fit free list of blocks in
  virtual memory from \<open>HEAP_START\<close> upwards. A block's 24-byte header holds \<open>magic\<close>,
  \<open>size\<close> and \<open>next\<close> at the offsets 0, 8 and 16; the payload follows.
\<close>

record heap_state = paging_state +
  free_list :: u64
  heap_top :: u64

definition HEAP_START :: u64 where "HEAP_START = 0xFFFF900000000000"
definition HEAP_MAGIC :: u64 where "HEAP_MAGIC = 0xDEADBEEFCAFEBABE"

abbreviation (input) blk_magic :: "u64 \<Rightarrow> u64" where "blk_magic b \<equiv> b"
abbreviation (input) blk_size :: "u64 \<Rightarrow> u64" where "blk_size b \<equiv> b + 8"
abbreviation (input) blk_next :: "u64 \<Rightarrow> u64" where "blk_next b \<equiv> b + 16"

subsection \<open>Operations\<close>

definition heap_expand_page :: "'z heap_state_scheme \<Rightarrow> (unit, 'z heap_state_scheme) kres" where
  "heap_expand_page s =
     (let (phys, s) = frame_alloc s in
      kbind (paging_map_page (kernel_pml4 s) (heap_top s) phys 0x1000 (ENTRY_FLAG_PRESENT OR ENTRY_FLAG_RW) s) (\<lambda>_ s.
      let blk = heap_top s;
          s = put64 (blk_magic blk) HEAP_MAGIC s;
          s = put64 (blk_size blk) (0x1000 - 24) s;
          s = put64 (blk_next blk) (free_list s) s;
          s = s\<lparr>free_list := blk\<rparr>
      in kret () (s\<lparr>heap_top := heap_top s + 0x1000\<rparr>)))"

primrec heap_expand :: "nat \<Rightarrow> 'z heap_state_scheme \<Rightarrow> (unit, 'z heap_state_scheme) kres" where
  "heap_expand 0 s = kret () s"
| "heap_expand (Suc n) s = kbind (heap_expand_page s) (\<lambda>_ s. heap_expand n s)"

definition split_block :: "u64 \<Rightarrow> u64 \<Rightarrow> 'z heap_state_scheme \<Rightarrow> 'z heap_state_scheme" where
  "split_block cur sz s =
     (if get64 (blk_size cur) s \<ge> sz + 24 + 16 then
        let split = cur + 24 + sz;
            s = put64 (blk_magic split) HEAP_MAGIC s;
            s = put64 (blk_size split) (get64 (blk_size cur) s - sz - 24) s;
            s = put64 (blk_next split) (get64 (blk_next cur) s) s;
            s = put64 (blk_size cur) sz s
        in put64 (blk_next cur) split s
      else s)"

definition unlink_block :: "u64 \<Rightarrow> u64 \<Rightarrow> 'z heap_state_scheme \<Rightarrow> 'z heap_state_scheme" where
  "unlink_block prev cur s =
     (let s = (if prev \<noteq> 0 then put64 (blk_next prev) (get64 (blk_next cur) s) s
               else s\<lparr>free_list := get64 (blk_next cur) s\<rparr>)
      in put64 (blk_next cur) 0 s)"

text \<open>The search of \<open>kmalloc\<close>: no pointer when no block of the list is large enough.\<close>

partial_function (option) kmalloc_scan ::
  "u64 \<Rightarrow> u64 \<Rightarrow> u64 \<Rightarrow> 'z heap_state_scheme \<Rightarrow> (u64 option \<times> 'z heap_state_scheme) option" where
  "kmalloc_scan prev cur sz s =
     (if cur \<noteq> 0 then
        if get64 (blk_size cur) s \<ge> sz then Some (Some (cur + 24), unlink_block prev cur (split_block cur sz s))
        else kmalloc_scan cur (get64 (blk_next cur) s) sz s
      else Some (None, s))"

partial_function (option) kmalloc_run :: "u64 \<Rightarrow> 'z heap_state_scheme \<Rightarrow> (u64, 'z heap_state_scheme) kres option" where
  "kmalloc_run sz0 s =
     (if sz0 = 0 then Some (kret 0 s)
      else let sz = (sz0 + 15) AND NOT 15 in
        case kmalloc_scan 0 (free_list s) sz s of
          None \<Rightarrow> None
        | Some (Some p, s1) \<Rightarrow> Some (kret p s1)
        | Some (None, s1) \<Rightarrow>
            (let pages = (sz + 24 + 0xFFF) div 0x1000 in
              case heap_expand (unat pages) s1 of
                Inl e \<Rightarrow> Some (Inl e)
              | Inr (_, s2) \<Rightarrow> kmalloc_run sz s2))"

definition kmalloc :: "u64 \<Rightarrow> 'z heap_state_scheme \<Rightarrow> (u64, 'z heap_state_scheme) kres" where
  "kmalloc sz s = (case kmalloc_run sz s of None \<Rightarrow> Inl Diverges | Some res \<Rightarrow> res)"

definition kfree :: "u64 \<Rightarrow> 'z heap_state_scheme \<Rightarrow> 'z heap_state_scheme" where
  "kfree ptr s =
     (if ptr = 0 then s
      else let blk = ptr - 24;
               s = put64 (blk_next blk) (free_list s) s
           in s\<lparr>free_list := blk\<rparr>)"

definition krealloc :: "u64 \<Rightarrow> u64 \<Rightarrow> 'z heap_state_scheme \<Rightarrow> (u64, 'z heap_state_scheme) kres" where
  "krealloc ptr sz s =
     (if ptr = 0 then kmalloc sz s
      else if sz = 0 then kret 0 (kfree ptr s)
      else let blk = ptr - 24 in
        if get64 (blk_size blk) s \<ge> sz then kret ptr s
        else kbind (kmalloc sz s) (\<lambda>new_ptr s.
          if new_ptr = 0 then kret 0 s
          else let s = s\<lparr>mem := memcpy new_ptr ptr (get64 (blk_size blk) s) (mem s)\<rparr>
               in kret new_ptr (kfree ptr s)))"

end
