(* ===== verification/Heap_Lemmas.thy ===== *)
theory Heap_Lemmas
  imports Heap
begin

unbundle bit_operations_syntax

text \<open>
  The heap's invariant: the free list is a chain of blocks that, together with the
  allocated blocks, are disjoint and lie between \<open>HEAP_START\<close> and \<open>heap_top\<close>; what
  \<open>kmalloc\<close>, \<open>kfree\<close> and \<open>krealloc\<close> do to it.
\<close>

subsection \<open>Well-formed heaps\<close>

definition bsize :: "'z heap_state_scheme \<Rightarrow> u64 \<Rightarrow> nat" where
  "bsize s b = unat (get64 (b + 8) s)"

definition bend :: "'z heap_state_scheme \<Rightarrow> u64 \<Rightarrow> nat" where
  "bend s b = unat b + 24 + bsize s b"

definition blocks_ok :: "'z heap_state_scheme \<Rightarrow> u64 list \<Rightarrow> bool" where
  "blocks_ok s bs \<longleftrightarrow> distinct bs \<and>
     (\<forall>b\<in>set bs. unat HEAP_START \<le> unat b \<and> bend s b \<le> unat (heap_top s)) \<and>
     (\<forall>b\<in>set bs. \<forall>c\<in>set bs. b \<noteq> c \<longrightarrow> bend s b \<le> unat c \<or> bend s c \<le> unat b)"

lemma blocks_ok_cong:
  "(\<And>b. b \<in> set bs \<Longrightarrow> bsize s' b = bsize s b) \<Longrightarrow> heap_top s' = heap_top s \<Longrightarrow> blocks_ok s' bs = blocks_ok s bs"
  by (simp add: blocks_ok_def bend_def)

lemma blocks_ok_set: "blocks_ok s xs \<Longrightarrow> distinct ys \<Longrightarrow> set ys = set xs \<Longrightarrow> blocks_ok s ys"
  by (simp add: blocks_ok_def)

definition heap_ok :: "'z heap_state_scheme \<Rightarrow> u64 list \<Rightarrow> u64 list \<Rightarrow> bool" where
  "heap_ok s frees allocs \<longleftrightarrow> region_chain s (free_list s) frees \<and> blocks_ok s (frees @ allocs) \<and>
     unat (heap_top s) \<le> unat HEAP_START + 2 ^ 40"

lemma heap_fields_put64 [simp]:
  "free_list (put64 a v s) = free_list s" "heap_top (put64 a v s) = heap_top s"
  by (simp_all add: put64_def)

lemma get64_free_list [simp]: "get64 a (s\<lparr>free_list := x\<rparr>) = get64 a s" "get64 a (s\<lparr>heap_top := x\<rparr>) = get64 a s"
  by (simp_all add: get64_def)

lemma nat_sep:
  assumes "unat (a :: u64) + n \<le> unat b" and "unat b + k \<le> 18446744073709551616" and "0 < n"
  shows "sep a n b k"
  using assms unat64_less [of b] by (auto simp: sep_def unat_sub_if')

lemma mem_put64_far:
  assumes "unat x < unat a \<or> unat a + 8 \<le> unat x" and "unat a + 8 \<le> 18446744073709551616"
  shows "mem (put64 a v s) x = mem s x"
proof -
  have "8 \<le> unat (x - a)" using assms unat64_less [of x] by (auto simp: unat_sub_if')
  then show ?thesis by (simp add: put64_def store64_def put_bytes_outside)
qed

lemma heap_top_bound: "heap_ok s fr al \<Longrightarrow> unat (heap_top s) + 4096 < 18446744073709551616"
  by (simp add: heap_ok_def HEAP_START_def)

lemma unat_HEAP_START: "unat HEAP_START = 18446620928407240704"
  by (simp add: HEAP_START_def)

lemma block_nat:
  assumes "blocks_ok s bs" and "b \<in> set bs" and "unat (heap_top s) + 4096 < 18446744073709551616" and "unat k \<le> 24 + bsize s b"
  shows "unat (b + k) = unat b + unat k"
  using assms by (auto simp: blocks_ok_def bend_def unat_plus_if')

lemma header_sep:
  assumes "blocks_ok s bs" and "unat (heap_top s) + 4096 < 18446744073709551616"
    and "b \<in> set bs" and "c \<in> set bs" and "b \<noteq> c" and "unat j \<le> 16" and "unat k \<le> 16"
  shows "sep (b + j) 8 (c + k) 8"
proof -
  have u: "unat (b + j) = unat b + unat j" "unat (c + k) = unat c + unat k"
    using block_nat [OF assms(1) _ assms(2)] assms(3,4,6,7) by simp_all
  have "bend s b \<le> unat c \<or> bend s c \<le> unat b" "bend s b \<le> unat (heap_top s)" "bend s c \<le> unat (heap_top s)"
    using assms(1,3,4,5) by (auto simp: blocks_ok_def)
  then consider "unat (b + j) + 8 \<le> unat (c + k)" "unat (c + k) + 8 \<le> 18446744073709551616"
    | "unat (c + k) + 8 \<le> unat (b + j)" "unat (b + j) + 8 \<le> 18446744073709551616"
    using assms(2,6,7) unfolding bend_def u by linarith
  then show ?thesis
  proof cases
    case 1
    then show ?thesis by (rule nat_sep) simp
  next
    case 2
    then have "sep (c + k) 8 (b + j) 8" by (rule nat_sep) simp
    then show ?thesis by (simp add: sep_commute)
  qed
qed

subsection \<open>Paths along the free list\<close>

fun region_path :: "'z hhdm_state_scheme \<Rightarrow> u64 \<Rightarrow> u64 list \<Rightarrow> u64 \<Rightarrow> bool" where
  "region_path s p [] q \<longleftrightarrow> p = q"
| "region_path s p (n # ns) q \<longleftrightarrow> p = n \<and> n \<noteq> 0 \<and> region_path s (get64 (n + 16) s) ns q"

lemma region_chain_append:
  "region_chain s p (xs @ ys) \<longleftrightarrow> (\<exists>q. region_path s p xs q \<and> region_chain s q ys)"
  by (induction xs arbitrary: p) auto

lemma region_path_snoc:
  "region_path s p (xs @ [x]) q \<longleftrightarrow> region_path s p xs x \<and> x \<noteq> 0 \<and> get64 (x + 16) s = q"
  by (induction xs arbitrary: p) auto

lemma region_path_cong:
  "(\<And>n. n \<in> set ns \<Longrightarrow> get64 (n + 16) s' = get64 (n + 16) s) \<Longrightarrow> region_path s' p ns q = region_path s p ns q"
  by (induction ns arbitrary: p) auto

subsection \<open>Taking a block\<close>

lemma unlink_block_ok:
  assumes ok: "heap_ok s (pre @ cur # rest) allocs" and prev: "prev = (if pre = [] then 0 else last pre)"
  defines "s' \<equiv> unlink_block prev cur s"
  shows "heap_ok s' (pre @ rest) (cur # allocs)" and "bsize s' b = bsize s b \<or> b \<notin> set (pre @ cur # rest @ allocs)"
    and "c \<in> set allocs \<Longrightarrow> unat c \<le> unat x \<Longrightarrow> unat x < bend s c \<Longrightarrow> mem s' x = mem s x"
    and "heap_top s' = heap_top s"
proof -
  let ?bs = "pre @ cur # rest @ allocs"
  have bl: "blocks_ok s ?bs" and ch: "region_chain s (free_list s) (pre @ cur # rest)"
    and top: "unat (heap_top s) + 4096 < 18446744073709551616"
    using ok heap_top_bound [OF ok] by (simp_all add: heap_ok_def)
  have dist: "distinct ?bs" using bl by (simp add: blocks_ok_def)
  note hs = header_sep [OF bl top]
  have nz: "last pre \<noteq> 0" if "pre \<noteq> []"
    using ch that by (cases pre rule: rev_cases) (auto simp: region_chain_append region_path_snoc)
  have links: "get64 (n + 16) s' = get64 (n + 16) s" if "n \<in> set ?bs" "n \<noteq> cur" "pre = [] \<or> n \<noteq> last pre" for n
    using that nz hs [of n cur 16 16] hs [of n "last pre" 16 16]
    by (auto simp: s'_def unlink_block_def prev get64_put64_sep)
  have sizes: "get64 (n + 8) s' = get64 (n + 8) s" if "n \<in> set ?bs" for n
  proof -
    have "sep (n + 8) 8 (c + 16) 8" if "c \<in> set ?bs" for c
      using hs [of n c 8 16] that \<open>n \<in> set ?bs\<close> field_sep [of 8 16 n] by (cases "n = c") auto
    then show ?thesis using that by (auto simp: s'_def unlink_block_def prev get64_put64_sep)
  qed
  show "heap_top s' = heap_top s" by (simp add: s'_def unlink_block_def)
  show "bsize s' b = bsize s b \<or> b \<notin> set ?bs" using sizes [of b] by (auto simp: bsize_def)
  have "region_chain s' (free_list s') (pre @ rest)"
  proof (cases pre rule: rev_cases)
    case Nil
    have "get64 (n + 16) s' = get64 (n + 16) s" if "n \<in> set rest" for n
      using that dist Nil by (intro links) auto
    then have "region_chain s' p rest = region_chain s p rest" for p by (rule region_chain_cong)
    then show ?thesis using ch Nil by (simp add: s'_def unlink_block_def prev)
  next
    case (snoc ps l)
    have l: "l \<noteq> 0" "l \<noteq> cur" "l \<in> set ?bs" using nz snoc dist by auto
    have new: "get64 (l + 16) s' = get64 (cur + 16) s"
      using hs [of l cur 16 16] l snoc by (simp add: s'_def unlink_block_def prev get64_put64_sep)
    have d: "distinct (ps @ l # cur # rest @ allocs)" using dist snoc by simp
    have "get64 (n + 16) s' = get64 (n + 16) s" if "n \<in> set (ps @ rest)" for n
    proof (rule links)
      show "n \<noteq> cur" "n \<in> set ?bs" using that d snoc by auto
      show "pre = [] \<or> n \<noteq> last pre" using that d snoc by auto
    qed
    then have "region_path s' p ps q = region_path s p ps q" "region_chain s' p rest = region_chain s p rest" for p q
      using region_path_cong [of ps s' s] region_chain_cong [of rest s' s] by auto
    moreover have "free_list s' = free_list s" using l snoc by (simp add: s'_def unlink_block_def prev)
    ultimately show ?thesis using ch new snoc by (simp add: region_chain_append region_path_snoc)
  qed
  moreover have "blocks_ok s' (pre @ rest @ cur # allocs)"
  proof -
    have "bsize s' b = bsize s b" if "b \<in> set ?bs" for b using sizes [OF that] by (simp add: bsize_def)
    then have "blocks_ok s' ?bs = blocks_ok s ?bs" using \<open>heap_top s' = heap_top s\<close> by (rule blocks_ok_cong)
    then have "blocks_ok s' ?bs" using bl by simp
    then show ?thesis by (rule blocks_ok_set) (use dist in auto)
  qed
  ultimately show "heap_ok s' (pre @ rest) (cur # allocs)"
    using ok \<open>heap_top s' = heap_top s\<close> unfolding heap_ok_def by simp
  show "mem s' x = mem s x" if c: "c \<in> set allocs" "unat c \<le> unat x" "unat x < bend s c"
  proof -
    have "unat x < unat (d + 16) \<or> unat (d + 16) + 8 \<le> unat x" "unat (d + 16) + 8 \<le> 18446744073709551616"
      if "d \<in> set (pre @ cur # rest)" for d
    proof -
      have "d \<noteq> c" "d \<in> set ?bs" using that dist c(1) by auto
      then have "bend s d \<le> unat c \<or> bend s c \<le> unat d" "unat (d + 16) = unat d + 16" "bend s d \<le> unat (heap_top s)"
        using bl c(1) block_nat [OF bl _ top, of d 16] by (auto simp: blocks_ok_def)
      then show "unat x < unat (d + 16) \<or> unat (d + 16) + 8 \<le> unat x" "unat (d + 16) + 8 \<le> 18446744073709551616"
        using c(2,3) top by (auto simp: bend_def)
    qed
    note far = mem_put64_far [OF this]
    show ?thesis
      using nz by (auto simp: s'_def unlink_block_def prev far)
  qed
qed

definition splits :: "'z heap_state_scheme \<Rightarrow> u64 \<Rightarrow> u64 \<Rightarrow> bool" where
  "splits s cur sz \<longleftrightarrow> unat sz + 40 \<le> bsize s cur"

text \<open>Eight bytes within a block, seen from the other blocks.\<close>

definition inside :: "'z heap_state_scheme \<Rightarrow> u64 \<Rightarrow> u64 \<Rightarrow> bool" where
  "inside s cur a \<longleftrightarrow> unat cur \<le> unat a \<and> unat a + 8 \<le> bend s cur"

lemma inside_far:
  assumes "blocks_ok s bs" and "unat (heap_top s) + 4096 < 18446744073709551616" and "cur \<in> set bs"
    and "inside s cur a" and "b \<in> set bs" and "b \<noteq> cur" and "unat b \<le> unat x" and "unat x < bend s b"
  shows "unat x < unat a \<or> unat a + 8 \<le> unat x" and "unat a + 8 \<le> 18446744073709551616"
proof -
  have "bend s cur \<le> unat b \<or> bend s b \<le> unat cur" "bend s cur \<le> unat (heap_top s)"
    using assms(1,3,5,6) unfolding blocks_ok_def by auto
  then show "unat x < unat a \<or> unat a + 8 \<le> unat x" "unat a + 8 \<le> 18446744073709551616"
    using assms(2,4,7,8) by (auto simp: inside_def)
qed

lemma inside_sep:
  assumes "blocks_ok s bs" and "unat (heap_top s) + 4096 < 18446744073709551616" and "cur \<in> set bs"
    and "inside s cur a" and "b \<in> set bs" and "b \<noteq> cur" and "unat i \<le> 16"
  shows "sep (b + i) 8 a 8"
proof -
  have bi: "unat (b + i) = unat b + unat i" using block_nat [OF assms(1,5,2)] assms(7) by simp
  have "bend s cur \<le> unat b \<or> bend s b \<le> unat cur" "bend s b \<le> unat (heap_top s)" "bend s cur \<le> unat (heap_top s)"
    using assms(1,3,5,6) unfolding blocks_ok_def by auto
  then consider "unat a + 8 \<le> unat (b + i)" "unat (b + i) + 8 \<le> 18446744073709551616"
    | "unat (b + i) + 8 \<le> unat a" "unat a + 8 \<le> 18446744073709551616"
    using assms(2,4,7) bi unfolding inside_def bend_def by linarith
  then show ?thesis
  proof cases
    case 1
    then have "sep a 8 (b + i) 8" by (rule nat_sep) simp
    then show ?thesis by (simp add: sep_commute)
  next
    case 2
    then show ?thesis by (rule nat_sep) simp
  qed
qed

lemma blocks_ok_split:
  assumes ok: "blocks_ok s xs" and cur: "cur \<in> set xs" and sp: "unat cur \<le> unat sp" "unat sp \<le> bend s cur"
    and ends: "bend s' cur = unat sp" "bend s' sp = bend s cur"
      "\<And>b. b \<in> set xs \<Longrightarrow> b \<noteq> cur \<Longrightarrow> bend s' b = bend s b"
    and top: "heap_top s' = heap_top s" and ys: "distinct ys" "set ys = insert sp (set xs)" and new: "sp \<notin> set xs"
  shows "blocks_ok s' ys"
proof -
  have low: "unat HEAP_START \<le> unat b" "bend s b \<le> unat (heap_top s)" if "b \<in> set xs" for b
    using ok that by (auto simp: blocks_ok_def)
  have apart: "bend s b \<le> unat c \<or> bend s c \<le> unat b" if "b \<in> set xs" "c \<in> set xs" "b \<noteq> c" for b c
    using ok that by (auto simp: blocks_ok_def)
  have "unat HEAP_START \<le> unat b \<and> bend s' b \<le> unat (heap_top s')" if "b \<in> insert sp (set xs)" for b
    using that low [of b] low [OF cur] sp ends(1,2) ends(3) [of b] top by (cases "b = sp"; cases "b = cur") auto
  moreover have "bend s' b \<le> unat c \<or> bend s' c \<le> unat b"
    if bc: "b \<in> insert sp (set xs)" "c \<in> insert sp (set xs)" "b \<noteq> c" for b c
  proof -
    have old: "bend s' cur \<le> unat d \<or> bend s' d \<le> unat cur" "bend s' sp \<le> unat d \<or> bend s' d \<le> unat sp"
      if "d \<in> set xs" "d \<noteq> cur" for d
      using apart [OF cur that(1)] that sp ends(1,2) ends(3) [OF that] by auto
    show ?thesis
      using bc old [of b] old [of c] apart [of b c] ends(1) ends(3) [of b] ends(3) [of c] cur
      by (cases "b = sp"; cases "c = sp"; cases "b = cur"; cases "c = cur") auto
  qed
  ultimately show ?thesis using ys by (simp add: blocks_ok_def)
qed

definition split_writes :: "u64 \<Rightarrow> u64 \<Rightarrow> 'z heap_state_scheme \<Rightarrow> 'z heap_state_scheme" where
  "split_writes cur sz s = (let sp = cur + 24 + sz in
     put64 (cur + 16) sp (put64 (cur + 8) sz (put64 (sp + 16) (get64 (cur + 16) s)
       (put64 (sp + 8) (get64 (cur + 8) s - sz - 24) (put64 sp HEAP_MAGIC s)))))"

lemma split_writes_fields:
  assumes sp: "splits s cur sz" and top: "bend s cur + 4096 < 18446744073709551616"
  defines "s' \<equiv> split_writes cur sz s" and "b \<equiv> cur + 24 + sz"
  shows "split_block cur sz s = s'" and "unat b = unat cur + 24 + unat sz"
    and "inside s cur b" and "inside s cur (b + 8)" and "inside s cur (b + 16)"
    and "inside s cur (cur + 8)" and "inside s cur (cur + 16)"
    and "get64 (cur + 8) s' = sz" and "get64 (cur + 16) s' = b"
    and "unat (get64 (b + 8) s') = bsize s cur - unat sz - 24" and "get64 (b + 16) s' = get64 (cur + 16) s"
proof -
  show bn: "unat b = unat cur + 24 + unat sz"
    using sp top by (simp add: b_def splits_def bend_def unat_plus_if')
  have bk: "unat (b + k) = unat b + unat k" if "unat k \<le> 24" for k
    using that sp top bn by (simp add: splits_def bend_def unat_plus_if')
  have ck: "unat (cur + k) = unat cur + unat k" if "unat k \<le> 24" for k
    using that top by (simp add: bend_def unat_plus_if')
  show "inside s cur b" "inside s cur (b + 8)" "inside s cur (b + 16)" "inside s cur (cur + 8)" "inside s cur (cur + 16)"
    using sp bn bk [of 8] bk [of 16] ck [of 8] ck [of 16] by (simp_all add: inside_def bend_def splits_def)
  have csep: "sep (cur + i) 8 (b + j) 8" "sep (b + j) 8 (cur + i) 8" if "unat i \<le> 16" "unat j \<le> 16" for i j
  proof -
    show "sep (cur + i) 8 (b + j) 8"
      using that ck [of i] bk [of j] bn sp top by (intro nat_sep) (auto simp: splits_def bend_def)
    then show "sep (b + j) 8 (cur + i) 8" by (simp add: sep_commute)
  qed
  have ssep: "sep (p + i) 8 (p + j) 8" if "unat i + 8 \<le> unat j \<or> unat j + 8 \<le> unat i" "unat i < 2 ^ 63" "unat j < 2 ^ 63"
    for p i j using that by (rule field_sep)
  have "unat (sz + 24 + 16) = unat sz + 40" using sp top by (simp add: splits_def bend_def unat_plus_if')
  then have "get64 (cur + 8) s \<ge> sz + 24 + 16" using sp by (simp add: splits_def bsize_def word_le_nat_alt)
  then show "split_block cur sz s = s'"
    using csep(1) [of 8 0] csep(1) [of 16 0] csep(1) [of 16 8] csep(1) [of 8 8]
    unfolding s'_def split_writes_def split_block_def Let_def b_def [symmetric] by (simp add: get64_put64_sep)
  show "get64 (cur + 8) s' = sz" "get64 (cur + 16) s' = b" "get64 (b + 16) s' = get64 (cur + 16) s"
    using csep ssep [of 8 16 cur]
    unfolding s'_def split_writes_def Let_def b_def [symmetric] by (simp_all add: get64_put64_sep)
  have "get64 (b + 8) s' = get64 (cur + 8) s - sz - 24"
    using csep(2) [of 8 8] csep(2) [of 16 8] ssep [of 8 16 b]
    unfolding s'_def split_writes_def Let_def b_def [symmetric] by (simp add: get64_put64_sep)
  then show "unat (get64 (b + 8) s') = bsize s cur - unat sz - 24"
    using sp by (simp add: splits_def bsize_def unat_sub_if')
qed

lemma split_block_ok:
  assumes ok: "heap_ok s (pre @ cur # rest) allocs" and fits: "unat sz \<le> bsize s cur"
  defines "s' \<equiv> split_block cur sz s"
  shows "heap_ok s' (pre @ cur # (if splits s cur sz then (cur + 24 + sz) # rest else rest)) allocs"
    and "bsize s' cur = (if splits s cur sz then unat sz else bsize s cur)"
    and "\<forall>b\<in>set (pre @ rest @ allocs). bsize s' b = bsize s b"
    and "\<forall>c\<in>set allocs. \<forall>x. unat c \<le> unat x \<longrightarrow> unat x < bend s c \<longrightarrow> mem s' x = mem s x"
    and "heap_top s' = heap_top s"
proof -
  let ?bs = "pre @ cur # rest @ allocs" and ?sp = "cur + 24 + sz"
  have bl: "blocks_ok s ?bs" and ch: "region_chain s (free_list s) (pre @ cur # rest)"
    and top: "unat (heap_top s) + 4096 < 18446744073709551616"
    using ok heap_top_bound [OF ok] by (simp_all add: heap_ok_def)
  have dist: "distinct ?bs" and endc: "bend s cur \<le> unat (heap_top s)" and cin: "cur \<in> set ?bs"
    using bl by (simp_all add: blocks_ok_def)
  have endc': "bend s cur + 4096 < 18446744073709551616" using endc top by simp
  have "heap_ok s' (pre @ cur # (if splits s cur sz then ?sp # rest else rest)) allocs \<and>
    bsize s' cur = (if splits s cur sz then unat sz else bsize s cur) \<and>
    (\<forall>b\<in>set (pre @ rest @ allocs). bsize s' b = bsize s b) \<and>
    (\<forall>c\<in>set allocs. \<forall>x. unat c \<le> unat x \<longrightarrow> unat x < bend s c \<longrightarrow> mem s' x = mem s x) \<and> heap_top s' = heap_top s"
  proof (cases "splits s cur sz")
    case False
    have "unat (sz + 24 + 16) = unat sz + 40" using fits endc' by (simp add: bend_def unat_plus_if')
    then have "s' = s" using False unfolding s'_def split_block_def by (auto simp: splits_def bsize_def word_le_nat_alt)
    then show ?thesis using ok False by simp
  next
    case True
    note f = split_writes_fields [OF True endc']
    have s': "s' = split_writes cur sz s" unfolding s'_def by (rule f(1))
    note far = inside_far [OF bl top cin] and osep = inside_sep [OF bl top cin]
    have other: "get64 (b + i) s' = get64 (b + i) s" if "b \<in> set ?bs" "b \<noteq> cur" "unat i \<le> 16" for b i
      using osep [OF f(3) that] osep [OF f(4) that] osep [OF f(5) that] osep [OF f(6) that] osep [OF f(7) that]
      by (simp add: s' split_writes_def Let_def get64_put64_sep)
    have sizes: "bsize s' cur = unat sz" "bsize s' ?sp = bsize s cur - unat sz - 24"
      "\<And>b. b \<in> set ?bs \<Longrightarrow> b \<noteq> cur \<Longrightarrow> bsize s' b = bsize s b"
      using f(8,10) other by (simp_all add: bsize_def s')
    have tp: "heap_top s' = heap_top s" "free_list s' = free_list s"
      by (simp_all add: s' split_writes_def Let_def)
    have new: "?sp \<notin> set ?bs"
    proof
      assume "?sp \<in> set ?bs"
      moreover have "?sp \<noteq> cur"
      proof
        assume "?sp = cur"
        then have "unat ?sp = unat cur" by (rule arg_cong)
        then show False using f(2) by simp
      qed
      moreover have "unat ?sp < bend s ?sp" by (simp add: bend_def)
      ultimately show False using far(1) [OF f(3), of ?sp ?sp] by simp
    qed
    have "blocks_ok s' (pre @ cur # (?sp # rest) @ allocs)"
    proof (rule blocks_ok_split [OF bl cin, of ?sp])
      show "unat cur \<le> unat ?sp" "unat ?sp \<le> bend s cur" "bend s' cur = unat ?sp" "bend s' ?sp = bend s cur"
        using sizes f(2) True by (auto simp: bend_def splits_def)
    qed (use sizes tp dist new in \<open>auto simp: bend_def\<close>)
    moreover have "region_chain s' (free_list s') (pre @ cur # ?sp # rest)"
    proof -
      have link: "get64 (n + 16) s' = get64 (n + 16) s" if "n \<in> set pre \<union> set rest" for n
        using other [of n 16] that dist by auto
      then have "region_path s' p pre q = region_path s p pre q" for p q
        by (intro region_path_cong) simp
      moreover have "region_chain s' p rest = region_chain s p rest" for p
        using link by (intro region_chain_cong) simp
      moreover have "?sp \<noteq> 0" using f(2) by auto
      ultimately show ?thesis using ch f(9,11) tp(2) unfolding s' by (auto simp: region_chain_append)
    qed
    moreover have "mem s' x = mem s x" if "c \<in> set allocs" "unat c \<le> unat x" "unat x < bend s c" for c x
    proof -
      have c: "c \<in> set ?bs" "c \<noteq> cur" using that(1) dist by auto
      note m = mem_put64_far [OF far [OF _ c that(2,3)]]
      show ?thesis unfolding s' split_writes_def Let_def by (simp only: m f(3-7))
    qed
    ultimately show ?thesis using ok tp sizes dist True by (auto simp: heap_ok_def)
  qed
  then show "heap_ok s' (pre @ cur # (if splits s cur sz then ?sp # rest else rest)) allocs"
    "bsize s' cur = (if splits s cur sz then unat sz else bsize s cur)"
    "\<forall>b\<in>set (pre @ rest @ allocs). bsize s' b = bsize s b"
    "\<forall>c\<in>set allocs. \<forall>x. unat c \<le> unat x \<longrightarrow> unat x < bend s c \<longrightarrow> mem s' x = mem s x"
    "heap_top s' = heap_top s" by blast+
qed

subsection \<open>The search and the call\<close>

definition payload_kept :: "u64 list \<Rightarrow> 'z heap_state_scheme \<Rightarrow> 'z heap_state_scheme \<Rightarrow> bool" where
  "payload_kept bs s s' \<longleftrightarrow> (\<forall>c\<in>set bs. bsize s' c = bsize s c \<and>
     (\<forall>x. unat c \<le> unat x \<longrightarrow> unat x < bend s c \<longrightarrow> mem s' x = mem s x))"

text \<open>What \<open>kmalloc\<close> does when the first block of at least \<open>sz\<close> bytes is \<open>cur\<close>.\<close>

lemma take_block_ok:
  assumes ok: "heap_ok s (pre @ cur # rest) allocs" and fits: "unat sz \<le> bsize s cur"
    and prev: "prev = (if pre = [] then 0 else last pre)"
  defines "s' \<equiv> unlink_block prev cur (split_block cur sz s)"
  shows "heap_ok s' (pre @ (if splits s cur sz then (cur + 24 + sz) # rest else rest)) (cur # allocs)"
    and "bsize s' cur = (if splits s cur sz then unat sz else bsize s cur)"
    and "payload_kept allocs s s'" and "heap_top s' = heap_top s"
proof -
  let ?s1 = "split_block cur sz s" and ?rest = "if splits s cur sz then (cur + 24 + sz) # rest else rest"
  note sp = split_block_ok [OF ok fits]
  note un = unlink_block_ok [OF sp(1) prev, folded s'_def]
  show "heap_ok s' (pre @ ?rest) (cur # allocs)" by (rule un(1))
  show "bsize s' cur = (if splits s cur sz then unat sz else bsize s cur)"
    using un(2) [of cur] sp(2) by simp
  show "heap_top s' = heap_top s" using un(4) sp(5) by simp
  show "payload_kept allocs s s'"
    unfolding payload_kept_def
  proof (intro ballI conjI allI impI)
    fix c assume c: "c \<in> set allocs"
    have e: "bsize ?s1 c = bsize s c" using sp(3) c by simp
    then show "bsize s' c = bsize s c" using un(2) [of c] c by auto
    fix x :: u64 assume x: "unat c \<le> unat x" "unat x < bend s c"
    then have "mem s' x = mem ?s1 x" using un(3) [OF c, of x] e by (simp add: bend_def)
    also have "\<dots> = mem s x" using sp(4) c x by blast
    finally show "mem s' x = mem s x" .
  qed
qed

lemma scan_last:
  "region_chain s p (pre @ suf) \<Longrightarrow> pre \<noteq> [] \<Longrightarrow> region_chain s (get64 (last pre + 16) s) suf \<and> last pre \<noteq> 0"
  by (cases pre rule: rev_cases) (auto simp: region_chain_append region_path_snoc)

lemma kmalloc_scan_spec:
  assumes "region_chain s (free_list s) (pre @ suf)" and "region_chain s cur suf"
    and "prev = (if pre = [] then 0 else last pre)"
  shows "kmalloc_scan prev cur sz s =
    (case dropWhile (\<lambda>b. bsize s b < unat sz) suf of
       [] \<Rightarrow> Some (None, s)
     | b # _ \<Rightarrow> let pre' = pre @ takeWhile (\<lambda>b. bsize s b < unat sz) suf in
         Some (Some (b + 24), unlink_block (if pre' = [] then 0 else last pre') b (split_block b sz s)))"
  using assms
proof (induction suf arbitrary: pre prev cur)
  case Nil
  then show ?case by (simp add: kmalloc_scan.simps)
next
  case (Cons b suf)
  have b: "cur = b" "b \<noteq> 0" "region_chain s (get64 (b + 16) s) suf" using Cons.prems(2) by auto
  have le: "get64 (b + 8) s \<ge> sz \<longleftrightarrow> \<not> bsize s b < unat sz" by (simp add: bsize_def word_le_nat_alt not_less)
  show ?case
  proof (cases "bsize s b < unat sz")
    case True
    have "kmalloc_scan prev cur sz s = kmalloc_scan b (get64 (b + 16) s) sz s"
      using b(1,2) True le by (subst kmalloc_scan.simps) simp
    with Cons.IH [of "pre @ [b]" "get64 (b + 16) s" b] Cons.prems(1) b(3) True show ?thesis
      by (cases "dropWhile (\<lambda>b. bsize s b < unat sz) suf") (simp_all add: Let_def del: dropWhile_eq_Nil_conv)
  next
    case False
    then show ?thesis using b(1,2) le Cons.prems(3) by (subst kmalloc_scan.simps) (simp add: Let_def)
  qed
qed

definition align16 :: "u64 \<Rightarrow> u64" where
  "align16 sz = (sz + 15) AND NOT 15"

lemma unat_align16:
  assumes "unat sz + 15 < 18446744073709551616"
  shows "unat (align16 sz) = 16 * ((unat sz + 15) div 16)"
proof -
  have m: "(15 :: u64) = mask 4" by (simp add: mask_eq_exp_minus_1)
  have "((sz + 15) AND mask 4) + ((sz + 15) AND NOT (mask 4)) = sz + 15"
    by (subst disjunctive_add) (auto simp: bit_simps intro!: bit_word_eqI)
  then have "(sz + 15) AND NOT (mask 4) = (sz + 15) - take_bit 4 (sz + 15)"
    by (simp add: take_bit_eq_mask eq_diff_eq add.commute)
  moreover have t: "unat (take_bit 4 (sz + 15)) = unat (sz + 15) mod 16"
    by (subst unsigned_take_bit_eq) (simp add: take_bit_eq_mod)
  moreover have "unat ((sz + 15) - take_bit 4 (sz + 15)) = unat (sz + 15) - unat (sz + 15) mod 16"
    using t by (subst unat_sub) (simp_all add: word_le_nat_alt)
  moreover have "unat (sz + 15) = unat sz + 15" using assms by (simp add: unat_plus_if')
  ultimately show ?thesis
    by (simp only: align16_def m) (simp add: minus_mod_eq_mult_div)
qed

lemma align16_ge: "unat sz + 15 < 18446744073709551616 \<Longrightarrow> unat sz \<le> unat (align16 sz)"
  by (simp add: unat_align16)

lemma align16_idem:
  assumes "unat sz + 15 < 18446744073709551616"
  shows "align16 (align16 sz) = align16 sz"
proof -
  have u: "unat (align16 sz) = 16 * ((unat sz + 15) div 16)" by (rule unat_align16 [OF assms])
  show ?thesis
  proof (cases "unat (align16 sz) + 15 < 18446744073709551616")
    case True
    then have "unat (align16 (align16 sz)) = unat (align16 sz)" unfolding unat_align16 [OF True] u by simp
    then show ?thesis by (simp add: unat64_inject)
  next
    case False
    then show ?thesis using u assms unat64_less [of "align16 sz"] by simp
  qed
qed

definition first_fit :: "'z heap_state_scheme \<Rightarrow> u64 \<Rightarrow> u64 list \<Rightarrow> u64 option" where
  "first_fit s n frees = find (\<lambda>b. unat n \<le> bsize s b) frees"

lemma find_dropWhile: "find P xs = (case dropWhile (\<lambda>x. \<not> P x) xs of [] \<Rightarrow> None | x # _ \<Rightarrow> Some x)"
  by (induction xs) auto

lemma kmalloc_scan_None:
  assumes "heap_ok s frees allocs" and "first_fit s n frees = None"
  shows "kmalloc_scan 0 (free_list s) n s = Some (None, s)"
proof -
  have "dropWhile (\<lambda>b. bsize s b < unat n) frees = []"
    using assms(2) by (auto simp: first_fit_def find_dropWhile not_le split: list.splits)
  then show ?thesis using kmalloc_scan_spec [of s "[]" frees "free_list s" 0 n] assms(1)
    by (simp add: heap_ok_def del: dropWhile_eq_Nil_conv)
qed

lemma kmalloc_scan_Some:
  assumes ok: "heap_ok s frees allocs" and fit: "first_fit s n frees = Some b"
  shows "\<exists>s' pre rest. frees = pre @ b # rest \<and> kmalloc_scan 0 (free_list s) n s = Some (Some (b + 24), s') \<and>
    heap_ok s' (pre @ (if splits s b n then (b + 24 + n) # rest else rest)) (b # allocs) \<and>
    bsize s' b = (if splits s b n then unat n else bsize s b) \<and> unat n \<le> bsize s b \<and>
    payload_kept allocs s s' \<and> heap_top s' = heap_top s \<and>
    s' = unlink_block (if pre = [] then 0 else last pre) b (split_block b n s)"
proof -
  let ?P = "\<lambda>b. bsize s b < unat n"
  obtain rest where d: "dropWhile ?P frees = b # rest"
    using fit by (auto simp: first_fit_def find_dropWhile not_le split: list.splits)
  define pre where "pre = takeWhile ?P frees"
  have fr: "frees = pre @ b # rest" using takeWhile_dropWhile_id [of ?P frees] d by (simp add: pre_def)
  have fits: "unat n \<le> bsize s b" using hd_dropWhile [of ?P frees] d by simp
  note take = take_block_ok [OF ok [unfolded fr] fits refl]
  have "kmalloc_scan 0 (free_list s) n s =
      Some (Some (b + 24), unlink_block (if pre = [] then 0 else last pre) b (split_block b n s))"
    using kmalloc_scan_spec [of s "[]" frees "free_list s" 0 n] ok d
    by (simp add: heap_ok_def pre_def Let_def)
  then show ?thesis using take fr fits by blast
qed

lemma kmalloc_run_step:
  "kmalloc_run sz s = (if sz = 0 then Some (Inr (0, s))
     else case kmalloc_scan 0 (free_list s) (align16 sz) s of
       None \<Rightarrow> None
     | Some (Some p, s1) \<Rightarrow> Some (Inr (p, s1))
     | Some (None, s1) \<Rightarrow>
         (case heap_expand (unat ((align16 sz + 24 + 0xFFF) div 0x1000)) s1 of
            Inl e \<Rightarrow> Some (Inl e) | Inr (_, s2) \<Rightarrow> kmalloc_run (align16 sz) s2))"
  unfolding align16_def by (subst kmalloc_run.simps) (simp add: kret_def Let_def split: option.splits sum.splits)

end
