(* ===== verification/Heap_Alloc.thy ===== *)
theory Heap_Alloc
  imports Heap_Lemmas
begin

unbundle bit_operations_syntax

text \<open>
  The heap over the virtual-memory layer: \<open>heap_expand\<close> adds one block per page, \<open>kmalloc\<close>
  returns when a page's block can satisfy the request and never finds one otherwise, and
  \<open>kfree\<close> and \<open>krealloc\<close> keep the invariant.
\<close>

subsection \<open>Growing the heap\<close>

abbreviation heap_limit :: nat where
  "heap_limit \<equiv> unat HEAP_START + 2 ^ 40"

definition heap_vm :: "'z heap_state_scheme \<Rightarrow> u64 list \<Rightarrow> bool" where
  "heap_vm s fs \<longleftrightarrow> pt_inv s (kernel_pml4 s) fs \<and> page_aligned (heap_top s) \<and>
     (\<forall>x. unat HEAP_START \<le> unat x \<longrightarrow> unat x < heap_limit \<longrightarrow> x \<notin> footprint s (kernel_pml4 s) fs)"

lemma pt_step_heap_fields:
  fixes s :: "'z heap_state_scheme"
  assumes "pt_step r s fs s' fs'"
  shows "free_list s' = free_list s" and "heap_top s' = heap_top s"
proof -
  have "s' = s\<lparr>mem := mem s', page_list := page_list s', invlpg_log := invlpg_log s'\<rparr>"
    using assms by (simp only: pt_step_def)
  then obtain m q l where "s' = s\<lparr>mem := m, page_list := q, invlpg_log := l\<rparr>" by blast
  then show "free_list s' = free_list s" "heap_top s' = heap_top s" by simp_all
qed

definition new_block :: "u64 \<Rightarrow> 'z heap_state_scheme \<Rightarrow> 'z heap_state_scheme" where
  "new_block blk s =
     (put64 (blk + 16) (free_list s) (put64 (blk + 8) (0x1000 - 24) (put64 blk HEAP_MAGIC s)))
       \<lparr>free_list := blk, heap_top := blk + 0x1000\<rparr>"

lemma heap_expand_page_eq:
  assumes "(let (phys, s1) = frame_alloc s in paging_map_page (kernel_pml4 s) (heap_top s) phys 0x1000
      (ENTRY_FLAG_PRESENT OR ENTRY_FLAG_RW) s1) = Inr ((), t)" and "heap_top t = heap_top s"
  shows "heap_expand_page s = Inr ((), new_block (heap_top s) t)"
proof -
  have "kernel_pml4 (snd (frame_alloc s)) = kernel_pml4 s" "heap_top (snd (frame_alloc s)) = heap_top s"
    by (simp_all add: frame_alloc_def Let_def)
  with assms show ?thesis
    by (cases "frame_alloc s") (simp add: heap_expand_page_def new_block_def Let_def kret_def)
qed

lemma new_block_ok:
  assumes ok: "heap_ok s frees allocs" and lim: "unat (heap_top s) + 4096 \<le> heap_limit"
    and lo: "unat HEAP_START \<le> unat (heap_top s)"
  defines "b \<equiv> heap_top s" and "s' \<equiv> new_block (heap_top s) s"
  shows "heap_ok s' (b # frees) allocs" and "bsize s' b = 4072"
    and "payload_kept allocs s s'" and "\<forall>c\<in>set frees. bsize s' c = bsize s c"
    and "unat x < unat b \<or> unat b + 24 \<le> unat x \<Longrightarrow> mem s' x = mem s x"
proof -
  have bl: "blocks_ok s (frees @ allocs)" and ch: "region_chain s (free_list s) frees"
    and top: "unat b + 4096 < 18446744073709551616"
    using ok heap_top_bound [OF ok] by (simp_all add: heap_ok_def b_def)
  have bk: "unat (b + k) = unat b + unat k" if "unat k \<le> 4096" for k
    using that top by (simp add: unat_plus_if')
  show far: "mem s' x = mem s x" if "unat x < unat b \<or> unat b + 24 \<le> unat x" for x
  proof -
    have "mem s' x = mem (put64 (b + 16) (free_list s) (put64 (b + 8) (0x1000 - 24) (put64 b HEAP_MAGIC s))) x"
      by (simp add: s'_def new_block_def b_def)
    also have "\<dots> = mem s x"
    proof -
      have far: "unat x < unat (b + k) \<or> unat (b + k) + 8 \<le> unat x" "unat (b + k) + 8 \<le> 18446744073709551616"
        if "unat k \<le> 16" for k
        using \<open>unat x < unat b \<or> unat b + 24 \<le> unat x\<close> bk [of k] that top by auto
      show ?thesis using far [of 0] far [of 8] far [of 16] by (simp add: mem_put64_far)
    qed
    finally show ?thesis .
  qed
  have keep: "mem s' x = mem s x" if "c \<in> set (frees @ allocs)" "unat c \<le> unat x" "unat x < bend s c" for c x
  proof -
    have "bend s c \<le> unat b" using bl that(1) unfolding blocks_ok_def b_def by blast
    then show ?thesis using that(3) by (intro far) simp
  qed
  have hdr: "get64 (c + i) s' = get64 (c + i) s" if c: "c \<in> set (frees @ allocs)" and i: "unat i \<le> 16" for c i
  proof -
    have u: "unat (c + k) = unat c + unat k" if "unat k \<le> 24" for k
      using block_nat [OF bl c _] that top by (simp add: b_def)
    show ?thesis
      unfolding get64_def
    proof (rule load64_cong)
      fix k :: nat assume k: "k < 8"
      have "unat (i + of_nat k) = unat i + k" using i k by (simp add: unat_plus_if' unat_of_nat64)
      then have "unat (c + (i + of_nat k)) = unat c + (unat i + k)" using u [of "i + of_nat k"] i k by simp
      then have "mem s' (c + (i + of_nat k)) = mem s (c + (i + of_nat k))"
        using c i k by (intro keep) (simp_all add: bend_def, linarith+)
      then show "mem s' (c + i + of_nat k) = mem s (c + i + of_nat k)" by (simp add: add.assoc)
    qed
  qed
  have own: "get64 (b + 8) s' = 0xFE8" "get64 (b + 16) s' = free_list s"
    using field_sep [of 8 16 b] field_sep [of 8 0 b]
    by (simp_all add: s'_def new_block_def b_def get64_put64_sep)
  show sz: "bsize s' b = 4072" by (simp add: bsize_def own)
  have sizes: "bsize s' c = bsize s c" if "c \<in> set (frees @ allocs)" for c
    using hdr [OF that, of 8] by (simp add: bsize_def)
  then show "\<forall>c\<in>set frees. bsize s' c = bsize s c" by simp
  have fl: "free_list s' = b" "heap_top s' = b + 0x1000" by (simp_all add: s'_def new_block_def b_def)
  have tp: "unat (heap_top s') = unat b + 4096" using bk [of "0x1000"] by (simp add: fl)
  have "b \<noteq> 0" using lo unat_HEAP_START by (auto simp: b_def)
  moreover have "region_chain s' p frees = region_chain s p frees" for p
    by (rule region_chain_cong) (simp add: hdr)
  ultimately have chain: "region_chain s' (free_list s') (b # frees)" using ch by (simp add: fl own)
  have below: "unat HEAP_START \<le> unat c" "bend s' c \<le> unat b" if "c \<in> set (frees @ allocs)" for c
    using bl sizes [OF that] that unfolding blocks_ok_def bend_def b_def by auto
  have nin: "b \<notin> set (frees @ allocs)" using below by (fastforce simp: bend_def)
  have "blocks_ok s' (b # frees @ allocs)"
  proof -
    have old: "bend s' c = bend s c" if "c \<in> set (frees @ allocs)" for c
      using sizes [OF that] by (simp add: bend_def)
    have eb: "bend s' b = unat b + 4096" by (simp add: bend_def sz)
    have old_apart: "bend s' c \<le> unat d \<or> bend s' d \<le> unat c"
      if "c \<in> set (frees @ allocs)" "d \<in> set (frees @ allocs)" "c \<noteq> d" for c d
      using bl that old unfolding blocks_ok_def by simp
    show ?thesis
      unfolding blocks_ok_def
    proof (intro conjI ballI impI)
      show "distinct (b # frees @ allocs)" using bl nin by (simp add: blocks_ok_def)
      show "unat HEAP_START \<le> unat c" "bend s' c \<le> unat (heap_top s')" if "c \<in> set (b # frees @ allocs)" for c
        using that below [of c] lo eb tp by (auto simp: b_def)
      show "bend s' c \<le> unat d \<or> bend s' d \<le> unat c"
        if "c \<in> set (b # frees @ allocs)" "d \<in> set (b # frees @ allocs)" "c \<noteq> d" for c d
        using that below(2) old_apart by (cases "c = b"; cases "d = b") auto
    qed
  qed
  then show "heap_ok s' (b # frees) allocs" using chain tp lim by (simp add: heap_ok_def b_def)
  show "payload_kept allocs s s'"
    unfolding payload_kept_def by (intro ballI conjI allI impI) (rule sizes keep, simp_all)+
qed

lemma heap_expand_page_ok:
  fixes s :: "'z heap_state_scheme"
  assumes ok: "heap_ok s frees allocs" and vm: "heap_vm s fs" and fs: "4 \<le> length fs"
    and lim: "unat (heap_top s) + 4096 \<le> heap_limit" and lo: "unat HEAP_START \<le> unat (heap_top s)"
  shows "\<exists>s' fs' g. heap_expand_page s = Inr ((), s') \<and> heap_ok s' (heap_top s # frees) allocs \<and> heap_vm s' fs' \<and>
    length fs \<le> length fs' + 4 \<and> bsize s' (heap_top s) = 4072 \<and> payload_kept allocs s s' \<and>
    (\<forall>c\<in>set frees. bsize s' c = bsize s c) \<and> heap_top s' = heap_top s + 0x1000 \<and> g \<in> set fs \<and> g \<notin> set fs' \<and>
    paging_get_entry (kernel_pml4 s') (heap_top s) s' = leaf_entry g (ENTRY_FLAG_PRESENT OR ENTRY_FLAG_RW) \<and>
    kernel_pml4 s' = kernel_pml4 s"
proof -
  let ?k = "kernel_pml4 s" and ?b = "heap_top s"
  have pt: "pt_inv s ?k fs" "page_aligned ?b" using vm by (simp_all add: heap_vm_def)
  from back_page [OF pt(1) fs pt(2), of "ENTRY_FLAG_PRESENT OR ENTRY_FLAG_RW"] obtain g fs' t where
    t: "(let (phys, s1) = frame_alloc s in paging_map_page ?k ?b phys 0x1000 (ENTRY_FLAG_PRESENT OR ENTRY_FLAG_RW) s1) = Inr ((), t)"
    "pt_inv t ?k fs'" "pt_step ?k s fs t fs'" "g \<in> set fs" "g \<notin> set fs'" "length fs \<le> length fs' + 4"
    "\<forall>w. paging_get_entry ?k w t = (if same_page w ?b then leaf_entry g (ENTRY_FLAG_PRESENT OR ENTRY_FLAG_RW)
      else paging_get_entry ?k w s)" by blast
  note tf = pt_step_heap_fields [OF t(3)] and tk = pt_step_fields(2) [OF t(3)]
  have mem_t: "mem t x = mem s x" if "unat HEAP_START \<le> unat x" "unat x < heap_limit" for x
    using vm t(3) that by (auto simp: heap_vm_def pt_step_def)
  have bl: "blocks_ok s (frees @ allocs)" using ok by (simp add: heap_ok_def)
  have inb: "unat HEAP_START \<le> unat c" "bend s c \<le> unat ?b" if "c \<in> set (frees @ allocs)" for c
    using bl that unfolding blocks_ok_def by auto
  have hdr: "get64 (c + i) t = get64 (c + i) s" if c: "c \<in> set (frees @ allocs)" and i: "unat i \<le> 16" for c i
  proof (rule get64_same [where n = 24])
    show "unat i + 8 \<le> 24" using i by linarith
    fix x assume "unat (x - c) < 24"
    moreover have "x = c + (x - c)" by simp
    ultimately have "unat x = unat c + unat (x - c)"
      using block_nat [OF bl c heap_top_bound [OF ok], of "x - c"] by simp
    then show "mem t x = mem s x" using inb [OF c] \<open>unat (x - c) < 24\<close> lim by (intro mem_t) (auto simp: bend_def)
  qed
  have sizes: "bsize t c = bsize s c" if "c \<in> set (frees @ allocs)" for c using hdr [OF that, of 8] by (simp add: bsize_def)
  have "region_chain t (free_list t) frees = region_chain s (free_list s) frees"
    unfolding tf(1) by (rule region_chain_cong) (simp add: hdr)
  moreover have "blocks_ok t (frees @ allocs) = blocks_ok s (frees @ allocs)"
    by (rule blocks_ok_cong [OF sizes tf(2)])
  ultimately have okt: "heap_ok t frees allocs" using ok by (simp add: heap_ok_def tf(2))
  have pay: "payload_kept allocs s t"
    unfolding payload_kept_def
  proof (intro ballI conjI allI impI)
    fix c assume c: "c \<in> set allocs"
    then show "bsize t c = bsize s c" using sizes by simp
    fix x :: u64 assume "unat c \<le> unat x" "unat x < bend s c"
    then show "mem t x = mem s x" using inb [of c] c lim by (intro mem_t) auto
  qed
  note n = new_block_ok [OF okt, unfolded tf(2), OF lim lo]
  let ?s' = "new_block ?b t"
  have "payload_kept allocs s ?s'" using pay n(3) by (auto simp: payload_kept_def bend_def)
  moreover have inv': "pt_inv ?s' ?k fs'" "footprint ?s' ?k fs' = footprint t ?k fs'"
    "\<And>w. paging_get_entry ?k w ?s' = paging_get_entry ?k w t"
  proof -
    have bnd: "unat ?b + 4096 < 18446744073709551616" by (rule heap_top_bound [OF ok])
    have agree: "mem ?s' x = mem t x" if "x \<in> footprint t ?k fs'" for x
    proof (rule n(5))
      have "x \<in> footprint s ?k fs" using that t(3) by (auto simp: pt_step_def)
      then have "\<not> (unat HEAP_START \<le> unat x \<and> unat x < heap_limit)" using vm unfolding heap_vm_def by blast
      then show "unat x < unat ?b \<or> unat ?b + 24 \<le> unat x" using lo lim by linarith
    qed
    have same: "offset ?s' = offset t" "page_list ?s' = page_list t" by (simp_all add: new_block_def)
    note fr = pt_inv_frame_rule [OF t(2) agree same]
    show "pt_inv ?s' ?k fs'" "footprint ?s' ?k fs' = footprint t ?k fs'"
      "\<And>w. paging_get_entry ?k w ?s' = paging_get_entry ?k w t" using fr by simp_all
  qed
  moreover have kp: "kernel_pml4 ?s' = ?k" "heap_top ?s' = ?b + 0x1000" using tk by (simp_all add: new_block_def)
  moreover have "heap_vm ?s' fs'"
  proof -
    have "footprint ?s' ?k fs' \<subseteq> footprint s ?k fs" using inv'(2) t(3) by (simp add: pt_step_def)
    moreover have "page_aligned (?b + 0x1000)" using pt(2) by (rule page_aligned_add) (simp add: page_aligned_def)
    ultimately show ?thesis using vm inv'(1) by (auto simp: heap_vm_def kp)
  qed
  ultimately show ?thesis
    using heap_expand_page_eq [OF t(1) tf(2)] n(1,2,4) t(4-7) sizes
    by (intro exI [of _ ?s'] exI [of _ fs'] exI [of _ g] conjI) simp_all
qed

subsection \<open>Several pages\<close>

lemma payload_kept_refl: "payload_kept bs s s"
  by (simp add: payload_kept_def)

lemma payload_kept_trans: "payload_kept bs s s1 \<Longrightarrow> payload_kept bs s1 s2 \<Longrightarrow> payload_kept bs s s2"
  by (auto simp: payload_kept_def bend_def)

definition heap_ready :: "'z heap_state_scheme \<Rightarrow> u64 list \<Rightarrow> u64 list \<Rightarrow> u64 list \<Rightarrow> nat \<Rightarrow> bool" where
  "heap_ready s frees allocs fs n \<longleftrightarrow> heap_ok s frees allocs \<and> heap_vm s fs \<and> 4 * n \<le> length fs \<and>
     unat HEAP_START \<le> unat (heap_top s) \<and> unat (heap_top s) + 4096 * n \<le> heap_limit"

lemma heap_expand_ok:
  fixes s :: "'z heap_state_scheme"
  shows "heap_ready s frees allocs fs (n + k) \<Longrightarrow>
    \<exists>s' fs' new. heap_expand n s = Inr ((), s') \<and> heap_ready s' (new @ frees) allocs fs' k \<and> length new = n \<and>
      (\<forall>b\<in>set new. bsize s' b = 4072) \<and> (\<forall>c\<in>set frees. bsize s' c = bsize s c) \<and> payload_kept allocs s s' \<and>
      unat (heap_top s') = unat (heap_top s) + 4096 * n"
proof (induction n arbitrary: s frees fs)
  case 0
  then show ?case by (intro exI [of _ s] exI [of _ fs] exI [of _ "[]"]) (simp add: kret_def payload_kept_refl)
next
  case (Suc n)
  have r: "heap_ok s frees allocs" "heap_vm s fs" "4 \<le> length fs" "unat (heap_top s) + 4096 \<le> heap_limit"
    "unat HEAP_START \<le> unat (heap_top s)" "4 * (Suc n + k) \<le> length fs"
    "unat (heap_top s) + 4096 * (Suc n + k) \<le> heap_limit"
    using Suc.prems by (auto simp: heap_ready_def)
  from heap_expand_page_ok [OF r(1-5)] obtain s1 fs1 where
    e: "heap_expand_page s = Inr ((), s1)" "heap_ok s1 (heap_top s # frees) allocs" "heap_vm s1 fs1"
    "length fs \<le> length fs1 + 4" "bsize s1 (heap_top s) = 4072" "payload_kept allocs s s1"
    "\<forall>c\<in>set frees. bsize s1 c = bsize s c" "heap_top s1 = heap_top s + 0x1000" by blast
  have t1: "unat (heap_top s1) = unat (heap_top s) + 4096"
    using heap_top_bound [OF r(1)] by (simp add: e(8) unat_plus_if')
  have "heap_ready s1 (heap_top s # frees) allocs fs1 (n + k)"
    using e(2-4) r(5-7) t1 by (simp add: heap_ready_def)
  from Suc.IH [OF this] obtain s2 fs2 new where
    i: "heap_expand n s1 = Inr ((), s2)" "heap_ready s2 (new @ heap_top s # frees) allocs fs2 k" "length new = n"
    "\<forall>b\<in>set new. bsize s2 b = 4072" "\<forall>c\<in>set (heap_top s # frees). bsize s2 c = bsize s1 c"
    "payload_kept allocs s1 s2" "unat (heap_top s2) = unat (heap_top s1) + 4096 * n" by blast
  show ?case
    using e i t1 payload_kept_trans [OF e(6) i(6)]
    by (intro exI [of _ s2] exI [of _ fs2] exI [of _ "new @ [heap_top s]"]) auto
qed

subsection \<open>Header writes and the translation\<close>

lemma heap_vm_put64:
  assumes vm: "heap_vm s fs" and a: "unat HEAP_START \<le> unat a" "unat a + 8 \<le> heap_limit"
  shows "heap_vm (put64 a v s) fs"
proof -
  have a64: "unat a + 8 \<le> 18446744073709551616" using a(2) by (simp add: unat_HEAP_START)
  have pt: "pt_inv s (kernel_pml4 s) fs" using vm by (simp add: heap_vm_def)
  have agree: "mem (put64 a v s) x = mem s x" if "x \<in> footprint s (kernel_pml4 s) fs" for x
  proof (rule mem_put64_far [OF _ a64])
    have "\<not> (unat HEAP_START \<le> unat x \<and> unat x < heap_limit)" using vm that by (auto simp: heap_vm_def)
    then show "unat x < unat a \<or> unat a + 8 \<le> unat x" using a by linarith
  qed
  have same: "offset (put64 a v s) = offset s" "page_list (put64 a v s) = page_list s" by simp_all
  note fr = pt_inv_frame_rule [OF pt agree same]
  show ?thesis using vm fr(1,2) by (simp add: heap_vm_def)
qed

lemma heap_vm_free_list [simp]: "heap_vm (s\<lparr>free_list := x\<rparr>) fs = heap_vm s fs"
  by (simp add: heap_vm_def pt_inv_def free_frames_def footprint_def)

lemma header_in_heap:
  assumes "heap_ok s frees allocs" and "b \<in> set (frees @ allocs)" and "inside s b a"
  shows "unat HEAP_START \<le> unat a" and "unat a + 8 \<le> heap_limit"
  using assms unfolding heap_ok_def blocks_ok_def inside_def by fastforce+

lemma link_inside:
  assumes "blocks_ok s bs" and "b \<in> set bs" and "unat (heap_top s) + 4096 < 18446744073709551616"
  shows "inside s b (b + 16)"
  using block_nat [OF assms, of 16] by (simp add: inside_def bend_def)

lemma heap_vm_unlink:
  assumes ok: "heap_ok s (pre @ cur # rest) allocs" and prev: "prev = (if pre = [] then 0 else last pre)"
    and vm: "heap_vm s fs"
  shows "heap_vm (unlink_block prev cur s) fs"
proof -
  have bl: "blocks_ok s ((pre @ cur # rest) @ allocs)" using ok by (simp add: heap_ok_def)
  have h: "unat HEAP_START \<le> unat (b + 16)" "unat (b + 16) + 8 \<le> heap_limit" if "b \<in> set (pre @ cur # rest)" for b
  proof -
    have b: "b \<in> set ((pre @ cur # rest) @ allocs)" using that by auto
    note i = link_inside [OF bl b heap_top_bound [OF ok]]
    show "unat HEAP_START \<le> unat (b + 16)" by (rule header_in_heap(1) [OF ok b i])
    show "unat (b + 16) + 8 \<le> heap_limit" by (rule header_in_heap(2) [OF ok b i])
  qed
  show ?thesis
    using vm h [of cur] h [of "last pre"] by (auto simp: unlink_block_def prev heap_vm_put64)
qed

lemma heap_vm_split:
  assumes ok: "heap_ok s (pre @ cur # rest) allocs" and fits: "unat sz \<le> bsize s cur" and vm: "heap_vm s fs"
  shows "heap_vm (split_block cur sz s) fs"
proof -
  have bl: "blocks_ok s ((pre @ cur # rest) @ allocs)" using ok by (simp add: heap_ok_def)
  then have e: "bend s cur + 4096 < 18446744073709551616"
    using heap_top_bound [OF ok] by (simp add: blocks_ok_def)
  show ?thesis
  proof (cases "splits s cur sz")
    case True
    note f = split_writes_fields [OF True e]
    have h: "unat HEAP_START \<le> unat a" "unat a + 8 \<le> heap_limit" if "inside s cur a" for a
      using header_in_heap [OF ok _ that] by simp_all
    show ?thesis
      unfolding f(1) split_writes_def Let_def
      by (intro heap_vm_put64 vm h f(3-7))
  next
    case False
    have "unat (sz + 24 + 16) = unat sz + 40" using fits e by (simp add: bend_def unat_plus_if')
    then show ?thesis using vm False by (auto simp: split_block_def splits_def bsize_def word_le_nat_alt)
  qed
qed

subsection \<open>kmalloc\<close>

definition kmalloc_result :: "u64 \<Rightarrow> u64 list \<Rightarrow> u64 \<Rightarrow> 'z heap_state_scheme \<Rightarrow> 'z heap_state_scheme \<Rightarrow> u64 list \<Rightarrow> bool" where
  "kmalloc_result sz allocs b s s' fs' \<longleftrightarrow>
     (\<exists>frees'. heap_ok s' frees' (b # allocs)) \<and> heap_vm s' fs' \<and> unat sz \<le> bsize s' b \<and> payload_kept allocs s s'"

lemma kmalloc_found:
  assumes ok: "heap_ok s frees allocs" and vm: "heap_vm s fs" and sz: "0 < sz" "unat sz + 15 < 18446744073709551616"
    and fit: "first_fit s (align16 sz) frees = Some b"
  shows "\<exists>s'. kmalloc_run sz s = Some (Inr (b + 24, s')) \<and> kmalloc_result sz allocs b s s' fs \<and> heap_top s' = heap_top s"
proof -
  from kmalloc_scan_Some [OF ok fit] obtain s' pre rest where
    k: "frees = pre @ b # rest" "kmalloc_scan 0 (free_list s) (align16 sz) s = Some (Some (b + 24), s')"
    "heap_ok s' (pre @ (if splits s b (align16 sz) then (b + 24 + align16 sz) # rest else rest)) (b # allocs)"
    "bsize s' b = (if splits s b (align16 sz) then unat (align16 sz) else bsize s b)" "unat (align16 sz) \<le> bsize s b"
    "payload_kept allocs s s'" "heap_top s' = heap_top s"
    and s': "s' = unlink_block (if pre = [] then 0 else last pre) b (split_block b (align16 sz) s)" by blast
  have "heap_vm s' fs"
    unfolding s' by (rule heap_vm_unlink [OF split_block_ok(1) [OF ok [unfolded k(1)] k(5)] refl
      heap_vm_split [OF ok [unfolded k(1)] k(5) vm]])
  moreover have "unat sz \<le> bsize s' b" using align16_ge [OF sz(2)] k(4,5) by (simp split: if_splits)
  moreover have "kmalloc_run sz s = Some (Inr (b + 24, s'))" using sz(1) k(2) by (auto simp: kmalloc_run_step)
  ultimately show ?thesis using k(3,6,7) unfolding kmalloc_result_def by blast
qed

text \<open>When no block fits, the heap grows by the pages the request would need, and the search starts again.\<close>

definition grow_pages :: "u64 \<Rightarrow> nat" where
  "grow_pages sz = unat ((align16 sz + 24 + 0xFFF) div 0x1000)"

lemma kmalloc_grows:
  assumes ready: "heap_ready s frees allocs fs (grow_pages sz + k)" and sz: "0 < sz" "unat sz + 15 < 18446744073709551616"
    and nofit: "first_fit s (align16 sz) frees = None"
  shows "\<exists>s' fs' new. kmalloc_run sz s = kmalloc_run (align16 sz) s' \<and> heap_ready s' (new @ frees) allocs fs' k \<and>
    length new = grow_pages sz \<and> (\<forall>b\<in>set new. bsize s' b = 4072) \<and> (\<forall>c\<in>set frees. bsize s' c = bsize s c) \<and>
    payload_kept allocs s s'"
proof -
  have ok: "heap_ok s frees allocs" using ready by (simp add: heap_ready_def)
  from heap_expand_ok [OF ready] obtain s' fs' new where
    e: "heap_expand (grow_pages sz) s = Inr ((), s')" "heap_ready s' (new @ frees) allocs fs' k" "length new = grow_pages sz"
    "\<forall>b\<in>set new. bsize s' b = 4072" "\<forall>c\<in>set frees. bsize s' c = bsize s c" "payload_kept allocs s s'" by blast
  have "kmalloc_run sz s = kmalloc_run (align16 sz) s'"
    using sz(1) kmalloc_scan_None [OF ok nofit] e(1) by (subst kmalloc_run_step) (auto simp: grow_pages_def)
  then show ?thesis using e by blast
qed

lemma kmalloc_small:
  assumes ready: "heap_ready s frees allocs fs 1" and sz: "0 < sz" "unat (align16 sz) \<le> 4072" "unat sz + 15 < 18446744073709551616"
  shows "\<exists>b s' fs'. kmalloc sz s = Inr (b + 24, s') \<and> kmalloc_result sz allocs b s s' fs'"
proof (cases "first_fit s (align16 sz) frees")
  case (Some b)
  have "heap_ok s frees allocs" "heap_vm s fs" using ready by (simp_all add: heap_ready_def)
  from kmalloc_found [OF this sz(1,3) Some] show ?thesis by (auto simp: kmalloc_def)
next
  case None
  let ?n = "align16 sz"
  have n: "unat ?n = 16 * ((unat sz + 15) div 16)" by (rule unat_align16 [OF sz(3)])
  have pos: "0 < ?n" using align16_ge [OF sz(3)] sz(1) by (simp add: word_less_nat_alt)
  have "unat (?n + 24 + 0xFFF) = unat ?n + 4119" using sz(2) by (simp add: unat_plus_if')
  then have "unat ((?n + 24 + 0xFFF) div 0x1000) = (unat ?n + 4119) div 4096" by (simp add: unat_div_distrib)
  also have "\<dots> = 1" using sz(2) pos by (simp add: word_less_nat_alt)
  finally have g: "grow_pages sz = 1" by (simp add: grow_pages_def)
  have "heap_ready s frees allocs fs (grow_pages sz + 0)" using ready g by simp
  from kmalloc_grows [OF this sz(1,3) None] g obtain s1 fs1 new where
    e: "kmalloc_run sz s = kmalloc_run ?n s1" "heap_ready s1 (new @ frees) allocs fs1 0" "length new = 1"
    "\<forall>b\<in>set new. bsize s1 b = 4072" "payload_kept allocs s s1" by auto
  obtain b0 where new: "new = [b0]" using e(3) by (auto simp: length_Suc_conv)
  have i: "align16 ?n = ?n" by (rule align16_idem [OF sz(3)])
  have "first_fit s1 (align16 ?n) (new @ frees) = Some b0" using e(4) sz(2) by (simp add: first_fit_def new i)
  moreover have "heap_ok s1 (new @ frees) allocs" "heap_vm s1 fs1" using e(2) by (simp_all add: heap_ready_def)
  moreover have "unat ?n + 15 < 18446744073709551616" using sz(2) by simp
  ultimately obtain s' where s': "kmalloc_run ?n s1 = Some (Inr (b0 + 24, s'))" "kmalloc_result ?n allocs b0 s1 s' fs1"
    using kmalloc_found [of s1 "new @ frees" allocs fs1 ?n b0] pos by auto
  have "kmalloc_result sz allocs b0 s s' fs1"
    using s'(2) align16_ge [OF sz(3)] payload_kept_trans [OF e(5)] unfolding kmalloc_result_def by auto
  then show ?thesis using e(1) s'(1) by (auto simp: kmalloc_def)
qed

text \<open>
  No page's block is larger than 4072 bytes and blocks are never merged, so a larger request
  finds nothing however often the heap grows.
\<close>

lemma kmalloc_large_retries:
  assumes ready: "heap_ready s frees allocs fs (grow_pages sz + k)" and large: "4072 < unat (align16 sz)"
    and sz: "0 < sz" "unat sz + 15 < 18446744073709551616" and small: "\<forall>b\<in>set frees. bsize s b \<le> 4072"
  shows "\<exists>s' fs' frees'. kmalloc_run sz s = kmalloc_run (align16 sz) s' \<and> heap_ready s' frees' allocs fs' k \<and>
    (\<forall>b\<in>set frees'. bsize s' b \<le> 4072) \<and> length frees' = length frees + grow_pages sz"
proof -
  have "first_fit s (align16 sz) frees = None"
    using small large unfolding first_fit_def find_None_iff by fastforce
  from kmalloc_grows [OF ready sz this] obtain s' fs' new where
    "kmalloc_run sz s = kmalloc_run (align16 sz) s'" "heap_ready s' (new @ frees) allocs fs' k"
    "length new = grow_pages sz" "\<forall>b\<in>set new. bsize s' b = 4072" "\<forall>c\<in>set frees. bsize s' c = bsize s c" by blast
  then show ?thesis using small by (intro exI [of _ s'] exI [of _ fs'] exI [of _ "new @ frees"]) auto
qed

subsection \<open>kfree\<close>

lemma kfree_ok:
  assumes ok: "heap_ok s frees (b # allocs)" and vm: "heap_vm s fs"
  shows "heap_ok (kfree (b + 24) s) (b # frees) allocs" and "heap_vm (kfree (b + 24) s) fs"
    and "payload_kept allocs s (kfree (b + 24) s)" and "bsize (kfree (b + 24) s) b = bsize s b"
proof -
  have bl: "blocks_ok s (frees @ b # allocs)" and ch: "region_chain s (free_list s) frees"
    and top: "unat (heap_top s) + 4096 < 18446744073709551616"
    using ok heap_top_bound [OF ok] by (simp_all add: heap_ok_def)
  have bin: "b \<in> set (frees @ b # allocs)" by simp
  have lo: "unat HEAP_START \<le> unat b" using bl by (simp add: blocks_ok_def)
  note in16 = link_inside [OF bl bin top]
  have b16: "unat (b + 16) = unat b + 16" "unat (b + 24) = unat b + 24"
    using block_nat [OF bl bin top] by simp_all
  then have nz: "b + 24 \<noteq> 0" "b \<noteq> 0" using lo unat_HEAP_START by auto
  let ?s' = "(put64 (b + 16) (free_list s) s)\<lparr>free_list := b\<rparr>"
  have eq: "kfree (b + 24) s = ?s'" using nz by (simp add: kfree_def Let_def)
  have other: "get64 (c + i) ?s' = get64 (c + i) s" if "c \<in> set (frees @ b # allocs)" "c \<noteq> b" "unat i \<le> 16" for c i
    using inside_sep [OF bl top bin in16 that] by (simp add: get64_put64_sep)
  have dist: "distinct (frees @ b # allocs)" using bl by (simp add: blocks_ok_def)
  have szb: "get64 (b + 8) ?s' = get64 (b + 8) s" using field_sep [of 8 16 b] by (simp add: get64_put64_sep)
  have sizes: "bsize ?s' c = bsize s c" if "c \<in> set (frees @ b # allocs)" for c
    using other [OF that, of 8] szb by (cases "c = b") (simp_all add: bsize_def)
  show "bsize (kfree (b + 24) s) b = bsize s b" unfolding eq by (rule sizes [OF bin])
  have "region_chain ?s' p frees = region_chain s p frees" for p
    by (rule region_chain_cong, rule other) (use dist in auto)
  then have "region_chain ?s' (free_list ?s') (b # frees)" using ch nz by simp
  moreover have "blocks_ok ?s' ((b # frees) @ allocs)"
  proof (rule blocks_ok_set)
    have "blocks_ok ?s' (frees @ b # allocs) = blocks_ok s (frees @ b # allocs)"
      by (rule blocks_ok_cong [OF sizes]) simp_all
    then show "blocks_ok ?s' (frees @ b # allocs)" using bl by simp
  qed (use dist in auto)
  ultimately show "heap_ok (kfree (b + 24) s) (b # frees) allocs"
    using ok unfolding eq heap_ok_def by simp
  show "heap_vm (kfree (b + 24) s) fs"
    unfolding eq heap_vm_free_list by (rule heap_vm_put64 [OF vm header_in_heap [OF ok _ in16]]) simp_all
  show "payload_kept allocs s (kfree (b + 24) s)"
    unfolding eq payload_kept_def
  proof (intro ballI conjI allI impI)
    fix c assume c: "c \<in> set allocs"
    then show "bsize ?s' c = bsize s c" by (intro sizes) simp
    fix x :: u64 assume x: "unat c \<le> unat x" "unat x < bend s c"
    have "c \<in> set (frees @ b # allocs)" "c \<noteq> b" using c dist by auto
    note f = mem_put64_far [OF inside_far [OF bl top bin in16 this x]]
    show "mem ?s' x = mem s x" by (simp add: f)
  qed
qed

end
