(* ===== verification/Boot_Machine.thy ===== *)
theory Boot_Machine
  imports Heap_Alloc
begin

text \<open>
  A concrete machine on which the theorems about memory management are instantiated: the
  higher-half map at 0xFFFF800000000000, an empty root table in the frame at 0x100000, and
  sixteen frames from 0x200000 on, handed to the frame allocator one after the other.
\<close>

definition boot_offset :: u64 where "boot_offset = 0xFFFF800000000000"

definition boot_pages :: "u64 list" where "boot_pages = region_pages 0x200000 16"

definition boot_base :: heap_state where
  "boot_base = \<lparr>mem = (\<lambda>_. 0), offset = boot_offset, page_list = 0, kernel_pml4 = boot_offset + 0x100000,
     cr3 = 0x100000, invlpg_log = [], free_list = 0, heap_top = HEAP_START\<rparr>"

definition boot_machine :: heap_state where
  "boot_machine = fold frame_free boot_pages boot_base"

lemma unat_boot_page: "i < 16 \<Longrightarrow> unat (0x200000 + of_nat (4096 * i) :: u64) = 0x200000 + 4096 * i"
  by (simp add: unat_word_ariths unat_of_nat64)

lemma boot_pages_wf:
  assumes "p \<in> set boot_pages"
  shows "p \<noteq> 0" and "page_aligned p" and "0x200000 \<le> unat p" and "unat p < 0x210000"
proof -
  obtain i where i: "i < 16" "p = 0x200000 + of_nat (4096 * i)"
    using assms by (auto simp: boot_pages_def region_pages_def)
  have u: "unat p = 0x200000 + 4096 * i" unfolding i(2) by (rule unat_boot_page [OF i(1)])
  show "0x200000 \<le> unat p" "unat p < 0x210000" using u i(1) by simp_all
  show "p \<noteq> 0" using u by auto
  have "(0x200000 + 4096 * i) mod 4096 = 0" by presburger
  then show "page_aligned p" by (simp only: page_aligned_unat u)
qed

lemma boot_pages_distinct: "distinct boot_pages"
proof -
  have "inj_on (\<lambda>i. 0x200000 + of_nat (4096 * i) :: u64) {0..<16}"
  proof (rule inj_onI)
    fix i j :: nat
    assume ij: "i \<in> {0..<16}" "j \<in> {0..<16}" "(0x200000 + of_nat (4096 * i) :: u64) = 0x200000 + of_nat (4096 * j)"
    then have "0x200000 + 4096 * i = 0x200000 + 4096 * j"
      using unat_boot_page [of i] unat_boot_page [of j] by (metis atLeastLessThan_iff)
    then show "i = j" by simp
  qed
  then show ?thesis unfolding boot_pages_def region_pages_def by (simp only: distinct_map distinct_upt set_upt)
qed

lemma length_boot_pages: "length boot_pages = 16"
  by (simp add: boot_pages_def region_pages_def)

lemma frame_free_others:
  fixes s :: "'z heap_state_scheme"
  shows "offset (fold frame_free fs s) = offset s" "kernel_pml4 (fold frame_free fs s) = kernel_pml4 s"
    "free_list (fold frame_free fs s) = free_list s" "heap_top (fold frame_free fs s) = heap_top s"
    "invlpg_log (fold frame_free fs s) = invlpg_log s" "cr3 (fold frame_free fs s) = cr3 s"
  by (induction fs arbitrary: s) (simp_all add: frame_free_eq)

lemma frame_free_outside:
  "(\<And>f. f \<in> set fs \<Longrightarrow> 8 \<le> unat (x - (offset s + f))) \<Longrightarrow> mem (fold frame_free fs s) x = mem s x"
proof (induction fs arbitrary: s)
  case (Cons f fs)
  have "mem (fold frame_free fs (frame_free f s)) x = mem (frame_free f s) x"
    by (rule Cons.IH) (use Cons.prems in \<open>simp add: frame_free_eq\<close>)
  also have "\<dots> = mem s x"
    using Cons.prems [of f] by (simp add: frame_free_eq store64_def put_bytes_outside)
  finally show ?case by simp
qed simp

lemma boot_fields [simp]:
  "offset boot_machine = boot_offset" "kernel_pml4 boot_machine = boot_offset + 0x100000"
  "free_list boot_machine = 0" "heap_top boot_machine = HEAP_START" "invlpg_log boot_machine = []"
  by (simp_all add: boot_machine_def frame_free_others boot_base_def)

lemma boot_free: "free_frames boot_machine (rev boot_pages)"
proof -
  have "free_frames boot_base []" by (simp add: free_frames_def boot_base_def)
  from fp.free_all [OF this, of boot_pages] boot_pages_wf boot_pages_distinct
  show ?thesis by (simp add: boot_machine_def)
qed

lemma boot_root_zero: "load64 (pte_addr (boot_offset + 0x100000) v l) (mem boot_machine) = 0"
proof -
  have "mem boot_machine x = 0" if x: "unat (x - (boot_offset + 0x100000)) < 4096" for x
  proof -
    define d where "d = x - (boot_offset + 0x100000)"
    have d: "unat d < 4096" using x by (simp add: d_def)
    have "8 \<le> unat (x - (boot_offset + f))" if "f \<in> set boot_pages" for f
    proof -
      have "x - (boot_offset + f) = 0x100000 + d - f" by (simp add: d_def)
      moreover have "unat (0x100000 + d :: u64) = 0x100000 + unat d" using d by (simp add: unat_word_ariths)
      moreover have "unat f < unat (0x100000 + d) + 18446744073709551616" "8 \<le> unat (0x100000 + d) + 18446744073709551616 - unat f"
        "unat (0x100000 + d) < unat f"
        using boot_pages_wf(3,4) [OF that] d calculation(2) by simp_all
      ultimately show ?thesis by (simp only: unat_sub_if' if_False not_le [symmetric]) simp
    qed
    then show ?thesis
      unfolding boot_machine_def by (subst frame_free_outside) (simp_all add: boot_base_def)
  qed
  then have "load64 (pte_addr (boot_offset + 0x100000) v l) (mem boot_machine) =
      load64 (pte_addr (boot_offset + 0x100000) v l) (\<lambda>_. 0)"
    by (intro load_pte_cong) simp
  also have "load64 a (\<lambda>_. 0) = 0" for a
    by (simp add: load64_def get_bytes_def map_replicate_trivial numeral_eq_Suc)
  finally show ?thesis .
qed

lemma boot_tables: "pt_table (mem boot_machine) boot_offset (boot_offset + 0x100000) v d =
    (if d = 0 then Some (boot_offset + 0x100000) else None)"
  by (induction d) (auto simp: boot_root_zero present_def Let_def)

lemma boot_phys_ok: "p \<in> set boot_pages \<Longrightarrow> phys_ok p"
proof -
  assume p: "p \<in> set boot_pages"
  have m: "(0x000FFFFFFFFFF000 :: u64) = mask 52 AND NOT (mask 12)" by (simp add: mask_eq_exp_minus_1)
  have "\<not> bit p n" if "52 \<le> n" for n
    by (rule word_bit_ge [OF _ that]) (use boot_pages_wf(4) [OF p] in simp)
  moreover have "\<not> bit p n" if "n < 12" for n
    using boot_pages_wf(2) [OF p] that by (metis bit_0_eq bit_take_bit_iff bot_apply bot_bool_def page_aligned_take_bit)
  ultimately have b: "bit p n \<Longrightarrow> 12 \<le> n \<and> n < 52" for n by (meson not_le)
  show ?thesis
    unfolding phys_ok_def ENTRY_4K_ADDRESS_MASK_def m
  proof (rule bit_word_eqI)
    fix n assume "n < LENGTH(64)"
    then show "bit (p AND (mask 52 AND NOT (mask 12))) n = bit p n" using b [of n] by (auto simp: bit_simps)
  qed
qed

lemma boot_inv: "pt_inv boot_machine (kernel_pml4 boot_machine) (rev boot_pages)"
proof -
  have al: "page_aligned 0x100000" by (simp add: page_aligned_def)
  have "0x100000 \<notin> set boot_pages" using boot_pages_wf(3) [of "0x100000"] by auto
  then show ?thesis
    using boot_free boot_phys_ok al
    by (auto simp: pt_inv_def list_all_iff pt_tree_def pt_apart_def boot_tables same_prefix_def split: if_splits)
qed

lemma boot_footprint:
  assumes "x \<in> footprint boot_machine (kernel_pml4 boot_machine) (rev boot_pages)"
  shows "unat boot_offset + 0x100000 \<le> unat x" and "unat x < unat boot_offset + 0x211000"
proof -
  have "\<exists>p. 0x100000 \<le> unat p \<and> unat p < 0x210000 \<and> unat (x - (boot_offset + p)) < 4096"
    using assms boot_pages_wf(3,4) unfolding footprint_def
    by (force simp: boot_tables split: if_splits intro: exI [of _ "0x100000"])
  then obtain p where p: "0x100000 \<le> unat p" "unat p < 0x210000" "unat (x - (boot_offset + p)) < 4096" by blast
  define d where "d = x - (boot_offset + p)"
  have "x = boot_offset + p + d" by (simp add: d_def)
  moreover have "unat (boot_offset + p + d) = unat boot_offset + unat p + unat d"
    using p [folded d_def] by (simp add: boot_offset_def unat_word_ariths)
  ultimately show "unat boot_offset + 0x100000 \<le> unat x" "unat x < unat boot_offset + 0x211000"
    using p by (simp_all add: d_def)
qed

lemma boot_heap_ready: "heap_ready boot_machine [] [] (rev boot_pages) 4"
proof -
  have "heap_ok boot_machine [] []" by (simp add: heap_ok_def blocks_ok_def)
  moreover have "x \<notin> footprint boot_machine (kernel_pml4 boot_machine) (rev boot_pages)"
    if "unat HEAP_START \<le> unat x" for x
    using boot_footprint(2) [of x] that by (auto simp: HEAP_START_def boot_offset_def)
  moreover have "page_aligned HEAP_START" by (simp add: HEAP_START_def page_aligned_def)
  ultimately show ?thesis
    using boot_inv by (simp add: heap_ready_def heap_vm_def length_boot_pages HEAP_START_def)
qed

end
