(* ===== verification/Heap_Properties.thy ===== *)
theory Heap_Properties
  imports Boot_Machine
begin

text \<open>
  The theorems about the kernel heap (\<open>src/kernel/src/memory/heap.c\<close>), instantiated on the
  machine of \<open>Boot_Machine\<close>.
\<close>

text \<open>C5. \<open>kmalloc\<close> of a size whose rounding fits in one page's block returns, after at most one
  expansion of the heap, a block of at least the size; the free list and the blocks handed out
  stay apart, and the contents of every block handed out before are untouched.\<close>

theorem kmalloc_gives_block:
  assumes "heap_ready s frees allocs fs 1" and "0 < sz" and "unat (align16 sz) \<le> 4072"
    and "unat sz + 15 < 18446744073709551616"
  shows "\<exists>b s' fs' frees'. kmalloc sz s = Inr (b + 24, s') \<and> heap_ok s' frees' (b # allocs) \<and> heap_vm s' fs' \<and>
    unat sz \<le> bsize s' b \<and> payload_kept allocs s s'"
  using kmalloc_small [OF assms] unfolding kmalloc_result_def by blast

lemma boot_heap_1: "heap_ready boot_machine [] [] (rev boot_pages) 1"
  using boot_heap_ready by (simp add: heap_ready_def)

lemma unat_align16_100: "unat (align16 100) = 112"
  by (simp add: unat_align16)

lemma kmalloc_gives_block_witness:
  "\<exists>b s'. kmalloc 100 boot_machine = Inr (b + 24, s') \<and> 100 \<le> bsize s' b"
  using kmalloc_gives_block [OF boot_heap_1, of 100] by (auto simp: unat_align16_100)

lemma grow_pages_align: "unat sz + 15 < 18446744073709551616 \<Longrightarrow> grow_pages (align16 sz) = grow_pages sz"
  by (simp add: grow_pages_def align16_idem)

text \<open>C30. A request of more than 4072 bytes is never satisfied by growing the heap: every
  expansion adds separate blocks of 4072 bytes, which nothing joins, so the search starts over
  for as long as there are frames, here for any number \<open>k\<close> of rounds.\<close>

theorem kmalloc_never_satisfied:
  assumes "heap_ready s frees allocs fs (Suc k * grow_pages sz)" and "4072 < unat (align16 sz)"
    and "0 < sz" and "unat sz + 31 < 18446744073709551616" and "\<forall>b\<in>set frees. bsize s b \<le> 4072"
  shows "\<exists>s' frees'. kmalloc_run sz s = kmalloc_run (align16 sz) s' \<and> heap_ok s' frees' allocs \<and>
    (\<forall>b\<in>set frees'. bsize s' b \<le> 4072) \<and> length frees' = length frees + Suc k * grow_pages sz"
proof -
  have sz: "unat sz + 15 < 18446744073709551616" using assms(4) by simp
  have a: "align16 (align16 sz) = align16 sz" "0 < align16 sz" "unat (align16 sz) + 15 < 18446744073709551616"
  proof -
    show "align16 (align16 sz) = align16 sz" using sz by (rule align16_idem)
    show "0 < align16 sz" using assms(2) by (simp add: word_less_nat_alt)
    have "unat (align16 sz) \<le> unat sz + 15" using unat_align16 [OF sz] by linarith
    then show "unat (align16 sz) + 15 < 18446744073709551616" using unat_align16 [OF sz] assms(4) by linarith
  qed
  have g: "grow_pages (align16 sz) = grow_pages sz" by (rule grow_pages_align [OF sz])
  have "\<exists>s' fs' frees'. kmalloc_run sz s = kmalloc_run (align16 sz) s' \<and> heap_ready s' frees' allocs fs' ((k - j) * grow_pages sz) \<and>
    (\<forall>b\<in>set frees'. bsize s' b \<le> 4072) \<and> length frees' = length frees + Suc j * grow_pages sz" if "j \<le> k" for j
    using that
  proof (induction j)
    case 0
    show ?case
      using kmalloc_large_retries [of s frees allocs fs sz "k * grow_pages sz", OF _ assms(2,3) sz assms(5)] assms(1) by simp
  next
    case (Suc j)
    then obtain s1 fs1 frees1 where h: "kmalloc_run sz s = kmalloc_run (align16 sz) s1"
      "heap_ready s1 frees1 allocs fs1 ((k - j) * grow_pages sz)" "\<forall>b\<in>set frees1. bsize s1 b \<le> 4072"
      "length frees1 = length frees + Suc j * grow_pages sz" by auto
    have "(k - j) * grow_pages sz = grow_pages (align16 sz) + (k - Suc j) * grow_pages sz"
      using Suc.prems g by (metis Suc_diff_Suc Suc_le_eq mult_Suc)
    with h(2) have r: "heap_ready s1 frees1 allocs fs1 (grow_pages (align16 sz) + (k - Suc j) * grow_pages sz)" by simp
    from kmalloc_large_retries [OF r _ a(2,3) h(3)] assms(2) obtain s2 fs2 frees2 where
      n: "kmalloc_run (align16 sz) s1 = kmalloc_run (align16 sz) s2" "heap_ready s2 frees2 allocs fs2 ((k - Suc j) * grow_pages sz)"
      "\<forall>b\<in>set frees2. bsize s2 b \<le> 4072" "length frees2 = length frees1 + grow_pages sz"
      by (auto simp: a(1) g)
    then have "length frees2 = length frees + Suc (Suc j) * grow_pages sz" using h(4) by simp
    then show ?case using n(1-3) h(1) by auto
  qed
  from this [of k] show ?thesis by (auto simp: heap_ready_def)
qed

lemma kmalloc_never_satisfied_witness:
  "\<exists>s' frees'. kmalloc_run 5000 boot_machine = kmalloc_run (align16 5000) s' \<and>
     heap_ok s' frees' [] \<and> length frees' = 4"
proof -
  have g: "unat (align16 5000) = 5008" by (simp add: unat_align16)
  then have "align16 5000 = 5008" by (simp add: word_unat_eq_iff)
  then have "grow_pages 5000 = 2" by (simp add: grow_pages_def)
  then have "heap_ready boot_machine [] [] (rev boot_pages) (Suc 1 * grow_pages 5000)"
    using boot_heap_ready by simp
  from kmalloc_never_satisfied [OF this] obtain s' frees' where
    "kmalloc_run 5000 boot_machine = kmalloc_run (align16 5000) s'" "heap_ok s' frees' []" "length frees' = 4"
    using g \<open>grow_pages 5000 = 2\<close> by auto
  then show ?thesis by blast
qed

text \<open>C29. A block that is freed goes to the front of the free list: the next \<open>kmalloc\<close> of a size
  that fits in it returns the same pointer, and the other blocks keep their contents over both
  calls.\<close>

theorem kfree_then_kmalloc:
  assumes "heap_ok s frees (b # allocs)" and "heap_vm s fs" and "0 < sz" and "unat sz + 15 < 18446744073709551616"
    and "unat (align16 sz) \<le> bsize s b"
  shows "\<exists>s'. kmalloc sz (kfree (b + 24) s) = Inr (b + 24, s') \<and> unat sz \<le> bsize s' b \<and> payload_kept allocs s s'"
proof -
  note k = kfree_ok [OF assms(1,2)]
  have "first_fit (kfree (b + 24) s) (align16 sz) (b # frees) = Some b"
    using assms(5) k(4) by (simp add: first_fit_def)
  from kmalloc_found [OF k(1,2) assms(3,4) this] obtain s' where
    s': "kmalloc_run sz (kfree (b + 24) s) = Some (Inr (b + 24, s'))" "kmalloc_result sz allocs b (kfree (b + 24) s) s' fs"
    by blast
  have "payload_kept allocs s s'"
    using s'(2) k(3) by (simp add: kmalloc_result_def payload_kept_def bend_def)
  then show ?thesis using s' by (auto simp: kmalloc_def kmalloc_result_def)
qed

lemma kfree_then_kmalloc_witness:
  "\<exists>b s1 s2. kmalloc 100 boot_machine = Inr (b + 24, s1) \<and> kmalloc 64 (kfree (b + 24) s1) = Inr (b + 24, s2)"
proof -
  obtain b s1 fs1 where a: "kmalloc 100 boot_machine = Inr (b + 24, s1)" "kmalloc_result 100 [] b boot_machine s1 fs1"
    using kmalloc_small [OF boot_heap_1, of 100] by (auto simp: unat_align16_100)
  then obtain frees where f: "heap_ok s1 frees [b]" "heap_vm s1 fs1" "100 \<le> bsize s1 b"
    by (auto simp: kmalloc_result_def)
  have "unat (align16 64) \<le> bsize s1 b" using f(3) by (simp add: unat_align16)
  from kfree_then_kmalloc [OF f(1,2) _ _ this] show ?thesis using a(1) by auto
qed

end
