(* ===== verification/Descriptors.thy ===== *)
theory Descriptors
  imports Prelude
begin

unbundle bit_operations_syntax

text \<open>
  Segment, task-state and interrupt descriptors
  (\<open>src/kernel/src/x86_64/gdt.c\<close>, \<open>src/kernel/src/x86_64/idt.c\<close>): the encoders, the tables they
  fill, the processor's registers that point to the tables, and the decoders of the processor's
  manual as the specification they are read by.
\<close>

subsection \<open>The global descriptor table\<close>

record gdt_entry =
  limit_low :: u16
  base_low :: u16
  base_middle :: u8
  access :: u8
  granularity :: u8
  base_high :: u8

record gdt_tss_entry =
  tss_length :: u16
  tss_base_low :: u16
  tss_base_mid :: u8
  tss_flags1 :: u8
  tss_flags2 :: u8
  tss_base_high :: u8
  tss_base_upper :: u32
  tss_reserved :: u32

record tss_entry =
  rsp0 :: u64
  ist1 :: u64
  io_map_base :: u16

text \<open>What the instructions \<open>lgdt\<close>, \<open>lidt\<close>, \<open>ltr\<close>, \<open>sti\<close>, \<open>cli\<close> and the moves to segment registers set;
  a descriptor-table register holds limit and base.\<close>

record cpu_state =
  gdtr :: "u16 \<times> u64"
  idtr :: "u16 \<times> u64"
  task_register :: u16
  cpu_cs :: u16
  cpu_ds :: u16
  cpu_es :: u16
  cpu_fs :: u16
  cpu_gs :: u16
  cpu_ss :: u16
  interrupts :: bool

record gdt_state = cpu_state +
  gdt_entries :: "gdt_entry list"
  gdt_tss :: gdt_tss_entry
  gdt_limit :: u16
  gdt_base :: u64
  tss :: tss_entry

definition gdt_encode_entry :: "u32 \<Rightarrow> u32 \<Rightarrow> u8 \<Rightarrow> u8 \<Rightarrow> gdt_entry" where
  "gdt_encode_entry base limit acc gran =
     \<lparr>limit_low = ucast (limit AND 0xFFFF),
      base_low = ucast (base AND 0xFFFF),
      base_middle = ucast (drop_bit 16 base AND 0xFF),
      access = acc,
      granularity = (gran AND 0xF0) OR ucast (drop_bit 16 limit AND 0x0F),
      base_high = ucast (drop_bit 24 base AND 0xFF)\<rparr>"

definition gdt_encode_tss :: "u64 \<Rightarrow> u16 \<Rightarrow> gdt_tss_entry" where
  "gdt_encode_tss base len =
     \<lparr>tss_length = len,
      tss_base_low = ucast (base AND 0xFFFF),
      tss_base_mid = ucast (drop_bit 16 base AND 0xFF),
      tss_flags1 = 0x89,
      tss_flags2 = 0x00,
      tss_base_high = ucast (drop_bit 24 base AND 0xFF),
      tss_base_upper = ucast (drop_bit 32 base AND 0xFFFFFFFF),
      tss_reserved = 0\<rparr>"

definition tss_set_kernel_stack :: "u64 \<Rightarrow> 'z gdt_state_scheme \<Rightarrow> 'z gdt_state_scheme" where
  "tss_set_kernel_stack sp s = s\<lparr>tss := (tss s)\<lparr>rsp0 := sp\<rparr>\<rparr>"

text \<open>
  The addresses of the three static objects come from the linker and are arguments. The
  table has eight entries; the task-state descriptor takes the sixth and seventh.
\<close>

definition gdt_flush :: "'z gdt_state_scheme \<Rightarrow> 'z gdt_state_scheme" where
  "gdt_flush s =
     (let s = s\<lparr>gdtr := (gdt_limit s, gdt_base s)\<rparr>;
          s = s\<lparr>cpu_ds := 0x10, cpu_es := 0x10, cpu_fs := 0x10, cpu_gs := 0x10, cpu_ss := 0x10\<rparr>
      in s\<lparr>cpu_cs := 0x08\<rparr>)"

definition tss_flush :: "'z gdt_state_scheme \<Rightarrow> 'z gdt_state_scheme" where
  "tss_flush s = s\<lparr>task_register := 0x28\<rparr>"

definition gdt_init :: "u64 \<Rightarrow> u64 \<Rightarrow> u64 \<Rightarrow> 'z gdt_state_scheme \<Rightarrow> 'z gdt_state_scheme" where
  "gdt_init ist_stack entries_addr tss_addr s =
     (let s = s\<lparr>tss := (tss s)\<lparr>rsp0 := 0, ist1 := ist_stack + 0x4000, io_map_base := 104\<rparr>\<rparr>;
          s = s\<lparr>gdt_limit := 8 * 8 - 1, gdt_base := entries_addr\<rparr>;
          s = s\<lparr>gdt_entries := (gdt_entries s)[0 := gdt_encode_entry 0 0 0x00 0x00]\<rparr>;
          s = s\<lparr>gdt_entries := (gdt_entries s)[1 := gdt_encode_entry 0 0xFFFFF 0x9A 0xA0]\<rparr>;
          s = s\<lparr>gdt_entries := (gdt_entries s)[2 := gdt_encode_entry 0 0xFFFFF 0x92 0xC0]\<rparr>;
          s = s\<lparr>gdt_entries := (gdt_entries s)[3 := gdt_encode_entry 0 0xFFFFF 0xFA 0xA0]\<rparr>;
          s = s\<lparr>gdt_entries := (gdt_entries s)[4 := gdt_encode_entry 0 0xFFFFF 0xF2 0xC0]\<rparr>
      in tss_flush (gdt_flush (s\<lparr>gdt_tss := gdt_encode_tss tss_addr (104 - 1)\<rparr>)))"

subsection \<open>The interrupt descriptor table\<close>

record idt_entry =
  isr_low :: u16
  kernel_cs :: u16
  ist :: u8
  attributes :: u8
  isr_mid :: u16
  isr_high :: u32
  idt_reserved :: u32

definition idt_set_descriptor :: "u8 \<Rightarrow> u64 \<Rightarrow> u8 \<Rightarrow> idt_entry list \<Rightarrow> idt_entry list" where
  "idt_set_descriptor vector isr flags idt =
     idt[unat vector :=
       \<lparr>isr_low = ucast (isr AND 0xFFFF),
        kernel_cs = 0x08,
        ist = 0,
        attributes = flags,
        isr_mid = ucast (drop_bit 16 isr AND 0xFFFF),
        isr_high = ucast (drop_bit 32 isr AND 0xFFFFFFFF),
        idt_reserved = 0\<rparr>]"

record idt_state = gdt_state +
  idt_entries :: "idt_entry list"

definition idt_fill :: "(nat \<Rightarrow> u64) \<Rightarrow> idt_entry list \<Rightarrow> idt_entry list" where
  "idt_fill isr_stub_table idt =
     fold (\<lambda>v. idt_set_descriptor (of_nat v) (isr_stub_table v) 0x8E) [0..<256] idt"

subsection \<open>What the processor decodes\<close>

definition seg_base :: "gdt_entry \<Rightarrow> u32" where
  "seg_base e = push_bit 24 (ucast (base_high e)) OR push_bit 16 (ucast (base_middle e)) OR ucast (base_low e)"

definition seg_limit :: "gdt_entry \<Rightarrow> u32" where
  "seg_limit e = push_bit 16 (ucast (granularity e) AND 0x0F) OR ucast (limit_low e)"

definition tss_base :: "gdt_tss_entry \<Rightarrow> u64" where
  "tss_base e = push_bit 32 (ucast (tss_base_upper e)) OR push_bit 24 (ucast (tss_base_high e)) OR
     push_bit 16 (ucast (tss_base_mid e)) OR ucast (tss_base_low e)"

definition gate_target :: "idt_entry \<Rightarrow> u64" where
  "gate_target e = push_bit 32 (ucast (isr_high e)) OR push_bit 16 (ucast (isr_mid e)) OR ucast (isr_low e)"

lemma ucast_mask_bits:
  "(0xFF :: 'a::len word) = mask 8" "(0xFFFF :: 'a::len word) = mask 16" "(0xFFFFFFFF :: 'a::len word) = mask 32"
  "(0x0F :: 'a::len word) = mask 4"
  by (simp_all add: mask_eq_exp_minus_1)

lemma bit_ranges:
  obtains "n < 16" | k where "n = 16 + k" "k < 8" | k where "n = 24 + k" "k < 8" | k where "n = 32 + (k :: nat)"
proof -
  consider "n < 16" | "16 \<le> n" "n < 24" | "24 \<le> n" "n < 32" | "32 \<le> n" by linarith
  then show ?thesis
  proof cases
    case 2
    then show ?thesis using that(2) [of "n - 16"] by simp
  next
    case 3
    then show ?thesis using that(3) [of "n - 24"] by simp
  next
    case 4
    then show ?thesis using that(4) [of "n - 32"] by simp
  qed (rule that(1))
qed

lemma seg_base_encode: "seg_base (gdt_encode_entry base limit acc gran) = base"
proof (rule bit_word_eqI)
  fix n assume "n < LENGTH(32)"
  consider "n < 16" | k where "n = 16 + k" "k < 8" | k where "n = 24 + k" "k < 8" | k where "n = 32 + k"
    by (rule bit_ranges)
  then show "bit (seg_base (gdt_encode_entry base limit acc gran)) n = bit base n"
    unfolding seg_base_def gdt_encode_entry_def gdt_entry.select_convs ucast_mask_bits
    using \<open>n < LENGTH(32)\<close> by cases (auto simp: bit_simps)
qed

lemma seg_limit_encode: "seg_limit (gdt_encode_entry base limit acc gran) = take_bit 20 limit"
proof (rule bit_word_eqI)
  fix n assume "n < LENGTH(32)"
  have "\<not> bit (0xF0 :: u8) k" if "k < 4" for k
  proof -
    have "(0xF0 :: u8) = push_bit 4 (mask 4)" by (simp add: mask_eq_exp_minus_1)
    then show ?thesis using that by (metis bit_push_bit_iff not_le)
  qed
  then show "bit (seg_limit (gdt_encode_entry base limit acc gran)) n = bit (take_bit 20 limit) n"
    unfolding seg_limit_def gdt_encode_entry_def gdt_entry.select_convs ucast_mask_bits
    by (auto simp: bit_simps)
qed

lemma tss_base_encode: "tss_base (gdt_encode_tss base len) = base"
proof (rule bit_word_eqI)
  fix n assume "n < LENGTH(64)"
  consider "n < 16" | k where "n = 16 + k" "k < 8" | k where "n = 24 + k" "k < 8" | k where "n = 32 + k"
    by (rule bit_ranges)
  then show "bit (tss_base (gdt_encode_tss base len)) n = bit base n"
    unfolding tss_base_def gdt_encode_tss_def gdt_tss_entry.select_convs ucast_mask_bits
    using \<open>n < LENGTH(64)\<close> by cases (auto simp: bit_simps)
qed

lemma gate_target_encode:
  "unat v < length idt \<Longrightarrow> gate_target (idt_set_descriptor v isr flags idt ! unat v) = isr"
proof (rule bit_word_eqI)
  fix n assume v: "unat v < length idt" and "n < LENGTH(64)"
  have "k < 16" if "16 + k < 32" for k :: nat using that by simp
  consider "n < 16" | k where "n = 16 + k" "k < 8" | k where "n = 24 + k" "k < 8" | k where "n = 32 + k"
    by (rule bit_ranges)
  then show "bit (gate_target (idt_set_descriptor v isr flags idt ! unat v)) n = bit isr n"
    unfolding gate_target_def idt_set_descriptor_def ucast_mask_bits
    using v \<open>n < LENGTH(64)\<close> by cases (auto simp: bit_simps)
qed

lemma idt_fill_nth:
  assumes "length idt = 256" and "v < 256"
  shows "gate_target (idt_fill stubs idt ! v) = stubs v" and "attributes (idt_fill stubs idt ! v) = 0x8E"
    and "kernel_cs (idt_fill stubs idt ! v) = 0x08"
proof -
  define entry where "entry k = idt_set_descriptor (of_nat k) (stubs k) 0x8E idt ! k" for k
  have "n \<le> 256 \<Longrightarrow> length (fold (\<lambda>v. idt_set_descriptor (of_nat v) (stubs v) 0x8E) [0..<n] idt) = 256 \<and>
    (\<forall>k<n. fold (\<lambda>v. idt_set_descriptor (of_nat v) (stubs v) 0x8E) [0..<n] idt ! k = entry k)" for n
  proof (induction n)
    case 0
    then show ?case using assms(1) by simp
  next
    case (Suc n)
    have "unat (of_nat n :: u8) = n" using Suc.prems by (simp add: unat_of_nat take_bit_nat_eq_self_iff)
    then show ?case using Suc assms(1)
      by (auto simp: idt_set_descriptor_def entry_def less_Suc_eq)
  qed
  from this [of 256] assms(2) have e: "idt_fill stubs idt ! v = entry v" by (simp add: idt_fill_def del: upt_rec_numeral)
  have u: "unat (of_nat v :: u8) = v" using assms(2) by (simp add: unat_of_nat take_bit_nat_eq_self_iff)
  show "gate_target (idt_fill stubs idt ! v) = stubs v"
    unfolding e entry_def using gate_target_encode [of "of_nat v" idt] assms u by simp
  show "attributes (idt_fill stubs idt ! v) = 0x8E" "kernel_cs (idt_fill stubs idt ! v) = 0x08"
    unfolding e entry_def idt_set_descriptor_def using assms u by simp_all
qed

end
