(* ===== verification/Port_Io.thy ===== *)
theory Port_Io
  imports Heap
begin

unbundle bit_operations_syntax

text \<open>
  Port input and output (\<open>src/kernel/include/commands.h\<close>) and the drivers that consist of
  it: the legacy interrupt controllers (\<open>src/kernel/src/x86_64/pic.c\<close>), PCI configuration
  space (\<open>src/kernel/src/pci/pci.c\<close>) and the debug console
  (\<open>src/kernel/src/logging/serial.c\<close>). The machine behind the ports is a parameter
  \<open>dev\<close>: the value an input instruction reads, as a function of everything the ports were
  used for before. \<open>io_log\<close> records every access in order.
\<close>

datatype io_event = Out8 u16 u8 | Out16 u16 u16 | Out32 u16 u32 | In8 u16 | In16 u16 | In32 u16

type_synonym io_device = "io_event list \<Rightarrow> io_event \<Rightarrow> u32"

record io_state = heap_state +
  io_log :: "io_event list"

definition io_emit :: "io_event \<Rightarrow> 'z io_state_scheme \<Rightarrow> 'z io_state_scheme" where
  "io_emit e s = s\<lparr>io_log := io_log s @ [e]\<rparr>"

definition outb :: "u16 \<Rightarrow> u8 \<Rightarrow> 'z io_state_scheme \<Rightarrow> 'z io_state_scheme" where
  "outb port v s = io_emit (Out8 port v) s"

definition outw :: "u16 \<Rightarrow> u16 \<Rightarrow> 'z io_state_scheme \<Rightarrow> 'z io_state_scheme" where
  "outw port v s = io_emit (Out16 port v) s"

definition outl :: "u16 \<Rightarrow> u32 \<Rightarrow> 'z io_state_scheme \<Rightarrow> 'z io_state_scheme" where
  "outl port v s = io_emit (Out32 port v) s"

definition inb :: "io_device \<Rightarrow> u16 \<Rightarrow> 'z io_state_scheme \<Rightarrow> u8 \<times> 'z io_state_scheme" where
  "inb dev port s = (ucast (dev (io_log s) (In8 port)), io_emit (In8 port) s)"

definition inw :: "io_device \<Rightarrow> u16 \<Rightarrow> 'z io_state_scheme \<Rightarrow> u16 \<times> 'z io_state_scheme" where
  "inw dev port s = (ucast (dev (io_log s) (In16 port)), io_emit (In16 port) s)"

definition inl :: "io_device \<Rightarrow> u16 \<Rightarrow> 'z io_state_scheme \<Rightarrow> u32 \<times> 'z io_state_scheme" where
  "inl dev port s = (dev (io_log s) (In32 port), io_emit (In32 port) s)"

definition io_wait :: "'z io_state_scheme \<Rightarrow> 'z io_state_scheme" where
  "io_wait s = outb 0x80 0 s"

lemma io_log_out [simp]:
  "io_log (outb p b s) = io_log s @ [Out8 p b]" "io_log (outw p w s) = io_log s @ [Out16 p w]"
  "io_log (outl p d s) = io_log s @ [Out32 p d]" "io_log (io_wait s) = io_log s @ [Out8 0x80 0]"
  by (simp_all add: outb_def outw_def outl_def io_emit_def io_wait_def)

lemma in_simps [simp]:
  "fst (inb dev p s) = ucast (dev (io_log s) (In8 p))" "io_log (snd (inb dev p s)) = io_log s @ [In8 p]"
  "fst (inl dev p s) = dev (io_log s) (In32 p)" "io_log (snd (inl dev p s)) = io_log s @ [In32 p]"
  by (simp_all add: inb_def inl_def io_emit_def)

subsection \<open>The interrupt controllers\<close>

definition PIC1_COMMAND :: u16 where "PIC1_COMMAND = 0x20"
definition PIC1_DATA :: u16 where "PIC1_DATA = 0x21"
definition PIC2_COMMAND :: u16 where "PIC2_COMMAND = 0xA0"
definition PIC2_DATA :: u16 where "PIC2_DATA = 0xA1"
definition PIC_EOI :: u8 where "PIC_EOI = 0x20"
definition ICW1_INIT :: u8 where "ICW1_INIT = 0x10"
definition ICW1_ICW4 :: u8 where "ICW1_ICW4 = 0x01"
definition ICW4_8086 :: u8 where "ICW4_8086 = 0x01"
definition PIC1_OFFSET :: u8 where "PIC1_OFFSET = 0x20"
definition PIC2_OFFSET :: u8 where "PIC2_OFFSET = 0x28"

definition pic_init :: "'z io_state_scheme \<Rightarrow> 'z io_state_scheme" where
  "pic_init s =
     (let s = outb PIC1_COMMAND (ICW1_INIT OR ICW1_ICW4) s; s = io_wait s;
          s = outb PIC2_COMMAND (ICW1_INIT OR ICW1_ICW4) s; s = io_wait s;
          s = outb PIC1_DATA PIC1_OFFSET s; s = io_wait s;
          s = outb PIC2_DATA PIC2_OFFSET s; s = io_wait s;
          s = outb PIC1_DATA 0x04 s; s = io_wait s;
          s = outb PIC2_DATA 0x02 s; s = io_wait s;
          s = outb PIC1_DATA ICW4_8086 s; s = io_wait s;
          s = outb PIC2_DATA ICW4_8086 s; s = io_wait s;
          s = outb PIC1_DATA 0xFF s
      in outb PIC2_DATA 0xFF s)"

definition pic_send_eoi :: "u8 \<Rightarrow> 'z io_state_scheme \<Rightarrow> 'z io_state_scheme" where
  "pic_send_eoi irq s =
     (let s = (if irq \<ge> 8 then outb PIC2_COMMAND PIC_EOI s else s) in outb PIC1_COMMAND PIC_EOI s)"

definition pic_line :: "u8 \<Rightarrow> u16 \<times> u8" where
  "pic_line irq = (if irq < 8 then (PIC1_DATA, irq) else (PIC2_DATA, irq - 8))"

definition pic_mask_irq :: "io_device \<Rightarrow> u8 \<Rightarrow> 'z io_state_scheme \<Rightarrow> 'z io_state_scheme" where
  "pic_mask_irq dev irq s =
     (let (port, line) = pic_line irq; (v, s) = inb dev port s
      in outb port (v OR ucast (push_bit (unat line) (1 :: u32))) s)"

definition pic_unmask_irq :: "io_device \<Rightarrow> u8 \<Rightarrow> 'z io_state_scheme \<Rightarrow> 'z io_state_scheme" where
  "pic_unmask_irq dev irq s =
     (let (port, line) = pic_line irq; (v, s) = inb dev port s
      in outb port (v AND ucast (NOT (push_bit (unat line) (1 :: u32)))) s)"

definition pic_disable :: "'z io_state_scheme \<Rightarrow> 'z io_state_scheme" where
  "pic_disable s = outb PIC2_DATA 0xFF (outb PIC1_DATA 0xFF s)"

text \<open>The two reads of the C expression are taken in the order they are written.\<close>

definition pic_read_both :: "u8 \<Rightarrow> io_device \<Rightarrow> 'z io_state_scheme \<Rightarrow> u16 \<times> 'z io_state_scheme" where
  "pic_read_both ocw3 dev s =
     (let s = outb PIC1_COMMAND ocw3 s; s = outb PIC2_COMMAND ocw3 s;
          (hi, s) = inb dev PIC2_COMMAND s; (lo, s) = inb dev PIC1_COMMAND s
      in (push_bit 8 (ucast hi) OR ucast lo, s))"

definition pic_get_irr :: "io_device \<Rightarrow> 'z io_state_scheme \<Rightarrow> u16 \<times> 'z io_state_scheme" where
  "pic_get_irr = pic_read_both 0x0A"

definition pic_get_isr :: "io_device \<Rightarrow> 'z io_state_scheme \<Rightarrow> u16 \<times> 'z io_state_scheme" where
  "pic_get_isr = pic_read_both 0x0B"

subsection \<open>PCI configuration space\<close>

definition pci_config_address :: "u8 \<Rightarrow> u8 \<Rightarrow> u8 \<Rightarrow> u8 \<Rightarrow> u32" where
  "pci_config_address bus slot func off =
     push_bit 31 1 OR push_bit 16 (ucast bus) OR push_bit 11 (ucast slot) OR push_bit 8 (ucast func) OR
       ucast (off AND 0xfc)"

definition pci_read_config_dword :: "io_device \<Rightarrow> u8 \<Rightarrow> u8 \<Rightarrow> u8 \<Rightarrow> u8 \<Rightarrow> 'z io_state_scheme \<Rightarrow> u32 \<times> 'z io_state_scheme" where
  "pci_read_config_dword dev bus slot func off s =
     (let addr = pci_config_address bus slot func off; s = outl 0xcf8 addr s in inl dev 0xcfc s)"

definition pci_read_config_word :: "io_device \<Rightarrow> u8 \<Rightarrow> u8 \<Rightarrow> u8 \<Rightarrow> u8 \<Rightarrow> 'z io_state_scheme \<Rightarrow> u16 \<times> 'z io_state_scheme" where
  "pci_read_config_word dev bus slot func off s =
     (let (v, s) = pci_read_config_dword dev bus slot func (off AND 0xfc) s
      in (ucast (drop_bit (unat (off AND 2) * 8) v), s))"

definition pci_read_config_byte :: "io_device \<Rightarrow> u8 \<Rightarrow> u8 \<Rightarrow> u8 \<Rightarrow> u8 \<Rightarrow> 'z io_state_scheme \<Rightarrow> u8 \<times> 'z io_state_scheme" where
  "pci_read_config_byte dev bus slot func off s =
     (let (v, s) = pci_read_config_dword dev bus slot func (off AND 0xfc) s
      in (ucast (drop_bit (unat (off AND 3) * 8) v), s))"

definition pci_write_config_dword :: "u8 \<Rightarrow> u8 \<Rightarrow> u8 \<Rightarrow> u8 \<Rightarrow> u32 \<Rightarrow> 'z io_state_scheme \<Rightarrow> 'z io_state_scheme" where
  "pci_write_config_dword bus slot func off v s =
     (let addr = pci_config_address bus slot func off; s = outl 0xcf8 addr s in outl 0xcfc v s)"

subsection \<open>The debug console\<close>

definition write_char :: "u8 \<Rightarrow> 'z io_state_scheme \<Rightarrow> 'z io_state_scheme" where
  "write_char c s = outb 0xE9 c s"

fun write_str :: "u8 list \<Rightarrow> 'z io_state_scheme \<Rightarrow> 'z io_state_scheme" where
  "write_str [] s = s"
| "write_str (c # cs) s = (if c \<noteq> 0 then write_str cs (write_char c s) else s)"

subsection \<open>What the drivers do\<close>

lemma io_log_write_str: "io_log (write_str cs s) = io_log s @ map (Out8 0xE9) (takeWhile (\<lambda>c. c \<noteq> 0) cs)"
  by (induction cs arbitrary: s) (simp_all add: write_char_def)

text \<open>A controller whose data port reads back the mask that was written last.\<close>

fun last_write :: "u16 \<Rightarrow> io_event list \<Rightarrow> u8" where
  "last_write p [] = 0xFF"
| "last_write p (Out8 q v # es) = (if p = q then v else last_write p es)"
| "last_write p (e # es) = last_write p es"

definition pic_mask :: "u16 \<Rightarrow> 'z io_state_scheme \<Rightarrow> u8" where
  "pic_mask p s = last_write p (rev (io_log s))"

definition reads_back :: "io_device \<Rightarrow> bool" where
  "reads_back dev \<longleftrightarrow> (\<forall>log. \<forall>p\<in>{PIC1_DATA, PIC2_DATA}. ucast (dev log (In8 p)) = last_write p (rev log))"

definition irq_masked :: "u8 \<Rightarrow> 'z io_state_scheme \<Rightarrow> bool" where
  "irq_masked irq s \<longleftrightarrow> (let (port, line) = pic_line irq in bit (pic_mask port s) (unat line))"

lemma pic_line_cases:
  assumes "irq < 16"
  obtains "fst (pic_line irq) = PIC1_DATA" "irq < 8" "snd (pic_line irq) = irq"
  | "fst (pic_line irq) = PIC2_DATA" "\<not> irq < 8" "unat (snd (pic_line irq)) = unat irq - 8"
  using assms by (cases "irq < 8") (auto simp: pic_line_def word_less_nat_alt unat_sub_if')

lemma pic_line_less: "irq < 16 \<Longrightarrow> unat (snd (pic_line irq)) < 8"
  by (auto simp: pic_line_def word_less_nat_alt unat_sub_if')

lemma pic_line_inj: "irq < 16 \<Longrightarrow> j < 16 \<Longrightarrow> pic_line irq = pic_line j \<longleftrightarrow> irq = j"
  by (auto simp: pic_line_def PIC1_DATA_def PIC2_DATA_def)

lemma pic_mask_out:
  "pic_mask p (outb q v s) = (if p = q then v else pic_mask p s)"
  by (simp add: pic_mask_def)

lemma pic_mask_in [simp]: "pic_mask p (snd (inb dev q s)) = pic_mask p s"
  by (simp add: pic_mask_def)

lemma pic_readback: "reads_back dev \<Longrightarrow> fst (inb dev (fst (pic_line irq)) s) = pic_mask (fst (pic_line irq)) s"
  by (auto simp: reads_back_def pic_mask_def pic_line_def)

lemma irq_masked_mask:
  assumes "reads_back dev" and "irq < 16" and "j < 16"
  shows "irq_masked j (pic_mask_irq dev irq s) \<longleftrightarrow> j = irq \<or> irq_masked j s"
proof -
  obtain p l q k where pl: "pic_line irq = (p, l)" "pic_line j = (q, k)" by fastforce
  have less: "unat l < 8" "unat k < 8" using pic_line_less [OF assms(2)] pic_line_less [OF assms(3)] pl by auto
  have inj: "p = q \<and> unat l = unat k \<longleftrightarrow> j = irq"
    using pic_line_inj [OF assms(2,3)] word_unat_eq_iff [of l k] by (simp add: pl) blast
  have v: "fst (inb dev p s) = pic_mask p s" using pic_readback [OF assms(1), of irq s] pl by simp
  have "bit (pic_mask p s OR ucast (push_bit (unat l) (1 :: u32))) (unat k) \<longleftrightarrow>
      bit (pic_mask p s) (unat k) \<or> unat l = unat k"
    using less by (auto simp: bit_simps)
  then have "irq_masked j (pic_mask_irq dev irq s) \<longleftrightarrow> irq_masked j s \<or> p = q \<and> unat l = unat k"
    by (simp add: irq_masked_def pic_mask_irq_def case_prod_unfold Let_def pic_mask_out pl v del: in_simps(1))
  then show ?thesis using inj by blast
qed

lemma irq_masked_unmask:
  assumes "reads_back dev" and "irq < 16" and "j < 16"
  shows "irq_masked j (pic_unmask_irq dev irq s) \<longleftrightarrow> j \<noteq> irq \<and> irq_masked j s"
proof -
  obtain p l q k where pl: "pic_line irq = (p, l)" "pic_line j = (q, k)" by fastforce
  have less: "unat l < 8" "unat k < 8" using pic_line_less [OF assms(2)] pic_line_less [OF assms(3)] pl by auto
  have inj: "p = q \<and> unat l = unat k \<longleftrightarrow> j = irq"
    using pic_line_inj [OF assms(2,3)] word_unat_eq_iff [of l k] by (simp add: pl) blast
  have v: "fst (inb dev p s) = pic_mask p s" using pic_readback [OF assms(1), of irq s] pl by simp
  have "bit (pic_mask p s AND ucast (NOT (push_bit (unat l) (1 :: u32)))) (unat k) \<longleftrightarrow>
      bit (pic_mask p s) (unat k) \<and> unat l \<noteq> unat k"
    using less by (auto simp: bit_simps)
  then have "irq_masked j (pic_unmask_irq dev irq s) \<longleftrightarrow> irq_masked j s \<and> \<not> (p = q \<and> unat l = unat k)"
    by (simp add: irq_masked_def pic_unmask_irq_def case_prod_unfold Let_def pic_mask_out pl v del: in_simps(1))
  then show ?thesis using inj by blast
qed

lemma bit_pci_address:
  assumes "slot < 32" and "func < 8"
  shows "n < 8 \<Longrightarrow> bit (pci_config_address bus slot func off) n \<longleftrightarrow> 2 \<le> n \<and> bit off n"
    and "n < 3 \<Longrightarrow> bit (pci_config_address bus slot func off) (8 + n) \<longleftrightarrow> bit func n"
    and "n < 5 \<Longrightarrow> bit (pci_config_address bus slot func off) (11 + n) \<longleftrightarrow> bit slot n"
    and "n < 8 \<Longrightarrow> bit (pci_config_address bus slot func off) (16 + n) \<longleftrightarrow> bit bus n"
proof -
  have s: "\<not> bit slot n" if "5 \<le> n" for n
    by (rule word_bit_ge [OF _ that]) (use assms(1) in \<open>simp add: word_less_nat_alt\<close>)
  have f: "\<not> bit func n" if "3 \<le> n" for n
    by (rule word_bit_ge [OF _ that]) (use assms(2) in \<open>simp add: word_less_nat_alt\<close>)
  have fc: "(0xfc :: u8) = NOT (mask 2)" by (simp add: mask_eq_exp_minus_1)
  have top: "bit (2147483648 :: int) n \<longleftrightarrow> n = 31" for n
  proof -
    have "(2147483648 :: int) = push_bit 31 1" by simp
    then show ?thesis by (simp only: bit_push_bit_iff bit_1_iff) auto
  qed
  note b = pci_config_address_def fc bit_simps top
  show "n < 8 \<Longrightarrow> bit (pci_config_address bus slot func off) n \<longleftrightarrow> 2 \<le> n \<and> bit off n"
    "n < 3 \<Longrightarrow> bit (pci_config_address bus slot func off) (8 + n) \<longleftrightarrow> bit func n"
    "n < 5 \<Longrightarrow> bit (pci_config_address bus slot func off) (11 + n) \<longleftrightarrow> bit slot n"
    "n < 8 \<Longrightarrow> bit (pci_config_address bus slot func off) (16 + n) \<longleftrightarrow> bit bus n"
    using s f by (auto simp: b)
qed

end
