(* ===== verification/Apic.thy ===== *)
theory Apic
  imports Port_Io Vm_Lemmas
begin

unbundle bit_operations_syntax

text \<open>
  The local APIC, the I/O APIC and the timer calibration
  (\<open>src/kernel/src/x86_64/apic.c\<close>). Device registers are memory; \<open>hw\<close> is what the hardware
  does to the machine before each volatile read, an arbitrary function of the state.
\<close>

record apic_state = io_state +
  apic_virt :: u64
  ioapic_virt :: u64
  apic_space :: u64
  apic_base_msr :: u64

definition APIC_BASE_BSP :: u64 where "APIC_BASE_BSP = push_bit 8 1"
definition APIC_BASE_ENABLE :: u64 where "APIC_BASE_ENABLE = push_bit 11 1"
definition APIC_BASE_MASK :: u64 where "APIC_BASE_MASK = 0xFFFFFFFFFFFFF000"
definition APIC_HEAP_BASE :: u64 where "APIC_HEAP_BASE = 0xFFFFFFFFC0000000"
definition APIC_HEAP_SIZE :: u64 where "APIC_HEAP_SIZE = 0x10000"
definition VM_WRITE :: u64 where "VM_WRITE = push_bit 1 1"
definition VM_UNCACHED :: u64 where "VM_UNCACHED = push_bit 4 1"
definition APIC_SVR_ENABLE :: u32 where "APIC_SVR_ENABLE = push_bit 8 1"
definition APIC_LVT_MASKED :: u32 where "APIC_LVT_MASKED = push_bit 16 1"
definition APIC_TIMER_PERIODIC :: u32 where "APIC_TIMER_PERIODIC = push_bit 17 1"

definition pit_set_oneshot :: "u16 \<Rightarrow> 'z io_state_scheme \<Rightarrow> 'z io_state_scheme" where
  "pit_set_oneshot divisor s =
     outb 0x40 (ucast (drop_bit 8 divisor)) (outb 0x40 (ucast (divisor AND 0xFF)) (outb 0x43 0x34 s))"

partial_function (option) pit_poll :: "io_device \<Rightarrow> 'z io_state_scheme \<Rightarrow> 'z io_state_scheme option" where
  "pit_poll dev s =
     (let s = outb 0x43 0xE2 s; (v, s) = inb dev 0x40 s
      in if v AND push_bit 7 1 \<noteq> 0 then Some s else pit_poll dev s)"

definition pit_ticks :: "u32 \<Rightarrow> u32" where
  "pit_ticks ms = (let ticks = (1193182 * ms) div 1000 in if ticks > 0xFFFF then 0xFFFF else ticks)"

definition pit_wait_ms :: "io_device \<Rightarrow> u32 \<Rightarrow> 'z io_state_scheme \<Rightarrow> (unit, 'z io_state_scheme) kres" where
  "pit_wait_ms dev ms s =
     (case pit_poll dev (pit_set_oneshot (ucast (pit_ticks ms)) s) of
        None \<Rightarrow> Inl Diverges
      | Some s' \<Rightarrow> kret () s')"

definition cpu_get_apic_base :: "'z apic_state_scheme \<Rightarrow> u64" where
  "cpu_get_apic_base s = apic_base_msr s AND APIC_BASE_MASK"

definition cpu_set_apic_base :: "u64 \<Rightarrow> bool \<Rightarrow> 'z apic_state_scheme \<Rightarrow> 'z apic_state_scheme" where
  "cpu_set_apic_base base is_bsp s =
     (let msr = (base AND APIC_BASE_MASK) OR APIC_BASE_ENABLE;
          msr = (if is_bsp then msr OR APIC_BASE_BSP else msr)
      in s\<lparr>apic_base_msr := msr\<rparr>)"

definition apic_read :: "('z apic_state_scheme \<Rightarrow> 'z apic_state_scheme) \<Rightarrow> u32 \<Rightarrow> 'z apic_state_scheme \<Rightarrow> (u32, 'z apic_state_scheme) kres" where
  "apic_read hw reg s =
     kbind (kassert ''apic_virt != NULL'' (apic_virt s \<noteq> 0) s) (\<lambda>_ s.
     let s = hw s in kret (load32 (apic_virt s + 4 * ucast (reg div 4)) (mem s)) s)"

definition apic_write :: "u32 \<Rightarrow> u32 \<Rightarrow> 'z apic_state_scheme \<Rightarrow> (unit, 'z apic_state_scheme) kres" where
  "apic_write reg v s =
     kbind (kassert ''apic_virt != NULL'' (apic_virt s \<noteq> 0) s) (\<lambda>_ s.
     kret () (s\<lparr>mem := store32 (apic_virt s + 4 * ucast (reg div 4)) v (mem s)\<rparr>))"

definition apic_eoi :: "'z apic_state_scheme \<Rightarrow> (unit, 'z apic_state_scheme) kres" where
  "apic_eoi s = apic_write 0xB0 0 s"

definition apic_id :: "('z apic_state_scheme \<Rightarrow> 'z apic_state_scheme) \<Rightarrow> 'z apic_state_scheme \<Rightarrow> (u8, 'z apic_state_scheme) kres" where
  "apic_id hw s = kbind (apic_read hw 0x20 s) (\<lambda>v s. kret (ucast (drop_bit 24 v)) s)"

text \<open>\<open>(ticks * hz) / TSC_CALIBRATE_MS\<close> is computed in 64 bits and returned in 32.\<close>

definition ticks_per_second :: "u32 \<Rightarrow> u64 \<Rightarrow> u32" where
  "ticks_per_second ticks hz = ucast ((ucast ticks * hz) div (10 :: u64))"

text \<open>The measurement of \<open>apic_timer_calibrate\<close>, without the conversion of its last line.\<close>

definition apic_timer_count ::
  "io_device \<Rightarrow> ('z apic_state_scheme \<Rightarrow> 'z apic_state_scheme) \<Rightarrow> 'z apic_state_scheme \<Rightarrow> (u32, 'z apic_state_scheme) kres" where
  "apic_timer_count dev hw s =
     kbind (apic_write 0x3E0 0xB s) (\<lambda>_ s.
     kbind (apic_write 0x380 0xFFFFFFFF s) (\<lambda>_ s.
     kbind (apic_write 0x320 APIC_LVT_MASKED s) (\<lambda>_ s.
     kbind (apic_read hw 0x390 s) (\<lambda>apic_start s.
     kbind (pit_wait_ms dev 10 s) (\<lambda>_ s.
     kbind (apic_read hw 0x390 s) (\<lambda>apic_end s.
     kret (apic_start - apic_end) s))))))"

definition apic_timer_calibrate ::
  "io_device \<Rightarrow> ('z apic_state_scheme \<Rightarrow> 'z apic_state_scheme) \<Rightarrow> u64 \<Rightarrow> 'z apic_state_scheme \<Rightarrow> (u32, 'z apic_state_scheme) kres" where
  "apic_timer_calibrate dev hw hz s =
     kbind (apic_timer_count dev hw s) (\<lambda>ticks s. kret (ticks_per_second ticks hz) s)"

definition apic_timer_init ::
  "io_device \<Rightarrow> ('z apic_state_scheme \<Rightarrow> 'z apic_state_scheme) \<Rightarrow> u32 \<Rightarrow> 'z apic_state_scheme \<Rightarrow> (unit, 'z apic_state_scheme) kres" where
  "apic_timer_init dev hw hz s =
     kbind (apic_timer_calibrate dev hw (ucast hz) s) (\<lambda>ticks_per_sec s.
     if hz = 0 then Inl DivideError
     else let interval = ticks_per_sec div hz in
       kbind (apic_write 0x3E0 0xB s) (\<lambda>_ s.
       kbind (apic_write 0x320 (0x20 OR APIC_TIMER_PERIODIC) s) (\<lambda>_ s.
       apic_write 0x380 interval s)))"

definition ioapic_read :: "('z apic_state_scheme \<Rightarrow> 'z apic_state_scheme) \<Rightarrow> u8 \<Rightarrow> 'z apic_state_scheme \<Rightarrow> (u32, 'z apic_state_scheme) kres" where
  "ioapic_read hw reg s =
     kbind (kassert ''ioapic_virt != NULL'' (ioapic_virt s \<noteq> 0) s) (\<lambda>_ s.
     let s = s\<lparr>mem := store32 (ioapic_virt s) (ucast reg) (mem s)\<rparr>; s = hw s
     in kret (load32 (ioapic_virt s + 0x10) (mem s)) s)"

definition ioapic_write :: "('z apic_state_scheme \<Rightarrow> 'z apic_state_scheme) \<Rightarrow> u8 \<Rightarrow> u32 \<Rightarrow> 'z apic_state_scheme \<Rightarrow> (unit, 'z apic_state_scheme) kres" where
  "ioapic_write hw reg v s =
     kbind (kassert ''ioapic_virt != NULL'' (ioapic_virt s \<noteq> 0) s) (\<lambda>_ s.
     let s = s\<lparr>mem := store32 (ioapic_virt s) (ucast reg) (mem s)\<rparr>; s = hw s
     in kret () (s\<lparr>mem := store32 (ioapic_virt s + 0x10) v (mem s)\<rparr>))"

definition ioapic_redtbl :: "u8 \<Rightarrow> u8" where
  "ioapic_redtbl irq = 0x10 + irq * 2"

definition ioapic_set_entry ::
  "('z apic_state_scheme \<Rightarrow> 'z apic_state_scheme) \<Rightarrow> u8 \<Rightarrow> u8 \<Rightarrow> u8 \<Rightarrow> bool \<Rightarrow> 'z apic_state_scheme \<Rightarrow> (unit, 'z apic_state_scheme) kres" where
  "ioapic_set_entry hw irq vector dest masked s =
     (let reg = ioapic_redtbl irq;
          entry = (ucast vector :: u64);
          entry = (if masked then entry OR ucast APIC_LVT_MASKED else entry)
      in kbind (ioapic_write hw reg (ucast (entry AND 0xFFFFFFFF)) s) (\<lambda>_ s.
         ioapic_write hw (reg + 1) (ucast (push_bit 24 (ucast dest :: u64))) s))"

definition ioapic_mask :: "('z apic_state_scheme \<Rightarrow> 'z apic_state_scheme) \<Rightarrow> u8 \<Rightarrow> 'z apic_state_scheme \<Rightarrow> (unit, 'z apic_state_scheme) kres" where
  "ioapic_mask hw irq s =
     (let reg = ioapic_redtbl irq in
      kbind (ioapic_read hw reg s) (\<lambda>low s. ioapic_write hw reg (low OR APIC_LVT_MASKED) s))"

definition ioapic_unmask :: "('z apic_state_scheme \<Rightarrow> 'z apic_state_scheme) \<Rightarrow> u8 \<Rightarrow> 'z apic_state_scheme \<Rightarrow> (unit, 'z apic_state_scheme) kres" where
  "ioapic_unmask hw irq s =
     (let reg = ioapic_redtbl irq in
      kbind (ioapic_read hw reg s) (\<lambda>low s. ioapic_write hw reg (low AND NOT APIC_LVT_MASKED) s))"

text \<open>\<open>for (uint8_t i = 0; i <= max_irqs; i++)\<close>: with \<open>max_irqs = 255\<close> the test never fails.\<close>

function ioapic_mask_from :: "('z apic_state_scheme \<Rightarrow> 'z apic_state_scheme) \<Rightarrow> u8 \<Rightarrow> u8 \<Rightarrow> 'z apic_state_scheme \<Rightarrow> (unit, 'z apic_state_scheme) kres" where
  "ioapic_mask_from hw i max_irqs s =
     (if i \<le> max_irqs then
        kbind (ioapic_mask hw i s) (\<lambda>_ s. if i = 255 then Inl Diverges else ioapic_mask_from hw (i + 1) max_irqs s)
      else kret () s)"
  by pat_completeness auto
termination
proof (relation "measure (\<lambda>(_, i, _, _). 256 - unat i)")
  fix i :: u8 assume "i \<noteq> 255"
  then have "unat i \<noteq> 255" by (auto simp: word_unat_eq_iff)
  moreover have "unat i < 256" using unsigned_less [of i, where ?'a = nat] by simp
  ultimately have "unat (i + 1) = unat i + 1" by (simp add: unat_plus_if')
  then show "((hw :: 'z apic_state_scheme \<Rightarrow> 'z apic_state_scheme, i + 1, m, t), hw, i, m, s :: 'z apic_state_scheme)
      \<in> measure (\<lambda>(_, i, _, _). 256 - unat i)" for hw m t s
    using \<open>unat i < 256\<close> by simp
qed simp

declare ioapic_mask_from.simps [simp del]

definition ioapic_init :: "('z apic_state_scheme \<Rightarrow> 'z apic_state_scheme) \<Rightarrow> u64 \<Rightarrow> 'z apic_state_scheme \<Rightarrow> (unit, 'z apic_state_scheme) kres" where
  "ioapic_init hw phys_base s =
     kbind (kassert ''apic_virt != NULL'' (apic_virt s \<noteq> 0) s) (\<lambda>_ s.
     kbind (vm_map (apic_space s) phys_base 0x1000 (VM_WRITE OR VM_UNCACHED) s) (\<lambda>vaddr s.
     let s = s\<lparr>ioapic_virt := vaddr\<rparr> in
     kbind (ioapic_read hw 0x01 s) (\<lambda>v s.
     ioapic_mask_from hw 0 (ucast (drop_bit 16 v AND 0xFF)) s)))"

definition enable_apic :: "('z apic_state_scheme \<Rightarrow> 'z apic_state_scheme) \<Rightarrow> bool \<Rightarrow> 'z apic_state_scheme \<Rightarrow> (unit, 'z apic_state_scheme) kres" where
  "enable_apic hw is_bsp s =
     (let phys = cpu_get_apic_base s;
          msr = apic_base_msr s;
          s = (if msr AND APIC_BASE_ENABLE = 0 then cpu_set_apic_base phys is_bsp s else s);
          s = (if apic_space s = 0 then
                 let (space, s) = vm_space_create APIC_HEAP_BASE APIC_HEAP_SIZE s in s\<lparr>apic_space := space\<rparr>
               else s)
      in kbind (vm_map (apic_space s) phys 0x1000 (VM_WRITE OR VM_UNCACHED) s) (\<lambda>va s.
         let s = s\<lparr>apic_virt := va\<rparr> in
         kbind (apic_write 0x80 0 s) (\<lambda>_ s.
         kbind (apic_write 0x350 APIC_LVT_MASKED s) (\<lambda>_ s.
         kbind (apic_write 0x360 APIC_LVT_MASKED s) (\<lambda>_ s.
         kbind (apic_write 0x370 APIC_LVT_MASKED s) (\<lambda>_ s.
         kbind (apic_read hw 0xF0 s) (\<lambda>v s.
         apic_write 0xF0 (v OR APIC_SVR_ENABLE) s)))))))"

subsection \<open>Calibration arithmetic\<close>

lemma pit_ticks_10: "pit_ticks 10 = 11931"
  by (simp add: pit_ticks_def)

lemma unat_ucast_32_64 [simp]: "unat (ucast (x :: u32) :: u64) = unat x"
  using unsigned_less [of x, where ?'a = nat]
  by (simp add: unsigned_ucast_eq take_bit_nat_eq_self_iff)

lemma ticks_per_second_exact:
  assumes "unat ticks * unat hz div 10 < 4294967296" and "unat hz < 4294967296"
  shows "unat (ticks_per_second ticks hz) = unat ticks * unat hz div 10"
proof -
  have t: "unat ticks < 4294967296" using unsigned_less [of ticks, where ?'a = nat] by simp
  have "unat ticks * unat hz < 4294967296 * 4294967296" using t assms(2) by (intro mult_strict_mono) auto
  then have "unat ((ucast ticks :: u64) * hz) = unat ticks * unat hz"
    by (simp add: unat_word_ariths unat_ucast_32_64)
  then have "unat (((ucast ticks :: u64) * hz) div 10) = unat ticks * unat hz div 10"
    by (simp add: unat_div_distrib)
  then show ?thesis using assms(1) by (simp add: ticks_per_second_def unsigned_ucast_eq take_bit_nat_eq_self_iff)
qed

lemma ticks_per_second_wraps: "ticks_per_second 500000000 1000 = 2755359744"
  by (simp add: ticks_per_second_def)

text \<open>Dividing the product by the rate again leaves a tenth of the measured count.\<close>

lemma interval_eq:
  assumes "unat ticks * unat hz div 10 < 4294967296" and "hz \<noteq> (0 :: u32)"
  shows "ticks_per_second ticks (ucast hz) div hz = ticks div 10"
proof -
  have h: "unat (ucast hz :: u64) = unat hz"
    by (rule unat_ucast_32_64)
  have "unat hz < 4294967296" using unsigned_less [of hz, where ?'a = nat] by simp
  then have "unat (ticks_per_second ticks (ucast hz)) = unat ticks * unat hz div 10"
    using ticks_per_second_exact [of ticks "ucast hz"] assms(1) h by simp
  then have "unat (ticks_per_second ticks (ucast hz) div hz) = unat ticks * unat hz div 10 div unat hz"
    by (simp add: unat_div_distrib)
  also have "\<dots> = unat ticks div 10"
    using assms(2) by (simp add: div_mult2_eq [symmetric] mult.commute [of 10] unat_eq_0)
  finally show ?thesis by (simp add: word_unat_eq_iff unat_div_distrib)
qed

text \<open>The interval that \<open>apic_timer_init\<close> programs does not depend on the rate it was
  asked for: it is always a tenth of the count measured over ten milliseconds, so the timer
  fires once a millisecond.\<close>

theorem timer_rate_ignored:
  assumes "apic_timer_count dev hw s = Inr (ticks, s1)" and "hz \<noteq> 0"
    and "unat ticks * unat hz div 10 < 4294967296"
  shows "apic_timer_init dev hw hz s =
    kbind (apic_write 0x3E0 0xB s1) (\<lambda>_ s.
    kbind (apic_write 0x320 (0x20 OR APIC_TIMER_PERIODIC) s) (\<lambda>_ s.
    apic_write 0x380 (ticks div 10) s))"
proof -
  have i: "ticks_per_second ticks (ucast hz) div hz = ticks div 10" by (rule interval_eq) (fact assms)+
  show ?thesis
    using assms(1,2) by (simp add: apic_timer_init_def apic_timer_calibrate_def Let_def i kret_def)
qed

definition timer_machine :: apic_state where
  "timer_machine = \<lparr>mem = (\<lambda>_. 0), offset = 0, page_list = 0, kernel_pml4 = 0, cr3 = 0, invlpg_log = [],
     free_list = 0, heap_top = 0, io_log = [], apic_virt = 0xFEE00000, ioapic_virt = 0, apic_space = 0,
     apic_base_msr = 0\<rparr>"

lemma timer_rate_ignored_witness:
  "apic_timer_init (\<lambda>_ _. 0x80) (\<lambda>s. s) 100 timer_machine = apic_timer_init (\<lambda>_ _. 0x80) (\<lambda>s. s) 250 timer_machine"
proof -
  obtain s1 where "apic_timer_count (\<lambda>_ _. 0x80) (\<lambda>s. s) timer_machine = Inr (0, s1)"
    by (simp add: apic_timer_count_def apic_write_def apic_read_def timer_machine_def kbind_kassert Let_def
        pit_wait_ms_def pit_poll.simps inb_def outb_def io_emit_def pit_set_oneshot_def kret_def)
  from timer_rate_ignored [OF this, of 100] timer_rate_ignored [OF this, of 250] show ?thesis by simp
qed

end
