(* ===== verification/Device_Properties.thy ===== *)
theory Device_Properties
  imports Descriptors Apic
begin

unbundle bit_operations_syntax

text \<open>
  The theorems about the interrupt controllers, PCI configuration space and the descriptor
  tables.
\<close>

definition latching_device :: io_device where
  "latching_device log e = (case e of In8 p \<Rightarrow> ucast (last_write p (rev log)) | _ \<Rightarrow> 0)"

lemma latching_device_reads_back: "reads_back latching_device"
proof -
  have "ucast (ucast x :: u32) = x" for x :: u8 by (auto intro!: bit_word_eqI simp: bit_simps)
  then show ?thesis by (simp add: reads_back_def latching_device_def)
qed

definition idle_io :: io_state where
  "idle_io = \<lparr>mem = (\<lambda>_. 0), offset = 0, page_list = 0, kernel_pml4 = 0, cr3 = 0, invlpg_log = [],
     free_list = 0, heap_top = 0, io_log = []\<rparr>"

text \<open>With controllers whose data port reads back the mask written last, \<open>pic_mask_irq\<close> and
  \<open>pic_unmask_irq\<close> set and clear the mask of exactly the line they are given, of all sixteen.\<close>

theorem pic_masks_one_line:
  assumes "reads_back dev" and "irq < 16" and "j < 16"
  shows "(irq_masked j (pic_mask_irq dev irq s) \<longleftrightarrow> j = irq \<or> irq_masked j s) \<and>
    (irq_masked j (pic_unmask_irq dev irq s) \<longleftrightarrow> j \<noteq> irq \<and> irq_masked j s)"
  using irq_masked_mask [OF assms] irq_masked_unmask [OF assms] by blast

lemma pic_masks_one_line_witness:
  "irq_masked 9 (pic_mask_irq latching_device 9 idle_io) \<and> \<not> irq_masked 9 (pic_unmask_irq latching_device 9 idle_io)"
  using pic_masks_one_line [OF latching_device_reads_back, of 9 9 idle_io] by simp

definition pci_decode :: "u32 \<Rightarrow> u8 \<times> u8 \<times> u8 \<times> u8" where
  "pci_decode a = (ucast (drop_bit 16 a), ucast (take_bit 5 (drop_bit 11 a)), ucast (take_bit 3 (drop_bit 8 a)),
     ucast (a AND 0xFC))"

text \<open>A configuration-space access addresses what it was asked for: for a slot below 32 and a
  function below 8 the bus, slot, function and dword offset can be read off the address, and the
  enable bit is set.\<close>

theorem pci_address_decodes:
  assumes "slot < 32" and "func < 8"
  shows "pci_decode (pci_config_address bus slot func off) = (bus, slot, func, off AND 0xFC) \<and>
    bit (pci_config_address bus slot func off) 31"
proof -
  note b = bit_pci_address [OF assms, of _ bus off]
  have hi: "\<not> bit slot n" if "5 \<le> n" for n
    by (rule word_bit_ge [OF _ that]) (use assms(1) in \<open>simp add: word_less_nat_alt\<close>)
  have hf: "\<not> bit func n" if "3 \<le> n" for n
    by (rule word_bit_ge [OF _ that]) (use assms(2) in \<open>simp add: word_less_nat_alt\<close>)
  have fc: "(0xFC :: u8) = NOT (mask 2)" "(0xFC :: u32) = push_bit 2 (mask 6)"
    by (simp_all add: mask_eq_exp_minus_1)
  have "ucast (drop_bit 16 (pci_config_address bus slot func off)) = bus"
    by (rule bit_word_eqI) (use b(4) in \<open>auto simp: bit_simps\<close>)
  moreover have "ucast (take_bit 5 (drop_bit 11 (pci_config_address bus slot func off))) = slot"
  proof (rule bit_word_eqI)
    fix n assume "n < LENGTH(8)"
    then show "bit (ucast (take_bit 5 (drop_bit 11 (pci_config_address bus slot func off))) :: u8) n = bit slot n"
      using b(3) [of n] hi [of n] by (cases "n < 5") (auto simp: bit_simps)
  qed
  moreover have "ucast (take_bit 3 (drop_bit 8 (pci_config_address bus slot func off))) = func"
  proof (rule bit_word_eqI)
    fix n assume "n < LENGTH(8)"
    then show "bit (ucast (take_bit 3 (drop_bit 8 (pci_config_address bus slot func off))) :: u8) n = bit func n"
      using b(2) [of n] hf [of n] by (cases "n < 3") (auto simp: bit_simps)
  qed
  moreover have "ucast (pci_config_address bus slot func off AND 0xFC) = off AND 0xFC"
  proof (rule bit_word_eqI)
    fix n assume "n < LENGTH(8)"
    then show "bit (ucast (pci_config_address bus slot func off AND 0xFC) :: u8) n = bit (off AND 0xFC) n"
      using b(1) [of n] unfolding fc by (auto simp: bit_simps)
  qed
  moreover have "bit (pci_config_address bus slot func off) 31" by (simp add: pci_config_address_def bit_simps)
  ultimately show ?thesis by (simp add: pci_decode_def)
qed

lemma pci_address_decodes_witness:
  "pci_decode (pci_config_address 3 31 7 0x26) = (3, 31, 7, 0x24)"
  using pci_address_decodes [of 31 7 3 "0x26"] by simp

text \<open>The descriptor encoders lose nothing: base and 20-bit limit of a segment, the 64-bit
  base of the task state segment and, for every one of the 256 vectors, the address of the
  stub, the kernel code selector and the interrupt-gate attributes are read back.\<close>

theorem descriptors_round_trip:
  assumes "length idt = 256" and "v < 256"
  shows "seg_base (gdt_encode_entry base limit acc gran) = base \<and>
    seg_limit (gdt_encode_entry base limit acc gran) = take_bit 20 limit \<and>
    tss_base (gdt_encode_tss tbase len) = tbase \<and>
    gate_target (idt_fill stubs idt ! v) = stubs v \<and> attributes (idt_fill stubs idt ! v) = 0x8E \<and>
    kernel_cs (idt_fill stubs idt ! v) = 0x08"
  using idt_fill_nth [OF assms, of stubs] by (simp add: seg_base_encode seg_limit_encode tss_base_encode)

lemma descriptors_round_trip_witness:
  "gate_target (idt_fill (\<lambda>v. 0xFFFFFFFF80001000 + of_nat v)
     (replicate 256 \<lparr>isr_low = 0, kernel_cs = 0, ist = 0, attributes = 0, isr_mid = 0, isr_high = 0, idt_reserved = 0\<rparr>) ! 14)
   = 0xFFFFFFFF8000100E"
  using descriptors_round_trip [of "replicate 256 \<lparr>isr_low = 0, kernel_cs = 0, ist = 0, attributes = 0, isr_mid = 0,
      isr_high = 0, idt_reserved = 0\<rparr>" 14 0 0 0 0 0 0 "\<lambda>v. 0xFFFFFFFF80001000 + of_nat v"] by simp

end
