(* ===== verification/Unicode_Tables.thy ===== *)
theory Unicode_Tables
  imports Prelude
begin

unbundle bit_operations_syntax

text \<open>
  The tables of the terminal (\<open>src/kernel/src/logging/flanterm.c\<close>): the 256-colour palette above
  the first sixteen, the intervals of combining and of wide characters with the binary search in
  them, and the switch that maps code points to the characters of code page 437, in three parts.
  A switch is an association list; its cases are distinct.
\<close>

subsection \<open>Colours\<close>

definition col256 :: "u32 list" where
  "col256 =
    [
     0x000000, 0x00005f, 0x000087, 0x0000af, 0x0000d7, 0x0000ff, 0x005f00, 0x005f5f, 0x005f87, 0x005faf, 0x005fd7,
     0x005fff, 0x008700, 0x00875f, 0x008787, 0x0087af, 0x0087d7, 0x0087ff, 0x00af00, 0x00af5f, 0x00af87, 0x00afaf,
     0x00afd7, 0x00afff, 0x00d700, 0x00d75f, 0x00d787, 0x00d7af, 0x00d7d7, 0x00d7ff, 0x00ff00, 0x00ff5f, 0x00ff87,
     0x00ffaf, 0x00ffd7, 0x00ffff, 0x5f0000, 0x5f005f, 0x5f0087, 0x5f00af, 0x5f00d7, 0x5f00ff, 0x5f5f00, 0x5f5f5f,
     0x5f5f87, 0x5f5faf, 0x5f5fd7, 0x5f5fff, 0x5f8700, 0x5f875f, 0x5f8787, 0x5f87af, 0x5f87d7, 0x5f87ff, 0x5faf00,
     0x5faf5f, 0x5faf87, 0x5fafaf, 0x5fafd7, 0x5fafff, 0x5fd700, 0x5fd75f, 0x5fd787, 0x5fd7af, 0x5fd7d7, 0x5fd7ff,
     0x5fff00, 0x5fff5f, 0x5fff87, 0x5fffaf, 0x5fffd7, 0x5fffff, 0x870000, 0x87005f, 0x870087, 0x8700af, 0x8700d7,
     0x8700ff, 0x875f00, 0x875f5f, 0x875f87, 0x875faf, 0x875fd7, 0x875fff, 0x878700, 0x87875f, 0x878787, 0x8787af,
     0x8787d7, 0x8787ff, 0x87af00, 0x87af5f, 0x87af87, 0x87afaf, 0x87afd7, 0x87afff, 0x87d700, 0x87d75f, 0x87d787,
     0x87d7af, 0x87d7d7, 0x87d7ff, 0x87ff00, 0x87ff5f, 0x87ff87, 0x87ffaf, 0x87ffd7, 0x87ffff, 0xaf0000, 0xaf005f,
     0xaf0087, 0xaf00af, 0xaf00d7, 0xaf00ff, 0xaf5f00, 0xaf5f5f, 0xaf5f87, 0xaf5faf, 0xaf5fd7, 0xaf5fff, 0xaf8700,
     0xaf875f, 0xaf8787, 0xaf87af, 0xaf87d7, 0xaf87ff, 0xafaf00, 0xafaf5f, 0xafaf87, 0xafafaf, 0xafafd7, 0xafafff,
     0xafd700, 0xafd75f, 0xafd787, 0xafd7af, 0xafd7d7, 0xafd7ff, 0xafff00, 0xafff5f, 0xafff87, 0xafffaf, 0xafffd7,
     0xafffff, 0xd70000, 0xd7005f, 0xd70087, 0xd700af, 0xd700d7, 0xd700ff, 0xd75f00, 0xd75f5f, 0xd75f87, 0xd75faf,
     0xd75fd7, 0xd75fff, 0xd78700, 0xd7875f, 0xd78787, 0xd787af, 0xd787d7, 0xd787ff, 0xd7af00, 0xd7af5f, 0xd7af87,
     0xd7afaf, 0xd7afd7, 0xd7afff, 0xd7d700, 0xd7d75f, 0xd7d787, 0xd7d7af, 0xd7d7d7, 0xd7d7ff, 0xd7ff00, 0xd7ff5f,
     0xd7ff87, 0xd7ffaf, 0xd7ffd7, 0xd7ffff, 0xff0000, 0xff005f, 0xff0087, 0xff00af, 0xff00d7, 0xff00ff, 0xff5f00,
     0xff5f5f, 0xff5f87, 0xff5faf, 0xff5fd7, 0xff5fff, 0xff8700, 0xff875f, 0xff8787, 0xff87af, 0xff87d7, 0xff87ff,
     0xffaf00, 0xffaf5f, 0xffaf87, 0xffafaf, 0xffafd7, 0xffafff, 0xffd700, 0xffd75f, 0xffd787, 0xffd7af, 0xffd7d7,
     0xffd7ff, 0xffff00, 0xffff5f, 0xffff87, 0xffffaf, 0xffffd7, 0xffffff, 0x080808, 0x121212, 0x1c1c1c, 0x262626,
     0x303030, 0x3a3a3a, 0x444444, 0x4e4e4e, 0x585858, 0x626262, 0x6c6c6c, 0x767676, 0x808080, 0x8a8a8a, 0x949494,
     0x9e9e9e, 0xa8a8a8, 0xb2b2b2, 0xbcbcbc, 0xc6c6c6, 0xd0d0d0, 0xdadada, 0xe4e4e4, 0xeeeeee]"

subsection \<open>Character widths\<close>

definition combining :: "(u32 \<times> u32) list" where
  "combining =
    [
     (0x0300, 0x036F), (0x0483, 0x0489), (0x0591, 0x05BD), (0x05BF, 0x05BF), (0x05C1, 0x05C2), (0x05C4, 0x05C5),
     (0x05C7, 0x05C7), (0x0610, 0x061A), (0x061C, 0x061C), (0x064B, 0x065F), (0x0670, 0x0670), (0x06D6, 0x06DC),
     (0x06DF, 0x06E4), (0x06E7, 0x06E8), (0x06EA, 0x06ED), (0x0711, 0x0711), (0x0730, 0x074A), (0x07A6, 0x07B0),
     (0x07EB, 0x07F3), (0x07FD, 0x07FD), (0x0816, 0x0819), (0x081B, 0x0823), (0x0825, 0x0827), (0x0829, 0x082D),
     (0x0859, 0x085B), (0x0897, 0x089F), (0x08CA, 0x08E1), (0x08E3, 0x0902), (0x093A, 0x093A), (0x093C, 0x093C),
     (0x0941, 0x0948), (0x094D, 0x094D), (0x0951, 0x0957), (0x0962, 0x0963), (0x0981, 0x0981), (0x09BC, 0x09BC),
     (0x09C1, 0x09C4), (0x09CD, 0x09CD), (0x09E2, 0x09E3), (0x09FE, 0x09FE), (0x0A01, 0x0A02), (0x0A3C, 0x0A3C),
     (0x0A41, 0x0A42), (0x0A47, 0x0A48), (0x0A4B, 0x0A4D), (0x0A51, 0x0A51), (0x0A70, 0x0A71), (0x0A75, 0x0A75),
     (0x0A81, 0x0A82), (0x0ABC, 0x0ABC), (0x0AC1, 0x0AC5), (0x0AC7, 0x0AC8), (0x0ACD, 0x0ACD), (0x0AE2, 0x0AE3),
     (0x0AFA, 0x0AFF), (0x0B01, 0x0B01), (0x0B3C, 0x0B3C), (0x0B3F, 0x0B3F), (0x0B41, 0x0B44), (0x0B4D, 0x0B4D),
     (0x0B55, 0x0B56), (0x0B62, 0x0B63), (0x0B82, 0x0B82), (0x0BC0, 0x0BC0), (0x0BCD, 0x0BCD), (0x0C00, 0x0C00),
     (0x0C04, 0x0C04), (0x0C3C, 0x0C3C), (0x0C3E, 0x0C40), (0x0C46, 0x0C48), (0x0C4A, 0x0C4D), (0x0C55, 0x0C56),
     (0x0C62, 0x0C63), (0x0C81, 0x0C81), (0x0CBC, 0x0CBC), (0x0CBF, 0x0CBF), (0x0CC6, 0x0CC6), (0x0CCC, 0x0CCD),
     (0x0CE2, 0x0CE3), (0x0D00, 0x0D01), (0x0D3B, 0x0D3C), (0x0D41, 0x0D44), (0x0D4D, 0x0D4D), (0x0D62, 0x0D63),
     (0x0D81, 0x0D81), (0x0DCA, 0x0DCA), (0x0DD2, 0x0DD4), (0x0DD6, 0x0DD6), (0x0E31, 0x0E31), (0x0E34, 0x0E3A),
     (0x0E47, 0x0E4E), (0x0EB1, 0x0EB1), (0x0EB4, 0x0EBC), (0x0EC8, 0x0ECE), (0x0F18, 0x0F19), (0x0F35, 0x0F35),
     (0x0F37, 0x0F37), (0x0F39, 0x0F39), (0x0F71, 0x0F7E), (0x0F80, 0x0F84), (0x0F86, 0x0F87), (0x0F8D, 0x0F97),
     (0x0F99, 0x0FBC), (0x0FC6, 0x0FC6), (0x102D, 0x1030), (0x1032, 0x1037), (0x1039, 0x103A), (0x103D, 0x103E),
     (0x1058, 0x1059), (0x105E, 0x1060), (0x1071, 0x1074), (0x1082, 0x1082), (0x1085, 0x1086), (0x108D, 0x108D),
     (0x109D, 0x109D), (0x1160, 0x11FF), (0x135D, 0x135F), (0x1712, 0x1714), (0x1732, 0x1733), (0x1752, 0x1753),
     (0x1772, 0x1773), (0x17B4, 0x17B5), (0x17B7, 0x17BD), (0x17C6, 0x17C6), (0x17C9, 0x17D3), (0x17DD, 0x17DD),
     (0x180B, 0x180F), (0x1885, 0x1886), (0x18A9, 0x18A9), (0x1920, 0x1922), (0x1927, 0x1928), (0x1932, 0x1932),
     (0x1939, 0x193B), (0x1A17, 0x1A18), (0x1A1B, 0x1A1B), (0x1A56, 0x1A56), (0x1A58, 0x1A5E), (0x1A60, 0x1A60),
     (0x1A62, 0x1A62), (0x1A65, 0x1A6C), (0x1A73, 0x1A7C), (0x1A7F, 0x1A7F), (0x1AB0, 0x1ADD), (0x1AE0, 0x1AEB),
     (0x1B00, 0x1B03), (0x1B34, 0x1B34), (0x1B36, 0x1B3A), (0x1B3C, 0x1B3C), (0x1B42, 0x1B42), (0x1B6B, 0x1B73),
     (0x1B80, 0x1B81), (0x1BA2, 0x1BA5), (0x1BA8, 0x1BA9), (0x1BAB, 0x1BAD), (0x1BE6, 0x1BE6), (0x1BE8, 0x1BE9),
     (0x1BED, 0x1BED), (0x1BEF, 0x1BF1), (0x1C2C, 0x1C33), (0x1C36, 0x1C37), (0x1CD0, 0x1CD2), (0x1CD4, 0x1CE0),
     (0x1CE2, 0x1CE8), (0x1CED, 0x1CED), (0x1CF4, 0x1CF4), (0x1CF8, 0x1CF9), (0x1DC0, 0x1DFF), (0x200B, 0x200F),
     (0x2028, 0x202E), (0x2060, 0x206F), (0x20D0, 0x20F0), (0x2CEF, 0x2CF1), (0x2D7F, 0x2D7F), (0x2DE0, 0x2DFF),
     (0x302A, 0x302D), (0x3099, 0x309A), (0x3164, 0x3164), (0xA66F, 0xA672), (0xA674, 0xA67D), (0xA69E, 0xA69F),
     (0xA6F0, 0xA6F1), (0xA802, 0xA802), (0xA806, 0xA806), (0xA80B, 0xA80B), (0xA825, 0xA826), (0xA82C, 0xA82C),
     (0xA8C4, 0xA8C5), (0xA8E0, 0xA8F1), (0xA8FF, 0xA8FF), (0xA926, 0xA92D), (0xA947, 0xA951), (0xA980, 0xA982),
     (0xA9B3, 0xA9B3), (0xA9B6, 0xA9B9), (0xA9BC, 0xA9BD), (0xA9E5, 0xA9E5), (0xAA29, 0xAA2E), (0xAA31, 0xAA32),
     (0xAA35, 0xAA36), (0xAA43, 0xAA43), (0xAA4C, 0xAA4C), (0xAA7C, 0xAA7C), (0xAAB0, 0xAAB0), (0xAAB2, 0xAAB4),
     (0xAAB7, 0xAAB8), (0xAABE, 0xAABF), (0xAAC1, 0xAAC1), (0xAAEC, 0xAAED), (0xAAF6, 0xAAF6), (0xABE5, 0xABE5),
     (0xABE8, 0xABE8), (0xABED, 0xABED), (0xD7B0, 0xD7FF), (0xFB1E, 0xFB1E), (0xFE00, 0xFE0F), (0xFE20, 0xFE2F),
     (0xFEFF, 0xFEFF), (0xFFA0, 0xFFA0), (0xFFF0, 0xFFFB), (0x101FD, 0x101FD), (0x102E0, 0x102E0), (0x10376, 0x1037A),
     (0x10A01, 0x10A03), (0x10A05, 0x10A06), (0x10A0C, 0x10A0F), (0x10A38, 0x10A3A), (0x10A3F, 0x10A3F),
     (0x10AE5, 0x10AE6), (0x10D24, 0x10D27), (0x10D69, 0x10D6D), (0x10EAB, 0x10EAC), (0x10EFA, 0x10EFF),
     (0x10F46, 0x10F50), (0x10F82, 0x10F85), (0x11001, 0x11001), (0x11038, 0x11046), (0x11070, 0x11070),
     (0x11073, 0x11074), (0x1107F, 0x11081), (0x110B3, 0x110B6), (0x110B9, 0x110BA), (0x110C2, 0x110C2),
     (0x11100, 0x11102), (0x11127, 0x1112B), (0x1112D, 0x11134), (0x11173, 0x11173), (0x11180, 0x11181),
     (0x111B6, 0x111BE), (0x111C9, 0x111CC), (0x111CF, 0x111CF), (0x1122F, 0x11231), (0x11234, 0x11234),
     (0x11236, 0x11237), (0x1123E, 0x1123E), (0x11241, 0x11241), (0x112DF, 0x112DF), (0x112E3, 0x112EA),
     (0x11300, 0x11301), (0x1133B, 0x1133C), (0x11340, 0x11340), (0x11366, 0x1136C), (0x11370, 0x11374),
     (0x113BB, 0x113C0), (0x113CE, 0x113CE), (0x113D0, 0x113D0), (0x113D2, 0x113D2), (0x113E1, 0x113E2),
     (0x11438, 0x1143F), (0x11442, 0x11444), (0x11446, 0x11446), (0x1145E, 0x1145E), (0x114B3, 0x114B8),
     (0x114BA, 0x114BA), (0x114BF, 0x114C0), (0x114C2, 0x114C3), (0x115B2, 0x115B5), (0x115BC, 0x115BD),
     (0x115BF, 0x115C0), (0x115DC, 0x115DD), (0x11633, 0x1163A), (0x1163D, 0x1163D), (0x1163F, 0x11640),
     (0x116AB, 0x116AB), (0x116AD, 0x116AD), (0x116B0, 0x116B5), (0x116B7, 0x116B7), (0x1171D, 0x1171D),
     (0x1171F, 0x1171F), (0x11722, 0x11725), (0x11727, 0x1172B), (0x1182F, 0x11837), (0x11839, 0x1183A),
     (0x1193B, 0x1193C), (0x1193E, 0x1193E), (0x11943, 0x11943), (0x119D4, 0x119D7), (0x119DA, 0x119DB),
     (0x119E0, 0x119E0), (0x11A01, 0x11A0A), (0x11A33, 0x11A38), (0x11A3B, 0x11A3E), (0x11A47, 0x11A47),
     (0x11A51, 0x11A56), (0x11A59, 0x11A5B), (0x11A8A, 0x11A96), (0x11A98, 0x11A99), (0x11B60, 0x11B60),
     (0x11B62, 0x11B64), (0x11B66, 0x11B66), (0x11C30, 0x11C36), (0x11C38, 0x11C3D), (0x11C3F, 0x11C3F),
     (0x11C92, 0x11CA7), (0x11CAA, 0x11CB0), (0x11CB2, 0x11CB3), (0x11CB5, 0x11CB6), (0x11D31, 0x11D36),
     (0x11D3A, 0x11D3A), (0x11D3C, 0x11D3D), (0x11D3F, 0x11D45), (0x11D47, 0x11D47), (0x11D90, 0x11D91),
     (0x11D95, 0x11D95), (0x11D97, 0x11D97), (0x11EF3, 0x11EF4), (0x11F00, 0x11F01), (0x11F36, 0x11F3A),
     (0x11F40, 0x11F40), (0x11F42, 0x11F42), (0x11F5A, 0x11F5A), (0x13430, 0x13440), (0x13447, 0x13455),
     (0x1611E, 0x16129), (0x1612D, 0x1612F), (0x16AF0, 0x16AF4), (0x16B30, 0x16B36), (0x16F4F, 0x16F4F),
     (0x16F8F, 0x16F92), (0x16FE4, 0x16FE4), (0x1BC9D, 0x1BC9E), (0x1BCA0, 0x1BCA3), (0x1CF00, 0x1CF2D),
     (0x1CF30, 0x1CF46), (0x1D167, 0x1D169), (0x1D173, 0x1D182), (0x1D185, 0x1D18B), (0x1D1AA, 0x1D1AD),
     (0x1D242, 0x1D244), (0x1DA00, 0x1DA36), (0x1DA3B, 0x1DA6C), (0x1DA75, 0x1DA75), (0x1DA84, 0x1DA84),
     (0x1DA9B, 0x1DA9F), (0x1DAA1, 0x1DAAF), (0x1E000, 0x1E006), (0x1E008, 0x1E018), (0x1E01B, 0x1E021),
     (0x1E023, 0x1E024), (0x1E026, 0x1E02A), (0x1E08F, 0x1E08F), (0x1E130, 0x1E136), (0x1E2AE, 0x1E2AE),
     (0x1E2EC, 0x1E2EF), (0x1E4EC, 0x1E4EF), (0x1E5EE, 0x1E5EF), (0x1E6E3, 0x1E6E3), (0x1E6E6, 0x1E6E6),
     (0x1E6EE, 0x1E6EF), (0x1E6F5, 0x1E6F5), (0x1E8D0, 0x1E8D6), (0x1E944, 0x1E94A), (0xE0000, 0xE0FFF)]"

definition wide :: "(u32 \<times> u32) list" where
  "wide =
    [
     (0x1100, 0x115F), (0x231A, 0x231B), (0x2329, 0x232A), (0x23E9, 0x23EC), (0x23F0, 0x23F0), (0x23F3, 0x23F3),
     (0x25FD, 0x25FE), (0x2614, 0x2615), (0x2630, 0x2637), (0x2648, 0x2653), (0x267F, 0x267F), (0x268A, 0x268F),
     (0x2693, 0x2693), (0x26A1, 0x26A1), (0x26AA, 0x26AB), (0x26BD, 0x26BE), (0x26C4, 0x26C5), (0x26CE, 0x26CE),
     (0x26D4, 0x26D4), (0x26EA, 0x26EA), (0x26F2, 0x26F3), (0x26F5, 0x26F5), (0x26FA, 0x26FA), (0x26FD, 0x26FD),
     (0x2705, 0x2705), (0x270A, 0x270B), (0x2728, 0x2728), (0x274C, 0x274C), (0x274E, 0x274E), (0x2753, 0x2755),
     (0x2757, 0x2757), (0x2795, 0x2797), (0x27B0, 0x27B0), (0x27BF, 0x27BF), (0x2B1B, 0x2B1C), (0x2B50, 0x2B50),
     (0x2B55, 0x2B55), (0x2E80, 0x2E99), (0x2E9B, 0x2EF3), (0x2F00, 0x2FD5), (0x2FF0, 0x303E), (0x3041, 0x3096),
     (0x3099, 0x30FF), (0x3105, 0x312F), (0x3131, 0x318E), (0x3190, 0x31E5), (0x31EF, 0x321E), (0x3220, 0x3247),
     (0x3250, 0xA48C), (0xA490, 0xA4C6), (0xA960, 0xA97C), (0xAC00, 0xD7A3), (0xF900, 0xFAFF), (0xFE10, 0xFE19),
     (0xFE30, 0xFE52), (0xFE54, 0xFE66), (0xFE68, 0xFE6B), (0xFF01, 0xFF60), (0xFFE0, 0xFFE6), (0x16FE0, 0x16FE4),
     (0x16FF0, 0x16FF6), (0x17000, 0x18CD5), (0x18CFF, 0x18D1E), (0x18D80, 0x18DF2), (0x1AFF0, 0x1AFF3),
     (0x1AFF5, 0x1AFFB), (0x1AFFD, 0x1AFFE), (0x1B000, 0x1B122), (0x1B132, 0x1B132), (0x1B150, 0x1B152),
     (0x1B155, 0x1B155), (0x1B164, 0x1B167), (0x1B170, 0x1B2FB), (0x1D300, 0x1D356), (0x1D360, 0x1D376),
     (0x1F004, 0x1F004), (0x1F0CF, 0x1F0CF), (0x1F18E, 0x1F18E), (0x1F191, 0x1F19A), (0x1F200, 0x1F202),
     (0x1F210, 0x1F23B), (0x1F240, 0x1F248), (0x1F250, 0x1F251), (0x1F260, 0x1F265), (0x1F300, 0x1F320),
     (0x1F32D, 0x1F335), (0x1F337, 0x1F37C), (0x1F37E, 0x1F393), (0x1F3A0, 0x1F3CA), (0x1F3CF, 0x1F3D3),
     (0x1F3E0, 0x1F3F0), (0x1F3F4, 0x1F3F4), (0x1F3F8, 0x1F43E), (0x1F440, 0x1F440), (0x1F442, 0x1F4FC),
     (0x1F4FF, 0x1F53D), (0x1F54B, 0x1F54E), (0x1F550, 0x1F567), (0x1F57A, 0x1F57A), (0x1F595, 0x1F596),
     (0x1F5A4, 0x1F5A4), (0x1F5FB, 0x1F64F), (0x1F680, 0x1F6C5), (0x1F6CC, 0x1F6CC), (0x1F6D0, 0x1F6D2),
     (0x1F6D5, 0x1F6D8), (0x1F6DC, 0x1F6DF), (0x1F6EB, 0x1F6EC), (0x1F6F4, 0x1F6FC), (0x1F7E0, 0x1F7EB),
     (0x1F7F0, 0x1F7F0), (0x1F90C, 0x1F93A), (0x1F93C, 0x1F945), (0x1F947, 0x1F9FF), (0x1FA70, 0x1FA7C),
     (0x1FA80, 0x1FA8A), (0x1FA8E, 0x1FAC6), (0x1FAC8, 0x1FAC8), (0x1FACD, 0x1FADC), (0x1FADF, 0x1FAEA),
     (0x1FAEF, 0x1FAF8), (0x20000, 0x2FFFD), (0x30000, 0x3FFFD)]"

text \<open>\<open>min\<close>, \<open>max\<close> and \<open>mid\<close> are signed; \<open>(min + max) / 2\<close> is only computed for \<open>0 \<le> min \<le> max\<close>.\<close>

function bisearch_loop :: "u32 \<Rightarrow> (u32 \<times> u32) list \<Rightarrow> int \<Rightarrow> int \<Rightarrow> bool" where
  "bisearch_loop ucs table lo hi =
     (if hi < lo then False
      else let mid = (lo + hi) div 2 in
        if ucs > snd (table ! nat mid) then bisearch_loop ucs table (mid + 1) hi
        else if ucs < fst (table ! nat mid) then bisearch_loop ucs table lo (mid - 1)
        else True)"
  by pat_completeness auto
termination
  by (relation "measure (\<lambda>(_, _, lo, hi). nat (hi - lo + 1))") auto

declare bisearch_loop.simps [simp del]

definition bisearch :: "u32 \<Rightarrow> (u32 \<times> u32) list \<Rightarrow> int \<Rightarrow> bool" where
  "bisearch ucs table hi =
     (if ucs < fst (table ! 0) \<or> ucs > snd (table ! nat hi) then False else bisearch_loop ucs table 0 hi)"

definition mk_wcwidth :: "u32 \<Rightarrow> int" where
  "mk_wcwidth ucs =
     (if ucs = 0 then 0
      else if ucs < 32 \<or> (ucs \<ge> 0x7f \<and> ucs < 0xa0) then - 1
      else if bisearch ucs combining (int (length combining) - 1) then 0
      else if bisearch ucs wide (int (length wide) - 1) then 2
      else 1)"

subsection \<open>Code page 437\<close>

text \<open>The Braille patterns, approximated by blocks and shades.\<close>

definition braille_to_cp437 :: "u32 \<Rightarrow> int" where
  "braille_to_cp437 dots =
     (if dots = 0 then 0x20
      else if dots = 0xff then 0xdb
      else let has_top = dots AND 0x1b \<noteq> 0; has_bottom = dots AND 0xe4 \<noteq> 0;
               has_left = dots AND 0x47 \<noteq> 0; has_right = dots AND 0xb8 \<noteq> 0
        in if has_top \<and> \<not> has_bottom then 0xdf
           else if has_bottom \<and> \<not> has_top then 0xdc
           else if has_left \<and> \<not> has_right then 0xdd
           else if has_right \<and> \<not> has_left then 0xde
           else let n = dots - (drop_bit 1 dots AND 0x55);
                    n = (n AND 0x33) + (drop_bit 2 n AND 0x33);
                    n = (n + drop_bit 4 n) AND 0x0f
             in if n \<le> 2 then 0xb0 else if n \<le> 4 then 0xb1 else if n \<le> 6 then 0xb2 else 0xdb)"

definition cp437_a :: "(u64 \<times> int) list" where
  "cp437_a =
    [
     (0x263A, 1), (0x263B, 2), (0x2665, 3), (0x2666, 4), (0x25C6, 4), (0x2663, 5), (0x2660, 6), (0x2022, 7),
     (0x25D8, 8), (0x25CB, 9), (0x25D9, 10), (0x2642, 11), (0x2640, 12), (0x266A, 13), (0x266B, 14), (0x263C, 15),
     (0x00A4, 15), (0x25BA, 16), (0x25B6, 16), (0x25C4, 17), (0x25C0, 17), (0x2195, 18), (0x203C, 19), (0x00B6, 20),
     (0x00A7, 21), (0x25AC, 22), (0x21A8, 23), (0x2191, 24), (0x2193, 25), (0x2192, 26), (0x2190, 27), (0x221F, 28),
     (0x2194, 29), (0x25B2, 30), (0x25BC, 31), (0x00A8, 0x22), (0x00B4, 0x27), (0x00B8, 0x2C), (0x00AD, 0x2D),
     (0x00C0, 0x41), (0x00C1, 0x41), (0x00C2, 0x41), (0x00C3, 0x41), (0x00A9, 0x43), (0x00D0, 0x44), (0x00C8, 0x45),
     (0x00CA, 0x45), (0x00CB, 0x45), (0x00CC, 0x49), (0x00CD, 0x49), (0x00CE, 0x49), (0x00CF, 0x49), (0x212A, 0x4B),
     (0x00D2, 0x4F), (0x00D3, 0x4F), (0x00D4, 0x4F), (0x00D5, 0x4F), (0x00AE, 0x52), (0x00D9, 0x55), (0x00DA, 0x55),
     (0x00DB, 0x55), (0x00DD, 0x59), (0x23BD, 0x5F), (0x00E3, 0x61), (0x00F5, 0x6F), (0x00D7, 0x78), (0x00FD, 0x79),
     (0x00A6, 0x7C), (0x2302, 127), (0x00C7, 128), (0x00FC, 129), (0x00E9, 130), (0x00E2, 131), (0x00E4, 132),
     (0x00E0, 133), (0x00E5, 134), (0x00E7, 135), (0x00EA, 136), (0x00EB, 137), (0x00E8, 138), (0x00EF, 139),
     (0x00EE, 140), (0x00EC, 141), (0x00C4, 142), (0x00C5, 143), (0x212B, 143), (0x00C9, 144), (0x00E6, 145),
     (0x00C6, 146), (0x00F4, 147), (0x00F6, 148), (0x00F2, 149), (0x00FB, 150), (0x00F9, 151), (0x00FF, 152),
     (0x00D6, 153), (0x00DC, 154), (0x00A2, 155), (0x00A3, 156), (0x00A5, 157), (0x20A7, 158), (0x0192, 159),
     (0x00E1, 160), (0x00ED, 161), (0x00F3, 162), (0x00FA, 163), (0x00F1, 164), (0x00D1, 165), (0x00AA, 166),
     (0x00BA, 167), (0x00BF, 168), (0x2310, 169), (0x00AC, 170), (0x00BD, 171), (0x00BC, 172), (0x00A1, 173),
     (0x00AB, 174), (0x00BB, 175), (0x2591, 176), (0x2592, 177), (0x2593, 178), (0x2502, 179), (0x2524, 180),
     (0x2561, 181), (0x2562, 182), (0x2556, 183), (0x2555, 184), (0x2563, 185), (0x2551, 186), (0x2557, 187),
     (0x255D, 188), (0x255C, 189), (0x255B, 190), (0x2510, 191), (0x2514, 192), (0x2534, 193), (0x252C, 194),
     (0x251C, 195), (0x2500, 196), (0x253C, 197), (0x255E, 198), (0x255F, 199), (0x255A, 200), (0x2554, 201),
     (0x2569, 202)]"

definition cp437_b :: "(u64 \<times> int) list" where
  "cp437_b =
    [
     (0x2566, 203), (0x2560, 204), (0x2550, 205), (0x256C, 206), (0x2567, 207), (0x2568, 208), (0x2564, 209),
     (0x2565, 210), (0x2559, 211), (0x2558, 212), (0x2552, 213), (0x2553, 214), (0x256B, 215), (0x256A, 216),
     (0x2518, 217), (0x250C, 218), (0x2588, 219), (0x2584, 220), (0x258C, 221), (0x2590, 222), (0x2580, 223),
     (0x03B1, 224), (0x00DF, 225), (0x03B2, 225), (0x0393, 226), (0x03C0, 227), (0x03A3, 228), (0x03C3, 229),
     (0x00B5, 230), (0x03BC, 230), (0x03C4, 231), (0x03A6, 232), (0x00D8, 232), (0x0398, 233), (0x03A9, 234),
     (0x2126, 234), (0x03B4, 235), (0x00F0, 235), (0x221E, 236), (0x03C6, 237), (0x00F8, 237), (0x03B5, 238),
     (0x2208, 238), (0x2229, 239), (0x2261, 240), (0x00B1, 241), (0x2265, 242), (0x2264, 243), (0x2320, 244),
     (0x2321, 245), (0x00F7, 246), (0x2248, 247), (0x00B0, 248), (0x2219, 249), (0x00B7, 250), (0x221A, 251),
     (0x207F, 252), (0x00B2, 253), (0x25A0, 254), (0xFFFD, 254), (0x00A0, 255), (0x256D, 0xDA), (0x256E, 0xBF),
     (0x256F, 0xD9), (0x2570, 0xC0), (0x2571, 0x2F), (0x2572, 0x5C), (0x2573, 0x58), (0x2501, 0xC4), (0x2503, 0xB3),
     (0x250F, 0xDA), (0x2513, 0xBF), (0x2517, 0xC0), (0x251B, 0xD9), (0x2523, 0xC3), (0x252B, 0xB4), (0x2533, 0xC2),
     (0x253B, 0xC1), (0x254B, 0xC5), (0x250D, 0xDA), (0x250E, 0xDA), (0x2511, 0xBF), (0x2512, 0xBF), (0x2515, 0xC0),
     (0x2516, 0xC0), (0x2519, 0xD9), (0x251A, 0xD9), (0x251D, 0xC3), (0x251E, 0xC3), (0x251F, 0xC3), (0x2520, 0xC3),
     (0x2521, 0xC3), (0x2522, 0xC3), (0x2525, 0xB4), (0x2526, 0xB4), (0x2527, 0xB4), (0x2528, 0xB4), (0x2529, 0xB4),
     (0x252A, 0xB4), (0x252D, 0xC2), (0x252E, 0xC2), (0x252F, 0xC2), (0x2530, 0xC2), (0x2531, 0xC2), (0x2532, 0xC2),
     (0x2535, 0xC1), (0x2536, 0xC1), (0x2537, 0xC1), (0x2538, 0xC1), (0x2539, 0xC1), (0x253A, 0xC1), (0x253D, 0xC5),
     (0x253E, 0xC5), (0x253F, 0xC5), (0x2540, 0xC5), (0x2541, 0xC5), (0x2542, 0xC5), (0x2543, 0xC5), (0x2544, 0xC5),
     (0x2545, 0xC5), (0x2546, 0xC5), (0x2547, 0xC5), (0x2548, 0xC5), (0x2549, 0xC5), (0x254A, 0xC5), (0x2504, 0xC4),
     (0x2505, 0xC4), (0x2506, 0xB3), (0x2507, 0xB3), (0x2508, 0xC4), (0x2509, 0xC4)]"

definition cp437_c :: "(u64 \<times> int) list" where
  "cp437_c =
    [
     (0x250A, 0xB3), (0x250B, 0xB3), (0x2574, 0xC4), (0x2575, 0xB3), (0x2576, 0xC4), (0x2577, 0xB3), (0x2578, 0xC4),
     (0x2579, 0xB3), (0x257A, 0xC4), (0x257B, 0xB3), (0x257C, 0xC4), (0x257D, 0xB3), (0x257E, 0xC4), (0x257F, 0xB3),
     (0x25B3, 30), (0x25B5, 30), (0x25B7, 16), (0x25B9, 16), (0x25BD, 31), (0x25BF, 31), (0x25C1, 17), (0x25C3, 17),
     (0x2581, 0xDC), (0x2582, 0xDC), (0x2583, 0xDC), (0x2585, 0xDC), (0x2586, 0xDB), (0x2587, 0xDB), (0x2589, 0xDB),
     (0x258A, 0xDB), (0x258B, 0xDD), (0x258D, 0xDD), (0x258E, 0xDD), (0x258F, 0xDD), (0x2594, 0xDF), (0x2595, 0xDE),
     (0x2596, 0xDC), (0x2597, 0xDC), (0x2598, 0xDF), (0x2599, 0xDB), (0x259A, 0xB1), (0x259B, 0xDB), (0x259C, 0xDB),
     (0x259D, 0xDF), (0x259E, 0xB1), (0x259F, 0xDB), (0x25CF, 0x07), (0x25C9, 0x0A), (0x25EF, 0x09), (0x25E6, 0x09),
     (0x25AA, 0xFE), (0x25FC, 0xFE), (0x2013, 0x2D), (0x2014, 0x2D), (0x2018, 0x27), (0x2019, 0x27), (0x201C, 0x22),
     (0x201D, 0x22), (0x2026, 0xFA), (0x2212, 0x2D), (0x2713, 0xFB), (0x2714, 0xFB), (0x21D0, 27), (0x21D1, 24),
     (0x21D2, 26), (0x21D3, 25), (0x21D4, 29), (0x21D5, 18), (0x2211, 0xE4), (0x23AF, 0xC4), (0x23F4, 17),
     (0x23F5, 16), (0x23F6, 30), (0x23F7, 31), (0x23F8, 0xBA), (0x23F9, 0xFE), (0x23FA, 0x07), (0x23A1, 0xDA),
     (0x23A2, 0xB3), (0x23A3, 0xC0), (0x23A4, 0xBF), (0x23A5, 0xB3), (0x23A6, 0xD9), (0x23A7, 0xDA), (0x23A8, 0xC3),
     (0x23A9, 0xC0), (0x23AA, 0xB3), (0x23AB, 0xBF), (0x23AC, 0xB4), (0x23AD, 0xD9), (0x23AE, 0xB3), (0x23B8, 0xB3),
     (0x23B9, 0xB3), (0x23BA, 0xC4), (0x23BB, 0xC4), (0x23BC, 0xC4), (0x23BE, 0xB3), (0x23BF, 0xC0), (0x231C, 0xDA),
     (0x231D, 0xBF), (0x231E, 0xC0), (0x231F, 0xD9)]"

definition unicode_to_cp437 :: "u64 \<Rightarrow> int" where
  "unicode_to_cp437 code_point =
     (if code_point \<ge> 0x2800 \<and> code_point \<le> 0x28ff then braille_to_cp437 (ucast (code_point - 0x2800))
      else case map_of cp437_a code_point of Some v \<Rightarrow> v
      | None \<Rightarrow> (case map_of cp437_b code_point of Some v \<Rightarrow> v
      | None \<Rightarrow> (case map_of cp437_c code_point of Some v \<Rightarrow> v
      | None \<Rightarrow> - 1)))"

subsection \<open>The DEC special graphics characters\<close>

definition dec_special_char :: "u8 \<Rightarrow> u8 option" where
  "dec_special_char = map_of
    [
     (0x60, 0x04), (0x30, 0xdb), (0x2d, 0x18), (0x2c, 0x1b), (0x2e, 0x19), (0x61, 0xb1), (0x66, 0xf8), (0x67, 0xf1),
     (0x68, 0xb0), (0x6a, 0xd9), (0x6b, 0xbf), (0x6c, 0xda), (0x6d, 0xc0), (0x6e, 0xc5), (0x71, 0xc4), (0x73, 0x5f),
     (0x74, 0xc3), (0x75, 0xb4), (0x76, 0xc1), (0x77, 0xc2), (0x78, 0xb3), (0x79, 0xf3), (0x7a, 0xf2), (0x7e, 0xfa),
     (0x5f, 0xff), (0x2b, 0x1a), (0x7b, 0xe3), (0x7d, 0x9c)]"

end
