(* ===== verification/Unicode_Properties.thy ===== *)
theory Unicode_Properties
  imports Unicode_Tables
begin

unbundle bit_operations_syntax

text \<open>
  The binary search of the width tables is membership in an interval, by the contract of a sorted
  table (\<open>interval_table\<close>) that both tables of the code satisfy.
\<close>

subsection \<open>Interval tables\<close>

definition before :: "u32 \<times> u32 \<Rightarrow> u32 \<times> u32 \<Rightarrow> bool" where
  "before a b \<longleftrightarrow> snd a < fst b \<and> fst b \<le> snd b"

definition in_interval :: "u32 \<Rightarrow> u32 \<times> u32 \<Rightarrow> bool" where
  "in_interval ucs i \<longleftrightarrow> fst i \<le> ucs \<and> ucs \<le> snd i"

lemma transp_before: "transp before"
  by (rule transpI) (auto simp: before_def)

locale interval_table =
  fixes table :: "(u32 \<times> u32) list"
  assumes nonempty: "table \<noteq> []"
    and first_ordered: "fst (hd table) \<le> snd (hd table)"
    and chained: "successively before table"
begin

lemma sorted_table: "sorted_wrt before table"
proof -
  have "successively before table \<longleftrightarrow> sorted_wrt before table"
    by (rule successively_iff_sorted_wrt_strong) (auto simp: before_def)
  with chained show ?thesis by simp
qed

lemma entry_before: "i < j \<Longrightarrow> j < length table \<Longrightarrow> snd (table ! i) < fst (table ! j)"
  using sorted_wrt_nth_less [OF sorted_table, of i j] by (simp add: before_def)

lemma entry_ordered: "i < length table \<Longrightarrow> fst (table ! i) \<le> snd (table ! i)"
  using sorted_wrt_nth_less [OF sorted_table, of 0 i] first_ordered nonempty
  by (cases "i = 0") (auto simp: before_def hd_conv_nth)

lemma entry_mono:
  assumes "i \<le> j" and "j < length table"
  shows "snd (table ! i) \<le> snd (table ! j)" "fst (table ! i) \<le> fst (table ! j)"
proof -
  have "snd (table ! i) \<le> snd (table ! j) \<and> fst (table ! i) \<le> fst (table ! j)"
  proof (cases "i = j")
    case False
    then have "snd (table ! i) < fst (table ! j)" using assms entry_before by simp
    moreover have "fst (table ! i) \<le> snd (table ! i)" "fst (table ! j) \<le> snd (table ! j)"
      using assms entry_ordered by simp_all
    ultimately have "snd (table ! i) \<le> snd (table ! j)" "fst (table ! i) \<le> fst (table ! j)" by order+
    then show ?thesis ..
  qed simp
  then show "snd (table ! i) \<le> snd (table ! j)" "fst (table ! i) \<le> fst (table ! j)" by simp_all
qed

lemma outside:
  assumes "ucs > snd (table ! m) \<and> i \<le> m \<and> m < length table \<or> ucs < fst (table ! m) \<and> m \<le> i \<and> i < length table"
  shows "\<not> in_interval ucs (table ! i)"
proof -
  from assms have "snd (table ! i) < ucs \<or> ucs < fst (table ! i)"
  proof
    assume "ucs > snd (table ! m) \<and> i \<le> m \<and> m < length table"
    then show ?thesis using entry_mono(1) [of i m] by (intro disjI1) (blast intro: le_less_trans)
  next
    assume "ucs < fst (table ! m) \<and> m \<le> i \<and> i < length table"
    then show ?thesis using entry_mono(2) [of m i] by (intro disjI2) (blast intro: less_le_trans)
  qed
  then show ?thesis by (auto simp: in_interval_def not_le [symmetric])
qed

lemma loop_iff:
  assumes "0 \<le> lo" and "hi < int (length table)"
  shows "bisearch_loop ucs table lo hi \<longleftrightarrow> (\<exists>i. lo \<le> int i \<and> int i \<le> hi \<and> in_interval ucs (table ! i))"
  using assms
proof (induction "nat (hi - lo + 1)" arbitrary: lo hi rule: less_induct)
  case less
  show ?case
  proof (cases "hi < lo")
    case True
    then show ?thesis by (subst bisearch_loop.simps) auto
  next
    case False
    define m where "m = nat ((lo + hi) div 2)"
    have m: "(lo + hi) div 2 = int m" "lo \<le> int m" "int m \<le> hi" using False less.prems by (simp_all add: m_def)
    have unfold: "bisearch_loop ucs table lo hi =
        (if ucs > snd (table ! m) then bisearch_loop ucs table (int m + 1) hi
         else if ucs < fst (table ! m) then bisearch_loop ucs table lo (int m - 1) else True)"
      using False by (subst bisearch_loop.simps) (simp add: Let_def m(1))
    consider "ucs > snd (table ! m)" | "\<not> ucs > snd (table ! m)" "ucs < fst (table ! m)" | "in_interval ucs (table ! m)"
      by (metis in_interval_def not_less)
    then show ?thesis
    proof cases
      case 1
      have "\<not> in_interval ucs (table ! i)" if "int i \<le> int m" for i
        by (rule outside [of m]) (use 1 that m less.prems in auto)
      then have "(int m + 1 \<le> int i \<and> int i \<le> hi \<and> in_interval ucs (table ! i)) =
          (lo \<le> int i \<and> int i \<le> hi \<and> in_interval ucs (table ! i))" for i
        using m(2) by (cases "int i \<le> int m") auto
      moreover have "bisearch_loop ucs table lo hi = bisearch_loop ucs table (int m + 1) hi" by (simp only: unfold 1 if_True)
      moreover have "bisearch_loop ucs table (int m + 1) hi = (\<exists>i. int m + 1 \<le> int i \<and> int i \<le> hi \<and> in_interval ucs (table ! i))"
        using m less.prems by (intro less.hyps) simp_all
      ultimately show ?thesis by (simp only:)
    next
      case 2
      have "\<not> in_interval ucs (table ! i)" if "int m \<le> int i" "int i \<le> hi" for i
        by (rule outside [of m]) (use 2 that m less.prems in auto)
      then have "(lo \<le> int i \<and> int i \<le> int m - 1 \<and> in_interval ucs (table ! i)) =
          (lo \<le> int i \<and> int i \<le> hi \<and> in_interval ucs (table ! i))" for i
        using m(3) by (cases "int m \<le> int i") auto
      moreover have "bisearch_loop ucs table lo hi = bisearch_loop ucs table lo (int m - 1)" by (simp only: unfold 2 if_True if_False)
      moreover have "bisearch_loop ucs table lo (int m - 1) = (\<exists>i. lo \<le> int i \<and> int i \<le> int m - 1 \<and> in_interval ucs (table ! i))"
        using m less.prems by (intro less.hyps) simp_all
      ultimately show ?thesis by (simp only:)
    next
      case 3
      then show ?thesis using m by (subst unfold) (auto simp: in_interval_def not_less)
    qed
  qed
qed

text \<open>The search is membership in one of the intervals.\<close>

lemma bisearch_iff: "bisearch ucs table (int (length table) - 1) \<longleftrightarrow> (\<exists>i \<in> set table. in_interval ucs i)"
proof -
  have mem: "(\<exists>i \<in> set table. in_interval ucs i) \<longleftrightarrow> (\<exists>i < length table. in_interval ucs (table ! i))"
    by (metis in_set_conv_nth)
  define n where "n = length table - 1"
  have n: "n < length table" "nat (int (length table) - 1) = n" using nonempty by (simp_all add: n_def)
  have out: "\<not> in_interval ucs (table ! i)" if "ucs < fst (table ! 0) \<or> ucs > snd (table ! n)" "i < length table" for i
    using that(1)
  proof
    assume "ucs < fst (table ! 0)"
    then show ?thesis by (intro outside [of 0]) (use that(2) in simp)
  next
    assume "ucs > snd (table ! n)"
    then show ?thesis by (intro outside [of n]) (use that(2) in \<open>auto simp: n_def\<close>)
  qed
  show ?thesis
    using out loop_iff [of 0 "int (length table) - 1" ucs] unfolding bisearch_def n(2) mem by force
qed

end

interpretation combining_table: interval_table combining
  by unfold_locales (simp_all add: combining_def before_def)

interpretation wide_table: interval_table wide
  by unfold_locales (simp_all add: wide_def before_def)

text \<open>C40. The width of a code point is decided by membership in the tables: nothing for NUL, -1 for
  the other control characters, 0 for a combining and 2 for a wide character, 1 for the rest; the
  binary search always ends and finds exactly the members of the intervals.\<close>

theorem width_by_membership:
  "mk_wcwidth ucs =
     (if ucs = 0 then 0 else if ucs < 32 \<or> 0x7f \<le> ucs \<and> ucs < 0xa0 then - 1
      else if \<exists>(a, b) \<in> set combining. a \<le> ucs \<and> ucs \<le> b then 0
      else if \<exists>(a, b) \<in> set wide. a \<le> ucs \<and> ucs \<le> b then 2 else 1)"
proof -
  have "(\<exists>i \<in> set t. in_interval ucs i) = (\<exists>(a, b) \<in> set t. a \<le> ucs \<and> ucs \<le> b)" for t
    by (simp add: in_interval_def case_prod_unfold)
  then show ?thesis unfolding mk_wcwidth_def combining_table.bisearch_iff wide_table.bisearch_iff by (simp only:)
qed

end
