(* ===== verification/Format.thy ===== *)
theory Format
  imports Prelude "HOL-Library.Char_ord"
begin

unbundle bit_operations_syntax

text \<open>
  The formatter (\<open>src/kernel/src/logging/format.c\<close>). A format string is the list of its
  characters before the terminating NUL; a variadic argument is a 64-bit slot or a string. The
  labels of the C function are functions here: each takes the rest of the format string and
  returns the rest after it, \<open>None\<close> where the code goes to \<open>lbl_done\<close> because the string ended.
  What the C standard leaves undefined is a fault: an index outside a row of \<open>g_lookup\<close>, an
  \<open>int\<close> that overflows, an argument that is missing or of the wrong kind. The writer is called
  with the characters of the result in order. Lengths are unbounded, which differs from the \<open>int\<close>
  of the code only for a precision of more than two billion.
\<close>

datatype fmt_fault = OutOfBounds | SignedOverflow | BadArgument | NumberDiverges

datatype fmt_arg = Word u64 | Str string

definition fbind :: "fmt_fault + 'a \<Rightarrow> ('a \<Rightarrow> fmt_fault + 'b) \<Rightarrow> fmt_fault + 'b" where
  "fbind r f = (case r of Inl e \<Rightarrow> Inl e | Inr x \<Rightarrow> f x)"

lemma fbind_simps [simp]: "fbind (Inl e) f = Inl e" "fbind (Inr x) f = f x"
  by (simp_all add: fbind_def)

definition FLAG_LEFT :: u8 where "FLAG_LEFT = push_bit 0 1"
definition FLAG_SIGN :: u8 where "FLAG_SIGN = push_bit 1 1"
definition FLAG_SPACE :: u8 where "FLAG_SPACE = push_bit 2 1"
definition FLAG_ALTERNATIVE :: u8 where "FLAG_ALTERNATIVE = push_bit 3 1"
definition FLAG_ZERO :: u8 where "FLAG_ZERO = push_bit 4 1"
definition FLAG_UPPERCASE :: u8 where "FLAG_UPPERCASE = push_bit 5 1"
definition FLAG_LEADING_ZERO :: u8 where "FLAG_LEADING_ZERO = push_bit 6 1"
definition FLAG_NO_PREFIX_ON_ZERO :: u8 where "FLAG_NO_PREFIX_ON_ZERO = push_bit 7 1"

subsection \<open>Tables\<close>

datatype length_prefix = L_NONE | L_H | L_HH | L_L | L_LL | L_J | L_Z | L_T | LL

datatype fmt_size = T_INT | T_UINT | T_CHAR | T_UCHAR | T_SHORT | T_USHORT | T_LONG | T_ULONG | T_LLONG | T_ULLONG
  | T_PTR | T_DOUBLE | T_LDOUBLE | T_INTMAX | T_UINTMAX | T_SIZE | T_SSIZE | T_PTRDIFF | T_UPTRDIFF

fun g_lookup :: "length_prefix \<Rightarrow> (char \<times> fmt_size) list" where
  "g_lookup L_NONE = [(CHR ''c'', T_INT), (CHR ''s'', T_PTR), (CHR ''d'', T_INT), (CHR ''i'', T_INT),
     (CHR ''o'', T_UINT), (CHR ''x'', T_UINT), (CHR ''u'', T_UINT),
     (CHR ''f'', T_DOUBLE), (CHR ''e'', T_DOUBLE), (CHR ''a'', T_DOUBLE), (CHR ''g'', T_DOUBLE),
     (CHR ''n'', T_PTR), (CHR ''p'', T_PTR)]"
| "g_lookup L_H = [(CHR ''d'', T_SHORT), (CHR ''i'', T_SHORT),
     (CHR ''o'', T_USHORT), (CHR ''x'', T_USHORT), (CHR ''u'', T_USHORT), (CHR ''n'', T_PTR)]"
| "g_lookup L_HH = [(CHR ''d'', T_CHAR), (CHR ''i'', T_CHAR),
     (CHR ''o'', T_UCHAR), (CHR ''x'', T_UCHAR), (CHR ''u'', T_UCHAR), (CHR ''n'', T_PTR)]"
| "g_lookup L_L = [(CHR ''c'', T_INT), (CHR ''s'', T_PTR), (CHR ''d'', T_LONG), (CHR ''i'', T_LONG),
     (CHR ''o'', T_ULONG), (CHR ''x'', T_ULONG), (CHR ''u'', T_ULONG),
     (CHR ''f'', T_DOUBLE), (CHR ''e'', T_DOUBLE), (CHR ''a'', T_DOUBLE), (CHR ''g'', T_DOUBLE), (CHR ''n'', T_PTR)]"
| "g_lookup L_LL = [(CHR ''d'', T_LLONG), (CHR ''i'', T_LLONG),
     (CHR ''o'', T_ULLONG), (CHR ''x'', T_ULLONG), (CHR ''u'', T_ULLONG), (CHR ''n'', T_PTR)]"
| "g_lookup L_J = [(CHR ''d'', T_INTMAX), (CHR ''i'', T_INTMAX),
     (CHR ''o'', T_UINTMAX), (CHR ''x'', T_UINTMAX), (CHR ''u'', T_UINTMAX), (CHR ''n'', T_PTR)]"
| "g_lookup L_Z = [(CHR ''d'', T_SSIZE), (CHR ''i'', T_SSIZE),
     (CHR ''o'', T_SIZE), (CHR ''x'', T_SIZE), (CHR ''u'', T_SIZE), (CHR ''n'', T_PTR)]"
| "g_lookup L_T = [(CHR ''d'', T_PTRDIFF), (CHR ''i'', T_PTRDIFF),
     (CHR ''o'', T_UPTRDIFF), (CHR ''x'', T_UPTRDIFF), (CHR ''u'', T_UPTRDIFF), (CHR ''n'', T_PTR)]"
| "g_lookup LL = [(CHR ''f'', T_LDOUBLE), (CHR ''e'', T_LDOUBLE), (CHR ''a'', T_LDOUBLE), (CHR ''g'', T_LDOUBLE)]"

text \<open>The prefixes, each ended by a NUL: nothing at 0, \<open>0x\<close> at 1, \<open>0X\<close> at 4, \<open>+\<close> at 7, a space at 9.\<close>

definition g_prefixes :: string where
  "g_prefixes = [CHR 0x00, CHR ''0'', CHR ''x'', CHR 0x00, CHR ''0'', CHR ''X'', CHR 0x00, CHR ''+'', CHR 0x00, CHR '' '']"

definition prefix_at :: "nat \<Rightarrow> string" where
  "prefix_at off = takeWhile (\<lambda>c. c \<noteq> CHR 0x00) (drop off g_prefixes)"

subsection \<open>Parsing a conversion\<close>

definition peek :: "string \<Rightarrow> char" where
  "peek fmt = (case fmt of [] \<Rightarrow> CHR 0x00 | c # _ \<Rightarrow> c)"

fun flags_loop :: "string \<Rightarrow> u8 \<Rightarrow> (string \<times> u8) option" where
  "flags_loop [] flags = None"
| "flags_loop (c # cs) flags =
     (if c = CHR ''-'' then flags_loop cs (flags OR FLAG_LEFT)
      else if c = CHR ''+'' then flags_loop cs (flags OR FLAG_SIGN)
      else if c = CHR '' '' then flags_loop cs (flags OR FLAG_SPACE)
      else if c = CHR ''#'' then flags_loop cs (flags OR FLAG_ALTERNATIVE)
      else if c = CHR ''0'' then flags_loop cs (flags OR FLAG_ZERO)
      else let flags = (if flags AND FLAG_SIGN \<noteq> 0 then flags AND NOT FLAG_SPACE else flags);
               flags = (if flags AND FLAG_LEFT \<noteq> 0 then flags AND NOT FLAG_ZERO else flags)
        in Some (c # cs, flags))"

text \<open>The loops that read a decimal number, of the width and of the precision.\<close>

fun decimal_loop :: "string \<Rightarrow> int \<Rightarrow> fmt_fault + (string \<times> int) option" where
  "decimal_loop [] n = Inr None"
| "decimal_loop (c # cs) n =
     (if CHR ''0'' \<le> c \<and> c \<le> CHR ''9'' then
        let n = n * 10 + (of_char c - 48) in
        if n > 2147483647 then Inl SignedOverflow else decimal_loop cs n
      else Inr (Some (c # cs, n)))"

definition int_arg :: "fmt_arg list \<Rightarrow> fmt_fault + (int \<times> fmt_arg list)" where
  "int_arg args = (case args of Word w # args \<Rightarrow> Inr (sint (ucast w :: u32), args) | _ \<Rightarrow> Inl BadArgument)"

definition width_step :: "string \<Rightarrow> u8 \<Rightarrow> fmt_arg list \<Rightarrow> fmt_fault + (string \<times> u8 \<times> int \<times> fmt_arg list) option" where
  "width_step fmt flags args =
     (if peek fmt = CHR ''*'' then
        fbind (int_arg args) (\<lambda>(width, args).
        if width < 0 then
          if width = - 2147483648 then Inl SignedOverflow
          else Inr (Some (tl fmt, flags OR FLAG_LEFT, - width, args))
        else Inr (Some (tl fmt, flags, width, args)))
      else fbind (decimal_loop fmt 0) (\<lambda>r. Inr (map_option (\<lambda>(fmt, width). (fmt, flags, width, args)) r)))"

definition precision_step :: "string \<Rightarrow> u8 \<Rightarrow> fmt_arg list \<Rightarrow> fmt_fault + (string \<times> u8 \<times> int \<times> fmt_arg list) option" where
  "precision_step fmt flags args =
     (if peek fmt \<noteq> CHR ''.'' then Inr (Some (fmt, flags, - 1, args))
      else let flags = flags AND NOT FLAG_ZERO; fmt = tl fmt in
        if peek fmt = CHR ''*'' then
          fbind (int_arg args) (\<lambda>(precision, args).
          Inr (Some (tl fmt, flags, if precision < 0 then 1 else precision, args)))
        else fbind (decimal_loop fmt 0) (\<lambda>r. Inr (map_option (\<lambda>(fmt, precision). (fmt, flags, precision, args)) r)))"

definition length_step :: "string \<Rightarrow> string \<times> length_prefix" where
  "length_step fmt =
     (if peek fmt = CHR ''h'' then
        (if peek (tl fmt) = CHR ''h'' then (tl (tl fmt), L_HH) else (tl fmt, L_H))
      else if peek fmt = CHR ''l'' then
        (if peek (tl fmt) = CHR ''l'' then (tl (tl fmt), L_LL) else (tl fmt, L_L))
      else if peek fmt = CHR ''j'' then (tl fmt, L_J)
      else if peek fmt = CHR ''z'' then (tl fmt, L_Z)
      else if peek fmt = CHR ''t'' then (tl fmt, L_T)
      else if peek fmt = CHR ''L'' then (tl fmt, LL)
      else (fmt, L_NONE))"

text \<open>\<open>index\<close> is a byte that is moved up by 32 below \<open>'a'\<close>; rows of \<open>g_lookup\<close> have 26 entries.\<close>

definition arg_size :: "length_prefix \<Rightarrow> char \<Rightarrow> fmt_fault + fmt_size option" where
  "arg_size length_prefix c =
     (let index = (of_char c :: nat); index = (if index < 97 then index + 32 else index) in
      if index < 97 \<or> 97 + 26 \<le> index then Inl OutOfBounds
      else case map_of (g_lookup length_prefix) (char_of index) of
             Some sz \<Rightarrow> Inr (Some sz)
           | None \<Rightarrow> Inr (map_of (g_lookup L_NONE) (char_of index)))"

fun convert_int :: "fmt_size \<Rightarrow> u64 \<Rightarrow> u64" where
  "convert_int T_INT w = scast (ucast w :: u32)"
| "convert_int T_UINT w = ucast (ucast w :: u32)"
| "convert_int T_CHAR w = scast (ucast w :: u8)"
| "convert_int T_UCHAR w = ucast (ucast w :: u8)"
| "convert_int T_SHORT w = scast (ucast w :: u16)"
| "convert_int T_USHORT w = ucast (ucast w :: u16)"
| "convert_int _ w = w"

text \<open>Floating-point sizes take no argument; their conversions are invalid.\<close>

definition read_value :: "fmt_size \<Rightarrow> fmt_arg list \<Rightarrow> fmt_fault + (fmt_arg \<times> fmt_arg list)" where
  "read_value sz args =
     (if sz = T_DOUBLE \<or> sz = T_LDOUBLE then Inr (Word 0, args)
      else case args of
             [] \<Rightarrow> Inl BadArgument
           | Word w # args \<Rightarrow> Inr (Word (if sz = T_PTR then w else convert_int sz w), args)
           | Str str # args \<Rightarrow> if sz = T_PTR then Inr (Str str, args) else Inl BadArgument)"

subsection \<open>Numbers\<close>

partial_function (option) power_loop :: "u64 \<Rightarrow> u64 \<Rightarrow> u64 \<Rightarrow> nat \<Rightarrow> (u64 \<times> nat) option" where
  [code]: "power_loop radix value pw len =
     (if value div pw \<ge> radix then power_loop radix value (pw * radix) (len + 1) else Some (pw, len))"

definition digit_char :: "bool \<Rightarrow> u8 \<Rightarrow> char" where
  "digit_char upper c =
     (if c \<ge> 10 then char_of (unat c - 10 + (if upper then 65 else 97)) else char_of (unat c + 48))"

partial_function (option) digit_loop :: "bool \<Rightarrow> u64 \<Rightarrow> bool \<Rightarrow> u64 \<Rightarrow> u64 \<Rightarrow> string option" where
  [code]: "digit_loop upper radix precise value pw =
     (if pw \<noteq> 0 \<and> (precise \<or> value \<noteq> 0) then
        Option.bind (digit_loop upper radix precise (value mod pw) (pw div radix))
          (\<lambda>rest. Some (digit_char upper (ucast (value div pw)) # rest))
      else Some [])"

definition pad :: "int \<Rightarrow> int \<Rightarrow> char \<Rightarrow> string" where
  "pad len width c = replicate (nat (width - len)) c"

text \<open>\<open>lbl_print_number\<close>: \<open>None\<close> where one of its loops does not end.\<close>

definition print_number :: "u8 \<Rightarrow> int \<Rightarrow> int \<Rightarrow> u64 \<Rightarrow> bool \<Rightarrow> nat \<Rightarrow> u64 \<Rightarrow> string option" where
  "print_number flags width precision radix negative prefix_offset value =
     (case power_loop radix value 1 (if precision \<noteq> 0 \<or> value \<noteq> 0 then 1 else 0) of
        None \<Rightarrow> None
      | Some (pw, len) \<Rightarrow>
          let precision_pad = (if precision > int len then precision - int len else 0);
              precision_pad = (if precision_pad = 0 \<and> flags AND FLAG_LEADING_ZERO \<noteq> 0 \<and>
                (value \<noteq> 0 \<or> flags AND FLAG_NO_PREFIX_ON_ZERO = 0) then 1 else precision_pad);
              len = int len + precision_pad;
              with_prefix = (flags AND FLAG_NO_PREFIX_ON_ZERO = 0 \<or> value \<noteq> 0);
              sign = (if negative then ''-'' else if with_prefix then prefix_at prefix_offset else '''');
              len = len + int (length sign);
              left = (if flags AND (FLAG_LEFT OR FLAG_ZERO) = 0 then pad len width CHR '' '' else '''')
          in if len = 0 then Some left
             else case digit_loop (flags AND FLAG_UPPERCASE \<noteq> 0) radix (precision \<noteq> 0) value pw of
                    None \<Rightarrow> None
                  | Some digits \<Rightarrow> Some (left @ sign
                      @ (if flags AND (FLAG_ZERO OR FLAG_LEFT) = FLAG_ZERO then pad len width CHR ''0'' else '''')
                      @ replicate (nat precision_pad) CHR ''0'' @ digits
                      @ (if flags AND FLAG_LEFT \<noteq> 0 then pad len width CHR '' '' else '''')))"

subsection \<open>Conversions\<close>

datatype conversion = Converted string | Invalid

definition number :: "string option \<Rightarrow> fmt_fault + conversion" where
  "number r = (case r of None \<Rightarrow> Inl NumberDiverges | Some out \<Rightarrow> Inr (Converted out))"

definition convert :: "char \<Rightarrow> u8 \<Rightarrow> int \<Rightarrow> int \<Rightarrow> fmt_arg \<Rightarrow> fmt_fault + conversion" where
  "convert c flags width precision value =
     (let flags' = (if c = CHR ''X'' then flags OR FLAG_UPPERCASE else flags);
          precision' = (if precision < 0 then 1 else precision)
      in case value of
           Str str \<Rightarrow>
             if c = CHR ''s'' then
               let len = int (length str);
                   len = (if precision \<ge> 0 \<and> precision < len then precision else len)
               in Inr (Converted
                    ((if flags AND FLAG_LEFT = 0 then pad len width CHR '' '' else '''') @ take (nat len) str
                     @ (if flags AND FLAG_LEFT \<noteq> 0 then pad len width CHR '' '' else '''')))
             else Inr Invalid
         | Word v \<Rightarrow>
             if c = CHR ''c'' then
               Inr (Converted
                 ((if flags AND FLAG_LEFT = 0 then pad 1 width CHR '' '' else '''') @ [char_of (unat (ucast v :: u8))]
                  @ (if flags AND FLAG_LEFT \<noteq> 0 then pad 1 width CHR '' '' else '''')))
             else if c = CHR ''s'' then Inl BadArgument
             else if c = CHR ''X'' \<or> c = CHR ''x'' then
               number (print_number (flags' OR FLAG_NO_PREFIX_ON_ZERO) width precision' 16 False
                 (if flags' AND FLAG_ALTERNATIVE \<noteq> 0 then if flags' AND FLAG_UPPERCASE \<noteq> 0 then 4 else 1 else 0) v)
             else if c = CHR ''u'' then number (print_number flags width precision' 10 False 0 v)
             else if c = CHR ''o'' then
               let flags = (if flags AND FLAG_ALTERNATIVE \<noteq> 0 then flags OR FLAG_LEADING_ZERO else flags)
               in number (print_number (flags OR FLAG_NO_PREFIX_ON_ZERO) width precision' 8 False 0 v)
             else if c = CHR ''d'' \<or> c = CHR ''i'' then
               let prefix_offset = (if flags AND FLAG_SIGN \<noteq> 0 then 7 else if flags AND FLAG_SPACE \<noteq> 0 then 9 else 0);
                   negative = v <s 0
               in number (print_number flags width precision' 10 negative prefix_offset (if negative then - v else v))
             else Inr Invalid)"

text \<open>From the character after a percent sign to the end of its conversion: what is written, and
  the rest of the format string and of the arguments; \<open>None\<close> when the format string ends inside.\<close>

definition directive :: "string \<Rightarrow> fmt_arg list \<Rightarrow> fmt_fault + (string \<times> string \<times> fmt_arg list) option" where
  "directive fallback args =
     (case flags_loop fallback 0 of
        None \<Rightarrow> Inr None
      | Some (fmt, flags) \<Rightarrow>
          fbind (width_step fmt flags args) (\<lambda>r. case r of None \<Rightarrow> Inr None | Some (fmt, flags, width, args) \<Rightarrow>
          fbind (precision_step fmt flags args) (\<lambda>r. case r of None \<Rightarrow> Inr None | Some (fmt, flags, precision, args) \<Rightarrow>
          let (fmt, length_prefix) = length_step fmt in
          fbind (arg_size length_prefix (peek fmt)) (\<lambda>r. case r of
            None \<Rightarrow> Inr (Some (''%'', fallback, args))
          | Some sz \<Rightarrow>
              fbind (read_value sz args) (\<lambda>(value, args).
              fbind (convert (peek fmt) flags width precision value) (\<lambda>r. case r of
                Invalid \<Rightarrow> Inr (Some (''%'', fallback, args))
              | Converted out \<Rightarrow> Inr (Some (out, tl fmt, args))))))))"

subsection \<open>Every step consumes its part of the format string\<close>

lemma flags_loop_length: "flags_loop fmt flags = Some (fmt', flags') \<Longrightarrow> length fmt' \<le> length fmt"
  by (induction fmt arbitrary: flags) (auto simp: Let_def le_SucI split: if_splits)

lemma decimal_loop_length: "decimal_loop fmt n = Inr (Some (fmt', k)) \<Longrightarrow> length fmt' \<le> length fmt"
  by (induction fmt arbitrary: n) (auto simp: Let_def le_SucI split: if_splits)

lemma fbind_eq_Inr: "fbind r f = Inr y \<longleftrightarrow> (\<exists>x. r = Inr x \<and> f x = Inr y)"
  by (cases r) auto

lemma width_step_length: "width_step fmt flags args = Inr (Some (fmt', x)) \<Longrightarrow> length fmt' \<le> length fmt"
  by (auto simp: width_step_def fbind_eq_Inr dest: decimal_loop_length split: if_splits)

lemma precision_step_length: "precision_step fmt flags args = Inr (Some (fmt', x)) \<Longrightarrow> length fmt' \<le> length fmt"
  by (auto simp: precision_step_def fbind_eq_Inr Let_def dest!: decimal_loop_length split: if_splits)

lemma length_step_length: "length (fst (length_step fmt)) \<le> length fmt"
  by (auto simp: length_step_def)

lemma directive_length:
  assumes "directive fallback args = Inr (Some (out, rest, args'))"
  shows "length rest \<le> length fallback"
proof -
  obtain fmt flags where 1: "flags_loop fallback 0 = Some (fmt, flags)"
    using assms by (auto simp: directive_def split: option.splits)
  obtain fmt2 flags2 width args2 where 2: "width_step fmt flags args = Inr (Some (fmt2, flags2, width, args2))"
    using assms 1 by (auto simp: directive_def fbind_eq_Inr split: option.splits)
  obtain fmt3 flags3 precision args3 where
    3: "precision_step fmt2 flags2 args2 = Inr (Some (fmt3, flags3, precision, args3))"
    using assms 1 2 by (auto simp: directive_def fbind_eq_Inr split: option.splits)
  have "rest = fallback \<or> rest = tl (fst (length_step fmt3))"
    using assms 1 2 3
    by (auto simp: directive_def fbind_eq_Inr Let_def case_prod_unfold split: option.splits conversion.splits)
      (metis conversion.exhaust)
  moreover have "length (tl (fst (length_step fmt3))) \<le> length fallback"
    using flags_loop_length [OF 1] width_step_length [OF 2] precision_step_length [OF 3] length_step_length [of fmt3]
    by simp
  ultimately show ?thesis by auto
qed

subsection \<open>The formatter\<close>

function format_run :: "string \<Rightarrow> fmt_arg list \<Rightarrow> fmt_fault + string" where
  "format_run [] args = Inr ''''"
| "format_run (c # cs) args =
     (if c = CHR ''%'' then
        if peek cs = CHR ''%'' then fbind (format_run (tl cs) args) (\<lambda>out. Inr (CHR ''%'' # out))
        else case directive cs args of
               Inl e \<Rightarrow> Inl e
             | Inr None \<Rightarrow> Inr ''''
             | Inr (Some (out, rest, args)) \<Rightarrow> fbind (format_run rest args) (\<lambda>out'. Inr (out @ out'))
      else fbind (format_run cs args) (\<lambda>out. Inr (c # out)))"
  by pat_completeness auto
termination
  by (relation "measure (\<lambda>(fmt, _). length fmt)") (auto dest: directive_length)

declare format_run.simps(2) [simp del]

text \<open>The result of \<open>format\<close>: the characters given to the writer, and the returned count.\<close>

definition format :: "string \<Rightarrow> fmt_arg list \<Rightarrow> fmt_fault + (string \<times> int)" where
  "format fmt args = fbind (format_run fmt args) (\<lambda>out. Inr (out, sint (of_nat (length out) :: u32)))"

end
