(* ===== verification/Printk.thy ===== *)
theory Printk
  imports Format Port_Io
begin

unbundle bit_operations_syntax

text \<open>
  The kernel log (\<open>src/kernel/src/logging/printk.c\<close>) and the debug console
  (\<open>src/kernel/src/logging/serial.c\<close>). A character given to \<open>print_char\<close> goes to the terminal one at a time; \<open>console\<close> is the list of all of them.
\<close>

record log_state =
  console :: string
  fmt_buf :: string
  fmt_buf_pos :: nat

abbreviation newline :: char where "newline \<equiv> CHR 0x0A"
abbreviation carriage_return :: char where "carriage_return \<equiv> CHR 0x0D"
abbreviation esc_char :: char where "esc_char \<equiv> CHR 0x1B"

definition LOG_DEBUG :: int where "LOG_DEBUG = 0"
definition LOG_INFO :: int where "LOG_INFO = 1"
definition LOG_WARN :: int where "LOG_WARN = 2"
definition LOG_ERROR :: int where "LOG_ERROR = 3"
definition LOG_FATAL :: int where "LOG_FATAL = 4"
definition LOG_LEVEL :: int where "LOG_LEVEL = LOG_DEBUG"

definition level_prefix :: "string list" where
  "level_prefix = [''[DEBUG] '', ''[INFO]  '', ''[WARN]  '', ''[ERROR] '', ''[FATAL] '']"

definition level_color :: "string list" where
  "level_color = [esc_char # ''[36m'', esc_char # ''[32m'', esc_char # ''[33m'', esc_char # ''[31m'', esc_char # ''[35m'']"

definition ANSI_RESET :: string where
  "ANSI_RESET = esc_char # ''[0m''"

definition print_char :: "char \<Rightarrow> 'z log_state_scheme \<Rightarrow> 'z log_state_scheme" where
  "print_char c s = s\<lparr>console := console s @ [c]\<rparr>"

fun print_str :: "string \<Rightarrow> 'z log_state_scheme \<Rightarrow> 'z log_state_scheme" where
  "print_str [] s = s"
| "print_str (c # cs) s = print_str cs (print_char c s)"

definition vprintk :: "string \<Rightarrow> fmt_arg list \<Rightarrow> 'z log_state_scheme \<Rightarrow> fmt_fault + 'z log_state_scheme" where
  "vprintk fmt ap s =
     (let s = print_char carriage_return s in
      fbind (format fmt ap) (\<lambda>(out, _). Inr (fold print_char out s)))"

definition printk :: "string \<Rightarrow> fmt_arg list \<Rightarrow> 'z log_state_scheme \<Rightarrow> fmt_fault + 'z log_state_scheme" where
  "printk fmt args s =
     (let s = print_char carriage_return s in
      fbind (format fmt args) (\<lambda>(out, _). Inr (fold print_char out s)))"

text \<open>The level after the tests at the head of \<open>printk_level\<close> and \<open>vprintk_level\<close>, and the three
  strings that open a line.\<close>

definition log_level :: "int \<Rightarrow> nat" where
  "log_level level = nat (if level < LOG_DEBUG \<or> level > LOG_FATAL then LOG_DEBUG else level)"

definition print_header :: "int \<Rightarrow> 'z log_state_scheme \<Rightarrow> 'z log_state_scheme" where
  "print_header level s =
     print_str ANSI_RESET (print_str (level_prefix ! log_level level) (print_str (level_color ! log_level level) s))"

definition printk_level :: "int \<Rightarrow> string \<Rightarrow> fmt_arg list \<Rightarrow> 'z log_state_scheme \<Rightarrow> fmt_fault + 'z log_state_scheme" where
  "printk_level level fmt args s =
     (if level < LOG_LEVEL then Inr s
      else let s = print_char carriage_return s; s = print_header level s in
        fbind (format fmt args) (\<lambda>(out, _). Inr (print_char newline (fold print_char out s))))"

definition buf_write_char :: "char \<Rightarrow> 'z log_state_scheme \<Rightarrow> 'z log_state_scheme" where
  "buf_write_char c s =
     (if fmt_buf_pos s < 1024 - 1
      then s\<lparr>fmt_buf := (fmt_buf s)[fmt_buf_pos s := c], fmt_buf_pos := fmt_buf_pos s + 1\<rparr> else s)"

definition print_buffered :: "int \<Rightarrow> nat \<Rightarrow> 'z log_state_scheme \<Rightarrow> 'z log_state_scheme" where
  "print_buffered level i s =
     (if fmt_buf s ! i = newline \<and> fmt_buf s ! (i + 1) \<noteq> CHR 0x00
      then print_header level (print_char carriage_return (print_char newline s))
      else print_char (fmt_buf s ! i) s)"

definition vprintk_level :: "int \<Rightarrow> string \<Rightarrow> fmt_arg list \<Rightarrow> 'z log_state_scheme \<Rightarrow> fmt_fault + 'z log_state_scheme" where
  "vprintk_level level fmt ap s =
     (if level < LOG_LEVEL then Inr s
      else fbind (format fmt ap) (\<lambda>(out, _).
        let s = fold buf_write_char out (s\<lparr>fmt_buf_pos := 0\<rparr>);
            s = s\<lparr>fmt_buf := (fmt_buf s)[fmt_buf_pos s := CHR 0x00]\<rparr>;
            s = print_header level (print_char carriage_return s);
            s = fold (print_buffered level) [0..<fmt_buf_pos s] s
        in Inr (print_char newline s)))"

definition serial_write_fmt :: "string \<Rightarrow> fmt_arg list \<Rightarrow> 'z io_state_scheme \<Rightarrow> fmt_fault + 'z io_state_scheme" where
  "serial_write_fmt fmt args s =
     fbind (format fmt args) (\<lambda>(out, _). Inr (fold (\<lambda>c. write_char (of_nat (of_char c))) out s))"

subsection \<open>What is printed\<close>

lemma console_print_char [simp]: "console (print_char c s) = console s @ [c]"
  and buffer_print_char [simp]: "fmt_buf (print_char c s) = fmt_buf s" "fmt_buf_pos (print_char c s) = fmt_buf_pos s"
  by (simp_all add: print_char_def)

lemma console_print_str [simp]: "console (print_str cs s) = console s @ cs"
  and buffer_print_str [simp]: "fmt_buf (print_str cs s) = fmt_buf s" "fmt_buf_pos (print_str cs s) = fmt_buf_pos s"
  by (induction cs arbitrary: s) simp_all

lemma console_fold_print [simp]: "console (fold print_char cs s) = console s @ cs"
  by (induction cs arbitrary: s) simp_all

definition header :: "int \<Rightarrow> string" where
  "header level = level_color ! log_level level @ level_prefix ! log_level level @ ANSI_RESET"

text \<open>A line of \<open>printk_level\<close>.\<close>

definition log_line :: "int \<Rightarrow> string \<Rightarrow> string" where
  "log_line level msg = [carriage_return] @ header level @ msg @ [newline]"

lemma print_header_simps [simp]:
  "console (print_header level s) = console s @ header level"
  "fmt_buf (print_header level s) = fmt_buf s" "fmt_buf_pos (print_header level s) = fmt_buf_pos s"
  by (simp_all add: print_header_def header_def)

lemma printk_level_line:
  assumes "format fmt args = Inr (msg, n)" and "LOG_LEVEL \<le> level"
  shows "\<exists>s'. printk_level level fmt args s = Inr s' \<and> console s' = console s @ log_line level msg \<and> fmt_buf s' = fmt_buf s"
proof -
  have "fmt_buf (fold print_char cs u) = fmt_buf u" for cs and u :: "'a log_state_scheme"
    by (induction cs arbitrary: u) simp_all
  then show ?thesis using assms by (simp add: printk_level_def log_line_def Let_def)
qed

lemma buf_write_fold:
  assumes "length (fmt_buf s) = 1024" and "fmt_buf_pos s \<le> 1023"
    and "s' = fold buf_write_char out s"
  shows "length (fmt_buf s') = 1024 \<and> fmt_buf_pos s' = min 1023 (fmt_buf_pos s + length out) \<and>
    take (fmt_buf_pos s') (fmt_buf s') = take (fmt_buf_pos s) (fmt_buf s) @ take (1023 - fmt_buf_pos s) out \<and>
    console s' = console s"
  using assms
proof (induction out arbitrary: s)
  case (Cons c out)
  show ?case
  proof (cases "fmt_buf_pos s < 1023")
    case True
    define t where "t = s\<lparr>fmt_buf := (fmt_buf s)[fmt_buf_pos s := c], fmt_buf_pos := fmt_buf_pos s + 1\<rparr>"
    have "buf_write_char c s = t" using True by (simp add: buf_write_char_def t_def)
    moreover have "take (fmt_buf_pos t) (fmt_buf t) = take (fmt_buf_pos s) (fmt_buf s) @ [c]"
      using True Cons.prems(1) by (simp add: t_def take_Suc_conv_app_nth)
    moreover have "1023 - fmt_buf_pos s = Suc (1023 - fmt_buf_pos t)" using True by (simp add: t_def)
    ultimately show ?thesis
      using Cons.IH [of t] Cons.prems True by (auto simp: t_def)
  next
    case False
    then have p: "fmt_buf_pos s = 1023" using Cons.prems(2) by simp
    then have e: "buf_write_char c s = s" by (simp add: buf_write_char_def)
    show ?thesis using Cons.IH [OF Cons.prems(1,2)] Cons.prems(3) p e by auto
  qed
qed simp

text \<open>The text of a message with every newline inside it followed by a new header.\<close>

fun with_headers :: "string \<Rightarrow> string \<Rightarrow> string" where
  "with_headers h [] = []"
| "with_headers h [c] = [c]"
| "with_headers h (c # d # cs) =
     (if c = newline \<and> d \<noteq> CHR 0x00 then [newline, carriage_return] @ h else [c]) @ with_headers h (d # cs)"

lemma print_buffered_simps [simp]:
  "fmt_buf (print_buffered level i s) = fmt_buf s" "fmt_buf_pos (print_buffered level i s) = fmt_buf_pos s"
  by (simp_all add: print_buffered_def)

lemma print_buffered_fold:
  assumes "fmt_buf s = pre @ body @ CHR 0x00 # rest"
  shows "console (fold (print_buffered level) [length pre..<length pre + length body] s) =
    console s @ with_headers (header level) body"
  using assms
proof (induction body arbitrary: pre s)
  case (Cons c body)
  have u: "[length pre..<length pre + length (c # body)] =
      length pre # [length (pre @ [c])..<length (pre @ [c]) + length body]"
    by (subst upt_conv_Cons) simp_all
  have n: "fmt_buf s ! length pre = c"
    "fmt_buf s ! (length pre + 1) = (case body of [] \<Rightarrow> CHR 0x00 | d # ds \<Rightarrow> d)"
    using Cons.prems by (auto simp: nth_append split: list.splits)
  have "console (fold (print_buffered level) [length pre..<length pre + length (c # body)] s) =
      console (print_buffered level (length pre) s) @ with_headers (header level) body"
    unfolding u using Cons.IH [of "print_buffered level (length pre) s" "pre @ [c]"] Cons.prems by simp
  also have "\<dots> = console s @ with_headers (header level) (c # body)"
    using n by (cases body) (auto simp: print_buffered_def)
  finally show ?case .
qed simp

text \<open>\<open>vprintk_level\<close> of a level that is printed writes the header and the first 1023 characters
  of the formatted message, opening every line inside it with the header again, and a newline; the
  message buffer keeps its size and is never written behind its end, however long the message.\<close>

lemma vprintk_level_text:
  assumes "format fmt ap = Inr (out, n)" and "length (fmt_buf s) = 1024" and "LOG_LEVEL \<le> level"
  shows "\<exists>s'. vprintk_level level fmt ap s = Inr s' \<and> length (fmt_buf s') = 1024 \<and> fmt_buf_pos s' < 1024 \<and>
    console s' = console s @ [carriage_return] @ header level @ with_headers (header level) (take 1023 out) @ [newline]"
proof -
  define t where "t = fold buf_write_char out (s\<lparr>fmt_buf_pos := 0\<rparr>)"
  have t: "length (fmt_buf t) = 1024" "fmt_buf_pos t = min 1023 (length out)"
    "take (fmt_buf_pos t) (fmt_buf t) = take 1023 out" "console t = console s"
    using buf_write_fold [of "s\<lparr>fmt_buf_pos := 0\<rparr>" t out] assms(2) by (auto simp: t_def)
  define u where "u = print_header level (print_char carriage_return (t\<lparr>fmt_buf := (fmt_buf t)[fmt_buf_pos t := CHR 0x00]\<rparr>))"
  have u: "fmt_buf u = [] @ take 1023 out @ CHR 0x00 # drop (Suc (fmt_buf_pos t)) (fmt_buf t)"
    using t by (simp add: u_def upd_conv_take_nth_drop)
  have p: "fmt_buf_pos u = length (take 1023 out)" using t by (simp add: u_def)
  have "console (fold (print_buffered level) [0..<fmt_buf_pos u] u) = console u @ with_headers (header level) (take 1023 out)"
    using print_buffered_fold [OF u, of level] p by simp
  moreover have "console u = console s @ [carriage_return] @ header level" using t by (simp add: u_def)
  moreover have "fmt_buf (fold (print_buffered level) xs u) = fmt_buf u \<and>
      fmt_buf_pos (fold (print_buffered level) xs u) = fmt_buf_pos u" for xs
    by (induction xs rule: rev_induct) simp_all
  moreover have "length (fmt_buf u) = 1024" "fmt_buf_pos u < 1024" using t by (simp_all add: u_def)
  moreover have "vprintk_level level fmt ap s =
      Inr (print_char newline (fold (print_buffered level) [0..<fmt_buf_pos u] u))"
    using assms(1,3) by (simp add: vprintk_level_def not_less Let_def u_def t_def)
  ultimately show ?thesis by simp
qed

end
