(* ===== verification/Format_Properties.thy ===== *)
theory Format_Properties
  imports Format
begin

unbundle bit_operations_syntax

text \<open>
  The numbers that \<open>format.c\<close> prints. The code finds the largest power of the radix below the
  value and divides its way down; the reference \<open>numeral_of\<close> divides by the radix from the other
  end. The two agree, and what is printed reads back.
\<close>

subsection \<open>The reference\<close>

fun numeral_of :: "nat \<Rightarrow> nat \<Rightarrow> nat list" where
  "numeral_of r n = (if n < r \<or> r < 2 then [n] else numeral_of r (n div r) @ [n mod r])"

declare numeral_of.simps [simp del]

text \<open>The \<open>k\<close> digits of \<open>v\<close>, most significant first, as the code computes them.\<close>

fun digits_of :: "nat \<Rightarrow> nat \<Rightarrow> nat \<Rightarrow> nat list" where
  "digits_of r 0 v = []"
| "digits_of r (Suc k) v = v div r ^ k # digits_of r k (v mod r ^ k)"

definition digits_text :: "bool \<Rightarrow> nat list \<Rightarrow> string" where
  "digits_text upper ds = map (\<lambda>d. digit_char upper (of_nat d)) ds"

definition digit_val :: "char \<Rightarrow> nat" where
  "digit_val c = (let n = of_char c in if n \<ge> 97 then n - 87 else if n \<ge> 65 then n - 55 else n - 48)"

definition read_number :: "nat \<Rightarrow> string \<Rightarrow> nat" where
  "read_number r cs = foldl (\<lambda>a c. a * r + digit_val c) 0 cs"

lemma digits_of_snoc:
  "0 < r \<Longrightarrow> v < r ^ Suc k \<Longrightarrow> digits_of r (Suc k) v = digits_of r k (v div r) @ [v mod r]"
proof (induction k arbitrary: v)
  case (Suc k)
  have "v mod r ^ Suc k div r = v div r mod r ^ k"
    using Suc.prems by (simp add: mod_mult2_eq)
  moreover have "v div r ^ Suc k = v div r div r ^ k" by (simp add: div_mult2_eq)
  moreover have "v mod r ^ Suc k mod r = v mod r" by (simp add: mod_mod_cancel)
  moreover have "v mod r ^ Suc k < r ^ Suc k" using Suc.prems(1) by simp
  ultimately show ?case using Suc.IH [of "v mod r ^ Suc k"] Suc.prems(1) by (simp only: digits_of.simps append_Cons)
qed simp

lemma digits_of_numeral:
  assumes "2 \<le> r" and "v < r ^ Suc j" and "j = 0 \<or> r ^ j \<le> v"
  shows "digits_of r (Suc j) v = numeral_of r v"
  using assms(2,3)
proof (induction j arbitrary: v)
  case 0
  then show ?case by (simp add: numeral_of.simps)
next
  case (Suc j)
  have "r \<le> r ^ Suc j" using assms(1) by simp
  then have big: "\<not> v < r" using Suc.prems(2) by linarith
  have "v div r < r ^ Suc j" using Suc.prems(1) by (simp add: less_mult_imp_div_less mult.commute)
  moreover have "j = 0 \<or> r ^ j \<le> v div r"
    using Suc.prems(2) assms(1) by (auto simp: less_eq_div_iff_mult_less_eq mult.commute)
  ultimately have "digits_of r (Suc j) (v div r) = numeral_of r (v div r)" by (rule Suc.IH)
  moreover have "numeral_of r v = numeral_of r (v div r) @ [v mod r]"
    using big assms(1) numeral_of.simps [of r v] by simp
  ultimately show ?case using assms(1) Suc.prems(1) digits_of_snoc [of r v "Suc j"] by simp
qed

lemma numeral_of_less: "2 \<le> r \<Longrightarrow> d \<in> set (numeral_of r n) \<Longrightarrow> d < r"
proof (induction r n rule: numeral_of.induct)
  case (1 r n)
  then show ?case using numeral_of.simps [of r n] by (auto split: if_splits)
qed

lemma digit_val_char: "d < 16 \<Longrightarrow> digit_val (digit_char upper (of_nat d)) = d"
proof -
  assume d: "d < 16"
  then have u: "unat (of_nat d :: u8) = d" by (simp add: unat_of_nat take_bit_nat_eq_self_iff)
  then have "(of_nat d :: u8) \<ge> 10 \<longleftrightarrow> 10 \<le> d" by (simp add: word_le_nat_alt)
  then show ?thesis using d u by (auto simp: digit_char_def digit_val_def Let_def)
qed

lemma read_number_snoc: "read_number r (cs @ [c]) = read_number r cs * r + digit_val c"
  by (simp add: read_number_def)

lemma digits_text_append: "digits_text upper (ds @ es) = digits_text upper ds @ digits_text upper es"
  by (simp add: digits_text_def)

lemma read_numeral: "2 \<le> r \<Longrightarrow> r \<le> 16 \<Longrightarrow> read_number r (digits_text upper (numeral_of r n)) = n"
proof (induction r n rule: numeral_of.induct)
  case (1 r n)
  show ?case
  proof (cases "n < r")
    case True
    then have "read_number r (digits_text upper [n]) = n"
      using 1 digit_val_char [of n upper] by (simp add: read_number_def digits_text_def)
    then show ?thesis using True by (simp add: numeral_of.simps)
  next
    case False
    then have e: "numeral_of r n = numeral_of r (n div r) @ [n mod r]" using 1 numeral_of.simps [of r n] by simp
    have "digit_val (digit_char upper (of_nat (n mod r))) = n mod r"
      by (rule digit_val_char) (use 1(2,3) mod_less_divisor [of r n] in linarith)
    moreover have "read_number r (digits_text upper (numeral_of r (n div r))) = n div r"
      using False 1 by simp
    ultimately show ?thesis
      unfolding e digits_text_append by (simp add: digits_text_def [of _ "[_]"] read_number_snoc)
  qed
qed

lemma read_number_zeros: "read_number r (replicate k CHR ''0'' @ cs) = read_number r cs"
proof (induction k)
  case (Suc k)
  have "digit_val CHR ''0'' = 0" by (simp add: digit_val_def)
  then show ?case using Suc by (simp add: read_number_def)
qed simp

subsection \<open>The loops of the code\<close>

lemma power_loop_step:
  "power_loop radix v pw n = (if v div pw \<ge> radix then power_loop radix v (pw * radix) (n + 1) else Some (pw, n))"
  by (subst power_loop.simps) (rule refl)

lemma power_loop_spec:
  assumes "2 \<le> unat radix" and "0 < unat pw"
  shows "\<exists>j. power_loop radix v pw n = Some (of_nat (unat pw * unat radix ^ j), n + j) \<and>
    (j = 0 \<or> unat pw * unat radix ^ j \<le> unat v) \<and> unat v < unat pw * unat radix ^ Suc j"
  using assms(2)
proof (induction "unat v - unat pw" arbitrary: pw n rule: less_induct)
  case less
  have c: "v div pw \<ge> radix \<longleftrightarrow> unat pw * unat radix \<le> unat v"
    using less.prems by (simp add: word_le_nat_alt unat_div_distrib less_eq_div_iff_mult_less_eq mult.commute)
  show ?case
  proof (cases "v div pw \<ge> radix")
    case True
    then have le: "unat pw * unat radix \<le> unat v" using c by simp
    then have "unat pw * unat radix < 18446744073709551616" using unat64_less [of v] by linarith
    then have u: "unat (pw * radix) = unat pw * unat radix" by (simp add: unat_word_ariths)
    have gr: "unat pw < unat pw * unat radix" using less.prems assms(1) by simp
    then have "unat v - unat (pw * radix) < unat v - unat pw" "0 < unat (pw * radix)" using le u by linarith+
    then obtain j where "power_loop radix v (pw * radix) (n + 1) = Some (of_nat (unat (pw * radix) * unat radix ^ j), n + 1 + j)"
      "j = 0 \<or> unat (pw * radix) * unat radix ^ j \<le> unat v" "unat v < unat (pw * radix) * unat radix ^ Suc j"
      using less.hyps by blast
    then show ?thesis
      using True le by (intro exI [of _ "Suc j"]) (auto simp: u power_loop_step [of _ _ pw] mult.assoc)
  next
    case False
    then show ?thesis using c by (intro exI [of _ 0]) (simp add: power_loop_step [of _ _ pw])
  qed
qed

lemma power_loop_1:
  assumes "2 \<le> unat radix"
  obtains j where "power_loop radix v 1 n = Some (of_nat (unat radix ^ j), n + j)"
    "digits_of (unat radix) (Suc j) (unat v) = numeral_of (unat radix) (unat v)"
    "unat v < unat radix ^ Suc j" "unat radix ^ j < 18446744073709551616"
proof -
  obtain j where j: "power_loop radix v 1 n = Some (of_nat (unat radix ^ j), n + j)"
    "j = 0 \<or> unat radix ^ j \<le> unat v" "unat v < unat radix ^ Suc j"
    using power_loop_spec [OF assms, of 1 v n] by auto
  have "unat radix ^ j < 18446744073709551616" using j(2) unat64_less [of v] by (cases "j = 0") auto
  then show ?thesis using that [OF j(1) _ j(3)] digits_of_numeral [OF assms j(3,2)] by blast
qed

lemma digit_loop_step:
  "digit_loop upper radix precise v pw =
    (if pw \<noteq> 0 \<and> (precise \<or> v \<noteq> 0) then
       Option.bind (digit_loop upper radix precise (v mod pw) (pw div radix))
         (\<lambda>rest. Some (digit_char upper (ucast (v div pw)) # rest))
     else Some [])"
  by (subst digit_loop.simps) (rule refl)

text \<open>Without a precision the loop stops as soon as the rest of the value is zero: trailing zero
  digits are lost.\<close>

definition strip_zeros :: "nat list \<Rightarrow> nat list" where
  "strip_zeros ds = rev (dropWhile (\<lambda>d. d = 0) (rev ds))"

lemma strip_zeros_Cons: "strip_zeros (d # ds) = (if strip_zeros ds = [] \<and> d = 0 then [] else d # strip_zeros ds)"
  by (auto simp: strip_zeros_def dropWhile_append)

lemma strip_digits_0: "0 < r \<Longrightarrow> v < r ^ k \<Longrightarrow> strip_zeros (digits_of r k v) = [] \<longleftrightarrow> v = 0"
proof (induction k arbitrary: v)
  case (Suc k)
  have "v = 0 \<longleftrightarrow> v div r ^ k = 0 \<and> v mod r ^ k = 0"
    by (metis div_0 div_mult_mod_eq mod_0 add_0 mult_0)
  then show ?case using Suc.IH [of "v mod r ^ k"] Suc.prems(1) by (simp add: strip_zeros_Cons)
qed (simp add: strip_zeros_def)

lemma digit_loop_spec:
  assumes r: "2 \<le> unat radix" "unat radix \<le> 16"
  shows "unat radix ^ j < 18446744073709551616 \<Longrightarrow> unat v < unat radix ^ Suc j \<Longrightarrow>
    digit_loop upper radix precise v (of_nat (unat radix ^ j)) =
      Some (digits_text upper ((if precise then id else strip_zeros) (digits_of (unat radix) (Suc j) (unat v))))"
proof (induction j arbitrary: v)
  case 0
  have "unat v < 16" using 0 r by simp
  then have "ucast v = (of_nat (unat v) :: u8)" by (simp add: word_unat_eq_iff unsigned_ucast_eq unsigned_of_nat)
  moreover have "1 div radix = 0" using r by (simp add: word_unat_eq_iff unat_div_distrib)
  ultimately show ?case
    by (auto simp: digit_loop_step [of _ _ _ _ 1] digit_loop_step [of _ _ _ _ 0] digits_text_def strip_zeros_def unat_eq_0)
next
  case (Suc j)
  define pw where "pw = (of_nat (unat radix ^ Suc j) :: u64)"
  have u: "unat pw = unat radix ^ Suc j" unfolding pw_def using Suc.prems(1) by (intro unat_of_nat64) simp
  have "unat radix ^ j \<le> unat radix ^ Suc j" using r by simp
  then have u': "unat radix ^ j < 18446744073709551616" using Suc.prems(1) by linarith
  have "unat (pw div radix) = unat radix ^ j" using r by (simp add: unat_div_distrib u)
  then have d: "pw div radix = of_nat (unat radix ^ j)" by (rule unat_eq_of_nat64)
  have m: "unat (v mod pw) = unat v mod unat radix ^ Suc j" by (simp add: unat_mod_distrib u)
  have "unat (v div pw) < 16"
    using Suc.prems(2) r(2) by (simp add: unat_div_distrib u less_mult_imp_div_less order_less_le_trans)
  then have q: "ucast (v div pw) = (of_nat (unat v div unat radix ^ Suc j) :: u8)"
    by (simp add: word_unat_eq_iff unsigned_ucast_eq unsigned_of_nat unat_div_distrib u)
  have nz: "pw \<noteq> 0" using u r by (metis power_eq_0_iff unat_0 not_numeral_le_zero)
  have rest: "digit_loop upper radix precise (v mod pw) (pw div radix) =
    Some (digits_text upper ((if precise then id else strip_zeros) (digits_of (unat radix) (Suc j) (unat (v mod pw)))))"
    unfolding d by (rule Suc.IH [OF u']) (simp add: m r(1) order_less_le_trans [OF _ r(1)])
  define ds where "ds = digits_of (unat radix) (Suc j) (unat v mod unat radix ^ Suc j)"
  have ds: "digits_of (unat radix) (Suc (Suc j)) (unat v) = unat v div unat radix ^ Suc j # ds"
    unfolding ds_def by (rule digits_of.simps)
  have z: "strip_zeros (digits_of (unat radix) (Suc (Suc j)) (unat v)) = [] \<longleftrightarrow> v = 0"
    using strip_digits_0 [OF _ Suc.prems(2)] r by (auto simp: unat_eq_0)
  have "digit_loop upper radix precise v pw =
    Some (digits_text upper ((if precise then id else strip_zeros) (digits_of (unat radix) (Suc (Suc j)) (unat v))))"
  proof (cases "precise \<or> v \<noteq> 0")
    case True
    then have "precise \<or> strip_zeros (unat v div unat radix ^ Suc j # ds) \<noteq> []" using z unfolding ds by blast
    then show ?thesis
      using True nz rest unfolding ds m ds_def [symmetric] digit_loop_step [of _ _ _ v] q
      by (auto simp: digits_text_def strip_zeros_Cons split: if_splits)
  next
    case False
    then show ?thesis using z by (simp add: digit_loop_step [of upper radix False 0 pw] digits_text_def del: digits_of.simps)
  qed
  then show ?case by (simp only: pw_def)
qed

subsection \<open>What is printed\<close>

lemma length_digits_of [simp]: "length (digits_of r k v) = k"
  by (induction k arbitrary: v) simp_all

lemma radix_cases: "radix \<in> {8, 10, 16 :: u64} \<Longrightarrow> 2 \<le> unat radix \<and> unat radix \<le> 16"
  by auto

lemma and_one_bit: "x AND push_bit n 1 = (if bit x n then push_bit n 1 else (0 :: 'a::len word))"
  by (intro bit_word_eqI) (auto simp: bit_simps)

lemma flag_bits:
  "flags AND FLAG_LEFT \<noteq> 0 \<longleftrightarrow> bit flags 0" "flags AND FLAG_ZERO \<noteq> 0 \<longleftrightarrow> bit flags 4"
  "flags AND (FLAG_LEFT OR FLAG_ZERO) = 0 \<longleftrightarrow> \<not> bit flags 0 \<and> \<not> bit flags 4"
  "flags AND (FLAG_ZERO OR FLAG_LEFT) = FLAG_ZERO \<longleftrightarrow> bit flags 4 \<and> \<not> bit flags 0"
  unfolding FLAG_LEFT_def FLAG_ZERO_def bit.conj_disj_distrib and_one_bit by simp_all

definition number_sign :: "u8 \<Rightarrow> bool \<Rightarrow> nat \<Rightarrow> u64 \<Rightarrow> string" where
  "number_sign flags negative prefix_offset v =
     (if negative then ''-''
      else if flags AND FLAG_NO_PREFIX_ON_ZERO = 0 \<or> v \<noteq> 0 then prefix_at prefix_offset else '''')"



lemma digit_chars:
  "digit_char upper 0 = CHR ''0''" "digit_char upper 1 = CHR ''1''" "digit_char upper 2 = CHR ''2''"
  "digit_char upper 9 = CHR ''9''"
  by (simp_all add: digit_char_def char_of_def word_le_nat_alt bit_Suc_0_iff)

lemma arg_size_u: "arg_size L_NONE CHR ''u'' = Inr (Some T_UINT)"
  by (simp add: arg_size_def char_of_def bit_Suc_0_iff)

text \<open>With the precision zero the loop over the digits ends as soon as what is left of the
  value is zero: of every nonzero number the trailing zero digits are lost, where the C standard
  asks for all of them; \<open>%.0u\<close> prints 100 as 1.\<close>

theorem zero_precision_drops_zeros:
  assumes "radix \<in> {8, 10, 16}" and "v \<noteq> 0"
  shows "print_number 0 0 0 radix False 0 v =
      Some (digits_text False (strip_zeros (numeral_of (unat radix) (unat v)))) \<and>
    format ''%.0u'' [Word 100] = Inr (''1'', 1)"
proof -
  have main: "print_number 0 0 0 radix False 0 v =
      Some (digits_text False (strip_zeros (numeral_of (unat radix) (unat v))))"
    if "radix \<in> {8, 10, 16}" "v \<noteq> 0" for radix v
  proof -
    note r = radix_cases [OF that(1)]
    obtain j where j: "power_loop radix v 1 1 = Some (of_nat (unat radix ^ j), 1 + j)"
      "digits_of (unat radix) (Suc j) (unat v) = numeral_of (unat radix) (unat v)"
      "unat v < unat radix ^ Suc j" "unat radix ^ j < 18446744073709551616"
      using power_loop_1 [of radix v 1] r by blast
    have "digit_loop False radix False v (of_nat (unat radix ^ j)) =
        Some (digits_text False (strip_zeros (numeral_of (unat radix) (unat v))))"
      using digit_loop_spec [OF _ _ j(4,3), of False False] r j(2) by simp
    then show ?thesis
      using that(2) j(1) by (simp add: print_number_def Let_def pad_def prefix_at_def g_prefixes_def FLAG_LEFT_def FLAG_ZERO_def)
  qed
  have "numeral_of 10 100 = [1, 0, 0]" by (simp add: numeral_of.simps)
  then have p: "print_number 0 0 0 10 False 0 100 = Some ''1''"
    using main [of 10 100] by (simp add: strip_zeros_def digits_text_def digit_chars)
  have "directive ''.0u'' [Word 100] = Inr (Some (''1'', '''', []))"
    by (simp add: directive_def width_step_def precision_step_def length_step_def arg_size_u read_value_def convert_def
        peek_def number_def p)
  then have "format ''%.0u'' [Word 100] = Inr (''1'', 1)"
    by (simp add: format_def format_run.simps peek_def)
  with main [OF assms] show ?thesis by blast
qed

lemma zero_precision_drops_zeros_witness:
  "print_number 0 0 0 10 False 0 1200 = Some ''12''"
proof -
  have "numeral_of 10 1200 = [1, 2, 0, 0]" by (simp add: numeral_of.simps)
  then show ?thesis
    using zero_precision_drops_zeros [of 10 1200] by (simp add: strip_zeros_def digits_text_def digit_chars)
qed

lemma format_run_text:
  "CHR ''%'' \<notin> set cs \<Longrightarrow> format_run (cs @ fmt) args = fbind (format_run fmt args) (\<lambda>out. Inr (cs @ out))"
proof (induction cs)
  case Nil
  then show ?case by (cases "format_run fmt args") auto
next
  case (Cons c cs)
  then show ?case by (cases "format_run fmt args") (auto simp: format_run.simps(2))
qed

text \<open>The line of a conversion without flags, width and precision.\<close>

lemma plain_number:
  assumes "radix \<in> {8, 10, 16}"
  shows "print_number 0 0 1 radix False 0 v = Some (digits_text False (numeral_of (unat radix) (unat v)))"
proof -
  note r = radix_cases [OF assms]
  obtain j where j: "power_loop radix v 1 1 = Some (of_nat (unat radix ^ j), 1 + j)"
    "digits_of (unat radix) (Suc j) (unat v) = numeral_of (unat radix) (unat v)"
    "unat v < unat radix ^ Suc j" "unat radix ^ j < 18446744073709551616"
    using power_loop_1 [of radix v 1] r by blast
  have "digit_loop False radix True v (of_nat (unat radix ^ j)) = Some (digits_text False (numeral_of (unat radix) (unat v)))"
    using digit_loop_spec [OF _ _ j(4,3), of False True] r j(2) by simp
  then show ?thesis
    using j(1) by (simp add: print_number_def Let_def pad_def prefix_at_def g_prefixes_def FLAG_LEFT_def FLAG_ZERO_def)
qed

lemma directive_u: "directive (CHR ''u'' # post) (Word w # args) =
  Inr (Some (digits_text False (numeral_of 10 (unat (ucast w :: u32))), post, args))"
proof -
  have u: "unat (ucast (ucast w :: u32) :: u64) = unat (ucast w :: u32)"
    using unsigned_less [of "ucast w :: u32", where ?'a = nat]
    by (simp add: unsigned_ucast_eq [of "ucast w :: u32"] take_bit_nat_eq_self_iff del: unsigned_ucast_eq)
  show ?thesis
    by (simp add: directive_def width_step_def precision_step_def length_step_def arg_size_u read_value_def
        convert_def peek_def number_def plain_number u)
qed

text \<open>Text without a percent sign is copied, \<open>%u\<close> becomes the decimal numeral of the argument's
  low 32 bits, which reads back as that number, and \<open>%%\<close> becomes a percent sign; the rest of the
  format string goes on with the remaining arguments.\<close>

theorem format_text_and_decimal:
  assumes "CHR ''%'' \<notin> set pre" and "n = unat (ucast w :: u32)" and "dec = digits_text False (numeral_of 10 n)"
  shows "format_run (pre @ ''%u'' @ post) (Word w # args) = fbind (format_run post args) (\<lambda>out. Inr (pre @ dec @ out)) \<and>
    format_run (pre @ ''%%'' @ post) args = fbind (format_run post args) (\<lambda>out. Inr (pre @ ''%'' @ out)) \<and>
    read_number 10 dec = n"
proof -
  have "format_run (''%u'' @ post) (Word w # args) = fbind (format_run post args) (\<lambda>out. Inr (dec @ out))"
    using directive_u [of post w args] assms(2,3) by (simp add: format_run.simps(2) peek_def)
  moreover have "format_run (''%%'' @ post) args = fbind (format_run post args) (\<lambda>out. Inr (''%'' @ out))"
    by (simp add: format_run.simps(2) peek_def)
  moreover have "read_number 10 dec = n" unfolding assms(3) by (rule read_numeral) simp_all
  ultimately show ?thesis using format_run_text [OF assms(1)] by (cases "format_run post args") simp_all
qed

lemma format_text_and_decimal_witness: "format_run ''irq %u!'' [Word 0x100000009] = Inr ''irq 9!''"
proof -
  have "digits_text False (numeral_of 10 9) = ''9''" by (simp add: numeral_of.simps digits_text_def digit_chars)
  moreover have "format_run ''!'' [] = Inr ''!''" by (simp add: format_run.simps)
  ultimately show ?thesis
    using format_text_and_decimal [of "''irq ''" 9 "0x100000009" _ "''!''" "[]", OF _ _ refl] by simp
qed

lemma digit_set: "CHR ''0'' \<le> c \<Longrightarrow> c \<le> CHR ''9'' \<Longrightarrow> c \<in> set ''0123456789''"
proof -
  assume a: "CHR ''0'' \<le> c" "c \<le> CHR ''9''"
  define n :: nat where "n = of_char c"
  have "48 \<le> n" "n \<le> 57" using a unfolding less_eq_char_def n_def by auto
  then have "n = 48 \<or> n = 49 \<or> n = 50 \<or> n = 51 \<or> n = 52 \<or> n = 53 \<or> n = 54 \<or> n = 55 \<or> n = 56 \<or> n = 57" by presburger
  moreover have "c = char_of n" by (simp add: n_def)
  ultimately show ?thesis by (elim disjE) (simp_all add: char_of_def bit_Suc_0_iff)
qed
text \<open>A conversion character outside the letters, after it has been moved up by 32, indexes
  \<open>g_lookup\<close> outside its rows: the behaviour is undefined for every punctuation character that is
  not part of a flag, a width or a precision, and for a format string that ends after a length.\<close>

theorem conversion_out_of_bounds:
  assumes "of_char c < (65 :: nat)" and "c \<notin> set ''%-+ #0*.123456789''" and "CHR ''%'' \<notin> set pre"
  shows "format (pre @ ''%'' @ [c] @ post) args = Inl OutOfBounds \<and> format (pre @ ''%l'') args = Inl OutOfBounds"
proof -
  have d: "\<not> (CHR ''0'' \<le> c \<and> c \<le> CHR ''9'')" using digit_set [of c] assms(2) by auto
  have dl: "decimal_loop (c # post) 0 = Inr (Some (c # post, 0))" using d by auto
  have letters: "c \<noteq> CHR ''h''" "c \<noteq> CHR ''l''" "c \<noteq> CHR ''j''" "c \<noteq> CHR ''z''" "c \<noteq> CHR ''t''" "c \<noteq> CHR ''L''"
    using assms(1) by auto
  have "flags_loop (c # post) 0 = Some (c # post, 0)" using assms(2) by simp
  moreover have "width_step (c # post) 0 args = Inr (Some (c # post, 0, 0, args))"
    using assms(2) dl by (simp add: width_step_def peek_def del: decimal_loop.simps)
  moreover have "precision_step (c # post) 0 args = Inr (Some (c # post, 0, - 1, args))"
    using assms(2) by (simp add: precision_step_def peek_def)
  moreover have "length_step (c # post) = (c # post, L_NONE)" using letters by (simp add: length_step_def peek_def)
  moreover have "arg_size L_NONE c = Inl OutOfBounds" using assms(1) by (auto simp: arg_size_def Let_def)
  ultimately have "directive (c # post) args = Inl OutOfBounds"
    by (simp add: directive_def peek_def)
  then have "format_run (''%'' @ [c] @ post) args = Inl OutOfBounds"
    using assms(2) by (simp add: format_run.simps(2) peek_def)
  moreover have "directive ''l'' args = Inl OutOfBounds"
    by (simp add: directive_def width_step_def precision_step_def length_step_def arg_size_def peek_def)
  then have "format_run ''%l'' args = Inl OutOfBounds" by (simp add: format_run.simps(2) peek_def)
  ultimately show ?thesis using format_run_text [OF assms(3)] by (simp add: format_def)
qed

lemma conversion_out_of_bounds_witness: "format ''50%!'' [] = Inl OutOfBounds"
  using conversion_out_of_bounds [of "CHR ''!''" "''50''" "[]" "[]"] by simp

end
