(* ===== verification/Panic.thy ===== *)
theory Panic
  imports Printk Descriptors Format_Properties
begin

unbundle bit_operations_syntax

text \<open>
  What the kernel prints before it gives up: \<open>src/kernel/src/panic.c\<close> and the macros of
  \<open>src/kernel/include/assert.h\<close>. The models of the other parts keep of a failed assertion only that
  it failed (\<open>kassert\<close>). \<open>panic\<close> does not return; its value is the log at the moment it starts to
  halt for ever.
\<close>

subsection \<open>The register dump\<close>

text \<open>The processor as the assembler instructions at the head of \<open>panic\<close> find it; \<open>cpu_rip\<close> is the
  address behind \<open>lea\<close>.\<close>

record cpu_registers = cpu_state +
  cpu_rax :: u64  cpu_rbx :: u64  cpu_rcx :: u64  cpu_rdx :: u64
  cpu_rsi :: u64  cpu_rdi :: u64  cpu_rbp :: u64  cpu_rsp :: u64
  cpu_r8 :: u64  cpu_r9 :: u64  cpu_r10 :: u64  cpu_r11 :: u64
  cpu_r12 :: u64  cpu_r13 :: u64  cpu_r14 :: u64  cpu_r15 :: u64
  cpu_rip :: u64  cpu_rflags :: u64

record register_dump =
  r_rax :: u64  r_rbx :: u64  r_rcx :: u64  r_rdx :: u64
  r_rsi :: u64  r_rdi :: u64  r_rbp :: u64  r_rsp :: u64
  r_r8 :: u64  r_r9 :: u64  r_r10 :: u64  r_r11 :: u64
  r_r12 :: u64  r_r13 :: u64  r_r14 :: u64  r_r15 :: u64
  r_rip :: u64  r_rflags :: u64
  r_cs :: u64  r_ss :: u64  r_ds :: u64  r_es :: u64  r_fs :: u64  r_gs :: u64

text \<open>The segment registers are stored through \<open>rax\<close>, cleared before.\<close>

definition capture :: "'z cpu_registers_scheme \<Rightarrow> register_dump" where
  "capture c =
     \<lparr>r_rax = cpu_rax c, r_rbx = cpu_rbx c, r_rcx = cpu_rcx c, r_rdx = cpu_rdx c,
      r_rsi = cpu_rsi c, r_rdi = cpu_rdi c, r_rbp = cpu_rbp c, r_rsp = cpu_rsp c,
      r_r8 = cpu_r8 c, r_r9 = cpu_r9 c, r_r10 = cpu_r10 c, r_r11 = cpu_r11 c,
      r_r12 = cpu_r12 c, r_r13 = cpu_r13 c, r_r14 = cpu_r14 c, r_r15 = cpu_r15 c,
      r_rip = cpu_rip c, r_rflags = cpu_rflags c,
      r_cs = ucast (cpu_cs c), r_ss = ucast (cpu_ss c), r_ds = ucast (cpu_ds c), r_es = ucast (cpu_es c),
      r_fs = ucast (cpu_fs c), r_gs = ucast (cpu_gs c)\<rparr>"

text \<open>The calls of \<open>printk_level\<close>, in order.\<close>

definition panic_lines :: "register_dump \<Rightarrow> (string \<times> fmt_arg list) list" where
  "panic_lines r =
     [(''RAX=%#018llX  RBX=%#018llX  RCX=%#018llX  RDX=%#018llX'', map Word [r_rax r, r_rbx r, r_rcx r, r_rdx r]),
      (''RSI=%#018llX  RDI=%#018llX  RBP=%#018llX  RSP=%#018llX'', map Word [r_rsi r, r_rdi r, r_rbp r, r_rsp r]),
      (''R8 =%#018llX  R9 =%#018llX  R10=%#018llX  R11=%#018llX'', map Word [r_r8 r, r_r9 r, r_r10 r, r_r11 r]),
      (''R12=%#018llX  R13=%#018llX  R14=%#018llX  R15=%#018llX'', map Word [r_r12 r, r_r13 r, r_r14 r, r_r15 r]),
      (''RIP=%#018llX  RFLAGS=%#018llX'', map Word [r_rip r, r_rflags r]),
      (''CS=%#06llX  SS=%#06llX  DS=%#06llX  ES=%#06llX  FS=%#06llX  GS=%#06llX'',
       map Word [r_cs r, r_ss r, r_ds r, r_es r, r_fs r, r_gs r])]"

fun print_lines :: "(string \<times> fmt_arg list) list \<Rightarrow> 'z log_state_scheme \<Rightarrow> fmt_fault + 'z log_state_scheme" where
  "print_lines [] s = Inr s"
| "print_lines ((fmt, args) # ls) s = fbind (printk_level LOG_FATAL fmt args s) (print_lines ls)"

definition panic :: "'y cpu_registers_scheme \<Rightarrow> string \<Rightarrow> fmt_arg list \<Rightarrow> 'z log_state_scheme \<Rightarrow> fmt_fault + 'z log_state_scheme" where
  "panic c fmt ap s =
     (let regs = capture c in fbind (vprintk_level LOG_FATAL fmt ap s) (print_lines (panic_lines regs)))"

subsection \<open>Assertions\<close>

text \<open>The text of the expression, \<open>__FILE__\<close>, \<open>__LINE__\<close> and \<open>__func__\<close> come from the compiler. The
  value is \<open>None\<close> where the program goes on.\<close>

record code_site =
  site_file :: string
  site_line :: u32
  site_func :: string

definition site_args :: "code_site \<Rightarrow> fmt_arg list" where
  "site_args w = [Str (site_file w), Word (ucast (site_line w)), Str (site_func w)]"

definition site_format :: string where
  "site_format = [newline] @ ''  file : %s:%d'' @ [newline] @ ''  func : %s'' @ [newline]"

definition ASSERT ::
  "'y cpu_registers_scheme \<Rightarrow> code_site \<Rightarrow> bool \<Rightarrow> string \<Rightarrow> 'z log_state_scheme \<Rightarrow> fmt_fault + 'z log_state_scheme option" where
  "ASSERT c w b expr s =
     (if \<not> b then fbind (panic c (''Assertion failed: (%s)'' @ site_format) (Str expr # site_args w) s) (\<lambda>s. Inr (Some s))
      else Inr None)"

definition ASSERT_MSG ::
  "'y cpu_registers_scheme \<Rightarrow> code_site \<Rightarrow> bool \<Rightarrow> string \<Rightarrow> string \<Rightarrow> 'z log_state_scheme \<Rightarrow> fmt_fault + 'z log_state_scheme option" where
  "ASSERT_MSG c w b expr msg s =
     (if \<not> b then fbind (panic c (''Assertion failed: (%s) '' @ [CHR 0xE2, CHR 0x80, CHR 0x94] @ '' %s'' @ site_format)
        (Str expr # Str msg # site_args w) s) (\<lambda>s. Inr (Some s))
      else Inr None)"

definition PANIC ::
  "'y cpu_registers_scheme \<Rightarrow> code_site \<Rightarrow> string \<Rightarrow> 'z log_state_scheme \<Rightarrow> fmt_fault + 'z log_state_scheme" where
  "PANIC c w msg s = panic c (''Panic: %s'' @ site_format) (Str msg # site_args w) s"

definition UNREACHABLE ::
  "'y cpu_registers_scheme \<Rightarrow> code_site \<Rightarrow> 'z log_state_scheme \<Rightarrow> fmt_fault + 'z log_state_scheme" where
  "UNREACHABLE c w s = PANIC c w ''Reached unreachable code'' s"

definition ASSERT_NOT_NULL ::
  "'y cpu_registers_scheme \<Rightarrow> code_site \<Rightarrow> string \<times> u64 \<Rightarrow> 'z log_state_scheme \<Rightarrow> fmt_fault + 'z log_state_scheme option" where
  "ASSERT_NOT_NULL c w p s = ASSERT c w (snd p \<noteq> 0) (''('' @ fst p @ '') != NULL'') s"

definition ASSERT_EQ ::
  "'y cpu_registers_scheme \<Rightarrow> code_site \<Rightarrow> string \<times> u64 \<Rightarrow> string \<times> u64 \<Rightarrow> 'z log_state_scheme \<Rightarrow> fmt_fault + 'z log_state_scheme option" where
  "ASSERT_EQ c w a b s = ASSERT c w (snd a = snd b) (''('' @ fst a @ '') == ('' @ fst b @ '')'') s"

definition ASSERT_NE ::
  "'y cpu_registers_scheme \<Rightarrow> code_site \<Rightarrow> string \<times> u64 \<Rightarrow> string \<times> u64 \<Rightarrow> 'z log_state_scheme \<Rightarrow> fmt_fault + 'z log_state_scheme option" where
  "ASSERT_NE c w a b s = ASSERT c w (snd a \<noteq> snd b) (''('' @ fst a @ '') != ('' @ fst b @ '')'') s"

definition ASSERT_RANGE ::
  "'y cpu_registers_scheme \<Rightarrow> code_site \<Rightarrow> string \<times> u64 \<Rightarrow> string \<times> u64 \<Rightarrow> string \<times> u64 \<Rightarrow> 'z log_state_scheme
    \<Rightarrow> fmt_fault + 'z log_state_scheme option" where
  "ASSERT_RANGE c w val lo hi s = ASSERT c w (snd val \<ge> snd lo \<and> snd val < snd hi)
     (''('' @ fst val @ '') >= ('' @ fst lo @ '') && ('' @ fst val @ '') < ('' @ fst hi @ '')'') s"

definition ASSERT_ALIGNED ::
  "'y cpu_registers_scheme \<Rightarrow> code_site \<Rightarrow> string \<times> u64 \<Rightarrow> string \<times> u64 \<Rightarrow> 'z log_state_scheme \<Rightarrow> fmt_fault + 'z log_state_scheme option" where
  "ASSERT_ALIGNED c w addr align s = ASSERT c w (snd addr AND (snd align - 1) = 0)
     (''((uintptr_t)('' @ fst addr @ '') & (('' @ fst align @ '') - 1)) == 0'') s"

end
