(* ===== verification/Interrupts.thy ===== *)
theory Interrupts
  imports Apic Panic
begin

unbundle bit_operations_syntax

text \<open>
  The interrupt table and the dispatch of interrupts (\<open>src/kernel/src/x86_64/idt.c\<close>). The stubs that build the frame are
  assembly; the faulting address an exception reports (\<open>cr2\<close>) and the processor \<open>panic\<close> captures
  are arguments. A handler either returns, with a new state of the machine, or has printed its message
  and halts for ever, with a new state of the log.
\<close>

definition APIC_TIMER_VECTOR :: u64 where "APIC_TIMER_VECTOR = 0x20"

text \<open>\<open>idt_init\<close>, with the address of the table and the addresses of the stubs from the linker.\<close>

definition idt_init ::
  "u64 \<Rightarrow> (nat \<Rightarrow> u64) \<Rightarrow> 'z idt_state_scheme \<Rightarrow> 'y io_state_scheme \<Rightarrow> 'z idt_state_scheme \<times> 'y io_state_scheme" where
  "idt_init idt_addr isr_stub_table c s =
     (let register = (16 * 256 - 1, idt_addr);
          c = c\<lparr>idt_entries := idt_fill isr_stub_table (idt_entries c)\<rparr>;
          s = pic_disable s;
          c = c\<lparr>idtr := register\<rparr>
      in (c\<lparr>interrupts := True\<rparr>, s))"

record interrupt_frame =
  if_general :: "u64 list"
  if_vector :: u64
  if_error_code :: u64
  if_rip :: u64
  if_cs :: u64
  if_rflags :: u64
  if_rsp :: u64
  if_ss :: u64

definition exception_handler ::
  "'x cpu_registers_scheme \<Rightarrow> u64 \<Rightarrow> u64 \<Rightarrow> interrupt_frame \<Rightarrow> 'z log_state_scheme \<Rightarrow> fmt_fault + 'z log_state_scheme" where
  "exception_handler c fault_address table f =
     panic c ''Exception %u, error %u, RIP=%#018llx, CR2=%#018llx, CR3=%#018llx''
       [Word (ucast (ucast (if_vector f) :: u32)), Word (ucast (ucast (if_error_code f) :: u32)), Word (if_rip f), Word fault_address, Word table]"

definition apic_timer_handler :: "'z apic_state_scheme \<Rightarrow> fmt_fault + (unit, 'z apic_state_scheme) kres" where
  "apic_timer_handler s = fbind (serial_write_fmt ''.'' [] s) (\<lambda>s. Inr (apic_eoi s))"

datatype ('s, 'l) handled = Returned "(unit, 's) kres" | Halted 'l

definition isr_handler ::
  "'x cpu_registers_scheme \<Rightarrow> u64 \<Rightarrow> interrupt_frame \<Rightarrow> 'z apic_state_scheme \<Rightarrow> 'y log_state_scheme
    \<Rightarrow> fmt_fault + ('z apic_state_scheme, 'y log_state_scheme) handled" where
  "isr_handler c fault_address f s l =
     (if if_vector f = APIC_TIMER_VECTOR then fbind (apic_timer_handler s) (\<lambda>r. Inr (Returned r))
      else fbind (exception_handler c fault_address (cr3 s) f l) (\<lambda>l. Inr (Halted l)))"

end
