(* ===== verification/Panic_Properties.thy ===== *)
theory Panic_Properties
  imports Interrupts
begin

unbundle bit_operations_syntax

text \<open>
  The text of a panic: the registers in hexadecimal, the message of a failed assertion and that of an
  exception.
\<close>

subsection \<open>Hexadecimal fields\<close>

definition hex_text :: "bool \<Rightarrow> nat \<Rightarrow> u64 \<Rightarrow> string" where
  "hex_text upper w v =
     (let ds = digits_text upper (numeral_of 16 (unat v))
      in if v = 0 then replicate w CHR ''0''
         else (if upper then ''0X'' else ''0x'') @ replicate (w - 2 - length ds) CHR ''0'' @ ds)"

lemma hex_flags:
  fixes f :: u8
  assumes "f = 184 \<or> f = 152"
  shows "f AND FLAG_LEADING_ZERO = 0" "f AND (FLAG_LEFT OR FLAG_ZERO) \<noteq> 0" "f AND (FLAG_ZERO OR FLAG_LEFT) = FLAG_ZERO"
    "f AND FLAG_LEFT = 0" "f AND FLAG_NO_PREFIX_ON_ZERO \<noteq> 0" "f = 184 \<Longrightarrow> f AND FLAG_UPPERCASE \<noteq> 0" "f = 152 \<Longrightarrow> f AND FLAG_UPPERCASE = 0"
  using assms by (elim disjE; hypsubst; code_simp)+

text \<open>What \<open>%#0<w>llX\<close> and \<open>%#0<w>llx\<close> ask of \<open>print_number\<close>.\<close>

lemma print_hex:
  assumes "1 \<le> w"
  shows "print_number (if upper then 184 else 152) (int w) 1 16 False (if upper then 4 else 1) v = Some (hex_text upper w v)"
proof -
  obtain j where j: "power_loop 16 v 1 1 = Some (of_nat (16 ^ j), 1 + j)"
    "digits_of 16 (Suc j) (unat v) = numeral_of 16 (unat v)"
    "unat v < 16 ^ Suc j" "(16 :: nat) ^ j < 18446744073709551616"
    using power_loop_1 [of 16 v 1] by auto
  define ds where "ds = digits_text upper (numeral_of 16 (unat v))"
  have dl: "digit_loop upper 16 True v (of_nat (16 ^ j)) = Some ds"
    using digit_loop_spec [of 16 j v upper True] j(2-4) by (simp add: ds_def del: digits_of.simps)
  have len: "length ds = Suc j" using arg_cong [OF j(2), of length] by (simp add: ds_def digits_text_def)
  show ?thesis
  proof (cases "v = 0")
    case True
    then have z: "ds = ''0''" by (simp add: ds_def numeral_of.simps digits_text_def digit_chars)
    then have "j = 0" using len by simp
    obtain k where k: "w = Suc k" using assms by (cases w) auto
    have "replicate k CHR ''0'' @ ''0'' = replicate w CHR ''0''" by (simp add: k replicate_append_same)
    then show ?thesis using j(1) dl z True \<open>j = 0\<close>
      by (cases upper) (simp_all add: print_number_def Let_def hex_text_def pad_def hex_flags k)
  next
    case False
    have "nat (int w - (int (length ds) + 2)) = w - 2 - length ds" by simp
    moreover have "hex_text upper w v = (if upper then ''0X'' else ''0x'') @ replicate (w - 2 - length ds) CHR ''0'' @ ds"
      using False by (simp add: hex_text_def ds_def Let_def)
    moreover have "prefix_at (if upper then 4 else 1) = (if upper then ''0X'' else ''0x'')"
      by (simp add: prefix_at_def g_prefixes_def)
    ultimately show ?thesis using j(1) dl len False
      by (cases upper) (simp_all add: print_number_def Let_def pad_def hex_flags algebra_simps)
  qed
qed

lemma arg_size_llX: "arg_size L_LL CHR ''X'' = Inr (Some T_ULLONG)"
  and arg_size_llx: "arg_size L_LL CHR ''x'' = Inr (Some T_ULLONG)"
  and arg_size_s: "arg_size L_NONE CHR ''s'' = Inr (Some T_PTR)"
  and arg_size_d: "arg_size L_NONE CHR ''d'' = Inr (Some T_INT)"
  by (simp_all add: arg_size_def char_of_def bit_Suc_0_iff)

lemmas directive_steps = directive_def width_step_def precision_step_def length_step_def read_value_def convert_def peek_def
  number_def FLAG_ALTERNATIVE_def FLAG_ZERO_def FLAG_SIGN_def FLAG_LEFT_def FLAG_UPPERCASE_def FLAG_NO_PREFIX_ON_ZERO_def

lemma directive_X18: "directive (''#018llX'' @ post) (Word v # args) = Inr (Some (hex_text True 18 v, post, args))"
  using print_hex [of 18 True v] by (simp add: directive_steps arg_size_llX)

lemma directive_X6: "directive (''#06llX'' @ post) (Word v # args) = Inr (Some (hex_text True 6 v, post, args))"
  using print_hex [of 6 True v] by (simp add: directive_steps arg_size_llX)

lemma directive_x18: "directive (''#018llx'' @ post) (Word v # args) = Inr (Some (hex_text False 18 v, post, args))"
  using print_hex [of 18 False v] by (simp add: directive_steps arg_size_llx)

lemma directive_s: "directive (''s'' @ post) (Str cs # args) = Inr (Some (cs, post, args))"
  by (simp add: directive_steps arg_size_s pad_def)

lemma format_run_char: "c \<noteq> CHR ''%'' \<Longrightarrow> format_run (c # cs) args = fbind (format_run cs args) (\<lambda>out. Inr (c # out))"
  by (simp add: format_run.simps(2))

lemma format_run_directive:
  assumes "directive cs args = Inr (Some (out, post, args'))" and "peek cs \<noteq> CHR ''%''"
  shows "format_run (CHR ''%'' # cs) args = fbind (format_run post args') (\<lambda>out'. Inr (out @ out'))"
  using assms by (simp add: format_run.simps(2))

lemmas format_hex = format_run_directive [OF directive_X18, simplified, simplified peek_def, simplified]
  format_run_directive [OF directive_X6, simplified, simplified peek_def, simplified]
  format_run_directive [OF directive_x18, simplified, simplified peek_def, simplified]

lemmas format_steps = format_run_char format_hex
  format_run_directive [OF directive_s, simplified, simplified peek_def, simplified]
  format_run_directive [OF directive_u, simplified, simplified peek_def, simplified]

text \<open>The text of the six lines.\<close>

definition register_text :: "register_dump \<Rightarrow> string list" where
  "register_text r =
     (let w = hex_text True 18; h = hex_text True 6 in
      [''RAX='' @ w (r_rax r) @ ''  RBX='' @ w (r_rbx r) @ ''  RCX='' @ w (r_rcx r) @ ''  RDX='' @ w (r_rdx r),
       ''RSI='' @ w (r_rsi r) @ ''  RDI='' @ w (r_rdi r) @ ''  RBP='' @ w (r_rbp r) @ ''  RSP='' @ w (r_rsp r),
       ''R8 ='' @ w (r_r8 r) @ ''  R9 ='' @ w (r_r9 r) @ ''  R10='' @ w (r_r10 r) @ ''  R11='' @ w (r_r11 r),
       ''R12='' @ w (r_r12 r) @ ''  R13='' @ w (r_r13 r) @ ''  R14='' @ w (r_r14 r) @ ''  R15='' @ w (r_r15 r),
       ''RIP='' @ w (r_rip r) @ ''  RFLAGS='' @ w (r_rflags r),
       ''CS='' @ h (r_cs r) @ ''  SS='' @ h (r_ss r) @ ''  DS='' @ h (r_ds r) @ ''  ES='' @ h (r_es r) @ ''  FS='' @ h (r_fs r)
         @ ''  GS='' @ h (r_gs r)])"

lemma panic_lines_text:
  "list_all2 (\<lambda>(fmt, args) out. format_run fmt args = Inr out) (panic_lines r) (register_text r)"
  by (simp add: panic_lines_def register_text_def Let_def format_steps)

lemma print_lines_text:
  assumes "list_all2 (\<lambda>(fmt, args) out. format_run fmt args = Inr out) ls outs"
  shows "\<exists>s'. print_lines ls s = Inr s' \<and> console s' = console s @ concat (map (log_line LOG_FATAL) outs) \<and> fmt_buf s' = fmt_buf s"
  using assms
proof (induction ls outs arbitrary: s rule: list_all2_induct)
  case (Cons l ls out outs)
  obtain fmt args where l: "l = (fmt, args)" by (cases l)
  have "format fmt args = Inr (out, sint (of_nat (length out) :: u32))" using Cons.hyps(1) by (simp add: format_def l)
  then obtain u where u: "printk_level LOG_FATAL fmt args s = Inr u" "console u = console s @ log_line LOG_FATAL out"
    "fmt_buf u = fmt_buf s"
    using printk_level_line [where level = LOG_FATAL] by (fastforce simp: LOG_LEVEL_def LOG_DEBUG_def LOG_FATAL_def)
  then show ?case using Cons.IH [of u] by (auto simp: l)
qed simp

text \<open>The whole report: the message, cut to the buffer and with a header on each of its lines, and the registers.\<close>

definition panic_text :: "'y cpu_registers_scheme \<Rightarrow> string \<Rightarrow> string" where
  "panic_text c msg =
     [carriage_return] @ header LOG_FATAL @ with_headers (header LOG_FATAL) (take 1023 msg) @ [newline]
       @ concat (map (log_line LOG_FATAL) (register_text (capture c)))"

lemma panic_prints:
  assumes "format_run fmt ap = Inr out" and "length (fmt_buf s) = 1024"
  shows "\<exists>s'. panic c fmt ap s = Inr s' \<and> console s' = console s @ panic_text c out \<and> length (fmt_buf s') = 1024"
proof -
  have "format fmt ap = Inr (out, sint (of_nat (length out) :: u32))" using assms(1) by (simp add: format_def)
  moreover have "LOG_LEVEL \<le> LOG_FATAL" by (simp add: LOG_LEVEL_def LOG_DEBUG_def LOG_FATAL_def)
  ultimately obtain t where t: "vprintk_level LOG_FATAL fmt ap s = Inr t" "length (fmt_buf t) = 1024"
    "console t = console s @ [carriage_return] @ header LOG_FATAL @ with_headers (header LOG_FATAL) (take 1023 out) @ [newline]"
    using vprintk_level_text [OF _ assms(2)] by metis
  obtain u where "print_lines (panic_lines (capture c)) t = Inr u"
    "console u = console t @ concat (map (log_line LOG_FATAL) (register_text (capture c)))" "fmt_buf u = fmt_buf t"
    using print_lines_text [OF panic_lines_text] by blast
  then show ?thesis using t by (simp add: panic_def panic_text_def)
qed

text \<open>A hexadecimal field has the width that is asked for and reads back.\<close>

lemma length_numeral: "2 \<le> r \<Longrightarrow> n < r ^ Suc k \<Longrightarrow> length (numeral_of r n) \<le> Suc k"
proof (induction k arbitrary: n)
  case 0
  then show ?case by (simp add: numeral_of.simps)
next
  case (Suc k)
  have "n div r < r ^ Suc k" using Suc.prems by (simp add: less_mult_imp_div_less mult.commute)
  then show ?case using Suc numeral_of.simps [of r n] by auto
qed

lemma hex_text_18: "length (hex_text upper 18 v) = 18" "read_number 16 (drop 2 (hex_text upper 18 v)) = unat v"
proof -
  have n: "length (digits_text upper (numeral_of 16 (unat v))) \<le> 16"
    using length_numeral [of 16 "unat v" 15] unat64_less [of v] by (simp add: digits_text_def)
  show "length (hex_text upper 18 v) = 18" using n by (cases upper) (simp_all add: hex_text_def Let_def)
  show "read_number 16 (drop 2 (hex_text upper 18 v)) = unat v"
  proof (cases "v = 0")
    case True
    then show ?thesis using read_number_zeros [of 16 16 "[]"] by (simp add: hex_text_def) (simp add: read_number_def)
  next
    case False
    then show ?thesis by (cases upper) (simp_all add: hex_text_def Let_def read_number_zeros read_numeral)
  qed
qed

subsection \<open>Exceptions\<close>

definition exception_text :: "interrupt_frame \<Rightarrow> u64 \<Rightarrow> u64 \<Rightarrow> string" where
  "exception_text f fault_address table =
     (let dec = (\<lambda>w :: u64. digits_text False (numeral_of 10 (unat (ucast w :: u32)))); hex = hex_text False 18
      in ''Exception '' @ dec (if_vector f) @ '', error '' @ dec (if_error_code f) @ '', RIP='' @ hex (if_rip f)
        @ '', CR2='' @ hex fault_address @ '', CR3='' @ hex table)"

lemma ucast_ucast_32: "ucast (ucast (ucast (w :: u64) :: u32) :: u64) = (ucast w :: u32)"
  by (rule bit_word_eqI) (simp add: bit_simps)

lemma timer_handled:
  assumes "if_vector f = APIC_TIMER_VECTOR" and "apic_virt s \<noteq> 0"
  shows "isr_handler c fault_address f s l =
    Inr (Returned (kret () (s\<lparr>io_log := io_log s @ [Out8 0xE9 0x2E], mem := store32 (apic_virt s + 0xB0) 0 (mem s)\<rparr>)))"
proof -
  have "format ''.'' [] = Inr (''.'', 1)" by (simp add: format_def format_run_char)
  then show ?thesis using assms
    by (simp add: isr_handler_def apic_timer_handler_def serial_write_fmt_def write_char_def outb_def io_emit_def
        apic_eoi_def apic_write_def kassert_def)
qed

text \<open>C15. The timer's interrupt writes a full stop to the debug port, acknowledges the interrupt and
  returns with nothing else changed. Every other vector ends in a panic that prints vector, error
  code, instruction pointer, faulting address, page table and all registers, whatever the message
  buffer held before; the addresses have sixteen digits and read back.\<close>

theorem interrupts_handled:
  assumes "length (fmt_buf l) = 1024" and "apic_virt s \<noteq> 0"
  shows "(if if_vector f = APIC_TIMER_VECTOR
      then isr_handler c fault_address f s l = Inr (Returned (kret ()
        (s\<lparr>io_log := io_log s @ [Out8 0xE9 0x2E], mem := store32 (apic_virt s + 0xB0) 0 (mem s)\<rparr>)))
      else \<exists>l'. isr_handler c fault_address f s l = Inr (Halted l') \<and>
        console l' = console l @ panic_text c (exception_text f fault_address (cr3 s))) \<and>
    length (hex_text False 18 v) = 18 \<and> read_number 16 (drop 2 (hex_text False 18 v)) = unat v"
proof (cases "if_vector f = APIC_TIMER_VECTOR")
  case True
  then show ?thesis using timer_handled [OF True assms(2)] hex_text_18 by simp
next
  case False
  have "format_run ''Exception %u, error %u, RIP=%#018llx, CR2=%#018llx, CR3=%#018llx''
      [Word (ucast (ucast (if_vector f) :: u32)), Word (ucast (ucast (if_error_code f) :: u32)), Word (if_rip f),
       Word fault_address, Word (cr3 s)] = Inr (exception_text f fault_address (cr3 s))"
    by (simp add: format_steps exception_text_def Let_def ucast_ucast_32)
  from panic_prints [OF this assms(1), of c] show ?thesis
    using False hex_text_18 by (auto simp: isr_handler_def exception_handler_def)
qed

definition idle_cpu :: cpu_registers where
  "idle_cpu = \<lparr>gdtr = (0, 0), idtr = (0, 0), task_register = 0x28, cpu_cs = 8, cpu_ds = 0x10, cpu_es = 0x10, cpu_fs = 0x10,
     cpu_gs = 0x10, cpu_ss = 0x10, interrupts = False, cpu_rax = 0, cpu_rbx = 0, cpu_rcx = 0, cpu_rdx = 0, cpu_rsi = 0, cpu_rdi = 0,
     cpu_rbp = 0, cpu_rsp = 0, cpu_r8 = 0, cpu_r9 = 0, cpu_r10 = 0, cpu_r11 = 0, cpu_r12 = 0, cpu_r13 = 0, cpu_r14 = 0, cpu_r15 = 0,
     cpu_rip = 0, cpu_rflags = 2\<rparr>"

definition empty_log :: log_state where
  "empty_log = \<lparr>console = '''', fmt_buf = replicate 1024 CHR 0x00, fmt_buf_pos = 0\<rparr>"

definition page_fault :: interrupt_frame where
  "page_fault = \<lparr>if_general = replicate 15 0, if_vector = 14, if_error_code = 2, if_rip = 0xFFFFFFFF80001000, if_cs = 8,
     if_rflags = 2, if_rsp = 0, if_ss = 0x10\<rparr>"

lemma interrupts_handled_witness:
  "(\<exists>l'. isr_handler idle_cpu 0xdead000 page_fault timer_machine empty_log = Inr (Halted l') \<and>
      console l' = panic_text idle_cpu (exception_text page_fault 0xdead000 (cr3 timer_machine))) \<and>
    isr_handler idle_cpu 0 (page_fault\<lparr>if_vector := 0x20\<rparr>) timer_machine empty_log = Inr (Returned (kret ()
      (timer_machine\<lparr>io_log := io_log timer_machine @ [Out8 0xE9 0x2E],
        mem := store32 (apic_virt timer_machine + 0xB0) 0 (mem timer_machine)\<rparr>)))"
proof -
  have "length (fmt_buf empty_log) = 1024" "apic_virt timer_machine \<noteq> 0" "console empty_log = ''''"
    "if_vector page_fault = 14"
    by (simp_all add: empty_log_def timer_machine_def page_fault_def)
  with interrupts_handled [of empty_log timer_machine page_fault idle_cpu "0xdead000"]
    interrupts_handled [of empty_log timer_machine "page_fault\<lparr>if_vector := 0x20\<rparr>" idle_cpu 0]
  show ?thesis by (simp add: APIC_TIMER_VECTOR_def)
qed

subsection \<open>Assertions\<close>

text \<open>A line number is a positive \<open>int\<close>.\<close>

lemma directive_d:
  assumes "unat w < 2 ^ 31"
  shows "directive (''d'' @ post) (Word (ucast (w :: u32)) # args) =
    Inr (Some (digits_text False (numeral_of 10 (unat w)), post, args))"
proof -
  have n: "\<not> bit w k" if "31 \<le> k" for k by (rule word_bit_ge [OF assms that])
  then have c: "(scast (ucast (ucast w :: u64) :: u32) :: u64) = ucast w"
    by (intro bit_word_eqI) (auto simp: bit_simps min_def n)
  have "\<not> bit (ucast w :: u64) 63" using n [of 63] by (simp add: bit_simps)
  then have "\<not> (ucast w :: u64) <s 0" by (simp add: word_sless_alt bit_last_iff [symmetric])
  moreover have "unat (ucast w :: u64) = unat w"
    using unsigned_less [of w, where ?'a = nat]
    by (simp add: unsigned_ucast_eq [of w] take_bit_nat_eq_self_iff del: unsigned_ucast_eq)
  ultimately show ?thesis
    by (simp add: directive_steps arg_size_d c plain_number)
qed

lemmas format_site = format_steps format_run_directive [OF directive_d, simplified, simplified peek_def, simplified]

definition site_text :: "code_site \<Rightarrow> string" where
  "site_text w = [newline] @ ''  file : '' @ site_file w @ '':'' @ digits_text False (numeral_of 10 (unat (site_line w)))
     @ [newline] @ ''  func : '' @ site_func w @ [newline]"

definition assertion_text :: "string \<Rightarrow> code_site \<Rightarrow> string" where
  "assertion_text expr w = ''Assertion failed: ('' @ expr @ '')'' @ site_text w"

lemma format_run_site:
  "unat (site_line w) < 2 ^ 31 \<Longrightarrow> format_run site_format (site_args w) = Inr (site_text w)"
  by (simp add: site_format_def site_args_def site_text_def format_site)

text \<open>C17. An assertion that holds lets the program go on. One that fails prints its expression with
  file, line and function and all registers; the checks for null pointers, equality, ranges and
  alignment are assertions of the expression they abbreviate, and unreachable code panics.\<close>

theorem assertions_reported:
  assumes "length (fmt_buf s) = 1024" and "unat (site_line w) < 2 ^ 31"
  shows "ASSERT c w True expr s = Inr None \<and>
    (\<exists>s'. ASSERT c w False expr s = Inr (Some s') \<and> console s' = console s @ panic_text c (assertion_text expr w)) \<and>
    (\<exists>s'. ASSERT_NOT_NULL c w (expr, 0) s = Inr (Some s') \<and>
      console s' = console s @ panic_text c (assertion_text (''('' @ expr @ '') != NULL'') w)) \<and>
    (ASSERT_ALIGNED c w (expr, a) (expr', 0x1000) s = Inr None \<longleftrightarrow> unat a mod 4096 = 0) \<and>
    (ASSERT_RANGE c w (expr, a) (expr', lo) (expr'', hi) s = Inr None \<longleftrightarrow> a \<in> {lo..<hi}) \<and>
    (\<exists>s'. UNREACHABLE c w s = Inr s' \<and> console s' = console s @ panic_text c (''Panic: Reached unreachable code'' @ site_text w))"
proof -
  have fail: "\<exists>s'. ASSERT c w False e s = Inr (Some s') \<and> console s' = console s @ panic_text c (assertion_text e w)" for e
  proof -
    have "format_run (''Assertion failed: (%s)'' @ site_format) (Str e # site_args w) = Inr (assertion_text e w)"
      by (simp add: format_site format_run_site [OF assms(2)] assertion_text_def)
    from panic_prints [OF this assms(1), of c] show ?thesis by (auto simp: ASSERT_def)
  qed
  have pass: "ASSERT c w b e s = Inr None \<longleftrightarrow> b" for b e
    using fail [of e] by (cases b) (auto simp: ASSERT_def)
  have al: "a AND 4095 = 0 \<longleftrightarrow> unat a mod 4096 = 0"
    unfolding page_aligned_unat [symmetric] page_aligned_take_bit by (simp add: take_bit_eq_mask mask_eq_exp_minus_1)
  have "format_run (''Panic: %s'' @ site_format) (Str ''Reached unreachable code'' # site_args w) =
      Inr (''Panic: Reached unreachable code'' @ site_text w)"
    by (simp add: format_site format_run_site [OF assms(2)])
  from panic_prints [OF this assms(1), of c] pass fail [of expr] fail [of "''('' @ expr @ '') != NULL''"] al show ?thesis
    by (auto simp: ASSERT_NOT_NULL_def ASSERT_ALIGNED_def ASSERT_RANGE_def UNREACHABLE_def PANIC_def)
qed

lemma assertions_reported_witness:
  "\<exists>s'. ASSERT idle_cpu \<lparr>site_file = ''src/memory/vm.c'', site_line = 50, site_func = ''vm_alloc''\<rparr> False ''size > 0'' empty_log =
      Inr (Some s') \<and> console s' = panic_text idle_cpu (''Assertion failed: (size > 0)'' @ [newline] @
        ''  file : src/memory/vm.c:'' @ digits_text False (numeral_of 10 50) @ [newline] @ ''  func : vm_alloc'' @ [newline])"
  using assertions_reported [of empty_log "\<lparr>site_file = ''src/memory/vm.c'', site_line = 50, site_func = ''vm_alloc''\<rparr>" idle_cpu "''size > 0''"]
  by (simp add: empty_log_def assertion_text_def site_text_def)

end
