(* ===== verification/Screen.thy ===== *)
theory Screen
  imports Prelude
begin

unbundle bit_operations_syntax

text \<open>
  The state of the terminal and the pixel side of its frame-buffer back end
  (\<open>src/kernel/src/logging/flanterm_backends/fb.c\<close>). The record of the terminal
  (\<open>struct flanterm_context\<close>) is extended by that of the back end
  (\<open>struct flanterm_fb_context\<close>), as the C structure embeds the other at its head; its function
  pointers always point to the functions of \<open>fb.c\<close>, and the models call these directly. The
  pixels are a function of their addresses; strides are the signed 32-bit values of the code,
  extended to pointer width. A callback a client installs is logged with the memory it is shown
  and does not touch the context; the kernel installs none.
\<close>

datatype ft_event = CB_Dec u64 "u32 list" u8 | CB_Bell | CB_Private_Id | CB_Status_Report
  | CB_Pos_Report u64 u64 | CB_Kbd_Leds u32 | CB_Mode u64 "u32 list" u8 | CB_Linux u64 "u32 list"
  | CB_Osc u64 u64 "u8 list"

record ft_context =
  tab_size :: u64
  autoflush :: bool
  cursor_enabled :: bool
  scroll_enabled :: bool
  wrap_enabled :: bool
  origin_mode :: bool
  control_sequence :: bool
  escape :: bool
  osc :: bool
  osc_escape :: bool
  osc_buf_i :: u64
  osc_buf :: "u8 list"
  rrr :: bool
  discard_next :: bool
  bold :: bool
  bg_bold :: bool
  reverse_video :: bool
  dec_private :: bool
  insert_mode :: bool
  csi_unhandled :: bool
  code_point :: u64
  unicode_remaining :: u64
  g_select :: u8
  charsets :: "u8 list"
  current_charset :: u64
  escape_offset :: u64
  esc_values_i :: u64
  saved_cursor_x :: u64
  saved_cursor_y :: u64
  current_primary :: u64
  current_bg :: u64
  scroll_top_margin :: u64
  scroll_bottom_margin :: u64
  esc_values :: "u32 list"
  last_printed_char :: u8
  last_was_graphic :: bool
  saved_state_bold :: bool
  saved_state_bg_bold :: bool
  saved_state_reverse_video :: bool
  saved_state_origin_mode :: bool
  saved_state_wrap_enabled :: bool
  saved_state_current_charset :: u64
  saved_state_charsets :: "u8 list"
  saved_state_current_primary :: u64
  saved_state_current_bg :: u64
  saved_state_scroll_top_margin :: u64
  saved_state_scroll_bottom_margin :: u64
  rows :: u64
  cols :: u64
  has_callback :: bool
  ft_events :: "ft_event list"

record fb_char =
  fc_c :: u32
  fc_fg :: u32
  fc_bg :: u32

record fb_queue_item =
  qi_x :: u64
  qi_y :: u64
  qi_c :: fb_char

datatype plot_function = Scaled_Canvas | Scaled_Uncanvas | Unscaled_Canvas | Unscaled_Uncanvas

record fb_context = ft_context +
  plot_function :: plot_function
  has_flush_callback :: bool
  flushes :: "u64 list"
  font_width :: u64
  font_height :: u64
  glyph_width :: u64
  glyph_height :: u64
  font_scale_x :: u64
  font_scale_y :: u64
  offset_x :: u64
  offset_y :: u64
  framebuffer :: u64
  pixels :: "u64 \<Rightarrow> u32"
  pitch :: u64
  fb_width :: u64
  fb_height :: u64
  phys_height :: u64
  red_mask_size :: u8
  red_mask_shift :: u8
  green_mask_size :: u8
  green_mask_shift :: u8
  blue_mask_size :: u8
  blue_mask_shift :: u8
  rotation :: int
  font_bool :: "bool list"
  ansi_colours :: "u32 list"
  ansi_bright_colours :: "u32 list"
  default_fg :: u32
  default_bg :: u32
  default_fg_bright :: u32
  default_bg_bright :: u32
  canvas :: "(u64 \<Rightarrow> u32) option"
  grid :: "fb_char list"
  queue :: "fb_queue_item list"
  queue_i :: u64
  fb_map :: "nat option list"
  text_fg :: u32
  text_bg :: u32
  cursor_x :: u64
  cursor_y :: u64
  saved_state_text_fg :: u32
  saved_state_text_bg :: u32
  saved_state_cursor_x :: u64
  saved_state_cursor_y :: u64
  old_cursor_x :: u64
  old_cursor_y :: u64

subsection \<open>Colours\<close>

text \<open>A shift by an amount of at least 32 bits is undefined in C; it does not occur for the mask
  sizes and shifts of a 32-bit pixel.\<close>

definition convert_colour :: "'z fb_context_scheme \<Rightarrow> u32 \<Rightarrow> u32" where
  "convert_colour ctx colour =
     (let r = drop_bit 16 colour AND 0xff; g = drop_bit 8 colour AND 0xff; b = colour AND 0xff;
          ret = push_bit (unat (red_mask_shift ctx)) r OR push_bit (unat (green_mask_shift ctx)) g
            OR push_bit (unat (blue_mask_shift ctx)) b;
          widen = (\<lambda>size shift v. if size > (8 :: u8)
            then push_bit (unat shift - unat size + 8) (drop_bit (16 - unat size) v) else (0 :: u32));
          ret = ret OR widen (red_mask_size ctx) (red_mask_shift ctx) r;
          ret = ret OR widen (green_mask_size ctx) (green_mask_shift ctx) g;
          ret = ret OR widen (blue_mask_size ctx) (blue_mask_shift ctx) b
      in ret)"

subsection \<open>Plotting a character\<close>

text \<open>The first pixel and the two strides for the four rotations; \<open>stride\<close> is the conversion of a
  \<open>size_t\<close> to \<open>int\<close> and back to a pointer difference.\<close>

definition stride :: "u64 \<Rightarrow> u64" where
  "stride n = scast (ucast n :: u32)"

definition plot_origin :: "'z fb_context_scheme \<Rightarrow> u64 \<Rightarrow> u64 \<Rightarrow> u64 \<times> u64 \<times> u64" where
  "plot_origin ctx x y =
     (let line = pitch ctx div 4 in
      if rotation ctx = 1 then ((fb_height ctx - 1 - y) + x * line, - 1, stride line)
      else if rotation ctx = 2 then ((fb_width ctx - 1 - x) + (fb_height ctx - 1 - y) * line, stride (- line), - 1)
      else if rotation ctx = 3 then (y + (fb_width ctx - 1 - x) * line, 1, stride (- line))
      else (x + y * line, stride line, 1))"

text \<open>The loops over the glyph: \<open>fg\<close> and \<open>bg\<close> give the two colours at a column and line of the
  glyph. In the unscaled functions a glyph column is a font column.\<close>

definition plot_glyph ::
  "u64 \<Rightarrow> u64 \<Rightarrow> (u64 \<Rightarrow> u64 \<Rightarrow> u32) \<Rightarrow> (u64 \<Rightarrow> u64 \<Rightarrow> u32) \<Rightarrow> fb_char \<Rightarrow> u64 \<Rightarrow> u64 \<Rightarrow> 'z fb_context_scheme \<Rightarrow> 'z fb_context_scheme" where
  "plot_glyph scale_x scale_y fg bg c x y ctx =
     (let (dest, outer_stride, inner_stride) = plot_origin ctx x y;
          glyph = ucast (fc_c c) * font_height ctx * font_width ctx
      in ctx\<lparr>pixels :=
        fold (\<lambda>gy buf.
          let fy = ucast (ucast (of_nat gy div scale_y) :: u8); glyph_line = glyph + fy * font_width ctx in
          fold (\<lambda>fx buf.
            fold (\<lambda>i buf.
              let gx = scale_x * of_nat fx + of_nat i
              in buf(framebuffer ctx + 4 * (dest + of_nat gy * outer_stride + gx * inner_stride) :=
                   if font_bool ctx ! unat (glyph_line + of_nat fx) then fg gx (of_nat gy) else bg gx (of_nat gy)))
            [0..<unat scale_x] buf)
          [0..<unat (font_width ctx)] buf)
        [0..<unat (glyph_height ctx)] (pixels ctx)\<rparr>)"

text \<open>The four functions behind \<open>plot_char\<close>: the value 0xffffffff stands for the pixel of the canvas,
  or for the default background where there is none. They differ in the pixels of a font column
  and in where that colour comes from.\<close>

definition canvas_pixel :: "'z fb_context_scheme \<Rightarrow> u64 \<Rightarrow> u64 \<Rightarrow> u32 \<Rightarrow> u64 \<Rightarrow> u64 \<Rightarrow> u32" where
  "canvas_pixel ctx x y v gx gy =
     (if v = 0xffffffff then (case canvas ctx of Some cv \<Rightarrow> cv (x + (y + gy) * fb_width ctx + gx) | None \<Rightarrow> 0) else v)"

definition plot_char_scaled_canvas :: "fb_char \<Rightarrow> u64 \<Rightarrow> u64 \<Rightarrow> 'z fb_context_scheme \<Rightarrow> 'z fb_context_scheme" where
  "plot_char_scaled_canvas c x y ctx =
     (if x \<ge> cols ctx \<or> y \<ge> rows ctx then ctx
      else let x = offset_x ctx + x * glyph_width ctx; y = offset_y ctx + y * glyph_height ctx
        in plot_glyph (font_scale_x ctx) (font_scale_y ctx) (canvas_pixel ctx x y (fc_fg c)) (canvas_pixel ctx x y (fc_bg c)) c x y ctx)"

definition plot_char_scaled_uncanvas :: "fb_char \<Rightarrow> u64 \<Rightarrow> u64 \<Rightarrow> 'z fb_context_scheme \<Rightarrow> 'z fb_context_scheme" where
  "plot_char_scaled_uncanvas c x y ctx =
     (if x \<ge> cols ctx \<or> y \<ge> rows ctx then ctx
      else let bg = (if fc_bg c = 0xffffffff then default_bg ctx else fc_bg c);
               fg = (if fc_fg c = 0xffffffff then default_bg ctx else fc_fg c);
               x = offset_x ctx + x * glyph_width ctx; y = offset_y ctx + y * glyph_height ctx
        in plot_glyph (font_scale_x ctx) (font_scale_y ctx) (\<lambda>_ _. fg) (\<lambda>_ _. bg) c x y ctx)"

definition plot_char_unscaled_canvas :: "fb_char \<Rightarrow> u64 \<Rightarrow> u64 \<Rightarrow> 'z fb_context_scheme \<Rightarrow> 'z fb_context_scheme" where
  "plot_char_unscaled_canvas c x y ctx =
     (if x \<ge> cols ctx \<or> y \<ge> rows ctx then ctx
      else let x = offset_x ctx + x * glyph_width ctx; y = offset_y ctx + y * glyph_height ctx
        in plot_glyph 1 1 (canvas_pixel ctx x y (fc_fg c)) (canvas_pixel ctx x y (fc_bg c)) c x y ctx)"

definition plot_char_unscaled_uncanvas :: "fb_char \<Rightarrow> u64 \<Rightarrow> u64 \<Rightarrow> 'z fb_context_scheme \<Rightarrow> 'z fb_context_scheme" where
  "plot_char_unscaled_uncanvas c x y ctx =
     (if x \<ge> cols ctx \<or> y \<ge> rows ctx then ctx
      else let bg = (if fc_bg c = 0xffffffff then default_bg ctx else fc_bg c);
               fg = (if fc_fg c = 0xffffffff then default_bg ctx else fc_fg c);
               x = offset_x ctx + x * glyph_width ctx; y = offset_y ctx + y * glyph_height ctx
        in plot_glyph 1 1 (\<lambda>_ _. fg) (\<lambda>_ _. bg) c x y ctx)"

definition plot_char :: "fb_char \<Rightarrow> u64 \<Rightarrow> u64 \<Rightarrow> 'z fb_context_scheme \<Rightarrow> 'z fb_context_scheme" where
  "plot_char c x y ctx =
     (case plot_function ctx of
        Scaled_Canvas \<Rightarrow> plot_char_scaled_canvas c x y ctx
      | Scaled_Uncanvas \<Rightarrow> plot_char_scaled_uncanvas c x y ctx
      | Unscaled_Canvas \<Rightarrow> plot_char_unscaled_canvas c x y ctx
      | Unscaled_Uncanvas \<Rightarrow> plot_char_unscaled_uncanvas c x y ctx)"

lemmas plot_char_defs = plot_char_def plot_char_scaled_canvas_def plot_char_scaled_uncanvas_def plot_char_unscaled_canvas_def
  plot_char_unscaled_uncanvas_def

end
