(* ===== verification/Fb_Screen.thy ===== *)
theory Fb_Screen
  imports Screen
begin

unbundle bit_operations_syntax

text \<open>
  The operations of the frame-buffer back end
  (\<open>src/kernel/src/logging/flanterm_backends/fb.c\<close>) on characters: the grid of what is on the
  screen, the queue of changes that wait for the next flush, the map from cells to queue items,
  the cursor and the colours. A pointer into the queue is the index of the item; the C code
  reads and writes \<open>grid\<close>, \<open>map\<close> and \<open>queue\<close> only at indices inside them when the geometry of
  the record is sound, which \<open>Screen_Cells\<close> shows to be kept.
\<close>

subsection \<open>The queue\<close>

definition compare_char :: "fb_char \<Rightarrow> fb_char \<Rightarrow> bool" where
  "compare_char a b = (\<not> (fc_c a \<noteq> fc_c b \<or> fc_bg a \<noteq> fc_bg b \<or> fc_fg a \<noteq> fc_fg b))"

definition push_to_queue :: "fb_char \<Rightarrow> u64 \<Rightarrow> u64 \<Rightarrow> 'z fb_context_scheme \<Rightarrow> 'z fb_context_scheme" where
  "push_to_queue c x y ctx =
     (if x \<ge> cols ctx \<or> y \<ge> rows ctx then ctx
      else let i = unat (y * cols ctx + x) in
        case fb_map ctx ! i of
          Some k \<Rightarrow> ctx\<lparr>queue := (queue ctx)[k := (queue ctx ! k)\<lparr>qi_c := c\<rparr>]\<rparr>
        | None \<Rightarrow>
            if compare_char (grid ctx ! i) c then ctx
            else if queue_i ctx = rows ctx * cols ctx then ctx
            else ctx\<lparr>queue := (queue ctx)[unat (queue_i ctx) := \<lparr>qi_x = x, qi_y = y, qi_c = c\<rparr>],
                     fb_map := (fb_map ctx)[i := Some (unat (queue_i ctx))],
                     queue_i := queue_i ctx + 1\<rparr>)"

text \<open>The character of a cell as the next flush will show it.\<close>

definition char_at :: "nat \<Rightarrow> 'z fb_context_scheme \<Rightarrow> fb_char" where
  "char_at i ctx = (case fb_map ctx ! i of Some k \<Rightarrow> qi_c (queue ctx ! k) | None \<Rightarrow> grid ctx ! i)"

definition empty_char :: "'z fb_context_scheme \<Rightarrow> fb_char" where
  "empty_char ctx = \<lparr>fc_c = 0x20, fc_fg = text_fg ctx, fc_bg = text_bg ctx\<rparr>"

definition clear_line :: "u64 \<Rightarrow> 'z fb_context_scheme \<Rightarrow> 'z fb_context_scheme" where
  "clear_line y ctx =
     (let empty = empty_char ctx in fold (\<lambda>i. push_to_queue empty (of_nat i) y) [0..<unat (cols ctx)] ctx)"

definition flanterm_fb_revscroll :: "'z fb_context_scheme \<Rightarrow> 'z fb_context_scheme" where
  "flanterm_fb_revscroll ctx =
     (let start = unat (scroll_top_margin ctx * cols ctx); end = unat ((scroll_bottom_margin ctx - 1) * cols ctx);
          ctx = fold (\<lambda>i ctx. push_to_queue (char_at i ctx)
              ((of_nat i + cols ctx) mod cols ctx) ((of_nat i + cols ctx) div cols ctx) ctx)
            (rev [start..<end]) ctx
      in clear_line (scroll_top_margin ctx) ctx)"

definition flanterm_fb_scroll :: "'z fb_context_scheme \<Rightarrow> 'z fb_context_scheme" where
  "flanterm_fb_scroll ctx =
     (let ctx = fold (\<lambda>i ctx. push_to_queue (char_at i ctx)
              ((of_nat i - cols ctx) mod cols ctx) ((of_nat i - cols ctx) div cols ctx) ctx)
            [unat ((scroll_top_margin ctx + 1) * cols ctx)..<unat (scroll_bottom_margin ctx * cols ctx)] ctx
      in clear_line (scroll_bottom_margin ctx - 1) ctx)"

definition flanterm_fb_clear :: "bool \<Rightarrow> 'z fb_context_scheme \<Rightarrow> 'z fb_context_scheme" where
  "flanterm_fb_clear move ctx =
     (let empty = empty_char ctx;
          ctx = fold (\<lambda>i ctx. push_to_queue empty (of_nat i mod cols ctx) (of_nat i div cols ctx) ctx)
            [0..<unat (rows ctx * cols ctx)] ctx
      in if move then ctx\<lparr>cursor_x := 0, cursor_y := 0\<rparr> else ctx)"

definition flanterm_fb_move_character :: "u64 \<Rightarrow> u64 \<Rightarrow> u64 \<Rightarrow> u64 \<Rightarrow> 'z fb_context_scheme \<Rightarrow> 'z fb_context_scheme" where
  "flanterm_fb_move_character new_x new_y old_x old_y ctx =
     (if old_x \<ge> cols ctx \<or> old_y \<ge> rows ctx \<or> new_x \<ge> cols ctx \<or> new_y \<ge> rows ctx then ctx
      else push_to_queue (char_at (unat (old_x + old_y * cols ctx)) ctx) new_x new_y ctx)"

subsection \<open>Cursor and colours\<close>

definition clamp_coordinate :: "u64 \<Rightarrow> u64 \<Rightarrow> u64" where
  "clamp_coordinate x limit =
     (if x \<ge> limit then if x > 0x7FFFFFFFFFFFFFFF then 0 else limit - 1 else x)"

definition flanterm_fb_set_cursor_pos :: "u64 \<Rightarrow> u64 \<Rightarrow> 'z fb_context_scheme \<Rightarrow> 'z fb_context_scheme" where
  "flanterm_fb_set_cursor_pos x y ctx =
     ctx\<lparr>cursor_x := clamp_coordinate x (cols ctx), cursor_y := clamp_coordinate y (rows ctx)\<rparr>"

definition flanterm_fb_get_cursor_pos :: "'z fb_context_scheme \<Rightarrow> u64 \<times> u64" where
  "flanterm_fb_get_cursor_pos ctx =
     (if cursor_x ctx \<ge> cols ctx then cols ctx - 1 else cursor_x ctx,
      if cursor_y ctx \<ge> rows ctx then rows ctx - 1 else cursor_y ctx)"

definition flanterm_fb_save_state :: "'z fb_context_scheme \<Rightarrow> 'z fb_context_scheme" where
  "flanterm_fb_save_state ctx =
     ctx\<lparr>saved_state_text_fg := text_fg ctx, saved_state_text_bg := text_bg ctx,
         saved_state_cursor_x := cursor_x ctx, saved_state_cursor_y := cursor_y ctx\<rparr>"

definition flanterm_fb_restore_state :: "'z fb_context_scheme \<Rightarrow> 'z fb_context_scheme" where
  "flanterm_fb_restore_state ctx =
     ctx\<lparr>text_fg := saved_state_text_fg ctx, text_bg := saved_state_text_bg ctx,
         cursor_x := saved_state_cursor_x ctx, cursor_y := saved_state_cursor_y ctx\<rparr>"

definition flanterm_fb_swap_palette :: "'z fb_context_scheme \<Rightarrow> 'z fb_context_scheme" where
  "flanterm_fb_swap_palette ctx = ctx\<lparr>text_bg := text_fg ctx, text_fg := text_bg ctx\<rparr>"

definition flanterm_fb_set_text_fg :: "u64 \<Rightarrow> 'z fb_context_scheme \<Rightarrow> 'z fb_context_scheme" where
  "flanterm_fb_set_text_fg fg ctx = ctx\<lparr>text_fg := ansi_colours ctx ! unat fg\<rparr>"

definition flanterm_fb_set_text_bg :: "u64 \<Rightarrow> 'z fb_context_scheme \<Rightarrow> 'z fb_context_scheme" where
  "flanterm_fb_set_text_bg bg ctx = ctx\<lparr>text_bg := ansi_colours ctx ! unat bg\<rparr>"

definition flanterm_fb_set_text_fg_bright :: "u64 \<Rightarrow> 'z fb_context_scheme \<Rightarrow> 'z fb_context_scheme" where
  "flanterm_fb_set_text_fg_bright fg ctx = ctx\<lparr>text_fg := ansi_bright_colours ctx ! unat fg\<rparr>"

definition flanterm_fb_set_text_bg_bright :: "u64 \<Rightarrow> 'z fb_context_scheme \<Rightarrow> 'z fb_context_scheme" where
  "flanterm_fb_set_text_bg_bright bg ctx = ctx\<lparr>text_bg := ansi_bright_colours ctx ! unat bg\<rparr>"

definition flanterm_fb_set_text_fg_rgb :: "u32 \<Rightarrow> 'z fb_context_scheme \<Rightarrow> 'z fb_context_scheme" where
  "flanterm_fb_set_text_fg_rgb fg ctx = ctx\<lparr>text_fg := convert_colour ctx fg\<rparr>"

definition flanterm_fb_set_text_bg_rgb :: "u32 \<Rightarrow> 'z fb_context_scheme \<Rightarrow> 'z fb_context_scheme" where
  "flanterm_fb_set_text_bg_rgb bg ctx = ctx\<lparr>text_bg := convert_colour ctx bg\<rparr>"

definition flanterm_fb_set_text_fg_default :: "'z fb_context_scheme \<Rightarrow> 'z fb_context_scheme" where
  "flanterm_fb_set_text_fg_default ctx = ctx\<lparr>text_fg := default_fg ctx\<rparr>"

definition flanterm_fb_set_text_bg_default :: "'z fb_context_scheme \<Rightarrow> 'z fb_context_scheme" where
  "flanterm_fb_set_text_bg_default ctx = ctx\<lparr>text_bg := 0xffffffff\<rparr>"

definition flanterm_fb_set_text_fg_default_bright :: "'z fb_context_scheme \<Rightarrow> 'z fb_context_scheme" where
  "flanterm_fb_set_text_fg_default_bright ctx = ctx\<lparr>text_fg := default_fg_bright ctx\<rparr>"

definition flanterm_fb_set_text_bg_default_bright :: "'z fb_context_scheme \<Rightarrow> 'z fb_context_scheme" where
  "flanterm_fb_set_text_bg_default_bright ctx = ctx\<lparr>text_bg := default_bg_bright ctx\<rparr>"

definition flanterm_fb_raw_putchar :: "u8 \<Rightarrow> 'z fb_context_scheme \<Rightarrow> 'z fb_context_scheme" where
  "flanterm_fb_raw_putchar c ctx =
     (let ctx =
        (if cursor_x ctx \<ge> cols ctx then
           if wrap_enabled ctx \<and> (cursor_y ctx < scroll_bottom_margin ctx - 1 \<or> scroll_enabled ctx) then
             let ctx = ctx\<lparr>cursor_x := 0, cursor_y := cursor_y ctx + 1\<rparr>;
                 ctx = (if cursor_y ctx = scroll_bottom_margin ctx
                        then flanterm_fb_scroll (ctx\<lparr>cursor_y := cursor_y ctx - 1\<rparr>) else ctx)
             in if cursor_y ctx \<ge> rows ctx then ctx\<lparr>cursor_y := rows ctx - 1\<rparr> else ctx
           else ctx\<lparr>cursor_x := cols ctx - 1\<rparr>
         else ctx);
          ch = \<lparr>fc_c = ucast c, fc_fg = text_fg ctx, fc_bg = text_bg ctx\<rparr>;
          x = cursor_x ctx
      in push_to_queue ch x (cursor_y ctx) (ctx\<lparr>cursor_x := x + 1\<rparr>))"

subsection \<open>Flushing\<close>

definition draw_cursor :: "'z fb_context_scheme \<Rightarrow> 'z fb_context_scheme" where
  "draw_cursor ctx =
     (if cursor_x ctx \<ge> cols ctx \<or> cursor_y ctx \<ge> rows ctx then ctx
      else let i = unat (cursor_x ctx + cursor_y ctx * cols ctx);
               q = fb_map ctx ! i;
               c = char_at i ctx;
               ctx = plot_char (c\<lparr>fc_fg := fc_bg c, fc_bg := fc_fg c\<rparr>) (cursor_x ctx) (cursor_y ctx) ctx
        in case q of
             Some k \<Rightarrow> ctx\<lparr>grid := (grid ctx)[i := qi_c (queue ctx ! k)], fb_map := (fb_map ctx)[i := None]\<rparr>
           | None \<Rightarrow> ctx)"

definition flush_item :: "nat \<Rightarrow> 'z fb_context_scheme \<Rightarrow> 'z fb_context_scheme" where
  "flush_item k ctx =
     (let q = queue ctx ! k; offset = unat (qi_y q * cols ctx + qi_x q)
      in if fb_map ctx ! offset = None then ctx
         else let ctx = plot_char (qi_c q) (qi_x q) (qi_y q) ctx
           in ctx\<lparr>grid := (grid ctx)[offset := qi_c q], fb_map := (fb_map ctx)[offset := None]\<rparr>)"

definition notify_flush :: "'z fb_context_scheme \<Rightarrow> 'z fb_context_scheme" where
  "notify_flush ctx =
     (if has_flush_callback ctx then ctx\<lparr>flushes := flushes ctx @ [pitch ctx * phys_height ctx]\<rparr> else ctx)"

definition flanterm_fb_double_buffer_flush :: "'z fb_context_scheme \<Rightarrow> 'z fb_context_scheme" where
  "flanterm_fb_double_buffer_flush ctx =
     (let ctx = (if cursor_enabled ctx then draw_cursor ctx else ctx);
          ctx = fold flush_item [0..<unat (queue_i ctx)] ctx;
          ctx = (if (old_cursor_x ctx \<noteq> cursor_x ctx \<or> old_cursor_y ctx \<noteq> cursor_y ctx) \<or> \<not> cursor_enabled ctx
                 then if old_cursor_x ctx < cols ctx \<and> old_cursor_y ctx < rows ctx
                      then plot_char (grid ctx ! unat (old_cursor_x ctx + old_cursor_y ctx * cols ctx))
                        (old_cursor_x ctx) (old_cursor_y ctx) ctx
                      else ctx
                 else ctx);
          ctx = ctx\<lparr>old_cursor_x := cursor_x ctx, old_cursor_y := cursor_y ctx, queue_i := 0\<rparr>
      in notify_flush ctx)"

text \<open>The place of a pixel of the canvas on the screen, for the four rotations.\<close>

definition rotate_pixel :: "'z fb_context_scheme \<Rightarrow> u64 \<Rightarrow> u64 \<Rightarrow> u64 \<times> u64" where
  "rotate_pixel ctx x y =
     (if rotation ctx = 1 then (fb_height ctx - 1 - y, x)
      else if rotation ctx = 2 then (fb_width ctx - 1 - x, fb_height ctx - 1 - y)
      else if rotation ctx = 3 then (y, fb_width ctx - 1 - x)
      else (x, y))"

definition fill_background :: "'z fb_context_scheme \<Rightarrow> 'z fb_context_scheme" where
  "fill_background ctx =
     ctx\<lparr>pixels := fold (\<lambda>y buf. fold (\<lambda>x buf.
        let (px, py) = rotate_pixel ctx (of_nat x) (of_nat y)
        in buf(framebuffer ctx + 4 * (py * (pitch ctx div 4) + px) :=
             case canvas ctx of Some cv \<Rightarrow> cv (of_nat y * fb_width ctx + of_nat x) | None \<Rightarrow> default_bg ctx))
        [0..<unat (fb_width ctx)] buf) [0..<unat (fb_height ctx)] (pixels ctx)\<rparr>"

definition flanterm_fb_full_refresh :: "'z fb_context_scheme \<Rightarrow> 'z fb_context_scheme" where
  "flanterm_fb_full_refresh ctx =
     (let ctx = fill_background ctx;
          ctx = fold (\<lambda>i ctx. plot_char (grid ctx ! i) (of_nat i mod cols ctx) (of_nat i div cols ctx) ctx)
            [0..<unat (rows ctx * cols ctx)] ctx;
          ctx = (if cursor_enabled ctx then draw_cursor ctx else ctx)
      in notify_flush ctx)"

end
