(* ===== verification/Screen_Cells.thy ===== *)
theory Screen_Cells
  imports Fb_Screen
begin

text \<open>
  What the character operations of the back end do to the screen as lines of characters: the
  invariant of grid, queue and map, the contract of a store of cells (\<open>cell_store\<close>) with the
  facts about filling and moving cells that follow from it, and the refinement of scrolling,
  clearing and moving to operations on lists of lines.
\<close>

subsection \<open>A store of cells\<close>

locale cell_store =
  fixes ok :: "'s \<Rightarrow> bool" and ncells :: "'s \<Rightarrow> nat" and cell :: "nat \<Rightarrow> 's \<Rightarrow> 'c" and put :: "nat \<Rightarrow> 'c \<Rightarrow> 's \<Rightarrow> 's"
  assumes put_ok: "ok s \<Longrightarrow> i < ncells s \<Longrightarrow> ok (put i c s)"
    and put_ncells: "ok s \<Longrightarrow> i < ncells s \<Longrightarrow> ncells (put i c s) = ncells s"
    and cell_put: "ok s \<Longrightarrow> i < ncells s \<Longrightarrow> j < ncells s \<Longrightarrow> cell j (put i c s) = (if j = i then c else cell j s)"
begin

definition stored :: "'s \<Rightarrow> 's \<Rightarrow> (nat \<Rightarrow> 'c) \<Rightarrow> bool" where
  "stored s t f \<longleftrightarrow> ok t \<and> ncells t = ncells s \<and> (\<forall>j<ncells s. cell j t = f j)"

lemma stored_put:
  assumes "stored s t f" and "i < ncells s"
  shows "stored s (put i c t) (f(i := c))"
  using assms by (auto simp: stored_def put_ok put_ncells cell_put)

lemma stored_mono: "stored s t f \<Longrightarrow> (\<And>j. j < ncells s \<Longrightarrow> f j = g j) \<Longrightarrow> stored s t g"
  by (simp add: stored_def)

lemma stored_refl: "ok s \<Longrightarrow> stored s s (\<lambda>j. cell j s)"
  by (simp add: stored_def)

lemma fill_cells:
  assumes "stored s t f" and "\<forall>i\<in>set xs. i < ncells s"
  shows "stored s (fold (\<lambda>i. put i c) xs t) (\<lambda>j. if j \<in> set xs then c else f j)"
  using assms
proof (induction xs arbitrary: t f)
  case Nil
  then show ?case by (simp add: stored_def)
next
  case (Cons i xs)
  have "stored s (put i c t) (f(i := c))" using Cons.prems by (intro stored_put) simp_all
  from Cons.IH [OF this] Cons.prems(2) have "stored s (fold (\<lambda>i. put i c) xs (put i c t)) (\<lambda>j. if j \<in> set xs then c else (f(i := c)) j)"
    by simp
  then show ?case by (auto intro: stored_mono)
qed

lemma move_down_cells:
  assumes "ok s" and "0 < d" and "d \<le> a" and "b \<le> ncells s"
  shows "stored s (fold (\<lambda>i s. put (i - d) (cell i s) s) [a..<b] s)
    (\<lambda>j. if a \<le> j + d \<and> j + d < b then cell (j + d) s else cell j s)"
  using assms(4)
proof (induction b)
  case 0
  then show ?case using assms(1) by (simp add: stored_refl)
next
  case (Suc b)
  show ?case
  proof (cases "a \<le> b")
    case True
    define t where "t = fold (\<lambda>i s. put (i - d) (cell i s) s) [a..<b] s"
    let ?f = "\<lambda>j. if a \<le> j + d \<and> j + d < b then cell (j + d) s else cell j s"
    have t: "stored s t ?f" using Suc by (simp add: t_def)
    then have c: "cell b t = cell b s" using Suc.prems assms(2) by (simp add: stored_def)
    have "stored s (put (b - d) (cell b t) t) (?f(b - d := cell b t))"
      using t Suc.prems by (intro stored_put) simp_all
    then have "stored s (put (b - d) (cell b t) t) (\<lambda>j. if a \<le> j + d \<and> j + d < Suc b then cell (j + d) s else cell j s)"
      by (rule stored_mono) (use True assms(3) c in \<open>auto simp: less_Suc_eq\<close>)
    then show ?thesis using True by (simp add: t_def)
  next
    case False
    then have "[a..<Suc b] = []" by simp
    moreover have "stored s s (\<lambda>j. if a \<le> j + d \<and> j + d < Suc b then cell (j + d) s else cell j s)"
      by (rule stored_mono [OF stored_refl [OF assms(1)]]) (use False in auto)
    ultimately show ?thesis by simp
  qed
qed

lemma move_up_cells:
  assumes "stored s0 s f" and "0 < d" and "b + d \<le> ncells s0"
  shows "stored s0 (fold (\<lambda>i s. put (i + d) (cell i s) s) (rev [a..<b]) s)
    (\<lambda>j. if a + d \<le> j \<and> j < b + d then f (j - d) else f j)"
  using assms(1,3)
proof (induction b arbitrary: s f)
  case 0
  show ?case by simp (rule stored_mono [OF 0(1)], auto)
next
  case (Suc b)
  show ?case
  proof (cases "a \<le> b")
    case True
    have c: "cell b s = f b" using Suc.prems by (simp add: stored_def)
    have "stored s0 (put (b + d) (cell b s) s) (f(b + d := cell b s))"
      using Suc.prems by (intro stored_put) simp_all
    from Suc.IH [OF this] Suc.prems(2)
    have "stored s0 (fold (\<lambda>i s. put (i + d) (cell i s) s) (rev [a..<b]) (put (b + d) (cell b s) s))
      (\<lambda>j. if a + d \<le> j \<and> j < b + d then (f(b + d := cell b s)) (j - d) else (f(b + d := cell b s)) j)"
      by simp
    then have "stored s0 (fold (\<lambda>i s. put (i + d) (cell i s) s) (rev [a..<b]) (put (b + d) (cell b s) s))
      (\<lambda>j. if a + d \<le> j \<and> j < Suc b + d then f (j - d) else f j)"
      by (rule stored_mono) (use True assms(2) c in \<open>auto simp: less_Suc_eq\<close>)
    then show ?thesis using True by simp
  next
    case False
    then have "[a..<Suc b] = []" by simp
    moreover have "stored s0 s (\<lambda>j. if a + d \<le> j \<and> j < Suc b + d then f (j - d) else f j)"
      by (rule stored_mono [OF Suc.prems(1)]) (use False in auto)
    ultimately show ?thesis by simp
  qed
qed

end

subsection \<open>The invariant of grid, queue and map\<close>

definition cells :: "'z fb_context_scheme \<Rightarrow> nat" where
  "cells ctx = unat (rows ctx) * unat (cols ctx)"

definition item_cell :: "nat \<Rightarrow> 'z fb_context_scheme \<Rightarrow> nat" where
  "item_cell k ctx = unat (qi_y (queue ctx ! k) * cols ctx + qi_x (queue ctx ! k))"

definition screen_sized :: "'z fb_context_scheme \<Rightarrow> bool" where
  "screen_sized ctx \<longleftrightarrow> cells ctx < 2 ^ 64 \<and> length (grid ctx) = cells ctx \<and> length (fb_map ctx) = cells ctx \<and>
     length (queue ctx) = cells ctx \<and> unat (queue_i ctx) \<le> cells ctx \<and>
     (\<forall>k < unat (queue_i ctx). qi_x (queue ctx ! k) < cols ctx \<and> qi_y (queue ctx ! k) < rows ctx)"

definition queue_ok :: "'z fb_context_scheme \<Rightarrow> bool" where
  "queue_ok ctx \<longleftrightarrow> screen_sized ctx \<and>
     (\<forall>k < unat (queue_i ctx). fb_map ctx ! item_cell k ctx = Some k) \<and>
     (\<forall>i < cells ctx. \<forall>k. fb_map ctx ! i = Some k \<longrightarrow> k < unat (queue_i ctx) \<and> item_cell k ctx = i)"

lemma compare_char_iff [simp]: "compare_char a b \<longleftrightarrow> a = b"
  by (cases a; cases b) (auto simp: compare_char_def)

lemma cell_index:
  assumes "x < cols ctx" and "y < rows ctx" and "cells ctx < 2 ^ 64"
  shows "unat (y * cols ctx + x) = unat y * unat (cols ctx) + unat x" (is ?eq)
    and "unat y * unat (cols ctx) + unat x < cells ctx" (is ?lt)
proof -
  have "unat y * unat (cols ctx) + unat x < (unat y + 1) * unat (cols ctx)"
    using assms(1) by (simp add: word_less_nat_alt)
  also have "\<dots> \<le> cells ctx"
    unfolding cells_def using assms(2) by (intro mult_right_mono) (simp_all add: word_less_nat_alt)
  finally show ?lt .
  with assms(3) show ?eq by (simp add: unat_word_ariths)
qed

lemma item_cell_less:
  assumes "screen_sized ctx" and "k < unat (queue_i ctx)"
  shows "item_cell k ctx < cells ctx"
  using cell_index [of "qi_x (queue ctx ! k)" ctx "qi_y (queue ctx ! k)"] assms
  by (auto simp: item_cell_def screen_sized_def)

text \<open>Every queued item belongs to a cell of its own, so the queue has room for a further cell: the
  full queue never makes \<open>push_to_queue\<close> drop a character.\<close>

lemma queue_has_room:
  assumes "queue_ok ctx" and "i < cells ctx" and "fb_map ctx ! i = None"
  shows "unat (queue_i ctx) < cells ctx"
proof -
  have "inj_on (\<lambda>k. item_cell k ctx) {..<unat (queue_i ctx)}"
    using assms(1) by (intro inj_onI) (metis lessThan_iff option.inject queue_ok_def)
  moreover have "(\<lambda>k. item_cell k ctx) ` {..<unat (queue_i ctx)} \<subseteq> {..<cells ctx} - {i}"
    using assms by (auto simp: queue_ok_def item_cell_less)
  ultimately have "card {..<unat (queue_i ctx)} \<le> card ({..<cells ctx} - {i})"
    by (intro card_inj_on_le) auto
  then show ?thesis using assms(2) by simp
qed

text \<open>What \<open>push_to_queue\<close> and the operations built from it can change.\<close>

definition only_queue :: "'z fb_context_scheme \<Rightarrow> 'z fb_context_scheme \<Rightarrow> bool" where
  "only_queue s t \<longleftrightarrow> t = s\<lparr>queue := queue t, queue_i := queue_i t, fb_map := fb_map t\<rparr>"

lemma only_queue_refl [simp]: "only_queue s s"
  by (simp add: only_queue_def)

lemma only_queue_trans:
  assumes "only_queue s t" and "only_queue t u"
  shows "only_queue s u"
proof -
  have "t\<lparr>queue := q, queue_i := n, fb_map := m\<rparr> = s\<lparr>queue := q, queue_i := n, fb_map := m\<rparr>" for q n m
    using arg_cong [OF assms(1) [unfolded only_queue_def], of "\<lambda>t. t\<lparr>queue := q, queue_i := n, fb_map := m\<rparr>"] by simp
  with assms(2) show ?thesis by (simp add: only_queue_def)
qed

lemma only_queue_fold: "(\<And>x s. only_queue s (f x s)) \<Longrightarrow> only_queue s (fold f xs s)"
  by (induction xs arbitrary: s) (auto intro: only_queue_trans)

lemma only_queue_push [simp]: "only_queue ctx (push_to_queue c x y ctx)"
  by (simp add: push_to_queue_def only_queue_def Let_def split: option.split)

lemma only_queue_fields:
  assumes "only_queue s t"
  shows "rows t = rows s" "cols t = cols s" "grid t = grid s" "text_fg t = text_fg s" "text_bg t = text_bg s"
    "scroll_top_margin t = scroll_top_margin s" "scroll_bottom_margin t = scroll_bottom_margin s"
    "cursor_x t = cursor_x s" "cursor_y t = cursor_y s" "pixels t = pixels s" "cells t = cells s"
    "ft_context.truncate t = ft_context.truncate s"
  by (subst assms [unfolded only_queue_def], simp add: cells_def ft_context.defs)+

subsection \<open>Pushing a character\<close>

lemma push_ok:
  fixes c :: fb_char
  assumes ok: "queue_ok ctx" and x: "x < cols ctx" and y: "y < rows ctx"
    and ctx'_def: "ctx' = push_to_queue c x y ctx" and i_def: "i = unat y * unat (cols ctx) + unat x"
  shows "queue_ok ctx' \<and> (\<forall>j < cells ctx. char_at j ctx' = (if j = i then c else char_at j ctx))"
proof -
  have sz: "cells ctx < 2 ^ 64" "length (grid ctx) = cells ctx" "length (fb_map ctx) = cells ctx"
    "length (queue ctx) = cells ctx"
    using ok by (simp_all add: queue_ok_def screen_sized_def)
  note ci = cell_index [OF x y sz(1), folded i_def]
  show ?thesis
  proof (cases "fb_map ctx ! i")
    case (Some k)
    then have k: "k < unat (queue_i ctx)" "item_cell k ctx = i"
      using ok ci by (auto simp: queue_ok_def)
    then have kl: "k < cells ctx" using ok by (simp add: queue_ok_def screen_sized_def)
    have ctx': "ctx' = ctx\<lparr>queue := (queue ctx)[k := (queue ctx ! k)\<lparr>qi_c := c\<rparr>]\<rparr>"
      using x y Some ci by (simp add: ctx'_def push_to_queue_def not_le)
    have item: "item_cell n ctx' = item_cell n ctx" for n
      using kl sz by (cases "n = k") (simp_all add: ctx' item_cell_def)
    have "qi_x (queue ctx' ! n) = qi_x (queue ctx ! n)" "qi_y (queue ctx' ! n) = qi_y (queue ctx ! n)" for n
      using kl sz by (cases "n = k"; simp add: ctx')+
    with item have "queue_ok ctx'" using ok by (simp add: queue_ok_def screen_sized_def ctx' cells_def)
    moreover have "char_at j ctx' = (if j = i then c else char_at j ctx)" if "j < cells ctx" for j
      using that ok Some kl sz k unfolding char_at_def ctx'
      by (auto simp: queue_ok_def nth_list_update split: option.split)
    ultimately show ?thesis by simp
  next
    case None
    show ?thesis
    proof (cases "grid ctx ! i = c")
      case True
      then have "ctx' = ctx" using x y None ci by (simp add: ctx'_def push_to_queue_def not_le)
      then show ?thesis using ok True None by (auto simp: char_at_def)
    next
      case False
      define k where "k = unat (queue_i ctx)"
      have kl: "k < cells ctx" using queue_has_room [OF ok ci(2) None] by (simp add: k_def)
      have "queue_i ctx \<noteq> rows ctx * cols ctx"
      proof
        assume "queue_i ctx = rows ctx * cols ctx"
        then have "k = cells ctx" using sz(1) by (simp add: k_def cells_def unat_word_ariths)
        with kl show False by simp
      qed
      then have ctx': "ctx' = ctx\<lparr>queue := (queue ctx)[k := \<lparr>qi_x = x, qi_y = y, qi_c = c\<rparr>],
          fb_map := (fb_map ctx)[i := Some k], queue_i := queue_i ctx + 1\<rparr>"
        using x y None ci False by (simp add: ctx'_def push_to_queue_def not_le k_def)
      have qi: "unat (queue_i ctx') = Suc k"
        using kl sz(1) by (simp add: ctx' k_def unat_word_ariths)
      have new: "item_cell k ctx' = i" using kl sz ci by (simp add: ctx' item_cell_def)
      have item: "item_cell n ctx' = item_cell n ctx" if "n \<noteq> k" for n
        using that by (simp add: ctx' item_cell_def)
      have same: "queue ctx' ! n = queue ctx ! n" if "n \<noteq> k" for n using that by (simp add: ctx')
      have at_k: "queue ctx' ! k = \<lparr>qi_x = x, qi_y = y, qi_c = c\<rparr>" using kl sz by (simp add: ctx')
      have cells: "cells ctx' = cells ctx" "rows ctx' = rows ctx" "cols ctx' = cols ctx" by (simp_all add: ctx' cells_def)
      have "screen_sized ctx'"
        unfolding screen_sized_def cells qi using ok kl sz x y at_k same
        by (auto simp: queue_ok_def screen_sized_def less_Suc_eq ctx' simp flip: k_def)
      moreover have "fb_map ctx' ! item_cell n ctx' = Some n" if "n < Suc k" for n
      proof (cases "n = k")
        case True then show ?thesis using new ci sz by (simp add: ctx')
      next
        case False
        then have "n < unat (queue_i ctx)" using that by (simp add: k_def)
        then have "fb_map ctx ! item_cell n ctx = Some n" using ok by (simp add: queue_ok_def)
        moreover from this None have "item_cell n ctx \<noteq> i" by auto
        ultimately show ?thesis using item [OF False] by (simp add: ctx')
      qed
      moreover have "n < Suc k \<and> item_cell n ctx' = j" if "j < cells ctx" "fb_map ctx' ! j = Some n" for j n
      proof (cases "j = i")
        case True then show ?thesis using that ci sz new by (simp add: ctx')
      next
        case False
        then have "fb_map ctx ! j = Some n" using that by (simp add: ctx')
        then have "n < k" "item_cell n ctx = j" using ok that(1) by (auto simp: queue_ok_def k_def)
        then show ?thesis using item [of n] by simp
      qed
      ultimately have "queue_ok ctx'" unfolding queue_ok_def qi cells by blast
      moreover have "char_at j ctx' = (if j = i then c else char_at j ctx)" if "j < cells ctx" for j
      proof (cases "j = i")
        case True then show ?thesis using ci sz at_k by (simp add: char_at_def ctx' kl)
      next
        case False
        have "n \<noteq> k" if "fb_map ctx ! j = Some n" for n
          using ok that \<open>j < cells ctx\<close> by (auto simp: queue_ok_def k_def)
        then show ?thesis using False by (auto simp: char_at_def ctx' split: option.split)
      qed
      ultimately show ?thesis by simp
    qed
  qed
qed

lemma unat_64: "unat (w :: u64) < 2 ^ 64"
  using unsigned_less [of w] by simp

lemma of_nat_below: "i < unat (w :: u64) \<Longrightarrow> unat (of_nat i :: u64) = i"
  using unat_64 [of w] by (simp add: unat_of_nat)

definition put_cell :: "nat \<Rightarrow> fb_char \<Rightarrow> 'z fb_context_scheme \<Rightarrow> 'z fb_context_scheme" where
  "put_cell i c ctx = push_to_queue c (of_nat (i mod unat (cols ctx))) (of_nat (i div unat (cols ctx))) ctx"

lemma cell_coordinates:
  assumes "i < cells ctx" and "cells ctx < 2 ^ 64"
  shows "of_nat (i mod unat (cols ctx)) < cols ctx" "of_nat (i div unat (cols ctx)) < rows ctx"
    "unat (of_nat (i mod unat (cols ctx)) :: u64) = i mod unat (cols ctx)"
    "unat (of_nat (i div unat (cols ctx)) :: u64) = i div unat (cols ctx)"
    "0 < unat (cols ctx)"
proof -
  show pos: "0 < unat (cols ctx)" using assms(1) by (auto simp: cells_def intro: gr0I)
  have m: "i mod unat (cols ctx) < unat (cols ctx)" using pos by simp
  have d: "i div unat (cols ctx) < unat (rows ctx)"
    using assms(1) by (simp add: cells_def less_mult_imp_div_less)
  show um: "unat (of_nat (i mod unat (cols ctx)) :: u64) = i mod unat (cols ctx)"
    using m by (rule of_nat_below)
  show ud: "unat (of_nat (i div unat (cols ctx)) :: u64) = i div unat (cols ctx)"
    using d by (rule of_nat_below)
  show "of_nat (i mod unat (cols ctx)) < cols ctx" using m um by (simp add: word_less_nat_alt)
  show "of_nat (i div unat (cols ctx)) < rows ctx" using d ud by (simp add: word_less_nat_alt)
qed

lemma only_queue_put [simp]: "only_queue ctx (put_cell i c ctx)"
  by (simp add: put_cell_def)

interpretation cs: cell_store queue_ok cells char_at put_cell
proof
  fix s :: "'a fb_context_scheme" and i j c
  assume ok: "queue_ok s" and i: "i < cells s"
  then have n: "cells s < 2 ^ 64" by (simp add: queue_ok_def screen_sized_def)
  note co = cell_coordinates [OF i n]
  have "queue_ok (put_cell i c s) \<and> (\<forall>j < cells s. char_at j (put_cell i c s) = (if j = i then c else char_at j s))"
    using push_ok [OF ok co(1,2) refl refl, of c] co(3,4) by (simp add: put_cell_def)
  then show "queue_ok (put_cell i c s)"
    and "j < cells s \<Longrightarrow> char_at j (put_cell i c s) = (if j = i then c else char_at j s)" by auto
  show "cells (put_cell i c s) = cells s" by (rule only_queue_fields) simp
qed

subsection \<open>The loops as loops over cells\<close>

lemma fold_cong_invariant:
  assumes "P s" and "\<And>x s. P s \<Longrightarrow> x \<in> set xs \<Longrightarrow> f x s = g x s \<and> P (g x s)"
  shows "fold f xs s = fold g xs s \<and> P (fold g xs s)"
  using assms by (induction xs arbitrary: s) auto

lemma push_put:
  assumes "x < cols ctx"
  shows "push_to_queue c x y ctx = put_cell (unat y * unat (cols ctx) + unat x) c ctx"
  using assms by (simp add: put_cell_def word_less_nat_alt)

lemma clear_line_cells:
  "clear_line y ctx = fold (\<lambda>i. put_cell i (empty_char ctx)) (map ((+) (unat y * unat (cols ctx))) [0..<unat (cols ctx)]) ctx"
proof -
  have "fold (\<lambda>i. push_to_queue e (of_nat i) y) xs s = fold (\<lambda>i. put_cell i e) (map ((+) (unat y * unat (cols ctx))) xs) s"
    if "set xs \<subseteq> {..<unat (cols ctx)}" "cols s = cols ctx" for xs e s
    using that
  proof (induction xs arbitrary: s)
    case (Cons i xs)
    have i: "i < unat (cols ctx)" using Cons.prems by simp
    then have u: "unat (of_nat i :: u64) = i" by (rule of_nat_below)
    then have "push_to_queue e (of_nat i) y s = put_cell (unat y * unat (cols ctx) + i) e s"
      using push_put [of "of_nat i" s e y] i Cons.prems(2) by (simp add: word_less_nat_alt)
    moreover have "cols (put_cell n e s) = cols ctx" for n
      using Cons.prems(2) only_queue_fields(2) [OF only_queue_put] by metis
    ultimately show ?case using Cons by simp
  qed simp
  from this [of "[0..<unat (cols ctx)]" ctx "empty_char ctx"] show ?thesis
    by (simp add: clear_line_def Let_def lessThan_atLeast0)
qed

lemma only_queue_clear_line [simp]: "only_queue ctx (clear_line y ctx)"
  by (simp add: clear_line_def only_queue_fold)

lemma clear_line_stored:
  assumes "cs.stored s t f" and "unat y < unat (rows t)"
  shows "cs.stored s (clear_line y t)
    (\<lambda>j. if unat y * unat (cols t) \<le> j \<and> j < (unat y + 1) * unat (cols t) then empty_char t else f j)"
proof -
  have n: "cells t = cells s" using assms(1) by (simp add: cs.stored_def)
  have "(unat y + 1) * unat (cols t) \<le> cells t"
    unfolding cells_def using assms(2) by (intro mult_right_mono) simp_all
  then have "\<forall>i\<in>set (map ((+) (unat y * unat (cols t))) [0..<unat (cols t)]). i < cells s"
    using n by auto
  from cs.fill_cells [OF assms(1) this, of "empty_char t"] show ?thesis
    unfolding clear_line_cells [symmetric]
    by (rule cs.stored_mono) (simp add: image_add_atLeastLessThan add.commute mult.commute)
qed

lemma push_cell: "push_to_queue c (n mod cols ctx) (n div cols ctx) ctx = put_cell (unat n) c ctx"
  by (simp add: put_cell_def flip: unat_mod_distrib unat_div_distrib)

lemma of_nat_minus_unat: "unat w \<le> i \<Longrightarrow> i < 2 ^ 64 \<Longrightarrow> unat (of_nat i - w :: u64) = i - unat w"
  by (simp add: unat_sub_if' unat_of_nat)

lemma of_nat_plus_unat: "i + unat w < 2 ^ 64 \<Longrightarrow> unat (of_nat i + w :: u64) = i + unat w"
  by (simp add: unat_word_ariths unat_of_nat)

lemma fold_push_put:
  assumes "\<And>i s. i \<in> set xs \<Longrightarrow> cols s = cols ctx \<Longrightarrow> f i s = put_cell (h i) (g i s) s"
  shows "fold f xs ctx = fold (\<lambda>i s. put_cell (h i) (g i s) s) xs ctx" and "only_queue ctx (fold f xs ctx)"
proof -
  have "fold f xs ctx = fold (\<lambda>i s. put_cell (h i) (g i s) s) xs ctx \<and>
      only_queue ctx (fold (\<lambda>i s. put_cell (h i) (g i s) s) xs ctx)"
    by (rule fold_cong_invariant)
      (auto simp: assms only_queue_fields(2) intro: only_queue_trans [OF _ only_queue_put])
  then show "fold f xs ctx = fold (\<lambda>i s. put_cell (h i) (g i s) s) xs ctx" "only_queue ctx (fold f xs ctx)" by simp_all
qed

text \<open>A scrolling region inside the screen.\<close>

definition region_ok :: "'z fb_context_scheme \<Rightarrow> bool" where
  "region_ok ctx \<longleftrightarrow> queue_ok ctx \<and> 0 < cols ctx \<and>
     scroll_top_margin ctx < scroll_bottom_margin ctx \<and> scroll_bottom_margin ctx \<le> rows ctx"

lemma region_bounds:
  assumes "region_ok ctx"
  defines "T \<equiv> unat (scroll_top_margin ctx)" and "B \<equiv> unat (scroll_bottom_margin ctx)" and "C \<equiv> unat (cols ctx)"
  shows "T < B" "B * C \<le> cells ctx" "0 < C" "cells ctx < 2 ^ 64" "B \<le> unat (rows ctx)"
    "unat ((scroll_top_margin ctx + 1) * cols ctx) = (T + 1) * C"
    "unat (scroll_bottom_margin ctx * cols ctx) = B * C"
    "unat (scroll_top_margin ctx * cols ctx) = T * C"
    "unat ((scroll_bottom_margin ctx - 1) * cols ctx) = (B - 1) * C"
    "unat (scroll_bottom_margin ctx - 1) = B - 1"
proof -
  show tb: "T < B" and c: "0 < C" and n: "cells ctx < 2 ^ 64" and b: "B \<le> unat (rows ctx)"
    using assms(1) by (auto simp: region_ok_def T_def B_def C_def word_less_nat_alt word_le_nat_alt queue_ok_def screen_sized_def)
  show bc: "B * C \<le> cells ctx" unfolding cells_def C_def using b by (intro mult_right_mono) simp_all
  have small: "k * C < 2 ^ 64" if "k \<le> B" for k
    using mult_le_mono1 [OF that, of C] bc n by linarith
  have t1: "unat (scroll_top_margin ctx + 1) = T + 1"
    using tb unat_64 [of "scroll_bottom_margin ctx"] by (simp add: T_def B_def unat_word_ariths)
  show b1: "unat (scroll_bottom_margin ctx - 1) = B - 1"
    using tb by (simp add: B_def unat_sub_if')
  show "unat ((scroll_top_margin ctx + 1) * cols ctx) = (T + 1) * C"
    using small [of "T + 1"] tb by (subst unat_word_ariths) (simp add: t1 C_def)
  show "unat (scroll_bottom_margin ctx * cols ctx) = B * C"
    using small [of B] by (subst unat_word_ariths) (simp add: B_def C_def)
  show "unat (scroll_top_margin ctx * cols ctx) = T * C"
    using small [of T] tb by (subst unat_word_ariths) (simp add: T_def C_def)
  show "unat ((scroll_bottom_margin ctx - 1) * cols ctx) = (B - 1) * C"
    using small [of "B - 1"] tb by (subst unat_word_ariths) (simp add: b1 C_def)
qed

lemma scroll_cells:
  assumes "region_ok ctx"
  defines "T \<equiv> unat (scroll_top_margin ctx)" and "B \<equiv> unat (scroll_bottom_margin ctx)" and "C \<equiv> unat (cols ctx)"
  shows "only_queue ctx (flanterm_fb_scroll ctx)"
    and "cs.stored ctx (flanterm_fb_scroll ctx) (\<lambda>j. if (B - 1) * C \<le> j \<and> j < B * C then empty_char ctx
      else if T * C \<le> j \<and> j < (B - 1) * C then char_at (j + C) ctx else char_at j ctx)"
proof -
  note r = region_bounds [OF assms(1), folded T_def B_def C_def]
  have ok: "queue_ok ctx" using assms(1) by (simp add: region_ok_def)
  let ?xs = "[(T + 1) * C..<B * C]"
  let ?f = "\<lambda>i ctx. push_to_queue (char_at i ctx) ((of_nat i - cols ctx) mod cols ctx) ((of_nat i - cols ctx) div cols ctx) ctx"
  have step: "?f i s = put_cell (i - C) (char_at i s) s" if "i \<in> set ?xs" "cols s = cols ctx" for i and s :: "'a fb_context_scheme"
    using that r(2,4) of_nat_minus_unat [of "cols ctx" i] push_cell [of "char_at i s" "of_nat i - cols ctx" s]
    by (simp add: C_def)
  define t where "t = fold ?f ?xs ctx"
  have t: "t = fold (\<lambda>i s. put_cell (i - C) (char_at i s) s) ?xs ctx" "only_queue ctx t"
    unfolding t_def using fold_push_put [of ?xs ctx ?f "\<lambda>i. i - C" char_at] step by blast+
  have s: "flanterm_fb_scroll ctx = clear_line (scroll_bottom_margin ctx - 1) t"
    using only_queue_fields(7) [OF t(2)] by (simp add: flanterm_fb_scroll_def Let_def r(6,7) t_def)
  show "only_queue ctx (flanterm_fb_scroll ctx)"
    unfolding s by (rule only_queue_trans [OF t(2)]) simp
  have "cs.stored ctx t (\<lambda>j. if (T + 1) * C \<le> j + C \<and> j + C < B * C then char_at (j + C) ctx else char_at j ctx)"
    unfolding t(1) using cs.move_down_cells [OF ok r(3), of "(T + 1) * C" "B * C"] r(2) by simp
  from clear_line_stored [OF this, of "scroll_bottom_margin ctx - 1"]
  have "cs.stored ctx (flanterm_fb_scroll ctx) (\<lambda>j. if (B - 1) * C \<le> j \<and> j < (B - 1 + 1) * C then empty_char t
      else if (T + 1) * C \<le> j + C \<and> j + C < B * C then char_at (j + C) ctx else char_at j ctx)"
    using r(1,5,10) by (simp add: s C_def [symmetric] only_queue_fields [OF t(2)])
  moreover have "empty_char t = empty_char ctx" by (simp add: empty_char_def only_queue_fields [OF t(2)])
  moreover have "(B - 1) * C = B * C - C" by (simp add: diff_mult_distrib)
  ultimately show "cs.stored ctx (flanterm_fb_scroll ctx) (\<lambda>j. if (B - 1) * C \<le> j \<and> j < B * C then empty_char ctx
      else if T * C \<le> j \<and> j < (B - 1) * C then char_at (j + C) ctx else char_at j ctx)"
    using r(1) by (elim cs.stored_mono) auto
qed

lemma revscroll_cells:
  assumes "region_ok ctx"
  defines "T \<equiv> unat (scroll_top_margin ctx)" and "B \<equiv> unat (scroll_bottom_margin ctx)" and "C \<equiv> unat (cols ctx)"
  shows "only_queue ctx (flanterm_fb_revscroll ctx)"
    and "cs.stored ctx (flanterm_fb_revscroll ctx) (\<lambda>j. if T * C \<le> j \<and> j < (T + 1) * C then empty_char ctx
      else if (T + 1) * C \<le> j \<and> j < B * C then char_at (j - C) ctx else char_at j ctx)"
proof -
  note r = region_bounds [OF assms(1), folded T_def B_def C_def]
  have ok: "queue_ok ctx" using assms(1) by (simp add: region_ok_def)
  have bc: "(B - 1) * C + C = B * C" using r(1) by (simp add: diff_mult_distrib)
  let ?xs = "rev [T * C..<(B - 1) * C]"
  let ?f = "\<lambda>i ctx. push_to_queue (char_at i ctx) ((of_nat i + cols ctx) mod cols ctx) ((of_nat i + cols ctx) div cols ctx) ctx"
  have step: "?f i s = put_cell (i + C) (char_at i s) s" if "i \<in> set ?xs" "cols s = cols ctx" for i and s :: "'a fb_context_scheme"
    using that r(2,4) bc of_nat_plus_unat [of i "cols ctx"] push_cell [of "char_at i s" "of_nat i + cols ctx" s]
    by (simp add: C_def)
  define t where "t = fold ?f ?xs ctx"
  have t: "t = fold (\<lambda>i s. put_cell (i + C) (char_at i s) s) ?xs ctx" "only_queue ctx t"
    unfolding t_def using fold_push_put [of ?xs ctx ?f "\<lambda>i. i + C" char_at] step by blast+
  have s: "flanterm_fb_revscroll ctx = clear_line (scroll_top_margin ctx) t"
    using only_queue_fields(6) [OF t(2)] by (simp add: flanterm_fb_revscroll_def Let_def r(8,9) t_def)
  show "only_queue ctx (flanterm_fb_revscroll ctx)"
    unfolding s by (rule only_queue_trans [OF t(2)]) simp
  have "cs.stored ctx t (\<lambda>j. if T * C + C \<le> j \<and> j < (B - 1) * C + C then char_at (j - C) ctx else char_at j ctx)"
    unfolding t(1) using cs.move_up_cells [OF cs.stored_refl [OF ok] r(3), of "(B - 1) * C" "T * C"] r(2) bc by simp
  from clear_line_stored [OF this, of "scroll_top_margin ctx"]
  have "cs.stored ctx (flanterm_fb_revscroll ctx) (\<lambda>j. if T * C \<le> j \<and> j < (T + 1) * C then empty_char t
      else if T * C + C \<le> j \<and> j < (B - 1) * C + C then char_at (j - C) ctx else char_at j ctx)"
    using r(1,5) by (simp add: s T_def [symmetric] C_def [symmetric] only_queue_fields [OF t(2)])
  moreover have "empty_char t = empty_char ctx" by (simp add: empty_char_def only_queue_fields [OF t(2)])
  ultimately show "cs.stored ctx (flanterm_fb_revscroll ctx) (\<lambda>j. if T * C \<le> j \<and> j < (T + 1) * C then empty_char ctx
      else if (T + 1) * C \<le> j \<and> j < B * C then char_at (j - C) ctx else char_at j ctx)"
    using bc by (elim cs.stored_mono) auto
qed

lemma clear_cells:
  assumes "queue_ok ctx"
  shows "only_queue ctx (flanterm_fb_clear False ctx)"
    and "cs.stored ctx (flanterm_fb_clear False ctx) (\<lambda>_. empty_char ctx)"
    and "flanterm_fb_clear True ctx = (flanterm_fb_clear False ctx)\<lparr>cursor_x := 0, cursor_y := 0\<rparr>"
proof -
  let ?f = "\<lambda>i. push_to_queue (empty_char ctx)"
  have n: "unat (rows ctx * cols ctx) = cells ctx"
    using assms by (simp add: queue_ok_def screen_sized_def cells_def unat_word_ariths)
  have small: "cells ctx < 2 ^ 64" using assms by (simp add: queue_ok_def screen_sized_def)
  let ?g = "\<lambda>i s. push_to_queue (empty_char ctx) (of_nat i mod cols s) (of_nat i div cols s) s"
  have step: "?g i s = put_cell i (empty_char ctx) s" if "i \<in> set [0..<cells ctx]" for i and s :: "'a fb_context_scheme"
    using that small push_cell [of "empty_char ctx" "of_nat i" s] by (simp add: unat_of_nat)
  have e: "flanterm_fb_clear False ctx = fold ?g [0..<cells ctx] ctx"
    by (simp add: flanterm_fb_clear_def Let_def n)
  have f: "fold ?g [0..<cells ctx] ctx = fold (\<lambda>i s. put_cell i (empty_char ctx) s) [0..<cells ctx] ctx"
    "only_queue ctx (fold ?g [0..<cells ctx] ctx)"
    using fold_push_put [of "[0..<cells ctx]" ctx ?g "\<lambda>i. i" "\<lambda>_ _. empty_char ctx"] step by blast+
  show "only_queue ctx (flanterm_fb_clear False ctx)" using f(2) e by simp
  show "cs.stored ctx (flanterm_fb_clear False ctx) (\<lambda>_. empty_char ctx)"
    unfolding e f(1) by (rule cs.stored_mono [OF cs.fill_cells [OF cs.stored_refl [OF assms]]]) auto
  show "flanterm_fb_clear True ctx = (flanterm_fb_clear False ctx)\<lparr>cursor_x := 0, cursor_y := 0\<rparr>"
    by (simp add: flanterm_fb_clear_def Let_def)
qed

lemma move_cells:
  assumes "queue_ok ctx" and "new_x < cols ctx" "new_y < rows ctx" "old_x < cols ctx" "old_y < rows ctx"
  shows "only_queue ctx (flanterm_fb_move_character new_x new_y old_x old_y ctx)"
    and "cs.stored ctx (flanterm_fb_move_character new_x new_y old_x old_y ctx)
      ((\<lambda>j. char_at j ctx)(unat new_y * unat (cols ctx) + unat new_x :=
         char_at (unat old_y * unat (cols ctx) + unat old_x) ctx))"
proof -
  have n: "cells ctx < 2 ^ 64" using assms(1) by (simp add: queue_ok_def screen_sized_def)
  have m: "flanterm_fb_move_character new_x new_y old_x old_y ctx =
      put_cell (unat new_y * unat (cols ctx) + unat new_x) (char_at (unat old_y * unat (cols ctx) + unat old_x) ctx) ctx"
    using assms cell_index [OF assms(4,5) n] push_put [OF assms(2)]
    by (simp add: flanterm_fb_move_character_def not_le add.commute)
  show "only_queue ctx (flanterm_fb_move_character new_x new_y old_x old_y ctx)" unfolding m by simp
  show "cs.stored ctx (flanterm_fb_move_character new_x new_y old_x old_y ctx)
      ((\<lambda>j. char_at j ctx)(unat new_y * unat (cols ctx) + unat new_x :=
         char_at (unat old_y * unat (cols ctx) + unat old_x) ctx))"
    unfolding m by (rule cs.stored_put [OF cs.stored_refl [OF assms(1)] cell_index(2) [OF assms(2,3) n]])
qed

subsection \<open>The screen as lines\<close>

definition screen_line :: "nat \<Rightarrow> 'z fb_context_scheme \<Rightarrow> fb_char list" where
  "screen_line y ctx = map (\<lambda>x. char_at (y * unat (cols ctx) + x) ctx) [0..<unat (cols ctx)]"

definition screen_lines :: "'z fb_context_scheme \<Rightarrow> fb_char list list" where
  "screen_lines ctx = map (\<lambda>y. screen_line y ctx) [0..<unat (rows ctx)]"

definition blank_line :: "'z fb_context_scheme \<Rightarrow> fb_char list" where
  "blank_line ctx = replicate (unat (cols ctx)) (empty_char ctx)"

definition scroll_up :: "nat \<Rightarrow> nat \<Rightarrow> 'a \<Rightarrow> 'a list \<Rightarrow> 'a list" where
  "scroll_up lo hi blank ls = take lo ls @ take (hi - lo - 1) (drop (lo + 1) ls) @ [blank] @ drop hi ls"

definition scroll_down :: "nat \<Rightarrow> nat \<Rightarrow> 'a \<Rightarrow> 'a list \<Rightarrow> 'a list" where
  "scroll_down lo hi blank ls = take lo ls @ [blank] @ take (hi - lo - 1) (drop lo ls) @ drop hi ls"

lemma scroll_up_nth:
  assumes "lo < hi" and "hi \<le> length ls" and "y < length ls"
  shows "scroll_up lo hi blank ls ! y =
    (if y = hi - 1 then blank else if lo \<le> y \<and> y < hi - 1 then ls ! (y + 1) else ls ! y)"
  using assms unfolding scroll_up_def by (auto simp: nth_append nth_Cons split: nat.split intro!: arg_cong [where f = "(!) ls"])

lemma scroll_down_nth:
  assumes "lo < hi" and "hi \<le> length ls" and "y < length ls"
  shows "scroll_down lo hi blank ls ! y =
    (if y = lo then blank else if lo < y \<and> y < hi then ls ! (y - 1) else ls ! y)"
  using assms unfolding scroll_down_def by (auto simp: nth_append nth_Cons split: nat.split intro!: arg_cong [where f = "(!) ls"])

lemma scroll_length [simp]:
  assumes "lo < hi" and "hi \<le> length ls"
  shows "length (scroll_up lo hi blank ls) = length ls" "length (scroll_down lo hi blank ls) = length ls"
  using assms by (simp_all add: scroll_up_def scroll_down_def)

lemma cell_below:
  assumes "x < unat (cols ctx)" and "y < unat (rows ctx)"
  shows "y * unat (cols ctx) + x < cells ctx"
proof -
  have "y * unat (cols ctx) + x < (y + 1) * unat (cols ctx)" using assms by simp
  also have "\<dots> \<le> cells ctx" unfolding cells_def using assms by (intro mult_right_mono) simp_all
  finally show ?thesis .
qed

lemma stored_lines:
  assumes "cs.stored ctx t f" and "only_queue ctx t"
  shows "screen_lines t = map (\<lambda>y. map (\<lambda>x. f (y * unat (cols ctx) + x)) [0..<unat (cols ctx)]) [0..<unat (rows ctx)]"
  using assms(1)
  by (simp add: screen_lines_def screen_line_def cs.stored_def only_queue_fields [OF assms(2)] cell_below)

lemma screen_lines_simps [simp]:
  "length (screen_lines ctx) = unat (rows ctx)"
  "y < unat (rows ctx) \<Longrightarrow> screen_lines ctx ! y = screen_line y ctx"
  by (simp_all add: screen_lines_def)

lemma line_index:
  fixes k y C :: nat
  assumes "x < C"
  shows "k * C \<le> y * C + x \<longleftrightarrow> k \<le> y" "y * C + x < k * C \<longleftrightarrow> y < k"
    "C + k * C \<le> y * C + x \<longleftrightarrow> k < y" "y * C + x < C + k * C \<longleftrightarrow> y \<le> k"
    "k < y \<Longrightarrow> y * C + x - C = (y - 1) * C + x"
proof -
  have le: "k * C \<le> y * C + x" if "k \<le> y" for k using mult_le_mono1 [OF that, of C] by linarith
  have lt: "y * C + x < k * C" if "y < k" for k
  proof -
    have "(y + 1) * C \<le> k * C" using that by (intro mult_le_mono1) simp
    then show ?thesis using assms by simp
  qed
  show a: "k * C \<le> y * C + x \<longleftrightarrow> k \<le> y" "y * C + x < k * C \<longleftrightarrow> y < k" for k
    using le lt by (meson not_le)+
  show "C + k * C \<le> y * C + x \<longleftrightarrow> k < y" "y * C + x < C + k * C \<longleftrightarrow> y \<le> k"
    using a [of "Suc k"] by (simp_all add: Suc_le_eq less_Suc_eq_le)
  show "k < y \<Longrightarrow> y * C + x - C = (y - 1) * C + x" by (cases y) simp_all
qed

lemma cell_eq:
  fixes C :: nat
  assumes "x < C" and "x' < C"
  shows "y * C + x = y' * C + x' \<longleftrightarrow> y = y' \<and> x = x'"
proof
  assume e: "y * C + x = y' * C + x'"
  have "y = (y * C + x) div C" "y' = (y' * C + x') div C" using assms by simp_all
  with e show "y = y' \<and> x = x'" by simp
qed simp

subsection \<open>A screen of two lines of two characters\<close>

definition blank_char :: fb_char where
  "blank_char = \<lparr>fc_c = 0x20, fc_fg = 7, fc_bg = 0xffffffff\<rparr>"

text \<open>Characters of one pixel, all of them set, at address 0.\<close>

definition tiny_screen :: fb_context where
  "tiny_screen = \<lparr>tab_size = 8, autoflush = True, cursor_enabled = True, scroll_enabled = True, wrap_enabled = True,
     origin_mode = False, control_sequence = False, escape = False, osc = False, osc_escape = False, osc_buf_i = 0,
     osc_buf = replicate 256 0, rrr = False, discard_next = False, bold = False, bg_bold = False, reverse_video = False,
     dec_private = False, insert_mode = False, csi_unhandled = False, code_point = 0, unicode_remaining = 0, g_select = 0,
     charsets = [0, 1], current_charset = 0, escape_offset = 0, esc_values_i = 0, saved_cursor_x = 0, saved_cursor_y = 0,
     current_primary = - 1, current_bg = - 1, scroll_top_margin = 0, scroll_bottom_margin = 2, esc_values = replicate 16 0,
     last_printed_char = 0x20, last_was_graphic = False, saved_state_bold = False, saved_state_bg_bold = False,
     saved_state_reverse_video = False, saved_state_origin_mode = False, saved_state_wrap_enabled = True,
     saved_state_current_charset = 0, saved_state_charsets = [0, 1], saved_state_current_primary = - 1,
     saved_state_current_bg = - 1, saved_state_scroll_top_margin = 0, saved_state_scroll_bottom_margin = 2,
     rows = 2, cols = 2, has_callback = False, ft_events = [],
     plot_function = Unscaled_Uncanvas, has_flush_callback = False, flushes = [], font_width = 1, font_height = 1,
     glyph_width = 1, glyph_height = 1, font_scale_x = 1, font_scale_y = 1, offset_x = 0, offset_y = 0,
     framebuffer = 0, pixels = (\<lambda>_. 7), pitch = 8, fb_width = 2, fb_height = 2, phys_height = 2,
     red_mask_size = 8, red_mask_shift = 16, green_mask_size = 8, green_mask_shift = 8, blue_mask_size = 8, blue_mask_shift = 0,
     rotation = 0, font_bool = replicate 256 True, ansi_colours = [0, 1, 2, 3, 4, 5, 6, 7],
     ansi_bright_colours = [8, 9, 10, 11, 12, 13, 14, 15], default_fg = 7, default_bg = 0, default_fg_bright = 15,
     default_bg_bright = 8, canvas = None, grid = replicate 4 blank_char, queue = replicate 4 \<lparr>qi_x = 0, qi_y = 0, qi_c = blank_char\<rparr>,
     queue_i = 0, fb_map = replicate 4 None, text_fg = 7, text_bg = 0xffffffff, cursor_x = 0, cursor_y = 0,
     saved_state_text_fg = 7, saved_state_text_bg = 0xffffffff, saved_state_cursor_x = 0, saved_state_cursor_y = 0,
     old_cursor_x = 0, old_cursor_y = 0\<rparr>"

lemma tiny_screen_ok: "region_ok tiny_screen" "queue_ok tiny_screen"
proof -
  have "replicate 4 None ! i = None" if "i < 4" for i using that by simp
  then show "queue_ok tiny_screen"
    by (auto simp: queue_ok_def screen_sized_def cells_def tiny_screen_def)
  then show "region_ok tiny_screen" by (simp add: region_ok_def tiny_screen_def)
qed

lemma scroll_lines:
  assumes ok: "region_ok ctx"
  defines "T \<equiv> unat (scroll_top_margin ctx)" and "B \<equiv> unat (scroll_bottom_margin ctx)"
  shows "screen_lines (flanterm_fb_scroll ctx) = scroll_up T B (blank_line ctx) (screen_lines ctx)"
proof -
  define C where "C = unat (cols ctx)"
  note r = region_bounds [OF ok, folded T_def B_def C_def]
  have tb: "T < B" "B \<le> length (screen_lines ctx)" using r by simp_all
  then show ?thesis
    unfolding stored_lines [OF scroll_cells(2,1) [OF ok]] T_def [symmetric] B_def [symmetric] C_def [symmetric]
    by (intro nth_equalityI)
      (auto simp: scroll_up_nth screen_line_def blank_line_def line_index C_def intro!: nth_equalityI, simp add: algebra_simps)
qed

text \<open>C26. On the screen as lines of characters (what the next flush shows, whatever is queued and
  whatever is already drawn) scrolling moves the lines of the region up by one and blanks the last,
  reverse scrolling moves them down and blanks the first, clearing blanks every line, and a pushed
  character replaces exactly its cell. The queue never overflows, so no change is dropped.\<close>

theorem screen_lines_refine:
  assumes ok: "region_ok ctx"
  defines "T \<equiv> unat (scroll_top_margin ctx)" and "B \<equiv> unat (scroll_bottom_margin ctx)"
  shows "screen_lines (flanterm_fb_scroll ctx) = scroll_up T B (blank_line ctx) (screen_lines ctx)
    \<and> screen_lines (flanterm_fb_revscroll ctx) = scroll_down T B (blank_line ctx) (screen_lines ctx)
    \<and> screen_lines (flanterm_fb_clear False ctx) = replicate (unat (rows ctx)) (blank_line ctx)
    \<and> (x < cols ctx \<and> y < rows ctx \<longrightarrow>
        screen_lines (push_to_queue c x y ctx) =
          (screen_lines ctx)[unat y := (screen_lines ctx ! unat y)[unat x := c]])"
proof (intro conjI impI)
  define C where "C = unat (cols ctx)"
  note r = region_bounds [OF ok, folded T_def B_def C_def]
  have q: "queue_ok ctx" using ok by (simp add: region_ok_def)
  have tb: "T < B" "B \<le> length (screen_lines ctx)" using r by simp_all
  show "screen_lines (flanterm_fb_scroll ctx) = scroll_up T B (blank_line ctx) (screen_lines ctx)"
    unfolding T_def B_def by (rule scroll_lines [OF ok])
  show "screen_lines (flanterm_fb_revscroll ctx) = scroll_down T B (blank_line ctx) (screen_lines ctx)"
    unfolding stored_lines [OF revscroll_cells(2,1) [OF ok]] T_def [symmetric] B_def [symmetric] C_def [symmetric]
    using tb by (intro nth_equalityI)
      (auto simp: scroll_down_nth screen_line_def blank_line_def line_index C_def intro!: nth_equalityI)
  show "screen_lines (flanterm_fb_clear False ctx) = replicate (unat (rows ctx)) (blank_line ctx)"
    unfolding stored_lines [OF clear_cells(2,1) [OF q]]
    by (intro nth_equalityI) (simp_all add: blank_line_def map_replicate_const)
  show "screen_lines (push_to_queue c x y ctx) =
      (screen_lines ctx)[unat y := (screen_lines ctx ! unat y)[unat x := c]]" if "x < cols ctx \<and> y < rows ctx"
  proof -
    have "cs.stored ctx (push_to_queue c x y ctx) ((\<lambda>j. char_at j ctx)(unat y * unat (cols ctx) + unat x := c))"
      using that push_put [of x ctx c y] cell_index(2) [of x ctx y] r(4) cs.stored_put [OF cs.stored_refl [OF q]] by simp
    from stored_lines [OF this only_queue_push] that show ?thesis
      by (intro nth_equalityI)
        (auto simp: nth_list_update screen_line_def word_less_nat_alt cell_eq intro!: nth_equalityI)
  qed
qed

lemma screen_lines_refine_witness:
  "screen_lines (flanterm_fb_scroll tiny_screen) = scroll_up 0 2 (blank_line tiny_screen) (screen_lines tiny_screen)"
  using screen_lines_refine [OF tiny_screen_ok(1), of 0 0 blank_char] by (simp add: tiny_screen_def)

end
