(* ===== verification/Screen_Pixels.thy ===== *)
theory Screen_Pixels
  imports Screen_Cells
begin

unbundle bit_operations_syntax

text \<open>
  The screen as pixels: which pixels \<open>plot_char\<close> writes for each of the four rotations, and that a
  flush leaves every cell of the frame buffer showing the character of the screen.
\<close>

subsection \<open>Geometry\<close>

definition pixel_address :: "'z fb_context_scheme \<Rightarrow> u64 \<Rightarrow> u64 \<Rightarrow> u64" where
  "pixel_address ctx x y =
     (let (px, py) = rotate_pixel ctx x y in framebuffer ctx + 4 * (py * (pitch ctx div 4) + px))"

definition sideways :: "'z fb_context_scheme \<Rightarrow> bool" where
  "sideways ctx \<longleftrightarrow> rotation ctx = 1 \<or> rotation ctx = 3"

definition fb_geometry :: "'z fb_context_scheme \<Rightarrow> bool" where
  "fb_geometry ctx \<longleftrightarrow>
     (let line = unat (pitch ctx div 4);
          across = unat (if sideways ctx then fb_height ctx else fb_width ctx);
          down = unat (if sideways ctx then fb_width ctx else fb_height ctx)
      in across \<le> line \<and> line < 2 ^ 31 \<and> 4 * (down * line) \<le> 2 ^ 64) \<and>
     0 < font_scale_x ctx \<and> 0 < font_scale_y ctx \<and>
     unat (glyph_width ctx) = unat (font_scale_x ctx) * unat (font_width ctx) \<and>
     unat (glyph_height ctx) = unat (font_scale_y ctx) * unat (font_height ctx) \<and> unat (font_height ctx) \<le> 256 \<and>
     unat (offset_x ctx) + unat (cols ctx) * unat (glyph_width ctx) \<le> unat (fb_width ctx) \<and>
     unat (offset_y ctx) + unat (rows ctx) * unat (glyph_height ctx) \<le> unat (fb_height ctx) \<and>
     (plot_function ctx \<in> {Unscaled_Canvas, Unscaled_Uncanvas} \<longrightarrow> font_scale_x ctx = 1 \<and> font_scale_y ctx = 1) \<and>
     (plot_function ctx \<in> {Scaled_Canvas, Unscaled_Canvas} \<longleftrightarrow> canvas ctx \<noteq> None)"

lemma ucast_of_int: "(ucast (of_int k :: u64) :: u32) = of_int k"
  by transfer simp

lemma stride_of_int:
  assumes "- (2 ^ 31) \<le> k" and "k < 2 ^ 31"
  shows "stride (of_int k) = of_int k"
proof -
  have "sint (of_int k :: u32) = k"
    using assms by (simp add: signed_of_int signed_take_bit_int_eq_self)
  then have "(scast (of_int k :: u32) :: u64) = of_int k" by (metis of_int_sint)
  then show ?thesis by (simp add: stride_def ucast_of_int)
qed

lemma stride_small:
  assumes "unat n < 2 ^ 31"
  shows "stride n = n" "stride (- n) = - n"
proof -
  define k where "k = int (unat n)"
  have k: "0 \<le> k" "k < 2 ^ 31" using of_nat_less_iff [where 'a = int, THEN iffD2, OF assms] by (simp_all add: k_def)
  have n: "n = of_int k" by (simp add: k_def)
  show "stride n = n" "stride (- n) = - n"
    using stride_of_int [of k] stride_of_int [of "- k"] k by (simp_all add: n)
qed

text \<open>The first pixel and the strides of \<open>plot_char\<close> reach the pixel that the rotation gives.\<close>

lemma plot_origin_pixel:
  assumes "fb_geometry ctx" and "plot_origin ctx x y = (dest, outer_stride, inner_stride)"
  shows "framebuffer ctx + 4 * (dest + gy * outer_stride + gx * inner_stride) = pixel_address ctx (x + gx) (y + gy)"
proof -
  have "unat (pitch ctx div 4) < 2 ^ 31" using assms(1) by (simp add: fb_geometry_def Let_def)
  note st = stride_small [OF this]
  have "dest + gy * outer_stride + gx * inner_stride =
      (let (px, py) = rotate_pixel ctx (x + gx) (y + gy) in py * (pitch ctx div 4) + px)"
    using assms(2) by (auto simp: plot_origin_def rotate_pixel_def Let_def st algebra_simps split: if_splits)
  then show ?thesis by (simp add: pixel_address_def case_prod_unfold Let_def)
qed

lemma unat_pixel_offset:
  fixes w px py :: u64
  assumes "4 * (unat py * unat w + unat px) < 2 ^ 64"
  shows "unat (4 * (py * w + px)) = 4 * (unat py * unat w + unat px)"
proof -
  have "unat (py * w + px) = unat py * unat w + unat px" using assms by (simp add: unat_word_ariths)
  then show ?thesis using assms by (subst unat_word_ariths) simp
qed

lemma pixel_address_inj:
  assumes g: "fb_geometry ctx" and x: "x < fb_width ctx" "x' < fb_width ctx" and y: "y < fb_height ctx" "y' < fb_height ctx"
    and e: "pixel_address ctx x y = pixel_address ctx x' y'"
  shows "x = x' \<and> y = y'"
proof -
  define line across down where "line = unat (pitch ctx div 4)"
    and "across = unat (if sideways ctx then fb_height ctx else fb_width ctx)"
    and "down = unat (if sideways ctx then fb_width ctx else fb_height ctx)"
  have size: "across \<le> line" "4 * (down * line) \<le> 2 ^ 64"
    using conjunct1 [OF g [unfolded fb_geometry_def Let_def]] by (simp_all only: line_def across_def down_def)
  define n where "n = (\<lambda>(px :: u64, py :: u64). unat py * line + unat px)"
  have rev: "unat (w - 1 - v) < unat w" if "v < w" for v w :: u64
    using that by (simp add: unat_sub_if' word_less_nat_alt)
  have bound: "unat px < across" "unat py < down"
    if "rotate_pixel ctx a b = (px, py)" "a < fb_width ctx" "b < fb_height ctx" for a b px py
    using that rev by (auto simp: rotate_pixel_def sideways_def across_def down_def word_less_nat_alt split: if_splits)
  have addr: "unat (pixel_address ctx a b - framebuffer ctx) = 4 * n (rotate_pixel ctx a b)"
    if "a < fb_width ctx" "b < fb_height ctx" for a b
  proof -
    obtain px py where p: "rotate_pixel ctx a b = (px, py)" by force
    note bd = bound [OF p that]
    have "unat py * line + unat px < (unat py + 1) * line" using bd(1) size(1) by simp
    also have "\<dots> \<le> down * line" using bd(2) by (intro mult_le_mono1) simp
    finally have "4 * (unat py * line + unat px) < 4 * (down * line)" by simp
    then have "4 * (unat py * line + unat px) < 2 ^ 64" using size(2) by (rule less_le_trans)
    from unat_pixel_offset [OF this [unfolded line_def]]
    have "unat (4 * (py * (pitch ctx div 4) + px)) = 4 * n (rotate_pixel ctx a b)"
      by (simp only: n_def p prod.case line_def)
    moreover have "pixel_address ctx a b - framebuffer ctx = 4 * (py * (pitch ctx div 4) + px)"
      by (simp add: pixel_address_def p)
    ultimately show ?thesis by simp
  qed
  obtain px py px' py' where p: "rotate_pixel ctx x y = (px, py)" "rotate_pixel ctx x' y' = (px', py')" by force
  have "unat py * line + unat px = unat py' * line + unat px'"
    using addr [OF x(1) y(1)] addr [OF x(2) y(2)] e p by (simp add: n_def)
  then have "unat py = unat py' \<and> unat px = unat px'"
    using bound [OF p(1) x(1) y(1)] bound [OF p(2) x(2) y(2)] size(1) cell_eq by (meson less_le_trans)
  then have "px = px'" "py = py'" by (auto simp: word_unat_eq_iff)
  then show ?thesis using p by (auto simp: rotate_pixel_def split: if_splits)
qed

subsection \<open>Plotting\<close>

lemma fold_product:
  "fold (\<lambda>x. fold (g x) ys) xs s = fold (\<lambda>(x, y). g x y) (List.product xs ys) s"
proof -
  have "fold (g x) ys s = fold (\<lambda>(x, y). g x y) (map (Pair x) ys) s" for x s
    by (induction ys arbitrary: s) simp_all
  then show ?thesis by (induction xs arbitrary: s) simp_all
qed

lemma fold_updates:
  fixes buf :: "'a \<Rightarrow> 'b"
  assumes "inj_on addr (set ps)"
  shows "p \<in> set ps \<Longrightarrow> fold (\<lambda>p buf. buf(addr p := val p)) ps buf (addr p) = val p"
    and "a \<notin> addr ` set ps \<Longrightarrow> fold (\<lambda>p buf. buf(addr p := val p)) ps buf a = buf a"
proof -
  show "a \<notin> addr ` set ps \<Longrightarrow> fold (\<lambda>p buf. buf(addr p := val p)) ps buf a = buf a"
    by (induction ps arbitrary: buf) auto
  show "p \<in> set ps \<Longrightarrow> fold (\<lambda>p buf. buf(addr p := val p)) ps buf (addr p) = val p"
    using assms by (induction ps rule: rev_induct) (auto simp: inj_on_def)
qed

definition glyph_bit :: "'z fb_context_scheme \<Rightarrow> u32 \<Rightarrow> nat \<Rightarrow> nat \<Rightarrow> bool" where
  "glyph_bit ctx c gx gy =
     font_bool ctx ! unat (ucast c * font_height ctx * font_width ctx
       + ucast (ucast (of_nat gy div font_scale_y ctx) :: u8) * font_width ctx
       + of_nat (gx div unat (font_scale_x ctx)))"

text \<open>The colour of a pixel: 0xffffffff is the canvas, or the default background without one.\<close>

definition pixel_colour :: "'z fb_context_scheme \<Rightarrow> u32 \<Rightarrow> u64 \<Rightarrow> u64 \<Rightarrow> u32" where
  "pixel_colour ctx v x y =
     (if v = 0xffffffff then (case canvas ctx of Some cv \<Rightarrow> cv (x + y * fb_width ctx) | None \<Rightarrow> default_bg ctx) else v)"

definition cell_x :: "'z fb_context_scheme \<Rightarrow> u64 \<Rightarrow> nat \<Rightarrow> u64" where
  "cell_x ctx x gx = offset_x ctx + x * glyph_width ctx + of_nat gx"

definition cell_y :: "'z fb_context_scheme \<Rightarrow> u64 \<Rightarrow> nat \<Rightarrow> u64" where
  "cell_y ctx y gy = offset_y ctx + y * glyph_height ctx + of_nat gy"

definition char_pixel :: "'z fb_context_scheme \<Rightarrow> fb_char \<Rightarrow> u64 \<Rightarrow> u64 \<Rightarrow> nat \<Rightarrow> nat \<Rightarrow> u32" where
  "char_pixel ctx c x y gx gy =
     pixel_colour ctx (if glyph_bit ctx (fc_c c) gx gy then fc_fg c else fc_bg c) (cell_x ctx x gx) (cell_y ctx y gy)"

definition shows_char :: "'z fb_context_scheme \<Rightarrow> u64 \<Rightarrow> u64 \<Rightarrow> fb_char \<Rightarrow> bool" where
  "shows_char ctx x y c \<longleftrightarrow> (\<forall>gx < unat (glyph_width ctx). \<forall>gy < unat (glyph_height ctx).
     pixels ctx (pixel_address ctx (cell_x ctx x gx) (cell_y ctx y gy)) = char_pixel ctx c x y gx gy)"

lemma fb_geometryD:
  assumes "fb_geometry ctx"
  shows "0 < font_scale_x ctx" "0 < font_scale_y ctx"
    "unat (glyph_width ctx) = unat (font_scale_x ctx) * unat (font_width ctx)"
    "unat (glyph_height ctx) = unat (font_scale_y ctx) * unat (font_height ctx)" "unat (font_height ctx) \<le> 256"
    "unat (offset_x ctx) + unat (cols ctx) * unat (glyph_width ctx) \<le> unat (fb_width ctx)"
    "unat (offset_y ctx) + unat (rows ctx) * unat (glyph_height ctx) \<le> unat (fb_height ctx)"
    "plot_function ctx \<in> {Unscaled_Canvas, Unscaled_Uncanvas} \<Longrightarrow> font_scale_x ctx = 1 \<and> font_scale_y ctx = 1"
    "plot_function ctx \<in> {Scaled_Canvas, Unscaled_Canvas} \<longleftrightarrow> canvas ctx \<noteq> None"
  using assms unfolding fb_geometry_def by blast+

lemma cell_pixel_bounds:
  assumes "fb_geometry ctx" and "x < cols ctx" and "y < rows ctx"
    and "gx < unat (glyph_width ctx)" and "gy < unat (glyph_height ctx)"
  shows "unat (cell_x ctx x gx) = unat (offset_x ctx) + (unat x * unat (glyph_width ctx) + gx)"
    "unat (cell_y ctx y gy) = unat (offset_y ctx) + (unat y * unat (glyph_height ctx) + gy)"
    "cell_x ctx x gx < fb_width ctx" "cell_y ctx y gy < fb_height ctx"
proof -
  have gen: "unat (ofs + v * g + of_nat k :: u64) = unat ofs + (unat v * unat g + k) \<and>
      ofs + v * g + of_nat k < w"
    if "unat ofs + unat n * unat g \<le> unat w" "v < n" "k < unat g" for ofs v g n w :: u64 and k
  proof -
    have "unat v * unat g + k < (unat v + 1) * unat g" using that(3) by simp
    also have "\<dots> \<le> unat n * unat g" using that(2) by (intro mult_le_mono1) (simp add: word_less_nat_alt)
    finally have "unat ofs + (unat v * unat g + k) < unat w" using that(1) by linarith
    moreover have "unat (of_nat k :: u64) = k" using of_nat_below [OF that(3)] .
    ultimately show ?thesis using unat_64 [of w] by (simp add: unat_word_ariths word_less_nat_alt)
  qed
  show "unat (cell_x ctx x gx) = unat (offset_x ctx) + (unat x * unat (glyph_width ctx) + gx)" "cell_x ctx x gx < fb_width ctx"
    using gen [OF fb_geometryD(6) [OF assms(1)] assms(2,4)] by (simp_all only: cell_x_def)
  show "unat (cell_y ctx y gy) = unat (offset_y ctx) + (unat y * unat (glyph_height ctx) + gy)" "cell_y ctx y gy < fb_height ctx"
    using gen [OF fb_geometryD(7) [OF assms(1)] assms(3,5)] by (simp_all only: cell_y_def)
qed

text \<open>The pixels of different places inside cells are different.\<close>

lemma cell_pixels_distinct:
  assumes g: "fb_geometry ctx" and "x < cols ctx" "y < rows ctx" "x' < cols ctx" "y' < rows ctx"
    and "gx < unat (glyph_width ctx)" "gy < unat (glyph_height ctx)"
    and "gx' < unat (glyph_width ctx)" "gy' < unat (glyph_height ctx)"
    and e: "pixel_address ctx (cell_x ctx x gx) (cell_y ctx y gy) = pixel_address ctx (cell_x ctx x' gx') (cell_y ctx y' gy')"
  shows "x = x' \<and> y = y' \<and> gx = gx' \<and> gy = gy'"
proof -
  note b = cell_pixel_bounds [OF g assms(2,3,6,7)] cell_pixel_bounds [OF g assms(4,5,8,9)]
  have "cell_x ctx x gx = cell_x ctx x' gx' \<and> cell_y ctx y gy = cell_y ctx y' gy'"
    using pixel_address_inj [OF g b(3,7,4,8) e] .
  then have "unat x * unat (glyph_width ctx) + gx = unat x' * unat (glyph_width ctx) + gx'"
    "unat y * unat (glyph_height ctx) + gy = unat y' * unat (glyph_height ctx) + gy'"
    using b(1,2,5,6) by auto
  then show ?thesis
    using cell_eq [OF assms(6,8)] cell_eq [OF assms(7,9)] by (simp add: word_unat_eq_iff)
qed

definition only_pixels :: "'z fb_context_scheme \<Rightarrow> 'z fb_context_scheme \<Rightarrow> bool" where
  "only_pixels s t \<longleftrightarrow> t = s\<lparr>pixels := pixels t\<rparr>"

lemma plot_glyph_fold:
  assumes g: "fb_geometry ctx"
  defines "sx \<equiv> unat (font_scale_x ctx)"
  shows "plot_glyph (font_scale_x ctx) (font_scale_y ctx) fg bg c (offset_x ctx + x * glyph_width ctx) (offset_y ctx + y * glyph_height ctx) ctx =
    ctx\<lparr>pixels := fold (\<lambda>p buf. buf(
        (case p of (gy, fx, i) \<Rightarrow> pixel_address ctx (cell_x ctx x (sx * fx + i)) (cell_y ctx y gy)) :=
        (case p of (gy, fx, i) \<Rightarrow> if glyph_bit ctx (fc_c c) (sx * fx + i) gy
           then fg (of_nat (sx * fx + i)) (of_nat gy) else bg (of_nat (sx * fx + i)) (of_nat gy))))
      (List.product [0..<unat (glyph_height ctx)] (List.product [0..<unat (font_width ctx)] [0..<sx])) (pixels ctx)\<rparr>"
proof -
  obtain dest outer inner where o: "plot_origin ctx (offset_x ctx + x * glyph_width ctx) (offset_y ctx + y * glyph_height ctx) = (dest, outer, inner)"
    using prod_cases3 by blast
  have a: "framebuffer ctx + 4 * (dest + of_nat gy * outer + of_nat k * inner) =
      pixel_address ctx (cell_x ctx x k) (cell_y ctx y gy)" for gy k
    using plot_origin_pixel [OF g o] by (simp only: cell_x_def cell_y_def)
  have n: "font_scale_x ctx * of_nat fx + of_nat i = of_nat (sx * fx + i)" for fx i by (simp add: sx_def)
  have b: "font_bool ctx ! unat (ucast (fc_c c) * font_height ctx * font_width ctx +
        ucast (ucast (of_nat gy div font_scale_y ctx) :: u8) * font_width ctx + of_nat fx) = glyph_bit ctx (fc_c c) (sx * fx + i) gy"
    if "i < sx" for gy fx i
    using that by (simp add: glyph_bit_def flip: sx_def)
  show ?thesis
    unfolding plot_glyph_def o Let_def prod.case fold_product case_prod_unfold sx_def [symmetric]
    by (intro arg_cong [where f = "\<lambda>p. ctx\<lparr>pixels := p\<rparr>"] fold_cong refl)
      (simp only: set_product mem_Times_iff set_upt atLeastLessThan_iff fst_conv snd_conv n a b [symmetric])
qed

lemma plot_glyph_pixels:
  fixes fg bg :: "u64 \<Rightarrow> u64 \<Rightarrow> u32" and c :: fb_char
  assumes g: "fb_geometry ctx" and x: "x < cols ctx" and y: "y < rows ctx"
  defines "t \<equiv> plot_glyph (font_scale_x ctx) (font_scale_y ctx) fg bg c (offset_x ctx + x * glyph_width ctx) (offset_y ctx + y * glyph_height ctx) ctx"
  shows "only_pixels ctx t"
    and "gx < unat (glyph_width ctx) \<Longrightarrow> gy < unat (glyph_height ctx) \<Longrightarrow>
      pixels t (pixel_address ctx (cell_x ctx x gx) (cell_y ctx y gy)) =
        (if glyph_bit ctx (fc_c c) gx gy then fg (of_nat gx) (of_nat gy) else bg (of_nat gx) (of_nat gy))"
    and "(\<And>gx gy. gx < unat (glyph_width ctx) \<Longrightarrow> gy < unat (glyph_height ctx) \<Longrightarrow>
        a \<noteq> pixel_address ctx (cell_x ctx x gx) (cell_y ctx y gy)) \<Longrightarrow> pixels t a = pixels ctx a"
proof -
  define sx where "sx = unat (font_scale_x ctx)"
  define P where "P = List.product [0..<unat (glyph_height ctx)] (List.product [0..<unat (font_width ctx)] [0..<sx])"
  define addr where "addr = (\<lambda>p. case p of (gy, fx, i) \<Rightarrow> pixel_address ctx (cell_x ctx x (sx * fx + i)) (cell_y ctx y gy))"
  define val where "val = (\<lambda>p. case p of (gy, fx, i) \<Rightarrow> if glyph_bit ctx (fc_c c) (sx * fx + i) gy
    then fg (of_nat (sx * fx + i) :: u64) (of_nat gy :: u64) else bg (of_nat (sx * fx + i)) (of_nat gy))"
  have t: "t = ctx\<lparr>pixels := fold (\<lambda>p buf. buf(addr p := val p)) P (pixels ctx)\<rparr>"
    unfolding t_def P_def addr_def val_def sx_def by (rule plot_glyph_fold [OF g])
  show "only_pixels ctx t" by (simp add: only_pixels_def t)
  have gw: "unat (glyph_width ctx) = sx * unat (font_width ctx)" using fb_geometryD(3) [OF g] by (simp add: sx_def)
  have sx: "0 < sx" using fb_geometryD(1) [OF g] by (simp add: sx_def word_less_nat_alt)
  have in_glyph: "sx * fx + i < unat (glyph_width ctx)" if "fx < unat (font_width ctx)" "i < sx" for fx i
  proof -
    have "sx * fx + i < sx * (fx + 1)" using that(2) by simp
    also have "\<dots> \<le> sx * unat (font_width ctx)" using that(1) by (intro mult_le_mono2) simp
    finally show ?thesis by (simp add: gw)
  qed
  have inj: "inj_on addr (set P)"
  proof (rule inj_onI, clarsimp simp: P_def addr_def)
    fix gy fx i gy' fx' i'
    assume b: "gy < unat (glyph_height ctx)" "fx < unat (font_width ctx)" "i < sx"
      "gy' < unat (glyph_height ctx)" "fx' < unat (font_width ctx)" "i' < sx"
      and e: "pixel_address ctx (cell_x ctx x (sx * fx + i)) (cell_y ctx y gy) =
        pixel_address ctx (cell_x ctx x (sx * fx' + i')) (cell_y ctx y gy')"
    from cell_pixels_distinct [OF g x y x y in_glyph [OF b(2,3)] b(1) in_glyph [OF b(5,6)] b(4) e]
    show "gy = gy' \<and> fx = fx' \<and> i = i'" using cell_eq [OF b(3,6), of fx fx'] by (simp add: mult.commute)
  qed
  show "pixels t (pixel_address ctx (cell_x ctx x gx) (cell_y ctx y gy)) =
      (if glyph_bit ctx (fc_c c) gx gy then fg (of_nat gx) (of_nat gy) else bg (of_nat gx) (of_nat gy))"
    if "gx < unat (glyph_width ctx)" "gy < unat (glyph_height ctx)"
  proof -
    define p where "p = (gy, gx div sx, gx mod sx)"
    have "gx div sx < unat (font_width ctx)" using that(1) by (simp add: gw less_mult_imp_div_less mult.commute)
    then have "p \<in> set P" using that(2) sx by (simp add: p_def P_def)
    from fold_updates(1) [OF inj this, of val "pixels ctx"] show ?thesis
      by (simp add: t p_def addr_def val_def)
  qed
  assume no: "\<And>gx gy. gx < unat (glyph_width ctx) \<Longrightarrow> gy < unat (glyph_height ctx) \<Longrightarrow>
        a \<noteq> pixel_address ctx (cell_x ctx x gx) (cell_y ctx y gy)"
  have "a \<notin> addr ` set P" using no [OF in_glyph] by (fastforce simp: P_def addr_def)
  from fold_updates(2) [OF inj this] show "pixels t a = pixels ctx a" by (simp add: t)
qed

lemma plot_char_glyph:
  assumes g: "fb_geometry ctx" and x: "x < cols ctx" and y: "y < rows ctx"
  shows "\<exists>fg bg. plot_char c x y ctx =
      plot_glyph (font_scale_x ctx) (font_scale_y ctx) fg bg c (offset_x ctx + x * glyph_width ctx) (offset_y ctx + y * glyph_height ctx) ctx \<and>
    (\<forall>gx gy. fg (of_nat gx) (of_nat gy) = pixel_colour ctx (fc_fg c) (cell_x ctx x gx) (cell_y ctx y gy) \<and>
      bg (of_nat gx) (of_nat gy) = pixel_colour ctx (fc_bg c) (cell_x ctx x gx) (cell_y ctx y gy))"
proof (cases "canvas ctx")
  case None
  then have "plot_function ctx = Scaled_Uncanvas \<or> plot_function ctx = Unscaled_Uncanvas \<and> font_scale_x ctx = 1 \<and> font_scale_y ctx = 1"
    using fb_geometryD(8,9) [OF g] by (cases "plot_function ctx") auto
  then show ?thesis using x y None
    by (intro exI [of _ "\<lambda>_ _. if fc_fg c = 0xffffffff then default_bg ctx else fc_fg c"]
      exI [of _ "\<lambda>_ _. if fc_bg c = 0xffffffff then default_bg ctx else fc_bg c"])
      (auto simp: plot_char_defs not_le Let_def pixel_colour_def)
next
  case (Some cv)
  define X Y where "X = offset_x ctx + x * glyph_width ctx" and "Y = offset_y ctx + y * glyph_height ctx"
  have "plot_function ctx = Scaled_Canvas \<or> plot_function ctx = Unscaled_Canvas \<and> font_scale_x ctx = 1 \<and> font_scale_y ctx = 1"
    using fb_geometryD(8,9) [OF g] Some by (cases "plot_function ctx") auto
  then have "plot_char c x y ctx =
      plot_glyph (font_scale_x ctx) (font_scale_y ctx) (canvas_pixel ctx X Y (fc_fg c)) (canvas_pixel ctx X Y (fc_bg c)) c X Y ctx"
    using x y by (auto simp: plot_char_defs not_le Let_def X_def Y_def)
  moreover have "canvas_pixel ctx X Y v (of_nat gx) (of_nat gy) = pixel_colour ctx v (cell_x ctx x gx) (cell_y ctx y gy)" for v gx gy
    using Some by (auto simp: canvas_pixel_def pixel_colour_def X_def Y_def cell_x_def cell_y_def algebra_simps)
  ultimately show ?thesis unfolding X_def Y_def by blast
qed

text \<open>Plotting a character makes its cell show it and leaves what the other cells show.\<close>

lemma plot_char_shows:
  fixes c :: fb_char
  assumes g: "fb_geometry ctx" and x: "x < cols ctx" and y: "y < rows ctx"
  defines "t \<equiv> plot_char c x y ctx"
  shows "only_pixels ctx t" and "shows_char t x y c"
    and "x' < cols ctx \<Longrightarrow> y' < rows ctx \<Longrightarrow> (x', y') \<noteq> (x, y) \<Longrightarrow> shows_char t x' y' d = shows_char ctx x' y' d"
proof -
  obtain fg bg where t: "t = plot_glyph (font_scale_x ctx) (font_scale_y ctx) fg bg c
      (offset_x ctx + x * glyph_width ctx) (offset_y ctx + y * glyph_height ctx) ctx"
    and col: "\<And>gx gy. fg (of_nat gx) (of_nat gy) = pixel_colour ctx (fc_fg c) (cell_x ctx x gx) (cell_y ctx y gy)"
      "\<And>gx gy. bg (of_nat gx) (of_nat gy) = pixel_colour ctx (fc_bg c) (cell_x ctx x gx) (cell_y ctx y gy)"
    using plot_char_glyph [OF g x y] unfolding t_def by blast
  note px = plot_glyph_pixels [OF g x y, where fg = fg and bg = bg and c = c, folded t]
  show op: "only_pixels ctx t" by (rule px(1))
  obtain b where b: "t = ctx\<lparr>pixels := b\<rparr>" using op by (auto simp: only_pixels_def)
  have same: "cell_x t = cell_x ctx" "cell_y t = cell_y ctx" "pixel_address t = pixel_address ctx" "char_pixel t = char_pixel ctx"
    "glyph_width t = glyph_width ctx" "glyph_height t = glyph_height ctx"
    by (simp_all add: b fun_eq_iff cell_x_def cell_y_def pixel_address_def rotate_pixel_def char_pixel_def pixel_colour_def glyph_bit_def
      cong: option.case_cong)
  show "shows_char t x y c"
    unfolding shows_char_def same using px(2) by (auto simp: char_pixel_def col)
  assume o: "x' < cols ctx" "y' < rows ctx" "(x', y') \<noteq> (x, y)"
  have "pixels t (pixel_address ctx (cell_x ctx x' gx) (cell_y ctx y' gy)) = pixels ctx (pixel_address ctx (cell_x ctx x' gx) (cell_y ctx y' gy))"
    if "gx < unat (glyph_width ctx)" "gy < unat (glyph_height ctx)" for gx gy
    using cell_pixels_distinct [OF g o(1,2) x y that] o(3) by (intro px(3)) blast
  then show "shows_char t x' y' d = shows_char ctx x' y' d"
    unfolding shows_char_def same by simp
qed

subsection \<open>Flushing\<close>

text \<open>What a flush can change before it updates the remembered cursor.\<close>

definition only_shown :: "'z fb_context_scheme \<Rightarrow> 'z fb_context_scheme \<Rightarrow> bool" where
  "only_shown s t \<longleftrightarrow> t = s\<lparr>pixels := pixels t, grid := grid t, fb_map := fb_map t\<rparr>"

lemma only_shown_refl [simp]: "only_shown s s"
  by (simp add: only_shown_def)

lemma only_shown_trans:
  assumes "only_shown s t" and "only_shown t u"
  shows "only_shown s u"
proof -
  have "t\<lparr>pixels := p, grid := g, fb_map := m\<rparr> = s\<lparr>pixels := p, grid := g, fb_map := m\<rparr>" for p g m
    using arg_cong [OF assms(1) [unfolded only_shown_def], of "\<lambda>t. t\<lparr>pixels := p, grid := g, fb_map := m\<rparr>"] by simp
  with assms(2) show ?thesis by (simp add: only_shown_def)
qed

lemma only_pixels_fields:
  assumes "only_pixels s t"
  shows "grid t = grid s" "fb_map t = fb_map s"
  by (subst assms [unfolded only_pixels_def], simp)+

lemma only_pixels_shown: "only_pixels s t \<Longrightarrow> only_shown s (t\<lparr>grid := g, fb_map := m\<rparr>)" "only_pixels s t \<Longrightarrow> only_shown s t"
proof -
  assume p: "only_pixels s t"
  have "t\<lparr>grid := g, fb_map := m\<rparr> = s\<lparr>pixels := pixels t, grid := g, fb_map := m\<rparr>" for g m
    using arg_cong [OF p [unfolded only_pixels_def], of "\<lambda>t. t\<lparr>grid := g, fb_map := m\<rparr>"] by simp
  then show "only_shown s (t\<lparr>grid := g, fb_map := m\<rparr>)" by (simp add: only_shown_def)
  have "s\<lparr>pixels := pixels t\<rparr> = s\<lparr>pixels := pixels t, grid := grid s, fb_map := fb_map s\<rparr>" by simp
  then show "only_shown s t"
    unfolding only_shown_def only_pixels_fields [OF p] using p [unfolded only_pixels_def] by (rule trans [rotated])
qed

lemma only_shown_fields:
  assumes "only_shown s t"
  shows "rows t = rows s" "cols t = cols s" "queue t = queue s" "queue_i t = queue_i s" "cells t = cells s"
    "item_cell k t = item_cell k s" "cursor_x t = cursor_x s" "cursor_y t = cursor_y s"
    "old_cursor_x t = old_cursor_x s" "old_cursor_y t = old_cursor_y s" "cursor_enabled t = cursor_enabled s"
    "fb_geometry t = fb_geometry s"
  by (subst assms [unfolded only_shown_def], simp add: cells_def item_cell_def fb_geometry_def sideways_def cong: if_cong)+

text \<open>What a cell shows does not depend on grid, queue and map.\<close>

lemma shows_char_update [simp]:
  "shows_char (ctx\<lparr>grid := g, fb_map := m\<rparr>) x y c = shows_char ctx x y c"
  "shows_char (ctx\<lparr>old_cursor_x := u, old_cursor_y := v, queue_i := n\<rparr>) x y c = shows_char ctx x y c"
  "shows_char (ctx\<lparr>flushes := fs\<rparr>) x y c = shows_char ctx x y c"
  by (simp_all add: shows_char_def cell_x_def cell_y_def pixel_address_def rotate_pixel_def char_pixel_def
    pixel_colour_def glyph_bit_def cong: option.case_cong)

definition cell_of :: "'z fb_context_scheme \<Rightarrow> u64 \<Rightarrow> u64 \<Rightarrow> nat" where
  "cell_of ctx x y = unat y * unat (cols ctx) + unat x"

definition swapped :: "fb_char \<Rightarrow> fb_char" where
  "swapped c = c\<lparr>fc_fg := fc_bg c, fc_bg := fc_fg c\<rparr>"

definition cursor_drawn :: "'z fb_context_scheme \<Rightarrow> bool" where
  "cursor_drawn ctx \<longleftrightarrow> cursor_enabled ctx \<and> cursor_x ctx < cols ctx \<and> cursor_y ctx < rows ctx"

text \<open>Between two flushes every cell shows its character of the grid, but for the cell where the
  cursor was drawn.\<close>

definition displayed :: "'z fb_context_scheme \<Rightarrow> bool" where
  "displayed ctx \<longleftrightarrow> (\<forall>x < cols ctx. \<forall>y < rows ctx. (x, y) \<noteq> (old_cursor_x ctx, old_cursor_y ctx) \<longrightarrow>
     shows_char ctx x y (grid ctx ! cell_of ctx x y))"

definition flushing :: "nat \<Rightarrow> 'z fb_context_scheme \<Rightarrow> 'z fb_context_scheme \<Rightarrow> bool" where
  "flushing n ctx s \<longleftrightarrow> only_shown ctx s \<and> length (grid s) = cells ctx \<and> length (fb_map s) = cells ctx \<and>
     (\<forall>k. n \<le> k \<and> k < unat (queue_i ctx) \<longrightarrow> fb_map s ! item_cell k ctx \<in> {None, Some k}) \<and>
     (\<forall>i < cells ctx. \<forall>k. fb_map s ! i = Some k \<longrightarrow> n \<le> k \<and> k < unat (queue_i ctx) \<and> item_cell k ctx = i) \<and>
     (\<forall>i < cells ctx. char_at i s = char_at i ctx) \<and>
     (cursor_drawn ctx \<longrightarrow> fb_map s ! cell_of ctx (cursor_x ctx) (cursor_y ctx) = None) \<and>
     (\<forall>x < cols ctx. \<forall>y < rows ctx.
        if cursor_drawn ctx \<and> (x, y) = (cursor_x ctx, cursor_y ctx)
        then shows_char s x y (swapped (char_at (cell_of ctx x y) ctx))
        else (x, y) \<noteq> (old_cursor_x ctx, old_cursor_y ctx) \<longrightarrow> shows_char s x y (grid s ! cell_of ctx x y))"

lemma cell_of_eq:
  assumes "x < cols ctx" "y < rows ctx" "x' < cols ctx" "y' < rows ctx"
  shows "cell_of ctx x y = cell_of ctx x' y' \<longleftrightarrow> (x, y) = (x', y')"
  using assms cell_eq [of "unat x" "unat (cols ctx)" "unat x'" "unat y" "unat y'"]
  by (auto simp: cell_of_def word_less_nat_alt word_unat_eq_iff)

lemma queue_ok_sized: "queue_ok ctx \<Longrightarrow> screen_sized ctx" "screen_sized ctx \<Longrightarrow> cells ctx < 2 ^ 64"
  by (simp_all add: queue_ok_def screen_sized_def)

lemma draw_cursor_eq:
  assumes g: "fb_geometry ctx" and ok: "screen_sized ctx" and x: "cursor_x ctx < cols ctx" and y: "cursor_y ctx < rows ctx"
  defines "i \<equiv> cell_of ctx (cursor_x ctx) (cursor_y ctx)"
  shows "\<exists>p. only_pixels ctx p \<and> draw_cursor ctx = p\<lparr>grid := (grid ctx)[i := char_at i ctx], fb_map := (fb_map ctx)[i := None]\<rparr> \<and>
    shows_char p (cursor_x ctx) (cursor_y ctx) (swapped (char_at i ctx)) \<and>
    (\<forall>x' < cols ctx. \<forall>y' < rows ctx. \<forall>d. (x', y') \<noteq> (cursor_x ctx, cursor_y ctx) \<longrightarrow> shows_char p x' y' d = shows_char ctx x' y' d)"
proof -
  define p where "p = plot_char (swapped (char_at i ctx)) (cursor_x ctx) (cursor_y ctx) ctx"
  have i: "unat (cursor_x ctx + cursor_y ctx * cols ctx) = i"
    using cell_index(1) [OF x y queue_ok_sized(2) [OF ok]] by (simp add: i_def cell_of_def add.commute)
  note sh = plot_char_shows [OF g x y, where c = "swapped (char_at i ctx)", folded p_def]
  note pf = only_pixels_fields [OF sh(1)] only_shown_fields(3) [OF only_pixels_shown(2) [OF sh(1)]]
  have d: "draw_cursor ctx = (case fb_map ctx ! i of
      Some k \<Rightarrow> p\<lparr>grid := (grid p)[i := qi_c (queue p ! k)], fb_map := (fb_map p)[i := None]\<rparr> | None \<Rightarrow> p)"
    using x y by (simp add: draw_cursor_def i Let_def p_def swapped_def not_le split: option.split)
  have "draw_cursor ctx = p\<lparr>grid := (grid ctx)[i := char_at i ctx], fb_map := (fb_map ctx)[i := None]\<rparr>"
  proof (cases "fb_map ctx ! i")
    case None
    have "p = p\<lparr>grid := grid p, fb_map := fb_map p\<rparr>" by simp
    moreover have "(grid ctx)[i := char_at i ctx] = grid p" using None by (simp add: char_at_def pf)
    moreover have "(fb_map ctx)[i := None] = fb_map p" using None by (metis list_update_id pf(2))
    ultimately show ?thesis using d None by (metis option.case(1))
  next
    case (Some k)
    then show ?thesis by (simp add: d pf char_at_def)
  qed
  with sh show ?thesis by blast
qed

lemma char_at_update:
  assumes "queue p = queue s" and "i < length (grid s)" and "i < length (fb_map s)"
  shows "char_at j (p\<lparr>grid := (grid s)[i := c], fb_map := (fb_map s)[i := None]\<rparr>) = (if j = i then c else char_at j s)"
  using assms by (cases "j = i") (simp_all add: char_at_def cong: option.case_cong)

lemma flushing_start:
  assumes g: "fb_geometry ctx" and ok: "queue_ok ctx" and d: "displayed ctx"
  shows "flushing 0 ctx (if cursor_enabled ctx then draw_cursor ctx else ctx)"
proof (cases "cursor_drawn ctx")
  case False
  then have "(if cursor_enabled ctx then draw_cursor ctx else ctx) = ctx"
    by (auto simp: cursor_drawn_def draw_cursor_def not_less)
  moreover have "flushing 0 ctx ctx"
    using ok d False by (auto simp: flushing_def queue_ok_def screen_sized_def displayed_def)
  ultimately show ?thesis by simp
next
  case True
  then have c: "cursor_enabled ctx" "cursor_x ctx < cols ctx" "cursor_y ctx < rows ctx" by (simp_all add: cursor_drawn_def)
  define i where "i = cell_of ctx (cursor_x ctx) (cursor_y ctx)"
  note sz = queue_ok_sized(1) [OF ok]
  obtain p where p: "only_pixels ctx p"
    "draw_cursor ctx = p\<lparr>grid := (grid ctx)[i := char_at i ctx], fb_map := (fb_map ctx)[i := None]\<rparr>"
    "shows_char p (cursor_x ctx) (cursor_y ctx) (swapped (char_at i ctx))"
    "\<forall>x' < cols ctx. \<forall>y' < rows ctx. \<forall>d. (x', y') \<noteq> (cursor_x ctx, cursor_y ctx) \<longrightarrow> shows_char p x' y' d = shows_char ctx x' y' d"
    using draw_cursor_eq [OF g sz c(2,3)] by (auto simp: i_def)
  have i: "i < cells ctx" using cell_index(2) [OF c(2,3) queue_ok_sized(2) [OF sz]] by (simp add: i_def cell_of_def)
  have len: "length (grid ctx) = cells ctx" "length (fb_map ctx) = cells ctx" using sz by (simp_all add: screen_sized_def)
  have q: "queue p = queue ctx" using only_shown_fields(3) [OF only_pixels_shown(2) [OF p(1)]] .
  have "flushing 0 ctx (draw_cursor ctx)"
    unfolding flushing_def
  proof (intro conjI)
    show "only_shown ctx (draw_cursor ctx)" unfolding p(2) by (rule only_pixels_shown(1) [OF p(1)])
    show "length (grid (draw_cursor ctx)) = cells ctx" "length (fb_map (draw_cursor ctx)) = cells ctx" by (simp_all add: p(2) len)
    show "\<forall>k. 0 \<le> k \<and> k < unat (queue_i ctx) \<longrightarrow> fb_map (draw_cursor ctx) ! item_cell k ctx \<in> {None, Some k}"
    proof (intro allI impI)
      fix k assume "0 \<le> k \<and> k < unat (queue_i ctx)"
      then have "fb_map ctx ! item_cell k ctx = Some k" using ok by (simp add: queue_ok_def)
      then show "fb_map (draw_cursor ctx) ! item_cell k ctx \<in> {None, Some k}"
        using i len by (cases "item_cell k ctx = i") (simp_all add: p(2))
    qed
    show "\<forall>j<cells ctx. \<forall>k. fb_map (draw_cursor ctx) ! j = Some k \<longrightarrow> 0 \<le> k \<and> k < unat (queue_i ctx) \<and> item_cell k ctx = j"
    proof (intro allI impI)
      fix j k assume j: "j < cells ctx" and k: "fb_map (draw_cursor ctx) ! j = Some k"
      then have "fb_map ctx ! j = Some k" using i len by (cases "j = i") (simp_all add: p(2))
      with ok j show "0 \<le> k \<and> k < unat (queue_i ctx) \<and> item_cell k ctx = j" by (auto simp: queue_ok_def)
    qed
    show "\<forall>j<cells ctx. char_at j (draw_cursor ctx) = char_at j ctx"
      using len i by (simp add: p(2) char_at_update q)
    show "cursor_drawn ctx \<longrightarrow> fb_map (draw_cursor ctx) ! cell_of ctx (cursor_x ctx) (cursor_y ctx) = None"
      using len i by (simp add: p(2) i_def)
    show "\<forall>x<cols ctx. \<forall>y<rows ctx.
       if cursor_drawn ctx \<and> (x, y) = (cursor_x ctx, cursor_y ctx)
       then shows_char (draw_cursor ctx) x y (swapped (char_at (cell_of ctx x y) ctx))
       else (x, y) \<noteq> (old_cursor_x ctx, old_cursor_y ctx) \<longrightarrow> shows_char (draw_cursor ctx) x y (grid (draw_cursor ctx) ! cell_of ctx x y)"
    proof (intro allI impI)
      fix x y assume xy: "x < cols ctx" "y < rows ctx"
      have "cell_of ctx x y \<noteq> i" if "(x, y) \<noteq> (cursor_x ctx, cursor_y ctx)"
        using cell_of_eq [OF xy c(2,3)] that by (simp add: i_def)
      then show "if cursor_drawn ctx \<and> (x, y) = (cursor_x ctx, cursor_y ctx)
        then shows_char (draw_cursor ctx) x y (swapped (char_at (cell_of ctx x y) ctx))
        else (x, y) \<noteq> (old_cursor_x ctx, old_cursor_y ctx) \<longrightarrow> shows_char (draw_cursor ctx) x y (grid (draw_cursor ctx) ! cell_of ctx x y)"
        using True d p(3,4) xy unfolding p(2) by (auto simp: displayed_def i_def)
    qed
  qed
  with c(1) show ?thesis by simp
qed

lemma flushing_step:
  assumes g: "fb_geometry ctx" and sz: "screen_sized ctx" and fl: "flushing n ctx s" and n: "n < unat (queue_i ctx)"
  shows "flushing (Suc n) ctx (flush_item n s)"
proof -
  have sh: "only_shown ctx s" using fl by (simp add: flushing_def)
  note f = only_shown_fields [OF sh]
  define x y i c where "x = qi_x (queue ctx ! n)" and "y = qi_y (queue ctx ! n)" and "i = item_cell n ctx" and "c = qi_c (queue ctx ! n)"
  have xy: "x < cols ctx" "y < rows ctx" using sz n by (simp_all add: screen_sized_def x_def y_def)
  have i: "i = cell_of ctx x y" "i < cells ctx"
    using cell_index [OF xy queue_ok_sized(2) [OF sz]] by (simp_all add: i_def item_cell_def cell_of_def x_def y_def)
  have len: "length (grid s) = cells ctx" "length (fb_map s) = cells ctx" using fl by (simp_all add: flushing_def)
  consider "fb_map s ! i = None" | "fb_map s ! i = Some n"
    using fl n by (auto simp: flushing_def i_def)
  then show ?thesis
  proof cases
    case 1
    then have e: "flush_item n s = s" by (simp add: flush_item_def Let_def f flip: i_def [unfolded item_cell_def])
    have "k \<noteq> n" if "j < cells ctx" "fb_map s ! j = Some k" for j k
      using fl that 1 by (auto simp: flushing_def i_def)
    then have "\<forall>j<cells ctx. \<forall>k. fb_map s ! j = Some k \<longrightarrow> Suc n \<le> k \<and> k < unat (queue_i ctx) \<and> item_cell k ctx = j"
      using fl by (fastforce simp: flushing_def Suc_le_eq le_less)
    moreover have "\<forall>k. Suc n \<le> k \<and> k < unat (queue_i ctx) \<longrightarrow> fb_map s ! item_cell k ctx \<in> {None, Some k}"
      using fl by (simp add: flushing_def)
    ultimately show ?thesis using fl unfolding e flushing_def by blast
  next
    case 2
    define p where "p = plot_char c x y s"
    have g': "fb_geometry s" "x < cols s" "y < rows s" using g xy by (simp_all add: f)
    note ps = plot_char_shows [OF g', where c = c, folded p_def]
    note pf = only_pixels_fields [OF ps(1)] only_shown_fields [OF only_pixels_shown(2) [OF ps(1)]]
    have "flush_item n s = p\<lparr>grid := (grid p)[i := c], fb_map := (fb_map p)[i := None]\<rparr>"
      using 2 by (simp add: flush_item_def Let_def f p_def x_def y_def c_def flip: i_def [unfolded item_cell_def])
    then have e: "flush_item n s = p\<lparr>grid := (grid s)[i := c], fb_map := (fb_map s)[i := None]\<rparr>"
      by (simp add: pf(1,2))
    have "char_at i s = char_at i ctx" using fl i(2) by (simp add: flushing_def)
    then have ch: "char_at i ctx = c" using 2 by (simp add: char_at_def [of i s] f c_def)
    have cur: "(x, y) \<noteq> (cursor_x ctx, cursor_y ctx)" if "cursor_drawn ctx"
      using fl that 2 i(1) by (auto simp: flushing_def)
    show ?thesis
      unfolding flushing_def
    proof (intro conjI)
      show "only_shown ctx (flush_item n s)"
        unfolding e by (rule only_shown_trans [OF sh only_pixels_shown(1) [OF ps(1)]])
      show "length (grid (flush_item n s)) = cells ctx" "length (fb_map (flush_item n s)) = cells ctx" by (simp_all add: e len)
      show "\<forall>k. Suc n \<le> k \<and> k < unat (queue_i ctx) \<longrightarrow> fb_map (flush_item n s) ! item_cell k ctx \<in> {None, Some k}"
      proof (intro allI impI)
        fix k assume "Suc n \<le> k \<and> k < unat (queue_i ctx)"
        then have "fb_map s ! item_cell k ctx \<in> {None, Some k}" using fl by (simp add: flushing_def)
        then show "fb_map (flush_item n s) ! item_cell k ctx \<in> {None, Some k}"
          using i(2) len by (cases "item_cell k ctx = i") (simp_all add: e)
      qed
      show "\<forall>j<cells ctx. \<forall>k. fb_map (flush_item n s) ! j = Some k \<longrightarrow> Suc n \<le> k \<and> k < unat (queue_i ctx) \<and> item_cell k ctx = j"
      proof (intro allI impI)
        fix j k assume j: "j < cells ctx" and k: "fb_map (flush_item n s) ! j = Some k"
        then have ne: "j \<noteq> i" using i(2) len by (auto simp: e)
        then have "fb_map s ! j = Some k" using k by (simp add: e)
        then have k: "n \<le> k \<and> k < unat (queue_i ctx) \<and> item_cell k ctx = j" using fl j by (simp add: flushing_def)
        with ne show "Suc n \<le> k \<and> k < unat (queue_i ctx) \<and> item_cell k ctx = j"
          by (cases "k = n") (auto simp: i_def)
      qed
      show "\<forall>j<cells ctx. char_at j (flush_item n s) = char_at j ctx"
      proof (intro allI impI)
        fix j assume j: "j < cells ctx"
        have "char_at j s = char_at j ctx" using fl j by (simp add: flushing_def)
        then show "char_at j (flush_item n s) = char_at j ctx"
          using len i(2) ch by (simp add: e char_at_update pf f)
      qed
      show "cursor_drawn ctx \<longrightarrow> fb_map (flush_item n s) ! cell_of ctx (cursor_x ctx) (cursor_y ctx) = None"
      proof
        assume "cursor_drawn ctx"
        then have "fb_map s ! cell_of ctx (cursor_x ctx) (cursor_y ctx) = None" using fl by (simp add: flushing_def)
        with i(2) len show "fb_map (flush_item n s) ! cell_of ctx (cursor_x ctx) (cursor_y ctx) = None"
          by (cases "cell_of ctx (cursor_x ctx) (cursor_y ctx) = i") (simp_all add: e)
      qed
      show "\<forall>x<cols ctx. \<forall>y<rows ctx.
         if cursor_drawn ctx \<and> (x, y) = (cursor_x ctx, cursor_y ctx)
         then shows_char (flush_item n s) x y (swapped (char_at (cell_of ctx x y) ctx))
         else (x, y) \<noteq> (old_cursor_x ctx, old_cursor_y ctx) \<longrightarrow> shows_char (flush_item n s) x y (grid (flush_item n s) ! cell_of ctx x y)"
      proof (intro allI impI)
        fix x' y' assume xy': "x' < cols ctx" "y' < rows ctx"
        show "if cursor_drawn ctx \<and> (x', y') = (cursor_x ctx, cursor_y ctx)
           then shows_char (flush_item n s) x' y' (swapped (char_at (cell_of ctx x' y') ctx))
           else (x', y') \<noteq> (old_cursor_x ctx, old_cursor_y ctx) \<longrightarrow> shows_char (flush_item n s) x' y' (grid (flush_item n s) ! cell_of ctx x' y')"
        proof (cases "(x', y') = (x, y)")
          case True
          then show ?thesis using ps(2) cur len i by (auto simp: e)
        next
          case False
          then have "cell_of ctx x' y' \<noteq> i" using cell_of_eq [OF xy' xy] by (simp add: i(1))
          moreover have "shows_char p x' y' d = shows_char s x' y' d" for d using ps(3) [of x' y' d] xy' False f by simp
          ultimately show ?thesis using fl xy' by (auto simp: e flushing_def)
        qed
      qed
    qed
  qed
qed

lemma flushing_fold:
  assumes "fb_geometry ctx" and "screen_sized ctx" and "flushing 0 ctx s" and "n \<le> unat (queue_i ctx)"
  shows "flushing n ctx (fold flush_item [0..<n] s)"
  using assms(4) by (induction n) (simp_all add: assms(3) flushing_step [OF assms(1,2)])

text \<open>The end of a flush: the old cursor is drawn over and the new one remembered.\<close>

definition redraw_old_cursor :: "'z fb_context_scheme \<Rightarrow> 'z fb_context_scheme" where
  "redraw_old_cursor ctx =
     (if ((old_cursor_x ctx, old_cursor_y ctx) \<noteq> (cursor_x ctx, cursor_y ctx) \<or> \<not> cursor_enabled ctx) \<and>
         old_cursor_x ctx < cols ctx \<and> old_cursor_y ctx < rows ctx
      then plot_char (grid ctx ! cell_of ctx (old_cursor_x ctx) (old_cursor_y ctx)) (old_cursor_x ctx) (old_cursor_y ctx) ctx
      else ctx)"

lemma redraw_old_cursor_shows:
  assumes g: "fb_geometry ctx" and fl: "flushing (unat (queue_i ctx)) ctx s" and u: "u = redraw_old_cursor s"
  shows "only_shown ctx u \<and> length (grid u) = cells ctx \<and> fb_map u = fb_map s \<and>
    (\<forall>i < cells ctx. fb_map u ! i = None \<and> grid u ! i = char_at i ctx) \<and>
    (\<forall>x < cols ctx. \<forall>y < rows ctx. cell_of ctx x y < cells ctx \<longrightarrow>
      shows_char u x y (if cursor_drawn ctx \<and> (x, y) = (cursor_x ctx, cursor_y ctx)
        then swapped (char_at (cell_of ctx x y) ctx) else char_at (cell_of ctx x y) ctx))"
proof -
  have sh: "only_shown ctx s" using fl by (simp add: flushing_def)
  note f = only_shown_fields [OF sh]
  have none: "\<forall>i < cells ctx. fb_map s ! i = None"
    using fl unfolding flushing_def by (metis leD option.exhaust)
  then have grid: "\<forall>i < cells ctx. grid s ! i = char_at i ctx"
    using fl unfolding flushing_def char_at_def by (metis option.case(1))
  define draw where "draw \<longleftrightarrow> ((old_cursor_x ctx, old_cursor_y ctx) \<noteq> (cursor_x ctx, cursor_y ctx) \<or> \<not> cursor_enabled ctx) \<and>
    old_cursor_x ctx < cols ctx \<and> old_cursor_y ctx < rows ctx"
  have un: "u = (if draw then plot_char (grid s ! cell_of ctx (old_cursor_x ctx) (old_cursor_y ctx)) (old_cursor_x ctx) (old_cursor_y ctx) s else s)"
    by (auto simp: u redraw_old_cursor_def draw_def f cell_of_def)
  have g': "fb_geometry s" using g by (simp add: f)
  have only: "only_pixels s u"
    using un plot_char_shows(1) [OF g'] by (auto simp: draw_def f only_pixels_def)
  have sh': "only_shown ctx u" by (rule only_shown_trans [OF sh only_pixels_shown(2) [OF only]])
  have cell_shows: "shows_char u x y (if cursor_drawn ctx \<and> (x, y) = (cursor_x ctx, cursor_y ctx)
      then swapped (char_at (cell_of ctx x y) ctx) else char_at (cell_of ctx x y) ctx)"
    if xy: "x < cols ctx" "y < rows ctx" and c: "cell_of ctx x y < cells ctx" for x y
  proof (cases "draw \<and> (x, y) = (old_cursor_x ctx, old_cursor_y ctx)")
    case True
    then have "\<not> (cursor_drawn ctx \<and> (x, y) = (cursor_x ctx, cursor_y ctx))" by (auto simp: draw_def cursor_drawn_def)
    moreover have "shows_char u x y (grid s ! cell_of ctx x y)"
      using True xy plot_char_shows(2) [OF g', of x y] by (auto simp: un f)
    ultimately show ?thesis using grid c by auto
  next
    case False
    have same: "shows_char u x y d = shows_char s x y d" for d
      using False plot_char_shows(3) [OF g', of "old_cursor_x ctx" "old_cursor_y ctx" x y] xy f by (auto simp: un draw_def)
    have cell: "if cursor_drawn ctx \<and> (x, y) = (cursor_x ctx, cursor_y ctx)
        then shows_char s x y (swapped (char_at (cell_of ctx x y) ctx))
        else (x, y) \<noteq> (old_cursor_x ctx, old_cursor_y ctx) \<longrightarrow> shows_char s x y (grid s ! cell_of ctx x y)"
      using fl xy unfolding flushing_def by blast
    have old: "(x, y) = (old_cursor_x ctx, old_cursor_y ctx) \<Longrightarrow> cursor_drawn ctx \<and> (x, y) = (cursor_x ctx, cursor_y ctx)"
      using False xy by (auto simp: draw_def cursor_drawn_def)
    have "shows_char u x y (if cursor_drawn ctx \<and> (x, y) = (cursor_x ctx, cursor_y ctx)
        then swapped (char_at (cell_of ctx x y) ctx) else grid s ! cell_of ctx x y)"
    proof (cases "cursor_drawn ctx \<and> (x, y) = (cursor_x ctx, cursor_y ctx)")
      case True
      show ?thesis using cell unfolding same if_P [OF True] .
    next
      case False
      with old have "(x, y) \<noteq> (old_cursor_x ctx, old_cursor_y ctx)" by blast
      with cell show ?thesis unfolding same if_not_P [OF False] by blast
    qed
    moreover have "grid s ! cell_of ctx x y = char_at (cell_of ctx x y) ctx" using grid c by blast
    ultimately show ?thesis by (simp only:)
  qed
  have u: "grid u = grid s" "fb_map u = fb_map s" using only_pixels_fields [OF only] .
  moreover have "length (grid s) = cells ctx" using fl by (simp add: flushing_def)
  ultimately have "length (grid u) = cells ctx" by simp
  moreover have "\<forall>i < cells ctx. fb_map u ! i = None \<and> grid u ! i = char_at i ctx" using none grid by (simp add: u)
  ultimately show ?thesis
    using sh' u(2) cell_shows by (intro conjI allI impI) (simp_all only: u)
qed

lemma flush_eq:
  assumes ok: "screen_sized ctx" and "only_shown ctx s"
    and s: "s = fold flush_item [0..<unat (queue_i ctx)] (if cursor_enabled ctx then draw_cursor ctx else ctx)"
    and i: "queue_i (if cursor_enabled ctx then draw_cursor ctx else ctx) = queue_i ctx"
  shows "flanterm_fb_double_buffer_flush ctx =
    notify_flush ((redraw_old_cursor s)\<lparr>old_cursor_x := cursor_x (redraw_old_cursor s), old_cursor_y := cursor_y (redraw_old_cursor s), queue_i := 0\<rparr>)"
proof -
  note f = only_shown_fields [OF assms(2)]
  have c: "unat (old_cursor_x s + old_cursor_y s * cols s) = cell_of s (old_cursor_x s) (old_cursor_y s)"
    if "old_cursor_x s < cols s" "old_cursor_y s < rows s"
    using cell_index(1) [OF that] queue_ok_sized(2) [OF ok] by (simp add: cell_of_def add.commute f)
  show ?thesis
    unfolding flanterm_fb_double_buffer_flush_def Let_def i s [symmetric]
    by (auto simp: redraw_old_cursor_def c)
qed

text \<open>What a flush may change.\<close>

definition only_flushed :: "'z fb_context_scheme \<Rightarrow> 'z fb_context_scheme \<Rightarrow> bool" where
  "only_flushed s t \<longleftrightarrow> t = s\<lparr>pixels := pixels t, grid := grid t, fb_map := fb_map t,
     old_cursor_x := cursor_x s, old_cursor_y := cursor_y s, queue_i := 0, flushes := flushes t\<rparr>"

lemma only_shown_flushed:
  assumes "only_shown s u"
  shows "only_flushed s (notify_flush (u\<lparr>old_cursor_x := cursor_x s, old_cursor_y := cursor_y s, queue_i := 0\<rparr>))"
proof -
  obtain p g m where u: "u = s\<lparr>pixels := p, grid := g, fb_map := m\<rparr>" using assms by (auto simp: only_shown_def)
  show ?thesis unfolding u by (simp add: only_flushed_def notify_flush_def)
qed

text \<open>A flush brings the frame buffer up to date, whatever is queued.\<close>

lemma flush_result:
  assumes g: "fb_geometry ctx" and ok: "queue_ok ctx" and d: "displayed ctx"
    and t: "t = flanterm_fb_double_buffer_flush ctx"
  shows "only_flushed ctx t \<and> queue_ok t \<and> displayed t \<and> (\<forall>j < cells ctx. char_at j t = char_at j ctx) \<and>
    screen_lines t = screen_lines ctx \<and>
    (\<forall>x < cols ctx. \<forall>y < rows ctx. let c = screen_lines ctx ! unat y ! unat x in
       shows_char t x y (if cursor_drawn ctx \<and> (x, y) = (cursor_x ctx, cursor_y ctx) then swapped c else c))"
proof -
  note sz = queue_ok_sized(1) [OF ok]
  define t1 where "t1 = (if cursor_enabled ctx then draw_cursor ctx else ctx)"
  have 1: "flushing 0 ctx t1" unfolding t1_def by (rule flushing_start [OF g ok d])
  then have i: "queue_i t1 = queue_i ctx" using only_shown_fields(4) by (auto simp: flushing_def)
  define s where "s = fold flush_item [0..<unat (queue_i ctx)] t1"
  have 2: "flushing (unat (queue_i ctx)) ctx s" unfolding s_def by (rule flushing_fold [OF g sz 1 order_refl])
  define u where "u = redraw_old_cursor s"
  note 3 = redraw_old_cursor_shows [OF g 2 u_def]
  note f = only_shown_fields [OF conjunct1 [OF 3]]
  have "only_shown ctx s" using 2 by (simp add: flushing_def)
  from flush_eq [OF sz this s_def [unfolded t1_def] i [unfolded t1_def]]
  have t: "t = notify_flush (u\<lparr>old_cursor_x := cursor_x ctx, old_cursor_y := cursor_y ctx, queue_i := 0\<rparr>)"
    by (simp add: t f flip: u_def)
  have same: "rows t = rows ctx" "cols t = cols ctx" "queue t = queue ctx" "queue_i t = 0" "grid t = grid u" "fb_map t = fb_map u"
    "old_cursor_x t = cursor_x ctx" "old_cursor_y t = cursor_y ctx" "\<And>x y c. shows_char t x y c = shows_char u x y c"
    by (simp_all add: t notify_flush_def f)
  have cells: "cells t = cells ctx" by (simp add: cells_def same)
  have ch: "char_at j t = char_at j ctx" if "j < cells ctx" for j
  proof -
    have "fb_map u ! j = None" "grid u ! j = char_at j ctx" using 3 that by blast+
    then show ?thesis by (simp add: char_at_def [of j t] same)
  qed
  have cell: "cell_of ctx x y < cells ctx" if "x < cols ctx" "y < rows ctx" for x y
    using cell_index(2) [OF that queue_ok_sized(2) [OF sz]] by (simp add: cell_of_def)
  have sc: "screen_lines ctx ! unat y ! unat x = char_at (cell_of ctx x y) ctx" if "x < cols ctx" "y < rows ctx" for x y
    using that by (simp add: screen_line_def cell_of_def word_less_nat_alt)
  have "length (fb_map u) = cells ctx" using 2 3 by (simp add: flushing_def)
  moreover have "length (grid u) = cells ctx" "\<forall>i < cells ctx. fb_map u ! i = None" using 3 by blast+
  ultimately have "queue_ok t" using sz by (simp add: queue_ok_def screen_sized_def same cells)
  moreover have "displayed t"
    unfolding displayed_def same
  proof (intro allI impI)
    fix x y assume xy: "x < cols ctx" "y < rows ctx" "(x, y) \<noteq> (cursor_x ctx, cursor_y ctx)"
    have "shows_char u x y (if cursor_drawn ctx \<and> (x, y) = (cursor_x ctx, cursor_y ctx)
        then swapped (char_at (cell_of ctx x y) ctx) else char_at (cell_of ctx x y) ctx)"
      and "grid u ! cell_of ctx x y = char_at (cell_of ctx x y) ctx"
      using 3 xy(1,2) cell by blast+
    with xy(3) show "shows_char u x y (grid u ! cell_of t x y)"
      by (auto simp: cell_of_def [of t] same cell_of_def [of ctx, symmetric] split: if_splits)
  qed
  moreover have "screen_lines t = screen_lines ctx"
    by (simp add: screen_lines_def screen_line_def same ch cell_below)
  moreover have "let c = screen_lines ctx ! unat y ! unat x in
       shows_char t x y (if cursor_drawn ctx \<and> (x, y) = (cursor_x ctx, cursor_y ctx) then swapped c else c)"
    if "x < cols ctx" "y < rows ctx" for x y
    using 3 that cell by (simp add: Let_def same sc)
  moreover have "only_flushed ctx t" unfolding t by (rule only_shown_flushed [OF conjunct1 [OF 3]])
  ultimately show ?thesis using ch by blast
qed

end
