(* ===== verification/Terminal_Attributes.thy ===== *)
theory Terminal_Attributes
  imports Fb_Screen Unicode_Tables
begin

unbundle bit_operations_syntax

text \<open>
  The terminal (\<open>src/kernel/src/logging/flanterm.c\<close>), first part: reset, the saved state,
  character attributes (SGR), modes, OSC strings and control characters. Calls through the
  function pointers of the context are calls of the functions of \<open>fb.c\<close>.
\<close>

definition CHARSET_DEFAULT :: u8 where "CHARSET_DEFAULT = 0"
definition CHARSET_DEC_SPECIAL :: u8 where "CHARSET_DEC_SPECIAL = 1"
definition FLANTERM_MAX_ESC_VALUES :: nat where "FLANTERM_MAX_ESC_VALUES = 16"

definition flanterm_context_reinit :: "'z fb_context_scheme \<Rightarrow> 'z fb_context_scheme" where
  "flanterm_context_reinit ctx =
     ctx\<lparr>tab_size := 8, autoflush := True, cursor_enabled := True, scroll_enabled := True, wrap_enabled := True,
       origin_mode := False, control_sequence := False, escape := False, osc := False, osc_escape := False,
       rrr := False, discard_next := False, bold := False, bg_bold := False, reverse_video := False,
       dec_private := False, insert_mode := False, csi_unhandled := False, unicode_remaining := 0, g_select := 0,
       charsets := [CHARSET_DEFAULT, CHARSET_DEC_SPECIAL], current_charset := 0, escape_offset := 0, esc_values_i := 0,
       saved_cursor_x := 0, saved_cursor_y := 0, current_primary := - 1, current_bg := - 1,
       saved_state_charsets := [CHARSET_DEFAULT, CHARSET_DEC_SPECIAL], saved_state_wrap_enabled := True,
       saved_state_current_primary := - 1, saved_state_current_bg := - 1, saved_state_scroll_top_margin := 0,
       saved_state_scroll_bottom_margin := rows ctx, last_printed_char := 0x20, last_was_graphic := False,
       scroll_top_margin := 0, scroll_bottom_margin := rows ctx\<rparr>"

definition callback :: "ft_event \<Rightarrow> 'z fb_context_scheme \<Rightarrow> 'z fb_context_scheme" where
  "callback e ctx = (if has_callback ctx then ctx\<lparr>ft_events := ft_events ctx @ [e]\<rparr> else ctx)"

subsection \<open>The saved state\<close>

definition restore_state :: "'z fb_context_scheme \<Rightarrow> 'z fb_context_scheme" where
  "restore_state ctx =
     flanterm_fb_restore_state (ctx\<lparr>bold := saved_state_bold ctx, bg_bold := saved_state_bg_bold ctx,
       reverse_video := saved_state_reverse_video ctx, origin_mode := saved_state_origin_mode ctx,
       wrap_enabled := saved_state_wrap_enabled ctx, current_charset := saved_state_current_charset ctx,
       charsets := saved_state_charsets ctx, current_primary := saved_state_current_primary ctx,
       current_bg := saved_state_current_bg ctx, scroll_top_margin := saved_state_scroll_top_margin ctx,
       scroll_bottom_margin := saved_state_scroll_bottom_margin ctx\<rparr>)"

definition save_state :: "'z fb_context_scheme \<Rightarrow> 'z fb_context_scheme" where
  "save_state ctx =
     (let ctx = flanterm_fb_save_state ctx
      in ctx\<lparr>saved_state_bold := bold ctx, saved_state_bg_bold := bg_bold ctx,
       saved_state_reverse_video := reverse_video ctx, saved_state_origin_mode := origin_mode ctx,
       saved_state_wrap_enabled := wrap_enabled ctx, saved_state_current_charset := current_charset ctx,
       saved_state_charsets := charsets ctx, saved_state_current_primary := current_primary ctx,
       saved_state_current_bg := current_bg ctx, saved_state_scroll_top_margin := scroll_top_margin ctx,
       saved_state_scroll_bottom_margin := scroll_bottom_margin ctx\<rparr>)"

subsection \<open>Attributes\<close>

definition sgr_reset :: "'z fb_context_scheme \<Rightarrow> 'z fb_context_scheme" where
  "sgr_reset ctx =
     (let ctx = (if reverse_video ctx then flanterm_fb_swap_palette (ctx\<lparr>reverse_video := False\<rparr>) else ctx);
          ctx = ctx\<lparr>bold := False, bg_bold := False, current_primary := - 1, current_bg := - 1\<rparr>
      in flanterm_fb_set_text_fg_default (flanterm_fb_set_text_bg_default ctx))"

definition sgr_bold :: "'z fb_context_scheme \<Rightarrow> 'z fb_context_scheme" where
  "sgr_bold ctx =
     (let ctx = ctx\<lparr>bold := True\<rparr>
      in if current_primary ctx = - 2 then ctx
         else if current_primary ctx \<noteq> - 1 then
           if \<not> reverse_video ctx then flanterm_fb_set_text_fg_bright (current_primary ctx) ctx
           else flanterm_fb_set_text_bg_bright (current_primary ctx) ctx
         else if \<not> reverse_video ctx then flanterm_fb_set_text_fg_default_bright ctx
         else flanterm_fb_set_text_bg_default_bright ctx)"

definition sgr_bg_bold :: "'z fb_context_scheme \<Rightarrow> 'z fb_context_scheme" where
  "sgr_bg_bold ctx =
     (let ctx = ctx\<lparr>bg_bold := True\<rparr>
      in if current_bg ctx = - 2 then ctx
         else if current_bg ctx \<noteq> - 1 then
           if \<not> reverse_video ctx then flanterm_fb_set_text_bg_bright (current_bg ctx) ctx
           else flanterm_fb_set_text_fg_bright (current_bg ctx) ctx
         else if \<not> reverse_video ctx then flanterm_fb_set_text_bg_default_bright ctx
         else flanterm_fb_set_text_fg_default_bright ctx)"

definition sgr_unbold :: "'z fb_context_scheme \<Rightarrow> 'z fb_context_scheme" where
  "sgr_unbold ctx =
     (let ctx = ctx\<lparr>bold := False\<rparr>
      in if current_primary ctx = - 2 then ctx
         else if current_primary ctx \<noteq> - 1 then
           if \<not> reverse_video ctx then flanterm_fb_set_text_fg (current_primary ctx) ctx
           else flanterm_fb_set_text_bg (current_primary ctx) ctx
         else if \<not> reverse_video ctx then flanterm_fb_set_text_fg_default ctx
         else flanterm_fb_set_text_bg_default ctx)"

definition sgr_bg_unbold :: "'z fb_context_scheme \<Rightarrow> 'z fb_context_scheme" where
  "sgr_bg_unbold ctx =
     (let ctx = ctx\<lparr>bg_bold := False\<rparr>
      in if current_bg ctx = - 2 then ctx
         else if current_bg ctx \<noteq> - 1 then
           if \<not> reverse_video ctx then flanterm_fb_set_text_bg (current_bg ctx) ctx
           else flanterm_fb_set_text_fg (current_bg ctx) ctx
         else if \<not> reverse_video ctx then flanterm_fb_set_text_bg_default ctx
         else flanterm_fb_set_text_fg_default ctx)"

text \<open>The labels \<open>set_fg\<close> and \<open>set_bg\<close>, with the colour \<open>esc_values[i] - offset\<close>.\<close>

definition sgr_set_fg :: "u64 \<Rightarrow> 'z fb_context_scheme \<Rightarrow> 'z fb_context_scheme" where
  "sgr_set_fg colour ctx =
     (if bold ctx \<and> \<not> reverse_video ctx \<or> bg_bold ctx \<and> reverse_video ctx
      then flanterm_fb_set_text_fg_bright colour ctx else flanterm_fb_set_text_fg colour ctx)"

definition sgr_set_bg :: "u64 \<Rightarrow> 'z fb_context_scheme \<Rightarrow> 'z fb_context_scheme" where
  "sgr_set_bg colour ctx =
     (if bold ctx \<and> reverse_video ctx \<or> bg_bold ctx \<and> \<not> reverse_video ctx
      then flanterm_fb_set_text_bg_bright colour ctx else flanterm_fb_set_text_bg colour ctx)"

definition sgr_default_fg :: "'z fb_context_scheme \<Rightarrow> 'z fb_context_scheme" where
  "sgr_default_fg ctx =
     (let ctx = ctx\<lparr>current_primary := - 1\<rparr>;
          ctx = (if reverse_video ctx then flanterm_fb_swap_palette ctx else ctx);
          ctx = (if \<not> bold ctx then flanterm_fb_set_text_fg_default ctx else flanterm_fb_set_text_fg_default_bright ctx)
      in if reverse_video ctx then flanterm_fb_swap_palette ctx else ctx)"

definition sgr_default_bg :: "'z fb_context_scheme \<Rightarrow> 'z fb_context_scheme" where
  "sgr_default_bg ctx =
     (let ctx = ctx\<lparr>current_bg := - 1\<rparr>;
          ctx = (if reverse_video ctx then flanterm_fb_swap_palette ctx else ctx);
          ctx = (if \<not> bg_bold ctx then flanterm_fb_set_text_bg_default ctx else flanterm_fb_set_text_bg_default_bright ctx)
      in if reverse_video ctx then flanterm_fb_swap_palette ctx else ctx)"

definition sgr_reverse :: "bool \<Rightarrow> 'z fb_context_scheme \<Rightarrow> 'z fb_context_scheme" where
  "sgr_reverse on ctx =
     (if reverse_video ctx \<noteq> on then flanterm_fb_swap_palette (ctx\<lparr>reverse_video := on\<rparr>) else ctx)"

text \<open>The parameters of one value, every one but 38 and 48.\<close>

definition sgr_single :: "u32 \<Rightarrow> 'z fb_context_scheme \<Rightarrow> 'z fb_context_scheme" where
  "sgr_single v ctx =
     (if v = 0 then sgr_reset ctx
      else if v = 1 then sgr_bold ctx
      else if v = 2 \<or> v = 3 \<or> v = 4 \<or> v = 8 then ctx
      else if v = 5 then sgr_bg_bold ctx
      else if v = 22 then sgr_unbold ctx
      else if v = 23 \<or> v = 24 \<or> v = 28 then ctx
      else if v = 25 then sgr_bg_unbold ctx
      else if v \<ge> 30 \<and> v \<le> 37 then
        let colour = ucast v - 30; ctx = ctx\<lparr>current_primary := colour\<rparr>
        in if reverse_video ctx then sgr_set_bg colour ctx else sgr_set_fg colour ctx
      else if v \<ge> 40 \<and> v \<le> 47 then
        let colour = ucast v - 40; ctx = ctx\<lparr>current_bg := colour\<rparr>
        in if reverse_video ctx then sgr_set_fg colour ctx else sgr_set_bg colour ctx
      else if v \<ge> 90 \<and> v \<le> 97 then
        let colour = ucast v - 90; ctx = ctx\<lparr>current_primary := colour\<rparr>
        in if reverse_video ctx then flanterm_fb_set_text_bg_bright colour ctx else flanterm_fb_set_text_fg_bright colour ctx
      else if v \<ge> 100 \<and> v \<le> 107 then
        let colour = ucast v - 100; ctx = ctx\<lparr>current_bg := colour\<rparr>
        in if reverse_video ctx then flanterm_fb_set_text_fg_bright colour ctx else flanterm_fb_set_text_bg_bright colour ctx
      else if v = 39 then sgr_default_fg ctx
      else if v = 49 then sgr_default_bg ctx
      else if v = 7 then sgr_reverse True ctx
      else if v = 27 then sgr_reverse False ctx
      else ctx)"

definition sgr_rgb :: "bool \<Rightarrow> bool \<Rightarrow> u32 \<Rightarrow> 'z fb_context_scheme \<Rightarrow> 'z fb_context_scheme" where
  "sgr_rgb fg render_fg rgb_value ctx =
     (let ctx = (if fg then ctx\<lparr>current_primary := - 2\<rparr> else ctx\<lparr>current_bg := - 2\<rparr>)
      in if render_fg then flanterm_fb_set_text_fg_rgb rgb_value ctx else flanterm_fb_set_text_bg_rgb rgb_value ctx)"

definition sgr_256 :: "bool \<Rightarrow> bool \<Rightarrow> u32 \<Rightarrow> 'z fb_context_scheme \<Rightarrow> 'z fb_context_scheme" where
  "sgr_256 fg render_fg col ctx =
     (let ctx' = (if fg then ctx\<lparr>current_primary := - 2\<rparr> else ctx\<lparr>current_bg := - 2\<rparr>)
      in if col < 8 then
           if render_fg then flanterm_fb_set_text_fg (ucast col) ctx' else flanterm_fb_set_text_bg (ucast col) ctx'
         else if col < 16 then
           if render_fg then flanterm_fb_set_text_fg_bright (ucast col - 8) ctx'
           else flanterm_fb_set_text_bg_bright (ucast col - 8) ctx'
         else if col < 256 then
           let rgb_value = col256 ! unat (col - 16)
           in if render_fg then flanterm_fb_set_text_fg_rgb rgb_value ctx' else flanterm_fb_set_text_bg_rgb rgb_value ctx'
         else ctx)"

text \<open>The loop over the parameters: its list is what the index has not passed yet.\<close>

fun sgr_loop :: "u32 list \<Rightarrow> 'z fb_context_scheme \<Rightarrow> 'z fb_context_scheme" where
  "sgr_loop [] ctx = ctx"
| "sgr_loop (v # vs) ctx =
     (if v = 38 \<or> v = 48 then
        let fg = (v = 38); render_fg = (if reverse_video ctx then \<not> fg else fg)
        in case vs of
             [] \<Rightarrow> ctx
           | m # ws \<Rightarrow>
               if m = 2 then
                 (case ws of
                    r # g # b # us \<Rightarrow>
                      sgr_loop us (sgr_rgb fg render_fg (push_bit 16 (r AND 0xff) OR push_bit 8 (g AND 0xff) OR (b AND 0xff)) ctx)
                  | _ \<Rightarrow> ctx)
               else if m = 5 then
                 (case ws of [] \<Rightarrow> ctx | col # us \<Rightarrow> sgr_loop us (sgr_256 fg render_fg col ctx))
               else sgr_loop ws ctx
      else sgr_loop vs (sgr_single v ctx))"

definition sgr :: "'z fb_context_scheme \<Rightarrow> 'z fb_context_scheme" where
  "sgr ctx =
     (if esc_values_i ctx = 0 then sgr_reset ctx
      else sgr_loop (take (unat (esc_values_i ctx)) (esc_values ctx)) ctx)"

end
