(* ===== verification/Terminal_Csi.thy ===== *)
theory Terminal_Csi
  imports Terminal_Attributes
begin

unbundle bit_operations_syntax

text \<open>
  The terminal (\<open>src/kernel/src/logging/flanterm.c\<close>), second part: private modes, OSC strings,
  control characters and control sequences. One definition per command of a control sequence;
  \<open>x\<close> and \<open>y\<close> are the cursor position read before the switch. The loops that count down to a
  column end because the last column is at least 1; on a screen without columns, which the
  invariant of the terminal excludes, the C loops would not.
\<close>

subsection \<open>Modes and strings\<close>

definition esc_list :: "'z fb_context_scheme \<Rightarrow> u32 list" where
  "esc_list ctx = take (unat (esc_values_i ctx)) (esc_values ctx)"

definition dec_mode :: "bool \<Rightarrow> u32 \<Rightarrow> 'z fb_context_scheme \<Rightarrow> 'z fb_context_scheme" where
  "dec_mode on v ctx =
     (if v = 6 then
        let ctx = ctx\<lparr>origin_mode := on\<rparr> in flanterm_fb_set_cursor_pos 0 (if on then scroll_top_margin ctx else 0) ctx
      else if v = 7 then ctx\<lparr>wrap_enabled := on\<rparr>
      else if v = 25 then ctx\<lparr>cursor_enabled := on\<rparr>
      else if v = 1049 then
        if on then
          let ctx = save_state ctx; ctx = ctx\<lparr>scroll_top_margin := 0, scroll_bottom_margin := rows ctx\<rparr>
          in flanterm_fb_clear True ctx
        else restore_state (flanterm_fb_clear True ctx)
      else ctx)"

definition dec_private_parse :: "u8 \<Rightarrow> 'z fb_context_scheme \<Rightarrow> 'z fb_context_scheme" where
  "dec_private_parse c ctx =
     (let ctx = ctx\<lparr>dec_private := False\<rparr>
      in if esc_values_i ctx = 0 then ctx
         else if c \<noteq> 0x68 \<and> c \<noteq> 0x6c then ctx
         else let ctx = fold (dec_mode (c = 0x68)) (esc_list ctx) ctx
           in callback (CB_Dec (esc_values_i ctx) (esc_list ctx) c) ctx)"

definition linux_private_parse :: "'z fb_context_scheme \<Rightarrow> 'z fb_context_scheme" where
  "linux_private_parse ctx =
     (if esc_values_i ctx = 0 then ctx else callback (CB_Linux (esc_values_i ctx) (esc_list ctx)) ctx)"

definition mode_toggle :: "u8 \<Rightarrow> 'z fb_context_scheme \<Rightarrow> 'z fb_context_scheme" where
  "mode_toggle c ctx =
     (if esc_values_i ctx = 0 then ctx
      else if c \<noteq> 0x68 \<and> c \<noteq> 0x6c then ctx
      else if esc_values ctx ! 0 = 4 then ctx\<lparr>insert_mode := (c = 0x68)\<rparr>
      else callback (CB_Mode (esc_values_i ctx) (esc_list ctx) c) ctx)"

fun osc_number :: "u8 list \<Rightarrow> u64 \<Rightarrow> u64 \<Rightarrow> u64 \<times> u64" where
  "osc_number [] n i = (n, i)"
| "osc_number (c # cs) n i =
     (if c \<ge> 0x30 \<and> c \<le> 0x39 then osc_number cs (n * 10 + (ucast c - 0x30)) (i + 1) else (n, i))"

definition osc_finalize :: "'z fb_context_scheme \<Rightarrow> 'z fb_context_scheme" where
  "osc_finalize ctx =
     (let (osc_num, i) = osc_number (take (unat (osc_buf_i ctx)) (osc_buf ctx)) 0 0;
          i = (if i < osc_buf_i ctx \<and> osc_buf ctx ! unat i = 0x3b then i + 1 else i)
      in callback (CB_Osc osc_num (osc_buf_i ctx - i) (drop (unat i) (osc_buf ctx))) ctx)"

definition osc_parse :: "u8 \<Rightarrow> 'z fb_context_scheme \<Rightarrow> bool \<times> 'z fb_context_scheme" where
  "osc_parse c ctx =
     (if osc_escape ctx then
        if c = 0x5c then (True, (osc_finalize ctx)\<lparr>osc := False, osc_escape := False, escape := False\<rparr>)
        else (False, ctx\<lparr>osc_escape := False, osc := False\<rparr>)
      else if c = 0x1b then (True, ctx\<lparr>osc_escape := True\<rparr>)
      else if c = 0x07 then (True, (osc_finalize ctx)\<lparr>osc_escape := False, osc := False, escape := False\<rparr>)
      else if osc_buf_i ctx < 256 then
        (True, ctx\<lparr>osc_buf := (osc_buf ctx)[unat (osc_buf_i ctx) := c], osc_buf_i := osc_buf_i ctx + 1\<rparr>)
      else (True, ctx))"

subsection \<open>Control characters\<close>

definition line_feed :: "u64 \<Rightarrow> u64 \<Rightarrow> 'z fb_context_scheme \<Rightarrow> 'z fb_context_scheme" where
  "line_feed x y ctx =
     (if y = scroll_bottom_margin ctx - 1 then flanterm_fb_set_cursor_pos x y (flanterm_fb_scroll ctx)
      else if y < rows ctx - 1 then flanterm_fb_set_cursor_pos x (y + 1) ctx else ctx)"

definition execute_c0 :: "u8 \<Rightarrow> 'z fb_context_scheme \<Rightarrow> bool \<times> 'z fb_context_scheme" where
  "execute_c0 c ctx =
     (let (x, y) = flanterm_fb_get_cursor_pos ctx
      in if c = 0x07 then (True, callback CB_Bell ctx)
         else if c = 0x08 then (True, if x > 0 then flanterm_fb_set_cursor_pos (x - 1) y ctx else ctx)
         else if c = 0x09 then
           let x = (x div tab_size ctx + 1) * tab_size ctx; x = (if x \<ge> cols ctx then cols ctx - 1 else x)
           in (True, flanterm_fb_set_cursor_pos x y ctx)
         else if c = 0x0b \<or> c = 0x0c \<or> c = 0x0a then (True, line_feed x y ctx)
         else if c = 0x0d then (True, flanterm_fb_set_cursor_pos 0 y ctx)
         else if c = 14 then (True, ctx\<lparr>current_charset := 1\<rparr>)
         else if c = 15 then (True, ctx\<lparr>current_charset := 0\<rparr>)
         else (False, ctx))"

subsection \<open>Commands of control sequences\<close>

text \<open>A parameter as a \<open>size_t\<close>, and the assignment to one.\<close>

definition param :: "nat \<Rightarrow> 'z fb_context_scheme \<Rightarrow> u64" where
  "param k ctx = ucast (esc_values ctx ! k)"

definition set_param :: "nat \<Rightarrow> u64 \<Rightarrow> 'z fb_context_scheme \<Rightarrow> 'z fb_context_scheme" where
  "set_param k v ctx = ctx\<lparr>esc_values := (esc_values ctx)[k := ucast v]\<rparr>"

text \<open>The test that limits a parameter before it is used.\<close>

definition limit_param :: "nat \<Rightarrow> bool \<Rightarrow> u64 \<Rightarrow> 'z fb_context_scheme \<Rightarrow> 'z fb_context_scheme" where
  "limit_param k too_big v ctx = (if too_big then set_param k v ctx else ctx)"

definition decrement_param :: "nat \<Rightarrow> 'z fb_context_scheme \<Rightarrow> 'z fb_context_scheme" where
  "decrement_param k ctx = (if param k ctx \<noteq> 0 then set_param k (param k ctx - 1) ctx else ctx)"

definition put_spaces :: "nat \<Rightarrow> 'z fb_context_scheme \<Rightarrow> 'z fb_context_scheme" where
  "put_spaces n = flanterm_fb_raw_putchar 0x20 ^^ n"

definition csi_up :: "u64 \<Rightarrow> u64 \<Rightarrow> 'z fb_context_scheme \<Rightarrow> 'z fb_context_scheme" where
  "csi_up x y ctx =
     (let ctx = limit_param 0 (param 0 ctx > y) y ctx;
          dest_y = y - param 0 ctx;
          min_y = (if origin_mode ctx then scroll_top_margin ctx else 0);
          dest_y = (if dest_y < min_y then min_y else dest_y)
      in flanterm_fb_set_cursor_pos x dest_y ctx)"

definition csi_down :: "u64 \<Rightarrow> u64 \<Rightarrow> 'z fb_context_scheme \<Rightarrow> 'z fb_context_scheme" where
  "csi_down x y ctx =
     (let ctx = limit_param 0 (y + param 0 ctx > rows ctx - 1) (rows ctx - 1 - y) ctx;
          dest_y = y + param 0 ctx;
          max_y = (if origin_mode ctx then scroll_bottom_margin ctx else rows ctx);
          dest_y = (if dest_y \<ge> max_y then max_y - 1 else dest_y)
      in flanterm_fb_set_cursor_pos x dest_y ctx)"

definition csi_right :: "u64 \<Rightarrow> u64 \<Rightarrow> 'z fb_context_scheme \<Rightarrow> 'z fb_context_scheme" where
  "csi_right x y ctx =
     (let ctx = limit_param 0 (x + param 0 ctx > cols ctx - 1) (cols ctx - 1 - x) ctx
      in flanterm_fb_set_cursor_pos (x + param 0 ctx) y ctx)"

definition csi_left :: "u64 \<Rightarrow> u64 \<Rightarrow> 'z fb_context_scheme \<Rightarrow> 'z fb_context_scheme" where
  "csi_left x y ctx =
     (let ctx = limit_param 0 (param 0 ctx > x) x ctx in flanterm_fb_set_cursor_pos (x - param 0 ctx) y ctx)"

text \<open>The row a command may address and where rows start, with the origin mode.\<close>

definition row_range :: "'z fb_context_scheme \<Rightarrow> u64 \<times> u64" where
  "row_range ctx =
     (if origin_mode ctx then (scroll_bottom_margin ctx - scroll_top_margin ctx, scroll_top_margin ctx) else (rows ctx, 0))"

definition csi_row :: "u64 \<Rightarrow> 'z fb_context_scheme \<Rightarrow> 'z fb_context_scheme" where
  "csi_row x ctx =
     (let ctx = decrement_param 0 ctx; (max_row, row_offset) = row_range ctx;
          ctx = limit_param 0 (param 0 ctx \<ge> max_row) (max_row - 1) ctx
      in flanterm_fb_set_cursor_pos x (param 0 ctx + row_offset) ctx)"

definition csi_column :: "u64 \<Rightarrow> 'z fb_context_scheme \<Rightarrow> 'z fb_context_scheme" where
  "csi_column y ctx =
     (let ctx = decrement_param 0 ctx; ctx = limit_param 0 (param 0 ctx \<ge> cols ctx) (cols ctx - 1) ctx
      in flanterm_fb_set_cursor_pos (param 0 ctx) y ctx)"

definition csi_position :: "'z fb_context_scheme \<Rightarrow> 'z fb_context_scheme" where
  "csi_position ctx =
     (let ctx = decrement_param 1 (decrement_param 0 ctx); (max_row, row_offset) = row_range ctx;
          ctx = limit_param 1 (param 1 ctx \<ge> cols ctx) (cols ctx - 1) ctx;
          ctx = limit_param 0 (param 0 ctx \<ge> max_row) (max_row - 1) ctx
      in flanterm_fb_set_cursor_pos (param 1 ctx) (param 0 ctx + row_offset) ctx)"

text \<open>Deleting and inserting lines: the top margin is moved to the cursor meanwhile.\<close>

definition scroll_from :: "('z fb_context_scheme \<Rightarrow> 'z fb_context_scheme) \<Rightarrow> u64 \<Rightarrow> 'z fb_context_scheme \<Rightarrow> 'z fb_context_scheme" where
  "scroll_from scr y ctx =
     (if y < scroll_top_margin ctx \<or> y \<ge> scroll_bottom_margin ctx then ctx
      else let old_scroll_top_margin = scroll_top_margin ctx;
               ctx = ctx\<lparr>scroll_top_margin := y\<rparr>;
               max_count = scroll_bottom_margin ctx - y;
               count = (if param 0 ctx > max_count then max_count else param 0 ctx);
               ctx = (scr ^^ unat count) ctx
        in ctx\<lparr>scroll_top_margin := old_scroll_top_margin\<rparr>)"

definition scroll_region :: "('z fb_context_scheme \<Rightarrow> 'z fb_context_scheme) \<Rightarrow> 'z fb_context_scheme \<Rightarrow> 'z fb_context_scheme" where
  "scroll_region scr ctx =
     (let region = scroll_bottom_margin ctx - scroll_top_margin ctx;
          count = (if param 0 ctx > region then region else param 0 ctx)
      in (scr ^^ unat count) ctx)"

definition csi_report :: "u64 \<Rightarrow> u64 \<Rightarrow> 'z fb_context_scheme \<Rightarrow> 'z fb_context_scheme" where
  "csi_report x y ctx =
     (if param 0 ctx = 5 then callback CB_Status_Report ctx
      else if param 0 ctx = 6 then
        let report_y = (if origin_mode ctx \<and> y \<ge> scroll_top_margin ctx then y - scroll_top_margin ctx else y)
        in callback (CB_Pos_Report (x + 1) (report_y + 1)) ctx
      else ctx)"

subsection \<open>Erasing, inserting and deleting\<close>

definition clear_lines :: "u64 list \<Rightarrow> 'z fb_context_scheme \<Rightarrow> 'z fb_context_scheme" where
  "clear_lines ys ctx = fold (\<lambda>yc ctx. put_spaces (unat (cols ctx)) (flanterm_fb_set_cursor_pos 0 yc ctx)) ys ctx"

definition csi_erase_display :: "u64 \<Rightarrow> u64 \<Rightarrow> 'z fb_context_scheme \<Rightarrow> 'z fb_context_scheme" where
  "csi_erase_display x y ctx =
     (if param 0 ctx = 0 then
        let ctx = put_spaces (unat (cols ctx) - unat x) (flanterm_fb_set_cursor_pos x y ctx);
            ctx = clear_lines (map of_nat [unat (y + 1)..<unat (rows ctx)]) ctx
        in flanterm_fb_set_cursor_pos x y ctx
      else if param 0 ctx = 1 then
        let ctx = clear_lines (map of_nat [0..<unat y]) ctx;
            ctx = put_spaces (unat x + 1) (flanterm_fb_set_cursor_pos 0 y ctx)
        in flanterm_fb_set_cursor_pos x y ctx
      else if param 0 ctx = 2 \<or> param 0 ctx = 3 then flanterm_fb_clear False ctx
      else ctx)"

definition csi_erase_line :: "u64 \<Rightarrow> u64 \<Rightarrow> 'z fb_context_scheme \<Rightarrow> 'z fb_context_scheme" where
  "csi_erase_line x y ctx =
     (if param 0 ctx = 0 then
        flanterm_fb_set_cursor_pos x y (put_spaces (unat (cols ctx) - unat x) (flanterm_fb_set_cursor_pos x y ctx))
      else if param 0 ctx = 1 then
        flanterm_fb_set_cursor_pos x y (put_spaces (unat x + 1) (flanterm_fb_set_cursor_pos 0 y ctx))
      else if param 0 ctx = 2 then
        flanterm_fb_set_cursor_pos x y (put_spaces (unat (cols ctx)) (flanterm_fb_set_cursor_pos 0 y ctx))
      else ctx)"

text \<open>The loop \<open>for (i = cols - 1; i >= x + count; i--)\<close> that moves the rest of a line to the right.\<close>

definition shift_right :: "u64 \<Rightarrow> u64 \<Rightarrow> u64 \<Rightarrow> 'z fb_context_scheme \<Rightarrow> 'z fb_context_scheme" where
  "shift_right x y count ctx =
     fold (\<lambda>i. flanterm_fb_move_character (of_nat i) y (of_nat i - count) y) (rev [unat (x + count)..<unat (cols ctx)]) ctx"

definition csi_insert_chars :: "u64 \<Rightarrow> u64 \<Rightarrow> 'z fb_context_scheme \<Rightarrow> 'z fb_context_scheme" where
  "csi_insert_chars x y ctx =
     (let n = param 0 ctx
      in if n = 0 then ctx
         else let n = (if n > cols ctx - x then cols ctx - x else n);
                  ctx = shift_right x y n ctx;
                  ctx = put_spaces (unat n) (flanterm_fb_set_cursor_pos x y ctx)
           in flanterm_fb_set_cursor_pos x y ctx)"

definition csi_erase_chars :: "u64 \<Rightarrow> u64 \<Rightarrow> 'z fb_context_scheme \<Rightarrow> 'z fb_context_scheme" where
  "csi_erase_chars x y ctx =
     (let (cx, cy) = flanterm_fb_get_cursor_pos ctx;
          ctx = flanterm_fb_set_cursor_pos cx cy ctx;
          remaining = cols ctx - cx;
          count = (if param 0 ctx > remaining then remaining else param 0 ctx)
      in flanterm_fb_set_cursor_pos x y (put_spaces (unat count) ctx))"

definition csi_delete_chars :: "u64 \<Rightarrow> u64 \<Rightarrow> 'z fb_context_scheme \<Rightarrow> 'z fb_context_scheme" where
  "csi_delete_chars x y ctx =
     (let ctx = limit_param 0 (param 0 ctx > cols ctx - x) (cols ctx - x) ctx;
          n = param 0 ctx;
          ctx = fold (\<lambda>i. flanterm_fb_move_character (of_nat i - n) y (of_nat i) y) [unat (x + n)..<unat (cols ctx)] ctx
      in csi_erase_chars x y (flanterm_fb_set_cursor_pos (cols ctx - param 0 ctx) y ctx))"

subsection \<open>Margins and repetition\<close>

definition csi_margins :: "'z fb_context_scheme \<Rightarrow> 'z fb_context_scheme" where
  "csi_margins ctx =
     (let top_margin = (if esc_values_i ctx > 0 then ucast (esc_values ctx ! 0 - 1) else 0);
          bottom_margin = (if esc_values_i ctx > 1 then param 1 ctx else rows ctx);
          reset = (top_margin \<ge> rows ctx \<or> bottom_margin > rows ctx \<or> top_margin \<ge> bottom_margin - 1);
          ctx = ctx\<lparr>scroll_top_margin := if reset then 0 else top_margin,
                    scroll_bottom_margin := if reset then rows ctx else bottom_margin\<rparr>
      in flanterm_fb_set_cursor_pos 0 (if origin_mode ctx then scroll_top_margin ctx else 0) ctx)"

definition repeat_char :: "'z fb_context_scheme \<Rightarrow> 'z fb_context_scheme" where
  "repeat_char ctx =
     (let ctx = (if insert_mode ctx then
          let (ix, iy) = flanterm_fb_get_cursor_pos ctx
          in fold (\<lambda>j. flanterm_fb_move_character (of_nat j) iy (of_nat j - 1) iy) (rev [unat ix + 1..<unat (cols ctx)]) ctx
        else ctx)
      in flanterm_fb_raw_putchar (last_printed_char ctx) ctx)"

definition csi_repeat :: "bool \<Rightarrow> bool \<Rightarrow> 'z fb_context_scheme \<Rightarrow> 'z fb_context_scheme" where
  "csi_repeat r saved_wrap ctx =
     (if \<not> last_was_graphic ctx then ctx
      else let ctx = ctx\<lparr>scroll_enabled := r, wrap_enabled := saved_wrap\<rparr>;
               count = (if param 0 ctx > 65535 then 65535 else param 0 ctx)
        in (repeat_char ^^ unat count) ctx)"

subsection \<open>The control sequence parser\<close>

text \<open>The switch on the final byte, but for ESC and the bytes that do not end a sequence.\<close>

definition csi_command :: "bool \<Rightarrow> bool \<Rightarrow> u64 \<Rightarrow> u64 \<Rightarrow> u8 \<Rightarrow> 'z fb_context_scheme \<Rightarrow> 'z fb_context_scheme" where
  "csi_command r saved_wrap x y c ctx =
     (if c = 0x46 then csi_up 0 y ctx
      else if c = 0x41 then csi_up x y ctx
      else if c = 0x45 then csi_down 0 y ctx
      else if c = 0x65 \<or> c = 0x42 then csi_down x y ctx
      else if c = 0x61 \<or> c = 0x43 then csi_right x y ctx
      else if c = 0x44 then csi_left x y ctx
      else if c = 0x63 then callback CB_Private_Id ctx
      else if c = 0x64 then csi_row x ctx
      else if c = 0x47 \<or> c = 0x60 then csi_column y ctx
      else if c = 0x48 \<or> c = 0x66 then csi_position ctx
      else if c = 0x4d then scroll_from flanterm_fb_scroll y ctx
      else if c = 0x4c then scroll_from flanterm_fb_revscroll y ctx
      else if c = 0x6e then csi_report x y ctx
      else if c = 0x71 then callback (CB_Kbd_Leds (esc_values ctx ! 0)) ctx
      else if c = 0x4a then csi_erase_display x y ctx
      else if c = 0x40 then csi_insert_chars x y ctx
      else if c = 0x50 then csi_delete_chars x y ctx
      else if c = 0x58 then csi_erase_chars x y ctx
      else if c = 0x6d then sgr ctx
      else if c = 0x73 then ctx\<lparr>saved_cursor_x := fst (flanterm_fb_get_cursor_pos ctx),
        saved_cursor_y := snd (flanterm_fb_get_cursor_pos ctx)\<rparr>
      else if c = 0x75 then flanterm_fb_set_cursor_pos (saved_cursor_x ctx) (saved_cursor_y ctx) ctx
      else if c = 0x4b then csi_erase_line x y ctx
      else if c = 0x72 then csi_margins ctx
      else if c = 0x6c \<or> c = 0x68 then mode_toggle c ctx
      else if c = 0x53 then scroll_region flanterm_fb_scroll ctx
      else if c = 0x54 then scroll_region flanterm_fb_revscroll ctx
      else if c = 0x62 then csi_repeat r saved_wrap ctx
      else if c = 0x5d then linux_private_parse ctx
      else ctx)"

definition csi_cleanup :: "'z fb_context_scheme \<Rightarrow> 'z fb_context_scheme" where
  "csi_cleanup ctx = ctx\<lparr>control_sequence := False, escape := False\<rparr>"

text \<open>Every byte the switch names is between 0x40 and 0x7E, so its default case is the test on \<open>c\<close>.\<close>

definition csi_execute :: "u8 \<Rightarrow> 'z fb_context_scheme \<Rightarrow> 'z fb_context_scheme" where
  "csi_execute c ctx =
     (let r = scroll_enabled ctx; saved_wrap = wrap_enabled ctx;
          ctx = ctx\<lparr>scroll_enabled := False, wrap_enabled := True\<rparr>;
          (x, y) = flanterm_fb_get_cursor_pos ctx
      in if c = 0x1b then
           ctx\<lparr>scroll_enabled := r, wrap_enabled := saved_wrap, control_sequence := False, escape_offset := 0\<rparr>
         else if c \<ge> 0x40 \<and> c \<le> 0x7e then
           csi_cleanup ((csi_command r saved_wrap x y c ctx)\<lparr>scroll_enabled := r, wrap_enabled := saved_wrap\<rparr>)
         else ctx\<lparr>scroll_enabled := r, wrap_enabled := saved_wrap, csi_unhandled := True\<rparr>)"

definition csi_digit :: "u8 \<Rightarrow> 'z fb_context_scheme \<Rightarrow> 'z fb_context_scheme" where
  "csi_digit c ctx =
     (if esc_values_i ctx = of_nat FLANTERM_MAX_ESC_VALUES then ctx
      else let i = unat (esc_values_i ctx); ctx = ctx\<lparr>rrr := True\<rparr>; v = esc_values ctx ! i
        in if v > 0xFFFFFFFF div 10 then ctx
           else let digit = ucast c - 0x30; v = v * 10
             in ctx\<lparr>esc_values := (esc_values ctx)[i := if v > 0xFFFFFFFF - digit then 0xFFFFFFFF else v + digit]\<rparr>)"

definition csi_defaults :: "u8 \<Rightarrow> 'z fb_context_scheme \<Rightarrow> 'z fb_context_scheme" where
  "csi_defaults c ctx =
     (let esc_default = (if c \<in> {0x4a, 0x4b, 0x71, 0x6d, 0x63, 0x5d} then 0 else 1);
          n = unat (esc_values_i ctx);
          given = take n (esc_values ctx);
          given = (if esc_default \<noteq> 0 then map (\<lambda>v. if v = 0 then esc_default else v) given else given)
      in ctx\<lparr>esc_values := given @ replicate (FLANTERM_MAX_ESC_VALUES - n) esc_default\<rparr>)"

definition csi_final :: "u8 \<Rightarrow> 'z fb_context_scheme \<Rightarrow> 'z fb_context_scheme" where
  "csi_final c ctx =
     (let ctx = csi_defaults c ctx
      in if dec_private ctx then csi_cleanup (dec_private_parse c ctx)
         else if csi_unhandled ctx then
           if c = 0x1b then ctx\<lparr>csi_unhandled := False, control_sequence := False, escape_offset := 0\<rparr>
           else if c \<ge> 0x40 \<and> c \<le> 0x7e then csi_cleanup (ctx\<lparr>csi_unhandled := False\<rparr>)
           else ctx
         else csi_execute c ctx)"

definition control_sequence_parse :: "u8 \<Rightarrow> 'z fb_context_scheme \<Rightarrow> 'z fb_context_scheme" where
  "control_sequence_parse c ctx =
     (if escape_offset ctx = 2 \<and> c = 0x5b then csi_cleanup (ctx\<lparr>discard_next := True\<rparr>)
      else if escape_offset ctx = 2 \<and> c = 0x3f then ctx\<lparr>dec_private := True\<rparr>
      else if c < 0x20 \<and> c \<noteq> 0x1b then snd (execute_c0 c ctx)
      else if c \<ge> 0x30 \<and> c \<le> 0x39 then csi_digit c ctx
      else if rrr ctx then
        let ctx = ctx\<lparr>esc_values_i := esc_values_i ctx + 1, rrr := False\<rparr>
        in if c = 0x3b then ctx else csi_final c ctx
      else if c = 0x3b then
        if esc_values_i ctx = of_nat FLANTERM_MAX_ESC_VALUES then ctx
        else ctx\<lparr>esc_values := (esc_values ctx)[unat (esc_values_i ctx) := 0], esc_values_i := esc_values_i ctx + 1\<rparr>
      else csi_final c ctx)"

end
