(* ===== verification/Terminal.thy ===== *)
theory Terminal
  imports Terminal_Csi
begin

unbundle bit_operations_syntax

text \<open>
  The terminal (\<open>src/kernel/src/logging/flanterm.c\<close>), third part: escape sequences, the UTF-8
  decoder, \<open>flanterm_putchar\<close>, \<open>flanterm_write\<close> and the functions clients call. A \<open>goto\<close> to the
  label \<open>unicode_error\<close> is a call of the definition of that name.
\<close>

subsection \<open>Escape sequences\<close>

definition ft_reset :: "'z fb_context_scheme \<Rightarrow> 'z fb_context_scheme" where
  "ft_reset ctx =
     (let ctx = (if reverse_video ctx then flanterm_fb_swap_palette ctx else ctx);
          ctx = flanterm_fb_set_text_fg_default (flanterm_fb_set_text_bg_default (flanterm_context_reinit ctx))
      in save_state (flanterm_fb_clear True ctx))"

definition next_line :: "u64 \<Rightarrow> 'z fb_context_scheme \<Rightarrow> 'z fb_context_scheme" where
  "next_line y ctx =
     (if y = scroll_bottom_margin ctx - 1 then flanterm_fb_set_cursor_pos 0 y (flanterm_fb_scroll ctx)
      else if y < rows ctx - 1 then flanterm_fb_set_cursor_pos 0 (y + 1) ctx
      else flanterm_fb_set_cursor_pos 0 y ctx)"

definition reverse_line_feed :: "u64 \<Rightarrow> u64 \<Rightarrow> 'z fb_context_scheme \<Rightarrow> 'z fb_context_scheme" where
  "reverse_line_feed x y ctx =
     (if y = scroll_top_margin ctx then flanterm_fb_set_cursor_pos x y (flanterm_fb_revscroll ctx)
      else if y > 0 then flanterm_fb_set_cursor_pos x (y - 1) ctx else ctx)"

text \<open>The switch on the byte after ESC. The first three bytes keep the sequence open.\<close>

definition escape_command :: "u8 \<Rightarrow> 'z fb_context_scheme \<Rightarrow> 'z fb_context_scheme" where
  "escape_command c ctx =
     (let (x, y) = flanterm_fb_get_cursor_pos ctx
      in if c = 0x1b then ctx\<lparr>escape_offset := 0\<rparr>
         else if c = 0x5d then ctx\<lparr>osc_escape := False, osc := True, osc_buf_i := 0\<rparr>
         else if c = 0x5b then
           ctx\<lparr>esc_values := replicate FLANTERM_MAX_ESC_VALUES 0, esc_values_i := 0, rrr := False,
               csi_unhandled := False, control_sequence := True\<rparr>
         else let ctx =
             (if c = 0x37 then save_state ctx
              else if c = 0x38 then restore_state ctx
              else if c = 0x63 then ft_reset ctx
              else if c = 0x44 then line_feed x y ctx
              else if c = 0x45 then next_line y ctx
              else if c = 0x4d then reverse_line_feed x y ctx
              else if c = 0x5a then callback CB_Private_Id ctx
              else if c = 0x28 \<or> c = 0x29 then ctx\<lparr>g_select := c - 0x27\<rparr>
              else ctx)
           in ctx\<lparr>escape := False\<rparr>)"

definition escape_parse :: "u8 \<Rightarrow> 'z fb_context_scheme \<Rightarrow> 'z fb_context_scheme" where
  "escape_parse c ctx =
     (let ctx = ctx\<lparr>escape_offset := escape_offset ctx + 1\<rparr>;
          (parsed, ctx) = (if osc ctx then
              let (parsed, ctx) = osc_parse c ctx
              in if parsed then (True, ctx) else (False, ctx\<lparr>escape_offset := 1\<rparr>)
            else (False, ctx))
      in if parsed then ctx
         else if control_sequence ctx then control_sequence_parse c ctx
         else escape_command c ctx)"

subsection \<open>Printing\<close>

definition insert_shift :: "u64 \<Rightarrow> 'z fb_context_scheme \<Rightarrow> 'z fb_context_scheme" where
  "insert_shift count ctx =
     (if insert_mode ctx \<and> count > 0 then
        let (x, y) = flanterm_fb_get_cursor_pos ctx;
            count = (if count > cols ctx - x then cols ctx - x else count)
        in shift_right x y count ctx
      else ctx)"

text \<open>The assignments and the call that print a character.\<close>

definition print_graphic :: "u8 \<Rightarrow> 'z fb_context_scheme \<Rightarrow> 'z fb_context_scheme" where
  "print_graphic c ctx = flanterm_fb_raw_putchar c (ctx\<lparr>last_printed_char := c, last_was_graphic := True\<rparr>)"

definition dec_special_print :: "u8 \<Rightarrow> 'z fb_context_scheme \<Rightarrow> bool \<times> 'z fb_context_scheme" where
  "dec_special_print c ctx =
     (case dec_special_char c of Some g \<Rightarrow> (True, print_graphic g ctx) | None \<Rightarrow> (False, ctx))"

definition print_code_point :: "'z fb_context_scheme \<Rightarrow> 'z fb_context_scheme" where
  "print_code_point ctx =
     (let cc = unicode_to_cp437 (code_point ctx)
      in if cc = - 1 then
           let replacement_width = mk_wcwidth (ucast (code_point ctx));
               ctx = (if replacement_width > 0
                 then print_graphic 0xfe (insert_shift (of_int replacement_width) ctx) else ctx)
           in (flanterm_fb_raw_putchar 0x20 ^^ nat (replacement_width - 1)) ctx
         else print_graphic (of_int cc) (insert_shift 1 ctx))"

text \<open>A byte in the ground state: the designation of a character set, a control character, or a
  character to print.\<close>

definition select_charset :: "u8 \<Rightarrow> 'z fb_context_scheme \<Rightarrow> 'z fb_context_scheme" where
  "select_charset c ctx =
     (let g = g_select ctx - 1;
          ctx = (if c = 0x42 then ctx\<lparr>charsets := (charsets ctx)[unat g := CHARSET_DEFAULT]\<rparr>
                 else if c = 0x30 then ctx\<lparr>charsets := (charsets ctx)[unat g := CHARSET_DEC_SPECIAL]\<rparr>
                 else ctx)
      in ctx\<lparr>g_select := 0\<rparr>)"

definition print_byte :: "u8 \<Rightarrow> 'z fb_context_scheme \<Rightarrow> 'z fb_context_scheme" where
  "print_byte c ctx =
     (let ctx = insert_shift 1 ctx;
          (printed, ctx) = (if charsets ctx ! unat (current_charset ctx) = CHARSET_DEC_SPECIAL
            then dec_special_print c ctx else (False, ctx))
      in if printed then ctx
         else if c \<ge> 0x20 \<and> c \<le> 0x7e then print_graphic c ctx
         else if c \<ge> 0x80 then print_graphic 0xfe ctx
         else ctx)"

definition ground_byte :: "u8 \<Rightarrow> 'z fb_context_scheme \<Rightarrow> 'z fb_context_scheme" where
  "ground_byte c ctx =
     (if g_select ctx \<noteq> 0 \<and> \<not> (c \<le> 0x1f \<or> c = 0x7f) then select_charset c ctx
      else let ctx = (if g_select ctx \<noteq> 0 then ctx\<lparr>g_select := 0\<rparr> else ctx);
               ctx = (if c \<le> 0x1f \<and> c \<noteq> 0x1b \<or> c = 0x7f then ctx\<lparr>last_was_graphic := False\<rparr> else ctx)
        in if c = 0x00 \<or> c = 0x7f then ctx
           else if c = 0x1b then ctx\<lparr>escape_offset := 0, escape := True\<rparr>
           else if c < 0x20 then snd (execute_c0 c ctx)
           else print_byte c ctx)"

subsection \<open>The UTF-8 decoder\<close>

definition lead_byte :: "u8 \<Rightarrow> 'z fb_context_scheme \<Rightarrow> 'z fb_context_scheme" where
  "lead_byte c ctx =
     (let ctx = ctx\<lparr>g_select := 0\<rparr>
      in if c \<ge> 0xc2 \<and> c \<le> 0xdf then
           ctx\<lparr>unicode_remaining := 1, code_point := push_bit 6 (ucast (c AND 0x1f))\<rparr>
         else if c \<ge> 0xe0 \<and> c \<le> 0xef then
           ctx\<lparr>unicode_remaining := 2, code_point := push_bit 12 (ucast (c AND 0x0f))\<rparr>
         else ctx\<lparr>unicode_remaining := 3, code_point := push_bit 18 (ucast (c AND 0x07))\<rparr>)"

definition unicode_error :: "u8 \<Rightarrow> 'z fb_context_scheme \<Rightarrow> 'z fb_context_scheme" where
  "unicode_error c ctx =
     (if c \<ge> 0xc2 \<and> c \<le> 0xf4 then lead_byte c ctx
      else if escape ctx then escape_parse c ctx
      else ground_byte c ctx)"

definition continuation_byte :: "u8 \<Rightarrow> 'z fb_context_scheme \<Rightarrow> 'z fb_context_scheme" where
  "continuation_byte c ctx =
     (if c AND 0xc0 \<noteq> 0x80 then
        unicode_error c (flanterm_fb_raw_putchar 0xfe (insert_shift 1 (ctx\<lparr>unicode_remaining := 0\<rparr>)))
      else
        let remaining = unicode_remaining ctx - 1;
            ctx = ctx\<lparr>unicode_remaining := remaining,
                      code_point := code_point ctx OR push_bit (unat (6 * remaining)) (ucast (c AND 0x3f))\<rparr>
        in if remaining = 1 \<and> code_point ctx < 0x800 then unicode_error c (ctx\<lparr>unicode_remaining := 0\<rparr>)
           else if remaining = 2 \<and> code_point ctx < 0x10000 then unicode_error c (ctx\<lparr>unicode_remaining := 0\<rparr>)
           else if remaining = 2 \<and> code_point ctx > 0x10ffff then unicode_error c (ctx\<lparr>unicode_remaining := 0\<rparr>)
           else if remaining \<noteq> 0 then ctx
           else if code_point ctx \<ge> 0xd800 \<and> code_point ctx \<le> 0xdfff then unicode_error c ctx
           else print_code_point ctx)"

subsection \<open>Writing\<close>

definition cancel_sequence :: "'z fb_context_scheme \<Rightarrow> 'z fb_context_scheme" where
  "cancel_sequence ctx =
     ctx\<lparr>discard_next := False, escape := False, control_sequence := False, unicode_remaining := 0,
         osc := False, osc_escape := False, g_select := 0, last_was_graphic := False\<rparr>"

definition flanterm_putchar :: "u8 \<Rightarrow> 'z fb_context_scheme \<Rightarrow> 'z fb_context_scheme" where
  "flanterm_putchar c ctx =
     (if discard_next ctx \<or> c = 0x18 \<or> c = 0x1a then cancel_sequence ctx
      else if unicode_remaining ctx \<noteq> 0 then continuation_byte c ctx
      else unicode_error c ctx)"

definition flanterm_flush :: "'z fb_context_scheme \<Rightarrow> 'z fb_context_scheme" where
  "flanterm_flush ctx = flanterm_fb_double_buffer_flush ctx"

definition flanterm_write :: "u8 list \<Rightarrow> 'z fb_context_scheme \<Rightarrow> 'z fb_context_scheme" where
  "flanterm_write buf ctx =
     (let ctx = fold flanterm_putchar buf ctx
      in if autoflush ctx then flanterm_fb_double_buffer_flush ctx else ctx)"

subsection \<open>The other functions clients call\<close>

definition flanterm_full_refresh :: "'z fb_context_scheme \<Rightarrow> 'z fb_context_scheme" where
  "flanterm_full_refresh ctx = flanterm_fb_full_refresh ctx"

definition flanterm_get_dimensions :: "'z fb_context_scheme \<Rightarrow> u64 \<times> u64" where
  "flanterm_get_dimensions ctx = (cols ctx, rows ctx)"

definition flanterm_set_autoflush :: "bool \<Rightarrow> 'z fb_context_scheme \<Rightarrow> 'z fb_context_scheme" where
  "flanterm_set_autoflush state ctx = ctx\<lparr>autoflush := state\<rparr>"

definition flanterm_set_callback :: "bool \<Rightarrow> 'z fb_context_scheme \<Rightarrow> 'z fb_context_scheme" where
  "flanterm_set_callback present ctx = ctx\<lparr>has_callback := present\<rparr>"

definition flanterm_get_cursor_pos :: "'z fb_context_scheme \<Rightarrow> u64 \<times> u64" where
  "flanterm_get_cursor_pos ctx = flanterm_fb_get_cursor_pos ctx"

definition flanterm_set_cursor_pos :: "u64 \<Rightarrow> u64 \<Rightarrow> 'z fb_context_scheme \<Rightarrow> 'z fb_context_scheme" where
  "flanterm_set_cursor_pos x y ctx =
     (let x = (if x \<ge> cols ctx then cols ctx - 1 else x); y = (if y \<ge> rows ctx then rows ctx - 1 else y)
      in flanterm_fb_set_cursor_pos x y ctx)"

definition flanterm_set_text_fg :: "u64 \<Rightarrow> bool \<Rightarrow> 'z fb_context_scheme \<Rightarrow> 'z fb_context_scheme" where
  "flanterm_set_text_fg colour bright ctx =
     (let ctx = ctx\<lparr>current_primary := colour\<rparr>
      in if bright then
           if \<not> reverse_video ctx then flanterm_fb_set_text_fg_bright colour ctx
           else flanterm_fb_set_text_bg_bright colour ctx
         else if \<not> reverse_video ctx then flanterm_fb_set_text_fg colour ctx
         else flanterm_fb_set_text_bg colour ctx)"

definition flanterm_set_text_bg :: "u64 \<Rightarrow> bool \<Rightarrow> 'z fb_context_scheme \<Rightarrow> 'z fb_context_scheme" where
  "flanterm_set_text_bg colour bright ctx =
     (let ctx = ctx\<lparr>current_bg := colour\<rparr>
      in if bright then
           if \<not> reverse_video ctx then flanterm_fb_set_text_bg_bright colour ctx
           else flanterm_fb_set_text_fg_bright colour ctx
         else if \<not> reverse_video ctx then flanterm_fb_set_text_bg colour ctx
         else flanterm_fb_set_text_fg colour ctx)"

definition flanterm_reset_text_fg :: "'z fb_context_scheme \<Rightarrow> 'z fb_context_scheme" where
  "flanterm_reset_text_fg ctx =
     (let ctx = ctx\<lparr>current_primary := - 1\<rparr>
      in if \<not> bold ctx then
           if \<not> reverse_video ctx then flanterm_fb_set_text_fg_default ctx else flanterm_fb_set_text_bg_default ctx
         else if \<not> reverse_video ctx then flanterm_fb_set_text_fg_default_bright ctx
         else flanterm_fb_set_text_bg_default_bright ctx)"

definition flanterm_reset_text_bg :: "'z fb_context_scheme \<Rightarrow> 'z fb_context_scheme" where
  "flanterm_reset_text_bg ctx =
     (let ctx = ctx\<lparr>current_bg := - 1\<rparr>
      in if \<not> bg_bold ctx then
           if \<not> reverse_video ctx then flanterm_fb_set_text_bg_default ctx else flanterm_fb_set_text_fg_default ctx
         else if \<not> reverse_video ctx then flanterm_fb_set_text_bg_default_bright ctx
         else flanterm_fb_set_text_fg_default_bright ctx)"

definition flanterm_clear :: "bool \<Rightarrow> 'z fb_context_scheme \<Rightarrow> 'z fb_context_scheme" where
  "flanterm_clear move ctx = flanterm_fb_clear move ctx"

end
