(* ===== verification/Terminal_Invariant.thy ===== *)
theory Terminal_Invariant
  imports Screen_Pixels Terminal
begin

text \<open>
  The invariant of the terminal: every array of \<open>struct flanterm_context\<close> has its length, every
  index into one is inside it, the margins describe a region of the screen, the queue of the back
  end is sound, and the frame buffer shows the grid. Every byte a client writes keeps it,
  whatever the bytes are. \<open>flanterm_full_refresh\<close> is left out: it takes a cell that is drawn under
  the cursor out of the map and leaves it in the queue.
\<close>

subsection \<open>The invariant\<close>

named_theorems keeps

definition screen_ok :: "'z fb_context_scheme \<Rightarrow> bool" where
  "screen_ok ctx \<longleftrightarrow> queue_ok ctx \<and> (\<forall>i < cells ctx. fc_c (char_at i ctx) < 256) \<and> fb_geometry ctx \<and> displayed ctx \<and>
     0 < cols ctx \<and> 0 < rows ctx \<and> length (ansi_colours ctx) = 8 \<and> length (ansi_bright_colours ctx) = 8"

definition colour_ok :: "u64 \<Rightarrow> bool" where
  "colour_ok v \<longleftrightarrow> v < 8 \<or> v = - 1 \<or> v = - 2"

definition margins_ok :: "u64 \<Rightarrow> u64 \<Rightarrow> u64 \<Rightarrow> bool" where
  "margins_ok n t b \<longleftrightarrow> t < b \<and> b \<le> n"

definition cursor_ok :: "'z fb_context_scheme \<Rightarrow> bool" where
  "cursor_ok ctx \<longleftrightarrow> cursor_x ctx \<le> cols ctx \<and> cursor_y ctx < rows ctx \<and>
     saved_state_cursor_x ctx \<le> cols ctx \<and> saved_state_cursor_y ctx < rows ctx"

definition parser_ok :: "'z fb_context_scheme \<Rightarrow> bool" where
  "parser_ok ctx \<longleftrightarrow> length (esc_values ctx) = 16 \<and> esc_values_i ctx \<le> 16 \<and> (rrr ctx \<longrightarrow> esc_values_i ctx < 16) \<and>
     length (osc_buf ctx) = 256 \<and> osc_buf_i ctx \<le> 256 \<and> g_select ctx \<le> 2 \<and> unicode_remaining ctx \<le> 3 \<and> tab_size ctx = 8"

definition modes_ok :: "'z fb_context_scheme \<Rightarrow> bool" where
  "modes_ok ctx \<longleftrightarrow> length (charsets ctx) = 2 \<and> current_charset ctx < 2 \<and>
     colour_ok (current_primary ctx) \<and> colour_ok (current_bg ctx) \<and>
     margins_ok (rows ctx) (scroll_top_margin ctx) (scroll_bottom_margin ctx) \<and>
     length (saved_state_charsets ctx) = 2 \<and> saved_state_current_charset ctx < 2 \<and>
     colour_ok (saved_state_current_primary ctx) \<and> colour_ok (saved_state_current_bg ctx) \<and>
     margins_ok (rows ctx) (saved_state_scroll_top_margin ctx) (saved_state_scroll_bottom_margin ctx)"

definition terminal_ok :: "'z fb_context_scheme \<Rightarrow> bool" where
  "terminal_ok ctx \<longleftrightarrow> screen_ok ctx \<and> cursor_ok ctx \<and> parser_ok ctx \<and> modes_ok ctx"

lemmas ok_defs = terminal_ok_def cursor_ok_def parser_ok_def modes_ok_def

text \<open>The fields the screen depends on are not those of the parser.\<close>

lemma cell_fields [simp]:
  "cells (ctx\<lparr>queue := q\<rparr>) = cells ctx" "cells (ctx\<lparr>queue_i := n\<rparr>) = cells ctx" "cells (ctx\<lparr>fb_map := m\<rparr>) = cells ctx"
  by (simp_all add: cells_def)

lemma screen_ok_updates [simp]:
  "screen_ok (ctx\<lparr>autoflush := v_aut0\<rparr>) = screen_ok ctx"
  "screen_ok (ctx\<lparr>cursor_enabled := v_cur1\<rparr>) = screen_ok ctx"
  "screen_ok (ctx\<lparr>scroll_enabled := v_scr2\<rparr>) = screen_ok ctx"
  "screen_ok (ctx\<lparr>wrap_enabled := v_wra3\<rparr>) = screen_ok ctx"
  "screen_ok (ctx\<lparr>origin_mode := v_ori4\<rparr>) = screen_ok ctx"
  "screen_ok (ctx\<lparr>control_sequence := v_con5\<rparr>) = screen_ok ctx"
  "screen_ok (ctx\<lparr>escape := v_esc6\<rparr>) = screen_ok ctx"
  "screen_ok (ctx\<lparr>osc := v_osc7\<rparr>) = screen_ok ctx"
  "screen_ok (ctx\<lparr>osc_escape := v_osc8\<rparr>) = screen_ok ctx"
  "screen_ok (ctx\<lparr>discard_next := v_dis9\<rparr>) = screen_ok ctx"
  "screen_ok (ctx\<lparr>bold := v_bol10\<rparr>) = screen_ok ctx"
  "screen_ok (ctx\<lparr>bg_bold := v_bg_11\<rparr>) = screen_ok ctx"
  "screen_ok (ctx\<lparr>reverse_video := v_rev12\<rparr>) = screen_ok ctx"
  "screen_ok (ctx\<lparr>dec_private := v_dec13\<rparr>) = screen_ok ctx"
  "screen_ok (ctx\<lparr>insert_mode := v_ins14\<rparr>) = screen_ok ctx"
  "screen_ok (ctx\<lparr>csi_unhandled := v_csi15\<rparr>) = screen_ok ctx"
  "screen_ok (ctx\<lparr>code_point := v_cod16\<rparr>) = screen_ok ctx"
  "screen_ok (ctx\<lparr>escape_offset := v_esc17\<rparr>) = screen_ok ctx"
  "screen_ok (ctx\<lparr>saved_cursor_x := v_sav18\<rparr>) = screen_ok ctx"
  "screen_ok (ctx\<lparr>saved_cursor_y := v_sav19\<rparr>) = screen_ok ctx"
  "screen_ok (ctx\<lparr>last_printed_char := v_las20\<rparr>) = screen_ok ctx"
  "screen_ok (ctx\<lparr>last_was_graphic := v_las21\<rparr>) = screen_ok ctx"
  "screen_ok (ctx\<lparr>saved_state_bold := v_sav22\<rparr>) = screen_ok ctx"
  "screen_ok (ctx\<lparr>saved_state_bg_bold := v_sav23\<rparr>) = screen_ok ctx"
  "screen_ok (ctx\<lparr>saved_state_reverse_video := v_sav24\<rparr>) = screen_ok ctx"
  "screen_ok (ctx\<lparr>saved_state_origin_mode := v_sav25\<rparr>) = screen_ok ctx"
  "screen_ok (ctx\<lparr>saved_state_wrap_enabled := v_sav26\<rparr>) = screen_ok ctx"
  "screen_ok (ctx\<lparr>has_callback := v_has27\<rparr>) = screen_ok ctx"
  "screen_ok (ctx\<lparr>ft_events := v_ft_28\<rparr>) = screen_ok ctx"
  "screen_ok (ctx\<lparr>text_fg := v_tex29\<rparr>) = screen_ok ctx"
  "screen_ok (ctx\<lparr>text_bg := v_tex30\<rparr>) = screen_ok ctx"
  "screen_ok (ctx\<lparr>saved_state_text_fg := v_sav31\<rparr>) = screen_ok ctx"
  "screen_ok (ctx\<lparr>saved_state_text_bg := v_sav32\<rparr>) = screen_ok ctx"
  "screen_ok (ctx\<lparr>tab_size := v_tab33\<rparr>) = screen_ok ctx"
  "screen_ok (ctx\<lparr>osc_buf_i := v_osc34\<rparr>) = screen_ok ctx"
  "screen_ok (ctx\<lparr>osc_buf := v_osc35\<rparr>) = screen_ok ctx"
  "screen_ok (ctx\<lparr>rrr := v_rrr36\<rparr>) = screen_ok ctx"
  "screen_ok (ctx\<lparr>unicode_remaining := v_uni37\<rparr>) = screen_ok ctx"
  "screen_ok (ctx\<lparr>g_select := v_g_s38\<rparr>) = screen_ok ctx"
  "screen_ok (ctx\<lparr>charsets := v_cha39\<rparr>) = screen_ok ctx"
  "screen_ok (ctx\<lparr>current_charset := v_cur40\<rparr>) = screen_ok ctx"
  "screen_ok (ctx\<lparr>esc_values_i := v_esc41\<rparr>) = screen_ok ctx"
  "screen_ok (ctx\<lparr>current_primary := v_cur42\<rparr>) = screen_ok ctx"
  "screen_ok (ctx\<lparr>current_bg := v_cur43\<rparr>) = screen_ok ctx"
  "screen_ok (ctx\<lparr>scroll_top_margin := v_scr44\<rparr>) = screen_ok ctx"
  "screen_ok (ctx\<lparr>scroll_bottom_margin := v_scr45\<rparr>) = screen_ok ctx"
  "screen_ok (ctx\<lparr>esc_values := v_esc46\<rparr>) = screen_ok ctx"
  "screen_ok (ctx\<lparr>saved_state_current_charset := v_sav47\<rparr>) = screen_ok ctx"
  "screen_ok (ctx\<lparr>saved_state_charsets := v_sav48\<rparr>) = screen_ok ctx"
  "screen_ok (ctx\<lparr>saved_state_current_primary := v_sav49\<rparr>) = screen_ok ctx"
  "screen_ok (ctx\<lparr>saved_state_current_bg := v_sav50\<rparr>) = screen_ok ctx"
  "screen_ok (ctx\<lparr>saved_state_scroll_top_margin := v_sav51\<rparr>) = screen_ok ctx"
  "screen_ok (ctx\<lparr>saved_state_scroll_bottom_margin := v_sav52\<rparr>) = screen_ok ctx"
  "screen_ok (ctx\<lparr>cursor_x := v_cur53\<rparr>) = screen_ok ctx"
  "screen_ok (ctx\<lparr>cursor_y := v_cur54\<rparr>) = screen_ok ctx"
  "screen_ok (ctx\<lparr>saved_state_cursor_x := v_sav55\<rparr>) = screen_ok ctx"
  "screen_ok (ctx\<lparr>saved_state_cursor_y := v_sav56\<rparr>) = screen_ok ctx"
  by (simp_all add: screen_ok_def queue_ok_def screen_sized_def item_cell_def char_at_def cells_def fb_geometry_def sideways_def displayed_def cell_of_def
    shows_char_def cell_x_def cell_y_def pixel_address_def rotate_pixel_def char_pixel_def pixel_colour_def glyph_bit_def
    cong: if_cong option.case_cong)

lemma terminal_ok_updates [simp]:
  "terminal_ok (ctx\<lparr>autoflush := v_aut0\<rparr>) = terminal_ok ctx"
  "terminal_ok (ctx\<lparr>cursor_enabled := v_cur1\<rparr>) = terminal_ok ctx"
  "terminal_ok (ctx\<lparr>scroll_enabled := v_scr2\<rparr>) = terminal_ok ctx"
  "terminal_ok (ctx\<lparr>wrap_enabled := v_wra3\<rparr>) = terminal_ok ctx"
  "terminal_ok (ctx\<lparr>origin_mode := v_ori4\<rparr>) = terminal_ok ctx"
  "terminal_ok (ctx\<lparr>control_sequence := v_con5\<rparr>) = terminal_ok ctx"
  "terminal_ok (ctx\<lparr>escape := v_esc6\<rparr>) = terminal_ok ctx"
  "terminal_ok (ctx\<lparr>osc := v_osc7\<rparr>) = terminal_ok ctx"
  "terminal_ok (ctx\<lparr>osc_escape := v_osc8\<rparr>) = terminal_ok ctx"
  "terminal_ok (ctx\<lparr>discard_next := v_dis9\<rparr>) = terminal_ok ctx"
  "terminal_ok (ctx\<lparr>bold := v_bol10\<rparr>) = terminal_ok ctx"
  "terminal_ok (ctx\<lparr>bg_bold := v_bg_11\<rparr>) = terminal_ok ctx"
  "terminal_ok (ctx\<lparr>reverse_video := v_rev12\<rparr>) = terminal_ok ctx"
  "terminal_ok (ctx\<lparr>dec_private := v_dec13\<rparr>) = terminal_ok ctx"
  "terminal_ok (ctx\<lparr>insert_mode := v_ins14\<rparr>) = terminal_ok ctx"
  "terminal_ok (ctx\<lparr>csi_unhandled := v_csi15\<rparr>) = terminal_ok ctx"
  "terminal_ok (ctx\<lparr>code_point := v_cod16\<rparr>) = terminal_ok ctx"
  "terminal_ok (ctx\<lparr>escape_offset := v_esc17\<rparr>) = terminal_ok ctx"
  "terminal_ok (ctx\<lparr>saved_cursor_x := v_sav18\<rparr>) = terminal_ok ctx"
  "terminal_ok (ctx\<lparr>saved_cursor_y := v_sav19\<rparr>) = terminal_ok ctx"
  "terminal_ok (ctx\<lparr>last_printed_char := v_las20\<rparr>) = terminal_ok ctx"
  "terminal_ok (ctx\<lparr>last_was_graphic := v_las21\<rparr>) = terminal_ok ctx"
  "terminal_ok (ctx\<lparr>saved_state_bold := v_sav22\<rparr>) = terminal_ok ctx"
  "terminal_ok (ctx\<lparr>saved_state_bg_bold := v_sav23\<rparr>) = terminal_ok ctx"
  "terminal_ok (ctx\<lparr>saved_state_reverse_video := v_sav24\<rparr>) = terminal_ok ctx"
  "terminal_ok (ctx\<lparr>saved_state_origin_mode := v_sav25\<rparr>) = terminal_ok ctx"
  "terminal_ok (ctx\<lparr>saved_state_wrap_enabled := v_sav26\<rparr>) = terminal_ok ctx"
  "terminal_ok (ctx\<lparr>has_callback := v_has27\<rparr>) = terminal_ok ctx"
  "terminal_ok (ctx\<lparr>ft_events := v_ft_28\<rparr>) = terminal_ok ctx"
  "terminal_ok (ctx\<lparr>text_fg := v_tex29\<rparr>) = terminal_ok ctx"
  "terminal_ok (ctx\<lparr>text_bg := v_tex30\<rparr>) = terminal_ok ctx"
  "terminal_ok (ctx\<lparr>saved_state_text_fg := v_sav31\<rparr>) = terminal_ok ctx"
  "terminal_ok (ctx\<lparr>saved_state_text_bg := v_sav32\<rparr>) = terminal_ok ctx"
  by (simp_all add: ok_defs)

subsection \<open>The back end keeps the invariant\<close>

lemma terminal_okD:
  assumes "terminal_ok ctx"
  shows "queue_ok ctx" "region_ok ctx" "0 < cols ctx" "0 < rows ctx" "cells ctx < 2 ^ 64"
    "\<And>i. i < cells ctx \<Longrightarrow> fc_c (char_at i ctx) < 256"
    "cursor_x ctx \<le> cols ctx" "cursor_y ctx < rows ctx"
    "scroll_top_margin ctx < scroll_bottom_margin ctx" "scroll_bottom_margin ctx \<le> rows ctx"
    "length (esc_values ctx) = 16" "tab_size ctx = 8" "esc_values_i ctx \<le> 16"
  using assms by (simp_all add: ok_defs screen_ok_def region_ok_def margins_ok_def queue_ok_def screen_sized_def)

text \<open>A change of the queue that leaves it sound and holds characters of the font.\<close>

lemma terminal_ok_stored:
  assumes ok: "terminal_ok ctx" and q: "only_queue ctx t" and s: "cs.stored ctx t f"
    and f: "\<And>j. j < cells ctx \<Longrightarrow> fc_c (f j) < 256"
  shows "terminal_ok t"
proof -
  obtain qu n m where t: "t = ctx\<lparr>queue := qu, queue_i := n, fb_map := m\<rparr>" using q by (auto simp: only_queue_def)
  have "queue_ok t" "\<forall>i < cells ctx. fc_c (char_at i t) < 256" using s f by (simp_all add: cs.stored_def)
  moreover have "fb_geometry t = fb_geometry ctx" "displayed t = displayed ctx"
    by (simp_all add: t fb_geometry_def sideways_def displayed_def cell_of_def
      shows_char_def cell_x_def cell_y_def pixel_address_def rotate_pixel_def char_pixel_def pixel_colour_def glyph_bit_def
      cong: if_cong option.case_cong)
  ultimately have "screen_ok t" using ok by (simp add: ok_defs screen_ok_def only_queue_fields(11) [OF q]) (simp add: t)
  with ok show ?thesis by (simp add: ok_defs) (simp add: t)
qed

lemma empty_char_font [simp]: "fc_c (empty_char ctx) < 256"
  by (simp add: empty_char_def)

lemma push_keeps [keeps]:
  assumes ok: "terminal_ok ctx" and c: "fc_c c < 256"
  shows "terminal_ok (push_to_queue c x y ctx)"
proof (cases "x < cols ctx \<and> y < rows ctx")
  case True
  then have p: "push_to_queue c x y ctx = put_cell (unat y * unat (cols ctx) + unat x) c ctx"
    using push_put [where c = c] by blast
  have i: "unat y * unat (cols ctx) + unat x < cells ctx" using True terminal_okD(5) [OF ok] cell_index(2) by blast
  show ?thesis
    unfolding p by (rule terminal_ok_stored [OF ok only_queue_put cs.stored_put [OF cs.stored_refl [OF terminal_okD(1) [OF ok]] i]])
      (simp add: c terminal_okD(6) [OF ok])
next
  case False
  then show ?thesis using ok by (auto simp: push_to_queue_def not_less)
qed

lemma scroll_keeps [keeps]:
  assumes ok: "terminal_ok ctx"
  shows "terminal_ok (flanterm_fb_scroll ctx)" "terminal_ok (flanterm_fb_revscroll ctx)"
proof -
  note r = terminal_okD(2) [OF ok]
  note b = region_bounds [OF r]
  show "terminal_ok (flanterm_fb_scroll ctx)"
  proof (rule terminal_ok_stored [OF ok scroll_cells [OF r]])
    fix j assume j: "j < cells ctx"
    have "j + unat (cols ctx) < unat (scroll_bottom_margin ctx) * unat (cols ctx)"
      if "j < (unat (scroll_bottom_margin ctx) - 1) * unat (cols ctx)"
      using that b(1) by (simp add: diff_mult_distrib)
    then have "j + unat (cols ctx) < cells ctx" if "j < (unat (scroll_bottom_margin ctx) - 1) * unat (cols ctx)"
      using that b(2) by linarith
    with j show "fc_c (if (unat (scroll_bottom_margin ctx) - 1) * unat (cols ctx) \<le> j \<and> j < unat (scroll_bottom_margin ctx) * unat (cols ctx)
      then empty_char ctx else if unat (scroll_top_margin ctx) * unat (cols ctx) \<le> j \<and> j < (unat (scroll_bottom_margin ctx) - 1) * unat (cols ctx)
      then char_at (j + unat (cols ctx)) ctx else char_at j ctx) < 256"
      by (auto intro: terminal_okD(6) [OF ok])
  qed
  show "terminal_ok (flanterm_fb_revscroll ctx)"
    by (rule terminal_ok_stored [OF ok revscroll_cells [OF r]]) (auto intro: terminal_okD(6) [OF ok])
qed

lemma set_cursor_keeps [keeps]:
  assumes ok: "terminal_ok ctx"
  shows "terminal_ok (flanterm_fb_set_cursor_pos x y ctx)"
proof -
  have "clamp_coordinate v n < n" if "0 < n" for v n :: u64
    using that by (simp add: clamp_coordinate_def not_le word_less_nat_alt unat_sub_if')
  then show ?thesis using ok terminal_okD(3,4) [OF ok] by (auto simp: ok_defs flanterm_fb_set_cursor_pos_def intro: order.strict_implies_order)
qed

lemma clear_keeps [keeps]:
  assumes ok: "terminal_ok ctx"
  shows "terminal_ok (flanterm_fb_clear move ctx)"
proof -
  note c = clear_cells [OF terminal_okD(1) [OF ok]]
  have f: "terminal_ok (flanterm_fb_clear False ctx)" by (rule terminal_ok_stored [OF ok c(1,2)]) simp
  then show ?thesis using terminal_okD(4) [OF f] c(3) by (cases move) (simp_all add: ok_defs)
qed

lemma move_keeps [keeps]:
  assumes ok: "terminal_ok ctx"
  shows "terminal_ok (flanterm_fb_move_character new_x new_y old_x old_y ctx)"
proof (cases "new_x < cols ctx \<and> new_y < rows ctx \<and> old_x < cols ctx \<and> old_y < rows ctx")
  case True
  note m = move_cells [OF terminal_okD(1) [OF ok], of new_x new_y old_x old_y]
  have "unat old_y * unat (cols ctx) + unat old_x < cells ctx" using True cell_index(2) terminal_okD(5) [OF ok] by blast
  with True show ?thesis
    by (intro terminal_ok_stored [OF ok m]) (auto simp: terminal_okD(6) [OF ok])
next
  case False
  then have "flanterm_fb_move_character new_x new_y old_x old_y ctx = ctx"
    by (auto simp: flanterm_fb_move_character_def not_less)
  with ok show ?thesis by simp
qed

lemma colours_keep [keeps]:
  assumes "terminal_ok ctx"
  shows "terminal_ok (flanterm_fb_swap_palette ctx)" "terminal_ok (flanterm_fb_set_text_fg n ctx)"
    "terminal_ok (flanterm_fb_set_text_bg n ctx)" "terminal_ok (flanterm_fb_set_text_fg_bright n ctx)"
    "terminal_ok (flanterm_fb_set_text_bg_bright n ctx)" "terminal_ok (flanterm_fb_set_text_fg_rgb v ctx)"
    "terminal_ok (flanterm_fb_set_text_bg_rgb v ctx)" "terminal_ok (flanterm_fb_set_text_fg_default ctx)"
    "terminal_ok (flanterm_fb_set_text_bg_default ctx)" "terminal_ok (flanterm_fb_set_text_fg_default_bright ctx)"
    "terminal_ok (flanterm_fb_set_text_bg_default_bright ctx)"
  using assms
  by (simp_all add: flanterm_fb_swap_palette_def flanterm_fb_set_text_fg_def flanterm_fb_set_text_bg_def
    flanterm_fb_set_text_fg_bright_def flanterm_fb_set_text_bg_bright_def flanterm_fb_set_text_fg_rgb_def
    flanterm_fb_set_text_bg_rgb_def flanterm_fb_set_text_fg_default_def flanterm_fb_set_text_bg_default_def
    flanterm_fb_set_text_fg_default_bright_def flanterm_fb_set_text_bg_default_bright_def)

lemma cursor_keeps [keeps]:
  assumes "terminal_ok ctx"
  shows "v \<le> cols ctx \<Longrightarrow> terminal_ok (ctx\<lparr>cursor_x := v\<rparr>)" "v < rows ctx \<Longrightarrow> terminal_ok (ctx\<lparr>cursor_y := v\<rparr>)"
  using assms by (simp_all add: ok_defs)

lemma raw_putchar_keeps [keeps]:
  assumes ok: "terminal_ok ctx"
  shows "terminal_ok (flanterm_fb_raw_putchar c ctx)"
proof -
  define wrapped where "wrapped = (if cursor_x ctx \<ge> cols ctx then
      if wrap_enabled ctx \<and> (cursor_y ctx < scroll_bottom_margin ctx - 1 \<or> scroll_enabled ctx) then
        let ctx = ctx\<lparr>cursor_x := 0, cursor_y := cursor_y ctx + 1\<rparr>;
            ctx = (if cursor_y ctx = scroll_bottom_margin ctx
                   then flanterm_fb_scroll (ctx\<lparr>cursor_y := cursor_y ctx - 1\<rparr>) else ctx)
        in if cursor_y ctx \<ge> rows ctx then ctx\<lparr>cursor_y := rows ctx - 1\<rparr> else ctx
      else ctx\<lparr>cursor_x := cols ctx - 1\<rparr> else ctx)"
  have w: "terminal_ok wrapped \<and> cursor_x wrapped < cols wrapped"
  proof (cases "cursor_x ctx < cols ctx")
    case True
    then have "\<not> cols ctx \<le> cursor_x ctx" by simp
    with True show ?thesis using ok by (simp only: wrapped_def if_False simp_thms)
  next
    case False
    note pos = terminal_okD(3,4) [OF ok]
    have last: "cols ctx - 1 < cols ctx" "rows ctx - 1 < rows ctx"
      using pos by (simp_all add: word_less_nat_alt unat_sub_if')
    show ?thesis
    proof (cases "wrap_enabled ctx \<and> (cursor_y ctx < scroll_bottom_margin ctx - 1 \<or> scroll_enabled ctx)")
      case wrap: True
      define start where "start = ctx\<lparr>cursor_x := 0\<rparr>"
      have start: "terminal_ok start" "cursor_y start = cursor_y ctx" unfolding start_def by (auto simp: keeps ok)
      note sc = only_queue_fields [OF scroll_cells(1) [OF terminal_okD(2) [OF start(1)]]]
      show ?thesis
      proof (cases "cursor_y ctx + 1 = scroll_bottom_margin ctx")
        case True
        have b: "scroll_bottom_margin ctx - 1 = cursor_y ctx" using True by (simp add: eq_diff_eq [symmetric])

        have f: "rows start = rows ctx" "cols start = cols ctx" "cursor_x start = 0" "cursor_y start = cursor_y ctx"
          by (simp_all add: start_def)
        have "wrapped = flanterm_fb_scroll start"
          using False wrap True terminal_okD(8) [OF ok] by (simp add: wrapped_def Let_def b start_def sc [unfolded start_def] not_less leD)
        then show ?thesis using pos scroll_keeps(1) [OF start(1)] by (simp add: sc f)
      next
        case inside: False
        define y where "y = (if cursor_y ctx + 1 \<ge> rows ctx then rows ctx - 1 else cursor_y ctx + 1)"
        have "y < rows ctx" using last(2) by (auto simp: y_def not_le)
        moreover have "wrapped = start\<lparr>cursor_y := y\<rparr>"
          using False wrap inside by (simp add: wrapped_def Let_def start_def y_def not_less)
        ultimately show ?thesis using cursor_keeps(2) [OF start(1), of y] pos by (simp add: start_def)
      qed
    next
      case nowrap: False
      then have "wrapped = ctx\<lparr>cursor_x := cols ctx - 1\<rparr>" using False by (simp add: wrapped_def not_less del: de_Morgan_conj)
      then show ?thesis using last ok by (auto intro!: cursor_keeps order.strict_implies_order)
    qed
  qed
  have "cursor_x wrapped + 1 \<le> cols wrapped"
    using w by (simp add: word_less_nat_alt word_le_nat_alt unat_word_ariths) (meson Suc_leI mod_less_eq_dividend order_trans)
  then have "terminal_ok (wrapped\<lparr>cursor_x := cursor_x wrapped + 1\<rparr>)" using w by (auto intro: cursor_keeps)
  moreover have "flanterm_fb_raw_putchar c ctx = push_to_queue \<lparr>fc_c = ucast c, fc_fg = text_fg wrapped, fc_bg = text_bg wrapped\<rparr>
      (cursor_x wrapped) (cursor_y wrapped) (wrapped\<lparr>cursor_x := cursor_x wrapped + 1\<rparr>)"
    unfolding flanterm_fb_raw_putchar_def wrapped_def [symmetric] by (simp add: Let_def)
  moreover have "(ucast c :: u32) < 256"
    using unsigned_less [of c, where ?'a = nat]
    by (simp add: word_less_nat_alt unsigned_ucast_eq le_less_trans [OF take_bit_nat_less_eq_self])
  ultimately show ?thesis by (simp add: push_keeps)
qed

lemma funpow_keeps [keeps]:
  assumes "\<And>s. P s \<Longrightarrow> P (f s)" and "P s"
  shows "P ((f ^^ n) s)"
  using assms(2) by (induction n) (simp_all add: assms(1))

lemma fold_keeps:
  assumes "\<And>x s. P s \<Longrightarrow> P (f x s)" and "P s"
  shows "P (fold f xs s)"
  using assms(2) by (induction xs arbitrary: s) (simp_all add: assms(1))

subsection \<open>Attributes, modes and control characters\<close>

lemma parser_keeps [keeps]:
  assumes "terminal_ok ctx"
  shows "colour_ok v \<Longrightarrow> terminal_ok (ctx\<lparr>current_primary := v\<rparr>)" "colour_ok v \<Longrightarrow> terminal_ok (ctx\<lparr>current_bg := v\<rparr>)"
    "n < 2 \<Longrightarrow> terminal_ok (ctx\<lparr>current_charset := n\<rparr>)" "length cs = 2 \<Longrightarrow> terminal_ok (ctx\<lparr>charsets := cs\<rparr>)"
    "length vs = 16 \<Longrightarrow> terminal_ok (ctx\<lparr>esc_values := vs\<rparr>)" "g \<le> 2 \<Longrightarrow> terminal_ok (ctx\<lparr>g_select := g\<rparr>)"
    "u \<le> 3 \<Longrightarrow> terminal_ok (ctx\<lparr>unicode_remaining := u\<rparr>)"
  using assms by (simp_all add: ok_defs)

lemma margins_keep:
  assumes "terminal_ok ctx" and "margins_ok (rows ctx) t b"
  shows "terminal_ok (ctx\<lparr>scroll_top_margin := t, scroll_bottom_margin := b\<rparr>)"
  using assms by (simp add: ok_defs)

lemma colour_ok_simps [simp]: "colour_ok (- 1)" "colour_ok (- 2)" "v < 8 \<Longrightarrow> colour_ok v"
  by (simp_all add: colour_ok_def)

lemma callback_keeps [keeps]: "terminal_ok ctx \<Longrightarrow> terminal_ok (callback e ctx)"
  by (simp add: callback_def)

lemma saved_state_keeps [keeps]:
  assumes "terminal_ok ctx"
  shows "terminal_ok (restore_state ctx)" "terminal_ok (save_state ctx)"
  using assms
  by (simp_all add: restore_state_def save_state_def flanterm_fb_restore_state_def flanterm_fb_save_state_def ok_defs)

lemma reinit_keeps [keeps]:
  assumes "terminal_ok ctx"
  shows "terminal_ok (flanterm_context_reinit ctx)"
  using assms terminal_okD(4) [OF assms] by (simp add: flanterm_context_reinit_def ok_defs margins_ok_def)

lemma sgr_parts_keep [keeps]:
  assumes "terminal_ok ctx"
  shows "terminal_ok (sgr_reset ctx)" "terminal_ok (sgr_bold ctx)" "terminal_ok (sgr_bg_bold ctx)"
    "terminal_ok (sgr_unbold ctx)" "terminal_ok (sgr_bg_unbold ctx)" "terminal_ok (sgr_set_fg v ctx)"
    "terminal_ok (sgr_set_bg v ctx)" "terminal_ok (sgr_default_fg ctx)" "terminal_ok (sgr_default_bg ctx)"
    "terminal_ok (sgr_reverse on ctx)" "terminal_ok (sgr_rgb fg render rgb_value ctx)" "terminal_ok (sgr_256 fg render col ctx)"
  using assms
  by (simp_all add: sgr_reset_def sgr_bold_def sgr_bg_bold_def sgr_unbold_def sgr_bg_unbold_def sgr_set_fg_def sgr_set_bg_def
    sgr_default_fg_def sgr_default_bg_def sgr_reverse_def sgr_rgb_def sgr_256_def Let_def keeps)

text \<open>A colour parameter gives an index below 8, for the tables of the back end have eight entries.\<close>

lemma colour_index:
  assumes "lo \<le> v" and "v \<le> lo + 7" and "lo < 128"
  shows "(ucast (v :: u32) :: u64) - ucast lo < 8"
proof -
  have "unat lo \<le> unat v" "unat v \<le> unat lo + 7" "unat lo < 128"
    using assms by (simp_all add: word_le_nat_alt word_less_nat_alt unat_word_ariths)
  moreover have "unat (ucast v :: u64) = unat v" "unat (ucast lo :: u64) = unat lo"
    using unsigned_less [of v, where ?'a = nat] unsigned_less [of lo, where ?'a = nat]
    by (simp_all add: unsigned_ucast_eq take_bit_nat_eq_self_iff)
  ultimately show ?thesis by (simp add: word_less_nat_alt unat_sub_if')
qed

lemma if_keeps: "(b \<Longrightarrow> terminal_ok x) \<Longrightarrow> terminal_ok y \<Longrightarrow> terminal_ok (if b then x else y)"
  by simp

lemma sgr_single_keeps [keeps]:
  assumes "terminal_ok ctx"
  shows "terminal_ok (sgr_single v ctx)"
proof -
  have "ucast v - 30 < (8 :: u64)" if "30 \<le> v" "v \<le> 37" using colour_index [of 30 v] that by simp
  moreover have "ucast v - 40 < (8 :: u64)" if "40 \<le> v" "v \<le> 47" using colour_index [of 40 v] that by simp
  moreover have "ucast v - 90 < (8 :: u64)" if "90 \<le> v" "v \<le> 97" using colour_index [of 90 v] that by simp
  moreover have "ucast v - 100 < (8 :: u64)" if "100 \<le> v" "v \<le> 107" using colour_index [of 100 v] that by simp
  ultimately show ?thesis
    unfolding sgr_single_def Let_def by (intro if_keeps) (simp_all add: keeps assms)
qed

lemma sgr_keeps [keeps]:
  assumes "terminal_ok ctx"
  shows "terminal_ok (sgr ctx)"
proof -
  have "terminal_ok (sgr_loop vs s)" if "terminal_ok s" for vs and s :: "'a fb_context_scheme"
    using that
  proof (induction vs arbitrary: s rule: length_induct)
    case (1 vs)
    show ?case
    proof (cases vs)
      case (Cons v ws)
      have IH: "terminal_ok (sgr_loop us t)" if "length us \<le> length ws" "terminal_ok t" for us and t :: "'a fb_context_scheme"
        using 1(1) that by (simp add: Cons)
      show ?thesis
        unfolding Cons sgr_loop.simps(2) Let_def
        by (intro if_keeps) (auto intro!: IH if_keeps simp: keeps 1(2) simp del: sgr_loop.simps split: list.split)
    qed (simp add: 1(2))
  qed
  with assms show ?thesis by (simp add: sgr_def keeps)
qed

lemma dec_mode_keeps [keeps]:
  assumes "terminal_ok ctx"
  shows "terminal_ok (dec_mode on v ctx)"
proof -
  have "margins_ok (rows (save_state ctx)) 0 (rows (save_state ctx))"
    using terminal_okD(4) [OF keeps(1)] keeps assms terminal_okD(4) [OF saved_state_keeps(2) [OF assms]] by (simp add: margins_ok_def)
  with assms show ?thesis by (simp add: dec_mode_def Let_def keeps margins_keep)
qed

lemma private_keeps [keeps]:
  assumes "terminal_ok ctx"
  shows "terminal_ok (dec_private_parse c ctx)" "terminal_ok (linux_private_parse ctx)" "terminal_ok (mode_toggle c ctx)"
  using assms by (simp_all add: dec_private_parse_def linux_private_parse_def mode_toggle_def Let_def keeps fold_keeps)

lemma osc_parse_keeps [keeps]:
  assumes "terminal_ok ctx"
  shows "terminal_ok (snd (osc_parse c ctx))"
proof -
  have "terminal_ok (osc_finalize ctx)" using assms by (simp add: osc_finalize_def keeps Let_def split: prod.split)
  moreover have "osc_buf_i ctx + 1 \<le> 256" if "osc_buf_i ctx < 256"
    using that by (simp add: word_less_nat_alt word_le_nat_alt unat_word_ariths)
  ultimately show ?thesis using assms by (simp add: osc_parse_def) (simp add: ok_defs)
qed

lemma line_feed_keeps [keeps]: "terminal_ok ctx \<Longrightarrow> terminal_ok (line_feed x y ctx)"
  by (simp add: line_feed_def keeps)

lemma execute_c0_keeps [keeps]: "terminal_ok ctx \<Longrightarrow> terminal_ok (snd (execute_c0 c ctx))"
  by (simp add: execute_c0_def flanterm_fb_get_cursor_pos_def Let_def keeps)

subsection \<open>Control sequences\<close>

lemma params_keep [keeps]:
  assumes "terminal_ok ctx"
  shows "terminal_ok (set_param k v ctx)" "terminal_ok (limit_param k b v ctx)" "terminal_ok (decrement_param k ctx)"
    "terminal_ok (put_spaces n ctx)"
  using assms by (simp_all add: set_param_def limit_param_def decrement_param_def put_spaces_def keeps terminal_okD(11))

lemma cursor_commands_keep [keeps]:
  assumes "terminal_ok ctx"
  shows "terminal_ok (csi_up x y ctx)" "terminal_ok (csi_down x y ctx)" "terminal_ok (csi_right x y ctx)"
    "terminal_ok (csi_left x y ctx)" "terminal_ok (csi_row x ctx)" "terminal_ok (csi_column y ctx)"
    "terminal_ok (csi_position ctx)" "terminal_ok (csi_report x y ctx)"
  using assms
  by (simp_all add: csi_up_def csi_down_def csi_right_def csi_left_def csi_row_def csi_column_def csi_position_def
    csi_report_def row_range_def Let_def keeps)

lemma scroll_region_keeps [keeps]:
  assumes "terminal_ok ctx" and "\<And>s. terminal_ok s \<Longrightarrow> terminal_ok (scr s)"
  shows "terminal_ok (scroll_region scr ctx)"
  using assms by (simp add: scroll_region_def Let_def funpow_keeps [of terminal_ok])

lemma top_margin_keeps:
  "terminal_ok ctx \<Longrightarrow> t < scroll_bottom_margin ctx \<Longrightarrow> terminal_ok (ctx\<lparr>scroll_top_margin := t\<rparr>)"
  by (simp add: ok_defs margins_ok_def)

text \<open>While lines are inserted or deleted the region starts at the cursor, and ends where it did.\<close>

lemma scroll_from_keeps [keeps]:
  assumes ok: "terminal_ok ctx" and scr: "\<And>s. terminal_ok s \<Longrightarrow> terminal_ok (scr s) \<and>
      rows (scr s) = rows s \<and> scroll_bottom_margin (scr s) = scroll_bottom_margin s"
  shows "terminal_ok (scroll_from scr y ctx)"
proof (cases "y < scroll_top_margin ctx \<or> scroll_bottom_margin ctx \<le> y")
  case False
  define start where "start = ctx\<lparr>scroll_top_margin := y\<rparr>"
  have start: "terminal_ok start" "rows start = rows ctx" "scroll_bottom_margin start = scroll_bottom_margin ctx"
    using top_margin_keeps [OF ok, of y] False by (simp_all add: start_def not_le)
  have "terminal_ok ((scr ^^ n) start) \<and> rows ((scr ^^ n) start) = rows ctx \<and>
      scroll_bottom_margin ((scr ^^ n) start) = scroll_bottom_margin ctx" for n
    by (rule funpow_keeps) (simp_all add: scr start)
  then have "terminal_ok (((scr ^^ n) start)\<lparr>scroll_top_margin := scroll_top_margin ctx\<rparr>)" for n
    using top_margin_keeps terminal_okD(9) [OF ok] by metis
  then show ?thesis using False by (simp add: scroll_from_def Let_def start_def)
qed (auto simp: scroll_from_def ok)

lemma scroll_from_back_end [keeps]:
  assumes "terminal_ok ctx"
  shows "terminal_ok (scroll_from flanterm_fb_scroll y ctx)" "terminal_ok (scroll_from flanterm_fb_revscroll y ctx)"
  using assms scroll_keeps only_queue_fields(1,7) [OF scroll_cells(1) [OF terminal_okD(2)]]
    only_queue_fields(1,7) [OF revscroll_cells(1) [OF terminal_okD(2)]]
  by (auto intro!: scroll_from_keeps)

lemma erase_commands_keep [keeps]:
  assumes "terminal_ok ctx"
  shows "terminal_ok (shift_right x y n ctx)" "terminal_ok (clear_lines ys ctx)" "terminal_ok (csi_erase_display x y ctx)"
    "terminal_ok (csi_erase_line x y ctx)" "terminal_ok (csi_insert_chars x y ctx)" "terminal_ok (csi_erase_chars x y ctx)"
    "terminal_ok (csi_delete_chars x y ctx)"
proof -
  have shift: "terminal_ok (shift_right x y n s)" and clear: "terminal_ok (clear_lines ys s)" if "terminal_ok s"
    for x y n ys and s :: "'a fb_context_scheme"
    unfolding shift_right_def clear_lines_def by (rule fold_keeps; simp add: keeps that)+
  have erase: "terminal_ok (csi_erase_chars x y s)" if "terminal_ok s" for x y and s :: "'a fb_context_scheme"
    using that by (simp add: csi_erase_chars_def flanterm_fb_get_cursor_pos_def Let_def keeps)
  show "terminal_ok (shift_right x y n ctx)" "terminal_ok (clear_lines ys ctx)" "terminal_ok (csi_erase_display x y ctx)"
    "terminal_ok (csi_erase_line x y ctx)" "terminal_ok (csi_insert_chars x y ctx)" "terminal_ok (csi_erase_chars x y ctx)"
    using assms shift clear erase by (simp_all add: csi_erase_display_def csi_erase_line_def csi_insert_chars_def Let_def keeps)
  have move: "terminal_ok (fold (\<lambda>i. flanterm_fb_move_character (of_nat i - m) y (of_nat i) y) is s)"
    if "terminal_ok s" for m "is" and s :: "'a fb_context_scheme"
    by (rule fold_keeps; simp add: keeps that)
  show "terminal_ok (csi_delete_chars x y ctx)"
    using assms by (simp add: csi_delete_chars_def Let_def keeps move erase)
qed

text \<open>The margins of \<open>CSI r\<close>: a zero parameter, which would wrap, has been replaced by 1 before.\<close>

lemma csi_margins_keeps [keeps]:
  assumes ok: "terminal_ok ctx" and nz: "0 \<notin> set (esc_values ctx)"
  shows "terminal_ok (csi_margins ctx)"
proof -
  define t where "t = (if esc_values_i ctx > 0 then ucast (esc_values ctx ! 0 - 1) else 0 :: u64)"
  define b where "b = (if esc_values_i ctx > 1 then param 1 ctx else rows ctx)"
  define reset where "reset \<longleftrightarrow> t \<ge> rows ctx \<or> b > rows ctx \<or> t \<ge> b - 1"
  have "esc_values ctx ! 1 \<noteq> 0" using nz terminal_okD(11) [OF ok] by (metis nth_mem one_less_numeral_iff semiring_norm(76))
  then have "param 1 ctx \<noteq> 0"
    using unsigned_less [of "esc_values ctx ! 1", where ?'a = nat]
    by (simp add: param_def word_unat_eq_iff unsigned_ucast_eq take_bit_nat_eq_self)
  then have "0 < b" using terminal_okD(4) [OF ok] by (simp add: b_def word_gt_0)
  then have "margins_ok (rows ctx) (if reset then 0 else t) (if reset then rows ctx else b)"
    using terminal_okD(4) [OF ok]
    by (auto simp: margins_ok_def reset_def not_le not_less word_less_nat_alt word_le_nat_alt unat_sub_if')
  from margins_keep [OF ok this] show ?thesis
    unfolding csi_margins_def t_def [symmetric] b_def [symmetric] reset_def [symmetric] Let_def by (simp add: keeps)
qed

lemma csi_repeat_keeps [keeps]: "terminal_ok ctx \<Longrightarrow> terminal_ok (csi_repeat r w ctx)"
proof -
  have "terminal_ok (repeat_char s)" if "terminal_ok s" for s :: "'a fb_context_scheme"
    using that by (simp add: repeat_char_def flanterm_fb_get_cursor_pos_def Let_def keeps fold_keeps [of terminal_ok])
  then show "terminal_ok ctx \<Longrightarrow> terminal_ok (csi_repeat r w ctx)"
    by (simp add: csi_repeat_def Let_def funpow_keeps [of terminal_ok])
qed

lemma csi_command_keeps:
  assumes "terminal_ok ctx" and "c = 0x72 \<longrightarrow> 0 \<notin> set (esc_values ctx)"
  shows "terminal_ok (csi_command r w x y c ctx)"
  unfolding csi_command_def by (intro if_keeps) (simp_all add: keeps assms)

lemma csi_execute_keeps:
  assumes "terminal_ok ctx" and "c = 0x72 \<longrightarrow> 0 \<notin> set (esc_values ctx)"
  shows "terminal_ok (csi_execute c ctx)"
  using assms csi_command_keeps [of "ctx\<lparr>scroll_enabled := False, wrap_enabled := True\<rparr>" c]
  by (auto simp: csi_execute_def csi_cleanup_def flanterm_fb_get_cursor_pos_def Let_def)

lemma csi_defaults_keeps:
  assumes "terminal_ok ctx"
  shows "terminal_ok (csi_defaults c ctx)" "c = 0x72 \<longrightarrow> 0 \<notin> set (esc_values (csi_defaults c ctx))"
proof -
  have "unat (esc_values_i ctx) \<le> 16" using terminal_okD(13) [OF assms] by (simp add: word_le_nat_alt)
  then show "terminal_ok (csi_defaults c ctx)"
    using assms terminal_okD(11) [OF assms] by (simp add: csi_defaults_def Let_def keeps FLANTERM_MAX_ESC_VALUES_def min_def)
  show "c = 0x72 \<longrightarrow> 0 \<notin> set (esc_values (csi_defaults c ctx))"
    by (auto simp: csi_defaults_def Let_def split: if_splits)
qed

lemma csi_final_keeps [keeps]: "terminal_ok ctx \<Longrightarrow> terminal_ok (csi_final c ctx)"
  using csi_defaults_keeps [of ctx c] csi_execute_keeps [of "csi_defaults c ctx" c]
  unfolding csi_final_def csi_cleanup_def Let_def by (intro if_keeps) (simp_all add: keeps)

lemma csi_digit_keeps [keeps]: "terminal_ok ctx \<Longrightarrow> terminal_ok (csi_digit c ctx)"
proof -
  assume ok: "terminal_ok ctx"
  have "esc_values_i ctx < 16" if "esc_values_i ctx \<noteq> 16" using terminal_okD(13) [OF ok] that by simp
  then have "terminal_ok (ctx\<lparr>rrr := True\<rparr>)" if "esc_values_i ctx \<noteq> 16" using ok that by (simp add: ok_defs)
  then show ?thesis using ok terminal_okD(11) [OF ok] by (simp add: csi_digit_def Let_def FLANTERM_MAX_ESC_VALUES_def keeps)
qed

lemma control_sequence_keeps [keeps]: "terminal_ok ctx \<Longrightarrow> terminal_ok (control_sequence_parse c ctx)"
proof -
  assume ok: "terminal_ok ctx"
  have next_value: "esc_values_i ctx + 1 \<le> 16" if "esc_values_i ctx < 16"
    using that by (simp add: word_less_nat_alt word_le_nat_alt unat_word_ariths)
  have rrr: "terminal_ok (ctx\<lparr>esc_values_i := esc_values_i ctx + 1, rrr := False\<rparr>)" if "rrr ctx"
    using ok that next_value by (simp add: ok_defs)
  have sep: "terminal_ok (ctx\<lparr>esc_values := vs, esc_values_i := esc_values_i ctx + 1\<rparr>)"
    if "\<not> rrr ctx" "esc_values_i ctx \<noteq> 16" "length vs = 16" for vs
  proof -
    have "esc_values_i ctx < 16" using terminal_okD(13) [OF ok] that(2) by simp
    then show ?thesis using ok that next_value by (simp add: ok_defs)
  qed
  show ?thesis
    using ok terminal_okD(11) [OF ok]
    by (simp add: control_sequence_parse_def csi_cleanup_def Let_def keeps rrr sep FLANTERM_MAX_ESC_VALUES_def)
qed

subsection \<open>Escape sequences, printing and decoding\<close>

lemma escape_keeps [keeps]: "terminal_ok ctx \<Longrightarrow> terminal_ok (escape_parse c ctx)"
proof -
  have reset: "terminal_ok (ft_reset s)" if "terminal_ok s" for s :: "'a fb_context_scheme"
    using that by (simp add: ft_reset_def Let_def keeps)
  have command: "terminal_ok (escape_command c s)" if "terminal_ok s" for s :: "'a fb_context_scheme"
  proof -
    have "terminal_ok (s\<lparr>esc_values := replicate 16 0, esc_values_i := 0, rrr := False\<rparr>)"
      "terminal_ok (s\<lparr>osc_escape := False, osc := True, osc_buf_i := 0\<rparr>)" using that by (simp_all add: ok_defs)
    then show ?thesis
      using that by (simp add: escape_command_def flanterm_fb_get_cursor_pos_def next_line_def reverse_line_feed_def
        Let_def keeps reset FLANTERM_MAX_ESC_VALUES_def)
  qed
  assume ok: "terminal_ok ctx"
  have "terminal_ok t" if "osc_parse c (ctx\<lparr>escape_offset := escape_offset ctx + 1\<rparr>) = (b, t)" for b t
    using osc_parse_keeps [of "ctx\<lparr>escape_offset := escape_offset ctx + 1\<rparr>" c] ok that by simp
  then show ?thesis
    using ok by (auto simp: escape_parse_def Let_def keeps command split: prod.split)
qed

lemma printing_keeps [keeps]:
  assumes "terminal_ok ctx"
  shows "terminal_ok (insert_shift n ctx)" "terminal_ok (print_graphic c ctx)" "terminal_ok (snd (dec_special_print c ctx))"
    "terminal_ok (print_code_point ctx)" "terminal_ok (select_charset c ctx)" "terminal_ok (print_byte c ctx)"
proof -
  have ins: "terminal_ok (insert_shift n s)" and pr: "terminal_ok (print_graphic c s)"
    and dec: "terminal_ok (snd (dec_special_print c s))" if "terminal_ok s" for n c and s :: "'a fb_context_scheme"
    using that by (simp_all add: insert_shift_def print_graphic_def dec_special_print_def flanterm_fb_get_cursor_pos_def
      Let_def keeps split: option.split)
  have dec': "dec_special_print c s = (b, t) \<Longrightarrow> terminal_ok t" if "terminal_ok s" for b c and s t :: "'a fb_context_scheme"
    using dec [OF that, of c] by simp
  show "terminal_ok (insert_shift n ctx)" "terminal_ok (print_graphic c ctx)" "terminal_ok (snd (dec_special_print c ctx))"
    using assms by (simp_all add: ins pr dec)
  show "terminal_ok (print_code_point ctx)"
    using assms by (simp add: print_code_point_def Let_def keeps ins pr funpow_keeps [of terminal_ok])
  have "length (charsets ctx) = 2" using assms by (simp add: ok_defs)
  with assms show "terminal_ok (select_charset c ctx)" by (simp add: select_charset_def Let_def keeps)
  show "terminal_ok (print_byte c ctx)"
    using assms by (auto simp: print_byte_def Let_def ins pr dest: dec' [OF ins] split: prod.split if_splits)
qed

lemma ground_byte_keeps [keeps]: "terminal_ok ctx \<Longrightarrow> terminal_ok (ground_byte c ctx)"
  by (simp add: ground_byte_def Let_def keeps)

lemma unicode_keeps [keeps]:
  assumes "terminal_ok ctx"
  shows "terminal_ok (unicode_error c ctx)" "unicode_remaining ctx \<noteq> 0 \<Longrightarrow> terminal_ok (continuation_byte c ctx)"
proof -
  have err: "terminal_ok (unicode_error c s)" if "terminal_ok s" for s :: "'a fb_context_scheme"
    using that by (simp add: unicode_error_def lead_byte_def Let_def keeps)
  show "terminal_ok (unicode_error c ctx)" using assms by (rule err)
  assume "unicode_remaining ctx \<noteq> 0"
  then have "0 < unat (unicode_remaining ctx)" by (simp add: unat_gt_0)
  then have "unicode_remaining ctx - 1 \<le> 3"
    using assms by (simp add: ok_defs word_le_nat_alt unat_sub_if' le_trans [OF diff_le_self])
  then show "terminal_ok (continuation_byte c ctx)" using assms by (simp add: continuation_byte_def Let_def keeps err)
qed

subsection \<open>Writing and flushing\<close>

lemma putchar_keeps [keeps]: "terminal_ok ctx \<Longrightarrow> terminal_ok (flanterm_putchar c ctx)"
proof -
  assume ok: "terminal_ok ctx"
  then have "terminal_ok (cancel_sequence ctx)" by (simp add: cancel_sequence_def ok_defs)
  with ok show ?thesis by (simp add: flanterm_putchar_def keeps)
qed

lemma only_flushed_fields:
  assumes "only_flushed s t"
  shows "rows t = rows s" "cols t = cols s" "cells t = cells s" "fb_geometry t = fb_geometry s"
    "ansi_colours t = ansi_colours s" "ansi_bright_colours t = ansi_bright_colours s"
    "cursor_ok t = cursor_ok s" "parser_ok t = parser_ok s" "modes_ok t = modes_ok s"
  by (subst assms [unfolded only_flushed_def], simp add: cells_def fb_geometry_def sideways_def cursor_ok_def parser_ok_def
    modes_ok_def cong: if_cong)+

lemma flush_keeps [keeps]:
  assumes ok: "terminal_ok ctx"
  shows "terminal_ok (flanterm_fb_double_buffer_flush ctx)"
proof -
  have s: "fb_geometry ctx" "queue_ok ctx" "displayed ctx" using ok by (simp_all add: terminal_ok_def screen_ok_def)
  note r = flush_result [OF s refl]
  then show ?thesis
    using ok by (simp add: terminal_ok_def screen_ok_def only_flushed_fields [OF conjunct1 [OF r]])
qed

lemma write_keeps [keeps]: "terminal_ok ctx \<Longrightarrow> terminal_ok (flanterm_write buf ctx)"
  by (simp add: flanterm_write_def Let_def keeps fold_keeps [of terminal_ok])

subsection \<open>Clients\<close>

text \<open>What a client of the terminal can do; colour numbers are below 8, as the comments of
  \<open>flanterm.h\<close> ask for.\<close>

inductive terminal_step :: "'z fb_context_scheme \<Rightarrow> 'z fb_context_scheme \<Rightarrow> bool" where
  step_write: "terminal_step ctx (flanterm_write buf ctx)"
| step_flush: "terminal_step ctx (flanterm_flush ctx)"
| step_clear: "terminal_step ctx (flanterm_clear move ctx)"
| step_cursor: "terminal_step ctx (flanterm_set_cursor_pos x y ctx)"
| step_fg: "colour < 8 \<Longrightarrow> terminal_step ctx (flanterm_set_text_fg colour bright ctx)"
| step_bg: "colour < 8 \<Longrightarrow> terminal_step ctx (flanterm_set_text_bg colour bright ctx)"
| step_reset_fg: "terminal_step ctx (flanterm_reset_text_fg ctx)"
| step_reset_bg: "terminal_step ctx (flanterm_reset_text_bg ctx)"
| step_autoflush: "terminal_step ctx (flanterm_set_autoflush state ctx)"
| step_callback: "terminal_step ctx (flanterm_set_callback present ctx)"

inductive_cases terminal_stepE: "terminal_step ctx ctx'"

lemma step_keeps: "terminal_step ctx ctx' \<Longrightarrow> terminal_ok ctx \<Longrightarrow> terminal_ok ctx'"
  by (erule terminal_stepE)
    (simp_all add: keeps flanterm_flush_def flanterm_clear_def flanterm_set_cursor_pos_def flanterm_set_text_fg_def
      flanterm_set_text_bg_def flanterm_reset_text_fg_def flanterm_reset_text_bg_def flanterm_set_autoflush_def
      flanterm_set_callback_def Let_def)

lemma steps_keep: "terminal_step\<^sup>*\<^sup>* ctx ctx' \<Longrightarrow> terminal_ok ctx \<Longrightarrow> terminal_ok ctx'"
  by (induction rule: rtranclp_induct) (auto intro: step_keeps)

lemma tiny_terminal_ok: "terminal_ok tiny_screen"
proof -
  have "fb_geometry tiny_screen" by (simp add: fb_geometry_def tiny_screen_def sideways_def)
  moreover have "cell_of tiny_screen x y < 4" if "x < 2" "y < 2" for x y
    using that by (simp add: cell_of_def tiny_screen_def word_less_nat_alt)
  then have "displayed tiny_screen"
    by (auto simp: displayed_def tiny_screen_def shows_char_def char_pixel_def pixel_colour_def glyph_bit_def blank_char_def)
  moreover have "fc_c (char_at i tiny_screen) < 256" if "i < 4" for i
    using that by (simp add: char_at_def tiny_screen_def blank_char_def)
  ultimately show ?thesis
    using tiny_screen_ok by (simp add: ok_defs screen_ok_def) (simp add: tiny_screen_def cells_def margins_ok_def)
qed

end
