(* ===== verification/Builtin_Font.thy ===== *)
theory Builtin_Font
  imports Prelude
begin

text \<open>
  The built-in font of the frame-buffer back end (\<open>builtin_font\<close> in
  \<open>src/kernel/src/logging/flanterm_backends/fb.c\<close>): 256 glyphs of 16 lines of eight pixels, in
  parts of 28 lines of the source.
\<close>

definition font_a :: "u8 list" where
  "font_a = [
    0, 0, 0, 0, 0, 0, 0, 0, 0, 0, 0, 0, 0, 0, 0, 0, 0, 0x3c, 0x42, 0x81, 0x81, 0xa5, 0xa5, 0x81,
    0x81, 0xa5, 0x99, 0x81, 0x42, 0x3c, 0, 0, 0, 0x3c, 0x7e, 0xff, 0xff, 0xdb, 0xdb, 0xff, 0xff, 0xdb, 0xe7, 0xff, 0x7e, 0x3c, 0, 0,
    0, 0, 0, 0x6c, 0xfe, 0xfe, 0xfe, 0x7c, 0x7c, 0x38, 0x38, 0x10, 0x10, 0, 0, 0, 0, 0x10, 0x10, 0x38, 0x38, 0x7c, 0x7c, 0xfe,
    0x7c, 0x7c, 0x38, 0x38, 0x10, 0x10, 0, 0, 0, 0, 0, 0x18, 0x3c, 0x3c, 0xdb, 0xff, 0xff, 0xdb, 0x18, 0x18, 0x3c, 0, 0, 0,
    0, 0, 0, 0x18, 0x3c, 0x7e, 0xff, 0xff, 0xff, 0x66, 0x18, 0x18, 0x3c, 0, 0, 0, 0, 0, 0, 0, 0, 0, 0x30, 0x78,
    0x78, 0x30, 0, 0, 0, 0, 0, 0, 0xff, 0xff, 0xff, 0xff, 0xff, 0xff, 0xe7, 0xc3, 0xc3, 0xe7, 0xff, 0xff, 0xff, 0xff, 0xff, 0xff,
    0, 0, 0, 0, 0, 0x78, 0xcc, 0x84, 0x84, 0xcc, 0x78, 0, 0, 0, 0, 0, 0xff, 0xff, 0xff, 0xff, 0xff, 0xc3, 0x99, 0xbd,
    0xbd, 0x99, 0xc3, 0xff, 0xff, 0xff, 0xff, 0xff, 0, 0, 0, 0x1e, 0x0e, 0x1e, 0x32, 0x78, 0xcc, 0xcc, 0xcc, 0x78, 0, 0, 0, 0,
    0, 0, 0, 0x78, 0xcc, 0xcc, 0xcc, 0x78, 0x30, 0xfc, 0x30, 0x30, 0, 0, 0, 0, 0, 0, 0x10, 0x18, 0x1c, 0x1e, 0x16, 0x12,
    0x10, 0x10, 0x70, 0xf0, 0xe0, 0, 0, 0, 0, 0x30, 0x38, 0x2c, 0x26, 0x32, 0x3a, 0x2e, 0x26, 0x22, 0x62, 0xe2, 0xc6, 0x0e, 0x0c, 0,
    0, 0, 0, 0x18, 0x18, 0xdb, 0x3c, 0xe7, 0x3c, 0xdb, 0x18, 0x18, 0, 0, 0, 0, 0, 0, 0, 0x80, 0xc0, 0xe0, 0xf8, 0xfe,
    0xf8, 0xe0, 0xc0, 0x80, 0, 0, 0, 0, 0, 0, 0, 2, 6, 0x0e, 0x3e, 0xfe, 0x3e, 0x0e, 6, 2, 0, 0, 0, 0,
    0, 0, 0x30, 0x78, 0xfc, 0x30, 0x30, 0x30, 0x30, 0x30, 0xfc, 0x78, 0x30, 0, 0, 0, 0, 0, 0xcc, 0xcc, 0xcc, 0xcc, 0xcc, 0xcc,
    0xcc, 0xcc, 0, 0xcc, 0xcc, 0, 0, 0, 0, 0, 0x7f, 0xdb, 0xdb, 0xdb, 0xdb, 0x7b, 0x1b, 0x1b, 0x1b, 0x1b, 0x1b, 0, 0, 0]"

definition font_b :: "u8 list" where
  "font_b = [
    0, 0, 0x7c, 0xc6, 0x60, 0x38, 0x6c, 0xc6, 0xc6, 0x6c, 0x38, 0x0c, 0xc6, 0x7c, 0, 0, 0, 0, 0, 0, 0, 0, 0, 0,
    0, 0, 0xfe, 0xfe, 0xfe, 0, 0, 0, 0, 0, 0x30, 0x78, 0xfc, 0x30, 0x30, 0x30, 0x30, 0x30, 0xfc, 0x78, 0x30, 0xfc, 0, 0,
    0, 0, 0x30, 0x78, 0xfc, 0x30, 0x30, 0x30, 0x30, 0x30, 0x30, 0x30, 0x30, 0, 0, 0, 0, 0, 0x30, 0x30, 0x30, 0x30, 0x30, 0x30,
    0x30, 0x30, 0xfc, 0x78, 0x30, 0, 0, 0, 0, 0, 0, 0, 0, 0x18, 0x0c, 0xfe, 0xfe, 0x0c, 0x18, 0, 0, 0, 0, 0,
    0, 0, 0, 0, 0, 0x30, 0x60, 0xfe, 0xfe, 0x60, 0x30, 0, 0, 0, 0, 0, 0, 0, 0, 0, 0, 0, 0, 0xc0,
    0xc0, 0xc0, 0xfe, 0, 0, 0, 0, 0, 0, 0, 0, 0, 0, 0x24, 0x66, 0xff, 0xff, 0x66, 0x24, 0, 0, 0, 0, 0,
    0, 0, 0, 0, 0x10, 0x10, 0x38, 0x38, 0x7c, 0x7c, 0xfe, 0xfe, 0, 0, 0, 0, 0, 0, 0, 0, 0xfe, 0xfe, 0x7c, 0x7c,
    0x38, 0x38, 0x10, 0x10, 0, 0, 0, 0, 0, 0, 0, 0, 0, 0, 0, 0, 0, 0, 0, 0, 0, 0, 0, 0,
    0, 0, 0x30, 0x78, 0x78, 0x78, 0x78, 0x30, 0x30, 0x30, 0, 0x30, 0x30, 0, 0, 0, 0, 0, 0xcc, 0xcc, 0xcc, 0xcc, 0xcc, 0,
    0, 0, 0, 0, 0, 0, 0, 0, 0, 0, 0x6c, 0x6c, 0x6c, 0xfe, 0x6c, 0x6c, 0x6c, 0xfe, 0x6c, 0x6c, 0x6c, 0, 0, 0,
    0, 0x18, 0x18, 0x7c, 0xc6, 0xc0, 0xc0, 0x7c, 6, 6, 0xc6, 0x7c, 0x18, 0x18, 0, 0, 0, 0, 0xc6, 0xc6, 0x0c, 0x0c, 0x18, 0x38,
    0x30, 0x60, 0x60, 0xc6, 0xc6, 0, 0, 0, 0, 0, 0x38, 0x6c, 0x6c, 0x38, 0x30, 0x76, 0xde, 0xcc, 0xcc, 0xde, 0x76, 0, 0, 0,
    0, 0, 0x18, 0x18, 0x18, 0x30, 0, 0, 0, 0, 0, 0, 0, 0, 0, 0, 0, 0, 0x18, 0x30, 0x60, 0x60, 0x60, 0x60,
    0x60, 0x60, 0x60, 0x30, 0x18, 0, 0, 0, 0, 0, 0x60, 0x30, 0x18, 0x18, 0x18, 0x18, 0x18, 0x18, 0x18, 0x30, 0x60, 0, 0, 0]"

definition font_c :: "u8 list" where
  "font_c = [
    0, 0, 0, 0, 0, 0x6c, 0x38, 0xfe, 0x38, 0x6c, 0, 0, 0, 0, 0, 0, 0, 0, 0, 0, 0, 0x18, 0x18, 0x7e,
    0x18, 0x18, 0, 0, 0, 0, 0, 0, 0, 0, 0, 0, 0, 0, 0, 0, 0, 0, 0, 0x18, 0x18, 0x30, 0, 0,
    0, 0, 0, 0, 0, 0, 0, 0xfe, 0, 0, 0, 0, 0, 0, 0, 0, 0, 0, 0, 0, 0, 0, 0, 0,
    0, 0, 0, 0x18, 0x18, 0, 0, 0, 0, 0, 6, 6, 0x0c, 0x0c, 0x18, 0x38, 0x30, 0x60, 0x60, 0xc0, 0xc0, 0, 0, 0,
    0, 0, 0x7c, 0xc6, 0xc6, 0xc6, 0xd6, 0xd6, 0xd6, 0xc6, 0xc6, 0xc6, 0x7c, 0, 0, 0, 0, 0, 0x18, 0x38, 0x78, 0x18, 0x18, 0x18,
    0x18, 0x18, 0x18, 0x18, 0x7e, 0, 0, 0, 0, 0, 0x7c, 0xc6, 6, 6, 0x0c, 0x18, 0x30, 0x60, 0xc0, 0xc0, 0xfe, 0, 0, 0,
    0, 0, 0x7c, 0xc6, 6, 6, 0x3c, 6, 6, 6, 6, 0xc6, 0x7c, 0, 0, 0, 0, 0, 4, 0x0c, 0x1c, 0x3c, 0x6c, 0xcc,
    0xfe, 0x0c, 0x0c, 0x0c, 0x0c, 0, 0, 0, 0, 0, 0xfe, 0xc0, 0xc0, 0xc0, 0xfc, 6, 6, 6, 6, 0xc6, 0x7c, 0, 0, 0,
    0, 0, 0x3c, 0x60, 0xc0, 0xc0, 0xfc, 0xc6, 0xc6, 0xc6, 0xc6, 0xc6, 0x7c, 0, 0, 0, 0, 0, 0xfe, 0xc6, 6, 6, 0x0c, 0x18,
    0x30, 0x30, 0x30, 0x30, 0x30, 0, 0, 0, 0, 0, 0x7c, 0xc6, 0xc6, 0xc6, 0x7c, 0xc6, 0xc6, 0xc6, 0xc6, 0xc6, 0x7c, 0, 0, 0,
    0, 0, 0x7c, 0xc6, 0xc6, 0xc6, 0xc6, 0x7e, 6, 6, 6, 0x0c, 0x78, 0, 0, 0, 0, 0, 0, 0, 0, 0, 0, 0x18,
    0x18, 0, 0, 0x18, 0x18, 0, 0, 0, 0, 0, 0, 0, 0, 0, 0, 0x18, 0x18, 0, 0, 0x18, 0x18, 0x30, 0, 0,
    0, 0, 6, 0x0c, 0x18, 0x30, 0x60, 0xc0, 0x60, 0x30, 0x18, 0x0c, 6, 0, 0, 0, 0, 0, 0, 0, 0, 0, 0xfe, 0,
    0xfe, 0, 0, 0, 0, 0, 0, 0, 0, 0, 0xc0, 0x60, 0x30, 0x18, 0x0c, 6, 0x0c, 0x18, 0x30, 0x60, 0xc0, 0, 0, 0]"

definition font_d :: "u8 list" where
  "font_d = [
    0, 0, 0x7c, 0xc6, 0xc6, 6, 0x0c, 0x18, 0x30, 0x30, 0, 0x30, 0x30, 0, 0, 0, 0, 0, 0x7c, 0xc6, 0xc6, 0xc6, 0xde, 0xde,
    0xde, 0xde, 0xc0, 0xc0, 0x7e, 0, 0, 0, 0, 0, 0x38, 0x6c, 0xc6, 0xc6, 0xc6, 0xc6, 0xfe, 0xc6, 0xc6, 0xc6, 0xc6, 0, 0, 0,
    0, 0, 0xfc, 0xc6, 0xc6, 0xc6, 0xfc, 0xc6, 0xc6, 0xc6, 0xc6, 0xc6, 0xfc, 0, 0, 0, 0, 0, 0x7c, 0xc6, 0xc0, 0xc0, 0xc0, 0xc0,
    0xc0, 0xc0, 0xc0, 0xc6, 0x7c, 0, 0, 0, 0, 0, 0xf8, 0xcc, 0xc6, 0xc6, 0xc6, 0xc6, 0xc6, 0xc6, 0xc6, 0xcc, 0xf8, 0, 0, 0,
    0, 0, 0xfe, 0xc0, 0xc0, 0xc0, 0xfc, 0xc0, 0xc0, 0xc0, 0xc0, 0xc0, 0xfe, 0, 0, 0, 0, 0, 0xfe, 0xc0, 0xc0, 0xc0, 0xfc, 0xc0,
    0xc0, 0xc0, 0xc0, 0xc0, 0xc0, 0, 0, 0, 0, 0, 0x7c, 0xc6, 0xc0, 0xc0, 0xc0, 0xde, 0xc6, 0xc6, 0xc6, 0xc6, 0x7e, 0, 0, 0,
    0, 0, 0xc6, 0xc6, 0xc6, 0xc6, 0xc6, 0xfe, 0xc6, 0xc6, 0xc6, 0xc6, 0xc6, 0, 0, 0, 0, 0, 0xfc, 0x30, 0x30, 0x30, 0x30, 0x30,
    0x30, 0x30, 0x30, 0x30, 0xfc, 0, 0, 0, 0, 0, 0x1e, 0x0c, 0x0c, 0x0c, 0x0c, 0x0c, 0x0c, 0x0c, 0xcc, 0xcc, 0x78, 0, 0, 0,
    0, 0, 0xc6, 0xc6, 0xcc, 0xd8, 0xf0, 0xe0, 0xf0, 0xd8, 0xcc, 0xc6, 0xc6, 0, 0, 0, 0, 0, 0xc0, 0xc0, 0xc0, 0xc0, 0xc0, 0xc0,
    0xc0, 0xc0, 0xc0, 0xc0, 0xfe, 0, 0, 0, 0, 0, 0xc6, 0xc6, 0xee, 0xfe, 0xd6, 0xd6, 0xd6, 0xc6, 0xc6, 0xc6, 0xc6, 0, 0, 0,
    0, 0, 0xc6, 0xc6, 0xe6, 0xe6, 0xf6, 0xde, 0xce, 0xce, 0xc6, 0xc6, 0xc6, 0, 0, 0, 0, 0, 0x7c, 0xc6, 0xc6, 0xc6, 0xc6, 0xc6,
    0xc6, 0xc6, 0xc6, 0xc6, 0x7c, 0, 0, 0, 0, 0, 0xfc, 0xc6, 0xc6, 0xc6, 0xc6, 0xfc, 0xc0, 0xc0, 0xc0, 0xc0, 0xc0, 0, 0, 0,
    0, 0, 0x7c, 0xc6, 0xc6, 0xc6, 0xc6, 0xc6, 0xc6, 0xc6, 0xf6, 0xda, 0x6c, 6, 0, 0, 0, 0, 0xfc, 0xc6, 0xc6, 0xc6, 0xc6, 0xfc,
    0xd8, 0xcc, 0xcc, 0xc6, 0xc6, 0, 0, 0, 0, 0, 0x7c, 0xc6, 0xc0, 0x60, 0x30, 0x18, 0x0c, 6, 6, 0xc6, 0x7c, 0, 0, 0]"

definition font_e :: "u8 list" where
  "font_e = [
    0, 0, 0xff, 0x18, 0x18, 0x18, 0x18, 0x18, 0x18, 0x18, 0x18, 0x18, 0x18, 0, 0, 0, 0, 0, 0xc6, 0xc6, 0xc6, 0xc6, 0xc6, 0xc6,
    0xc6, 0xc6, 0xc6, 0xc6, 0x7c, 0, 0, 0, 0, 0, 0xc6, 0xc6, 0xc6, 0xc6, 0xc6, 0xc6, 0xc6, 0xc6, 0x6c, 0x38, 0x10, 0, 0, 0,
    0, 0, 0xc6, 0xc6, 0xc6, 0xc6, 0xd6, 0xd6, 0xd6, 0xd6, 0xfe, 0x6c, 0x6c, 0, 0, 0, 0, 0, 0xc6, 0xc6, 0xc6, 0x6c, 0x38, 0x38,
    0x38, 0x6c, 0xc6, 0xc6, 0xc6, 0, 0, 0, 0, 0, 0xcc, 0xcc, 0xcc, 0xcc, 0xcc, 0x78, 0x30, 0x30, 0x30, 0x30, 0x30, 0, 0, 0,
    0, 0, 0xfe, 6, 6, 0x0c, 0x18, 0x30, 0x60, 0xc0, 0xc0, 0xc0, 0xfe, 0, 0, 0, 0, 0, 0x78, 0x60, 0x60, 0x60, 0x60, 0x60,
    0x60, 0x60, 0x60, 0x60, 0x78, 0, 0, 0, 0, 0, 0xc0, 0xc0, 0x60, 0x60, 0x30, 0x38, 0x18, 0x0c, 0x0c, 6, 6, 0, 0, 0,
    0, 0, 0x78, 0x18, 0x18, 0x18, 0x18, 0x18, 0x18, 0x18, 0x18, 0x18, 0x78, 0, 0, 0, 0, 0, 0x10, 0x38, 0x6c, 0xc6, 0, 0,
    0, 0, 0, 0, 0, 0, 0, 0, 0, 0, 0, 0, 0, 0, 0, 0, 0, 0, 0, 0, 0, 0, 0xff, 0,
    0, 0, 0x18, 0x18, 0x18, 0x0c, 0, 0, 0, 0, 0, 0, 0, 0, 0, 0, 0, 0, 0, 0, 0, 0x7c, 6, 6,
    0x7e, 0xc6, 0xc6, 0xc6, 0x7e, 0, 0, 0, 0, 0, 0xc0, 0xc0, 0xc0, 0xdc, 0xe6, 0xc6, 0xc6, 0xc6, 0xc6, 0xe6, 0xdc, 0, 0, 0,
    0, 0, 0, 0, 0, 0x7c, 0xc6, 0xc0, 0xc0, 0xc0, 0xc0, 0xc6, 0x7c, 0, 0, 0, 0, 0, 6, 6, 6, 0x76, 0xce, 0xc6,
    0xc6, 0xc6, 0xc6, 0xce, 0x76, 0, 0, 0, 0, 0, 0, 0, 0, 0x7c, 0xc6, 0xc6, 0xfe, 0xc0, 0xc0, 0xc0, 0x7e, 0, 0, 0,
    0, 0, 0x1c, 0x36, 0x30, 0x30, 0xfc, 0x30, 0x30, 0x30, 0x30, 0x30, 0x30, 0, 0, 0, 0, 0, 0, 0, 0, 0x76, 0xce, 0xc6,
    0xc6, 0xc6, 0xce, 0x76, 6, 0xc6, 0x7c, 0, 0, 0, 0xc0, 0xc0, 0xc0, 0xdc, 0xe6, 0xc6, 0xc6, 0xc6, 0xc6, 0xc6, 0xc6, 0, 0, 0]"

definition font_f :: "u8 list" where
  "font_f = [
    0, 0, 0x18, 0, 0, 0x38, 0x18, 0x18, 0x18, 0x18, 0x18, 0x18, 0x3c, 0, 0, 0, 0, 0, 6, 0, 0, 0x1e, 6, 6,
    6, 6, 6, 6, 0xc6, 0xc6, 0x7c, 0, 0, 0, 0xc0, 0xc0, 0xc0, 0xc6, 0xcc, 0xd8, 0xf0, 0xf0, 0xd8, 0xcc, 0xc6, 0, 0, 0,
    0, 0, 0x38, 0x18, 0x18, 0x18, 0x18, 0x18, 0x18, 0x18, 0x18, 0x18, 0x3c, 0, 0, 0, 0, 0, 0, 0, 0, 0xec, 0xfe, 0xd6,
    0xd6, 0xd6, 0xd6, 0xc6, 0xc6, 0, 0, 0, 0, 0, 0, 0, 0, 0xdc, 0xe6, 0xc6, 0xc6, 0xc6, 0xc6, 0xc6, 0xc6, 0, 0, 0,
    0, 0, 0, 0, 0, 0x7c, 0xc6, 0xc6, 0xc6, 0xc6, 0xc6, 0xc6, 0x7c, 0, 0, 0, 0, 0, 0, 0, 0, 0xdc, 0xe6, 0xc6,
    0xc6, 0xc6, 0xe6, 0xdc, 0xc0, 0xc0, 0xc0, 0, 0, 0, 0, 0, 0, 0x76, 0xce, 0xc6, 0xc6, 0xc6, 0xce, 0x76, 6, 6, 6, 0,
    0, 0, 0, 0, 0, 0xdc, 0xe6, 0xc0, 0xc0, 0xc0, 0xc0, 0xc0, 0xc0, 0, 0, 0, 0, 0, 0, 0, 0, 0x7c, 0xc6, 0xc0,
    0x70, 0x1c, 6, 0xc6, 0x7c, 0, 0, 0, 0, 0, 0x30, 0x30, 0x30, 0xfe, 0x30, 0x30, 0x30, 0x30, 0x30, 0x36, 0x1c, 0, 0, 0,
    0, 0, 0, 0, 0, 0xc6, 0xc6, 0xc6, 0xc6, 0xc6, 0xc6, 0xc6, 0x7c, 0, 0, 0, 0, 0, 0, 0, 0, 0xc6, 0xc6, 0xc6,
    0xc6, 0xc6, 0x6c, 0x38, 0x10, 0, 0, 0, 0, 0, 0, 0, 0, 0xc6, 0xc6, 0xd6, 0xd6, 0xd6, 0xd6, 0xfe, 0x6c, 0, 0, 0,
    0, 0, 0, 0, 0, 0xc6, 0xc6, 0x6c, 0x38, 0x38, 0x6c, 0xc6, 0xc6, 0, 0, 0, 0, 0, 0, 0, 0, 0xc6, 0xc6, 0xc6,
    0xc6, 0xc6, 0xce, 0x76, 6, 0xc6, 0x7c, 0, 0, 0, 0, 0, 0, 0xfe, 6, 0x0c, 0x18, 0x30, 0x60, 0xc0, 0xfe, 0, 0, 0,
    0, 0, 0x1c, 0x30, 0x30, 0x30, 0x30, 0xe0, 0x30, 0x30, 0x30, 0x30, 0x1c, 0, 0, 0, 0, 0, 0x30, 0x30, 0x30, 0x30, 0x30, 0,
    0x30, 0x30, 0x30, 0x30, 0x30, 0, 0, 0, 0, 0, 0xe0, 0x30, 0x30, 0x30, 0x30, 0x1c, 0x30, 0x30, 0x30, 0x30, 0xe0, 0, 0, 0]"

definition font_g :: "u8 list" where
  "font_g = [
    0, 0, 0, 0x76, 0xdc, 0, 0, 0, 0, 0, 0, 0, 0, 0, 0, 0, 0, 0, 0, 0x10, 0x10, 0x38, 0x38, 0x6c,
    0x6c, 0xc6, 0xc6, 0xfe, 0, 0, 0, 0, 0, 0, 0x3c, 0x66, 0xc0, 0xc0, 0xc0, 0xc0, 0xc0, 0xc0, 0x66, 0x3c, 0x18, 0xcc, 0x78, 0,
    0, 0, 0x6c, 0x6c, 0, 0xc6, 0xc6, 0xc6, 0xc6, 0xc6, 0xc6, 0xc6, 0x7c, 0, 0, 0, 0, 0x0c, 0x18, 0x30, 0, 0x7c, 0xc6, 0xc6,
    0xfe, 0xc0, 0xc0, 0xc0, 0x7e, 0, 0, 0, 0, 0x10, 0x38, 0x6c, 0, 0x7c, 6, 6, 0x7e, 0xc6, 0xc6, 0xc6, 0x7e, 0, 0, 0,
    0, 0, 0x6c, 0x6c, 0, 0x7c, 6, 6, 0x7e, 0xc6, 0xc6, 0xc6, 0x7e, 0, 0, 0, 0, 0x60, 0x30, 0x18, 0, 0x7c, 6, 6,
    0x7e, 0xc6, 0xc6, 0xc6, 0x7e, 0, 0, 0, 0, 0x38, 0x6c, 0x38, 0, 0x7c, 6, 6, 0x7e, 0xc6, 0xc6, 0xc6, 0x7e, 0, 0, 0,
    0, 0, 0, 0, 0, 0x7c, 0xc6, 0xc0, 0xc0, 0xc0, 0xc0, 0xc6, 0x7c, 0x18, 0x0c, 0x38, 0, 0x10, 0x38, 0x6c, 0, 0x7c, 0xc6, 0xc6,
    0xfe, 0xc0, 0xc0, 0xc0, 0x7e, 0, 0, 0, 0, 0, 0x6c, 0x6c, 0, 0x7c, 0xc6, 0xc6, 0xfe, 0xc0, 0xc0, 0xc0, 0x7e, 0, 0, 0,
    0, 0x60, 0x30, 0x18, 0, 0x7c, 0xc6, 0xc6, 0xfe, 0xc0, 0xc0, 0xc0, 0x7e, 0, 0, 0, 0, 0, 0x6c, 0x6c, 0, 0x38, 0x18, 0x18,
    0x18, 0x18, 0x18, 0x18, 0x3c, 0, 0, 0, 0, 0x10, 0x38, 0x6c, 0, 0x38, 0x18, 0x18, 0x18, 0x18, 0x18, 0x18, 0x3c, 0, 0, 0,
    0, 0x60, 0x30, 0x18, 0, 0x38, 0x18, 0x18, 0x18, 0x18, 0x18, 0x18, 0x3c, 0, 0, 0, 0xc6, 0xc6, 0x10, 0x38, 0x6c, 0xc6, 0xc6, 0xc6,
    0xfe, 0xc6, 0xc6, 0xc6, 0xc6, 0, 0, 0, 0x38, 0x6c, 0x38, 0, 0x38, 0x6c, 0xc6, 0xc6, 0xc6, 0xfe, 0xc6, 0xc6, 0xc6, 0, 0, 0,
    0x18, 0x30, 0x60, 0, 0xfe, 0xc0, 0xc0, 0xfc, 0xc0, 0xc0, 0xc0, 0xc0, 0xfe, 0, 0, 0, 0, 0, 0, 0, 0, 0xec, 0x36, 0x36,
    0x76, 0xde, 0xd8, 0xd8, 0x6e, 0, 0, 0, 0, 0, 0x1e, 0x3c, 0x6c, 0xcc, 0xcc, 0xfe, 0xcc, 0xcc, 0xcc, 0xcc, 0xce, 0, 0, 0]"

definition font_h :: "u8 list" where
  "font_h = [
    0, 0x10, 0x38, 0x6c, 0, 0x7c, 0xc6, 0xc6, 0xc6, 0xc6, 0xc6, 0xc6, 0x7c, 0, 0, 0, 0, 0, 0x6c, 0x6c, 0, 0x7c, 0xc6, 0xc6,
    0xc6, 0xc6, 0xc6, 0xc6, 0x7c, 0, 0, 0, 0, 0x60, 0x30, 0x18, 0, 0x7c, 0xc6, 0xc6, 0xc6, 0xc6, 0xc6, 0xc6, 0x7c, 0, 0, 0,
    0, 0x10, 0x38, 0x6c, 0, 0xc6, 0xc6, 0xc6, 0xc6, 0xc6, 0xc6, 0xc6, 0x7c, 0, 0, 0, 0, 0x60, 0x30, 0x18, 0, 0xc6, 0xc6, 0xc6,
    0xc6, 0xc6, 0xc6, 0xc6, 0x7c, 0, 0, 0, 0, 0, 0x6c, 0x6c, 0, 0xc6, 0xc6, 0xc6, 0xc6, 0xc6, 0xce, 0x76, 6, 0xc6, 0x7c, 0,
    0x6c, 0x6c, 0, 0x7c, 0xc6, 0xc6, 0xc6, 0xc6, 0xc6, 0xc6, 0xc6, 0xc6, 0x7c, 0, 0, 0, 0x6c, 0x6c, 0, 0xc6, 0xc6, 0xc6, 0xc6, 0xc6,
    0xc6, 0xc6, 0xc6, 0xc6, 0x7c, 0, 0, 0, 0, 0, 0, 0x30, 0x30, 0x78, 0xcc, 0xc0, 0xc0, 0xcc, 0x78, 0x30, 0x30, 0, 0, 0,
    0, 0, 0x38, 0x6c, 0x60, 0x60, 0x60, 0xf8, 0x60, 0x60, 0x60, 0xe6, 0xfc, 0, 0, 0, 0, 0, 0xcc, 0xcc, 0xcc, 0x78, 0x30, 0xfc,
    0x30, 0xfc, 0x30, 0x30, 0x30, 0, 0, 0, 0, 0, 0xf8, 0xcc, 0xcc, 0xf8, 0xc4, 0xcc, 0xde, 0xcc, 0xcc, 0xcc, 0xc6, 0, 0, 0,
    0, 0, 0x0e, 0x1b, 0x18, 0x18, 0x18, 0x7e, 0x18, 0x18, 0x18, 0x18, 0x18, 0xd8, 0x70, 0, 0, 0x0c, 0x18, 0x30, 0, 0x7c, 6, 6,
    0x7e, 0xc6, 0xc6, 0xc6, 0x7e, 0, 0, 0, 0, 0x0c, 0x18, 0x30, 0, 0x38, 0x18, 0x18, 0x18, 0x18, 0x18, 0x18, 0x3c, 0, 0, 0,
    0, 0x0c, 0x18, 0x30, 0, 0x7c, 0xc6, 0xc6, 0xc6, 0xc6, 0xc6, 0xc6, 0x7c, 0, 0, 0, 0, 0x0c, 0x18, 0x30, 0, 0xc6, 0xc6, 0xc6,
    0xc6, 0xc6, 0xc6, 0xc6, 0x7c, 0, 0, 0, 0, 0x76, 0xdc, 0, 0, 0xdc, 0xe6, 0xc6, 0xc6, 0xc6, 0xc6, 0xc6, 0xc6, 0, 0, 0,
    0x76, 0xdc, 0, 0xc6, 0xc6, 0xe6, 0xf6, 0xfe, 0xde, 0xce, 0xc6, 0xc6, 0xc6, 0, 0, 0, 0, 0x78, 0xd8, 0xd8, 0x6c, 0, 0xfc, 0,
    0, 0, 0, 0, 0, 0, 0, 0, 0, 0x38, 0x6c, 0x6c, 0x38, 0, 0x7c, 0, 0, 0, 0, 0, 0, 0, 0, 0]"

definition font_i :: "u8 list" where
  "font_i = [
    0, 0, 0x18, 0x18, 0, 0x18, 0x18, 0x30, 0x60, 0xc0, 0xc6, 0xc6, 0x7c, 0, 0, 0, 0, 0, 0, 0, 0, 0, 0, 0,
    0xfe, 0xc0, 0xc0, 0xc0, 0, 0, 0, 0, 0, 0, 0, 0, 0, 0, 0, 0, 0xfe, 6, 6, 6, 0, 0, 0, 0,
    0, 0, 0xc0, 0xc2, 0xc6, 0xcc, 0xd8, 0x30, 0x60, 0xdc, 0x86, 0x0c, 0x18, 0x3e, 0, 0, 0, 0, 0xc0, 0xc2, 0xc6, 0xcc, 0xd8, 0x30,
    0x66, 0xce, 0x9e, 0x3e, 6, 6, 0, 0, 0, 0, 0x30, 0x30, 0, 0x30, 0x30, 0x30, 0x78, 0x78, 0x78, 0x78, 0x30, 0, 0, 0,
    0, 0, 0, 0, 0, 0x36, 0x6c, 0xd8, 0x6c, 0x36, 0, 0, 0, 0, 0, 0, 0, 0, 0, 0, 0, 0xd8, 0x6c, 0x36,
    0x6c, 0xd8, 0, 0, 0, 0, 0, 0, 0x22, 0x88, 0x22, 0x88, 0x22, 0x88, 0x22, 0x88, 0x22, 0x88, 0x22, 0x88, 0x22, 0x88, 0x22, 0x88,
    0x55, 0xaa, 0x55, 0xaa, 0x55, 0xaa, 0x55, 0xaa, 0x55, 0xaa, 0x55, 0xaa, 0x55, 0xaa, 0x55, 0xaa, 0xdd, 0x77, 0xdd, 0x77, 0xdd, 0x77, 0xdd, 0x77,
    0xdd, 0x77, 0xdd, 0x77, 0xdd, 0x77, 0xdd, 0x77, 0x18, 0x18, 0x18, 0x18, 0x18, 0x18, 0x18, 0x18, 0x18, 0x18, 0x18, 0x18, 0x18, 0x18, 0x18, 0x18,
    0x18, 0x18, 0x18, 0x18, 0x18, 0x18, 0x18, 0xf8, 0xf8, 0x18, 0x18, 0x18, 0x18, 0x18, 0x18, 0x18, 0x18, 0x18, 0x18, 0x18, 0x18, 0xf8, 0xf8, 0x18,
    0x18, 0xf8, 0xf8, 0x18, 0x18, 0x18, 0x18, 0x18, 0x36, 0x36, 0x36, 0x36, 0x36, 0x36, 0x36, 0xf6, 0xf6, 0x36, 0x36, 0x36, 0x36, 0x36, 0x36, 0x36,
    0, 0, 0, 0, 0, 0, 0, 0xfe, 0xfe, 0x36, 0x36, 0x36, 0x36, 0x36, 0x36, 0x36, 0, 0, 0, 0, 0, 0xf8, 0xf8, 0x18,
    0x18, 0xf8, 0xf8, 0x18, 0x18, 0x18, 0x18, 0x18, 0x36, 0x36, 0x36, 0x36, 0x36, 0xf6, 0xf6, 6, 6, 0xf6, 0xf6, 0x36, 0x36, 0x36, 0x36, 0x36,
    0x36, 0x36, 0x36, 0x36, 0x36, 0x36, 0x36, 0x36, 0x36, 0x36, 0x36, 0x36, 0x36, 0x36, 0x36, 0x36, 0, 0, 0, 0, 0, 0xfe, 0xfe, 6,
    6, 0xf6, 0xf6, 0x36, 0x36, 0x36, 0x36, 0x36, 0x36, 0x36, 0x36, 0x36, 0x36, 0xf6, 0xf6, 6, 6, 0xfe, 0xfe, 0, 0, 0, 0, 0]"

definition font_j :: "u8 list" where
  "font_j = [
    0x36, 0x36, 0x36, 0x36, 0x36, 0x36, 0x36, 0xfe, 0xfe, 0, 0, 0, 0, 0, 0, 0, 0x18, 0x18, 0x18, 0x18, 0x18, 0xf8, 0xf8, 0x18,
    0x18, 0xf8, 0xf8, 0, 0, 0, 0, 0, 0, 0, 0, 0, 0, 0, 0, 0xf8, 0xf8, 0x18, 0x18, 0x18, 0x18, 0x18, 0x18, 0x18,
    0x18, 0x18, 0x18, 0x18, 0x18, 0x18, 0x18, 0x1f, 0x1f, 0, 0, 0, 0, 0, 0, 0, 0x18, 0x18, 0x18, 0x18, 0x18, 0x18, 0x18, 0xff,
    0xff, 0, 0, 0, 0, 0, 0, 0, 0, 0, 0, 0, 0, 0, 0, 0xff, 0xff, 0x18, 0x18, 0x18, 0x18, 0x18, 0x18, 0x18,
    0x18, 0x18, 0x18, 0x18, 0x18, 0x18, 0x18, 0x1f, 0x1f, 0x18, 0x18, 0x18, 0x18, 0x18, 0x18, 0x18, 0, 0, 0, 0, 0, 0, 0, 0xff,
    0xff, 0, 0, 0, 0, 0, 0, 0, 0x18, 0x18, 0x18, 0x18, 0x18, 0x18, 0x18, 0xff, 0xff, 0x18, 0x18, 0x18, 0x18, 0x18, 0x18, 0x18,
    0x18, 0x18, 0x18, 0x18, 0x18, 0x1f, 0x1f, 0x18, 0x18, 0x1f, 0x1f, 0x18, 0x18, 0x18, 0x18, 0x18, 0x36, 0x36, 0x36, 0x36, 0x36, 0x36, 0x36, 0x37,
    0x37, 0x36, 0x36, 0x36, 0x36, 0x36, 0x36, 0x36, 0x36, 0x36, 0x36, 0x36, 0x36, 0x37, 0x37, 0x30, 0x30, 0x3f, 0x3f, 0, 0, 0, 0, 0,
    0, 0, 0, 0, 0, 0x3f, 0x3f, 0x30, 0x30, 0x37, 0x37, 0x36, 0x36, 0x36, 0x36, 0x36, 0x36, 0x36, 0x36, 0x36, 0x36, 0xf7, 0xf7, 0,
    0, 0xff, 0xff, 0, 0, 0, 0, 0, 0, 0, 0, 0, 0, 0xff, 0xff, 0, 0, 0xf7, 0xf7, 0x36, 0x36, 0x36, 0x36, 0x36,
    0x36, 0x36, 0x36, 0x36, 0x36, 0x37, 0x37, 0x30, 0x30, 0x37, 0x37, 0x36, 0x36, 0x36, 0x36, 0x36, 0, 0, 0, 0, 0, 0xff, 0xff, 0,
    0, 0xff, 0xff, 0, 0, 0, 0, 0, 0x36, 0x36, 0x36, 0x36, 0x36, 0xf7, 0xf7, 0, 0, 0xf7, 0xf7, 0x36, 0x36, 0x36, 0x36, 0x36,
    0x18, 0x18, 0x18, 0x18, 0x18, 0xff, 0xff, 0, 0, 0xff, 0xff, 0, 0, 0, 0, 0, 0x36, 0x36, 0x36, 0x36, 0x36, 0x36, 0x36, 0xff,
    0xff, 0, 0, 0, 0, 0, 0, 0, 0, 0, 0, 0, 0, 0xff, 0xff, 0, 0, 0xff, 0xff, 0x18, 0x18, 0x18, 0x18, 0x18]"

definition font_k :: "u8 list" where
  "font_k = [
    0, 0, 0, 0, 0, 0, 0, 0xff, 0xff, 0x36, 0x36, 0x36, 0x36, 0x36, 0x36, 0x36, 0x36, 0x36, 0x36, 0x36, 0x36, 0x36, 0x36, 0x3f,
    0x3f, 0, 0, 0, 0, 0, 0, 0, 0x18, 0x18, 0x18, 0x18, 0x18, 0x1f, 0x1f, 0x18, 0x18, 0x1f, 0x1f, 0, 0, 0, 0, 0,
    0, 0, 0, 0, 0, 0x1f, 0x1f, 0x18, 0x18, 0x1f, 0x1f, 0x18, 0x18, 0x18, 0x18, 0x18, 0, 0, 0, 0, 0, 0, 0, 0x3f,
    0x3f, 0x36, 0x36, 0x36, 0x36, 0x36, 0x36, 0x36, 0x36, 0x36, 0x36, 0x36, 0x36, 0x36, 0x36, 0xff, 0xff, 0x36, 0x36, 0x36, 0x36, 0x36, 0x36, 0x36,
    0x18, 0x18, 0x18, 0x18, 0x18, 0xff, 0xff, 0x18, 0x18, 0xff, 0xff, 0x18, 0x18, 0x18, 0x18, 0x18, 0x18, 0x18, 0x18, 0x18, 0x18, 0x18, 0x18, 0xf8,
    0xf8, 0, 0, 0, 0, 0, 0, 0, 0, 0, 0, 0, 0, 0, 0, 0x1f, 0x1f, 0x18, 0x18, 0x18, 0x18, 0x18, 0x18, 0x18,
    0xff, 0xff, 0xff, 0xff, 0xff, 0xff, 0xff, 0xff, 0xff, 0xff, 0xff, 0xff, 0xff, 0xff, 0xff, 0xff, 0, 0, 0, 0, 0, 0, 0, 0,
    0xff, 0xff, 0xff, 0xff, 0xff, 0xff, 0xff, 0xff, 0xf0, 0xf0, 0xf0, 0xf0, 0xf0, 0xf0, 0xf0, 0xf0, 0xf0, 0xf0, 0xf0, 0xf0, 0xf0, 0xf0, 0xf0, 0xf0,
    0x0f, 0x0f, 0x0f, 0x0f, 0x0f, 0x0f, 0x0f, 0x0f, 0x0f, 0x0f, 0x0f, 0x0f, 0x0f, 0x0f, 0x0f, 0x0f, 0xff, 0xff, 0xff, 0xff, 0xff, 0xff, 0xff, 0xff,
    0, 0, 0, 0, 0, 0, 0, 0, 0, 0, 0, 0, 0, 0x76, 0xd6, 0xdc, 0xc8, 0xc8, 0xdc, 0xd6, 0x76, 0, 0, 0,
    0, 0, 0x78, 0xcc, 0xcc, 0xcc, 0xd8, 0xcc, 0xcc, 0xcc, 0xcc, 0xcc, 0xd8, 0xc0, 0xc0, 0, 0, 0, 0xfe, 0xc6, 0xc6, 0xc0, 0xc0, 0xc0,
    0xc0, 0xc0, 0xc0, 0xc0, 0xc0, 0, 0, 0, 0, 0, 0, 0, 0, 0x7e, 0xfe, 0x24, 0x24, 0x24, 0x24, 0x66, 0xc6, 0, 0, 0,
    0, 0, 0xfe, 0xfe, 0xc2, 0x60, 0x30, 0x18, 0x30, 0x60, 0xc2, 0xfe, 0xfe, 0, 0, 0, 0, 0, 0, 0, 0, 0x7e, 0xc8, 0xcc,
    0xcc, 0xcc, 0xcc, 0xcc, 0x78, 0, 0, 0, 0, 0, 0, 0, 0, 0x66, 0x66, 0x66, 0x66, 0x66, 0x66, 0x76, 0x6c, 0x60, 0xc0, 0]"

definition font_l :: "u8 list" where
  "font_l = [
    0, 0, 0, 0, 0, 0x66, 0xfc, 0x98, 0x18, 0x18, 0x18, 0x18, 0x18, 0, 0, 0, 0, 0, 0xfc, 0x30, 0x30, 0x78, 0xcc, 0xcc,
    0xcc, 0x78, 0x30, 0x30, 0xfc, 0, 0, 0, 0, 0, 0x38, 0x6c, 0xc6, 0xc6, 0xc6, 0xfe, 0xc6, 0xc6, 0xc6, 0x6c, 0x38, 0, 0, 0,
    0, 0, 0x38, 0x6c, 0xc6, 0xc6, 0xc6, 0xc6, 0xc6, 0x6c, 0x6c, 0x6c, 0xee, 0, 0, 0, 0, 0, 0x78, 0xcc, 0x60, 0x30, 0x78, 0xcc,
    0xcc, 0xcc, 0xcc, 0xcc, 0x78, 0, 0, 0, 0, 0, 0, 0, 0, 0x76, 0xbb, 0x99, 0x99, 0xdd, 0x6e, 0, 0, 0, 0, 0,
    0, 0, 2, 6, 0x3c, 0x6c, 0xce, 0xd6, 0xd6, 0xe6, 0x6c, 0x78, 0xc0, 0x80, 0, 0, 0, 0, 0x1e, 0x30, 0x60, 0xc0, 0xc0, 0xfe,
    0xc0, 0xc0, 0x60, 0x30, 0x1e, 0, 0, 0, 0, 0, 0x38, 0x6c, 0xc6, 0xc6, 0xc6, 0xc6, 0xc6, 0xc6, 0xc6, 0xc6, 0xc6, 0, 0, 0,
    0, 0, 0, 0, 0xfe, 0, 0, 0xfe, 0, 0, 0xfe, 0, 0, 0, 0, 0, 0, 0, 0, 0, 0, 0x30, 0x30, 0xfc,
    0x30, 0x30, 0, 0, 0xfc, 0, 0, 0, 0, 0, 0, 0, 0x60, 0x30, 0x18, 0x0c, 0x18, 0x30, 0x60, 0, 0xfc, 0, 0, 0,
    0, 0, 0, 0, 0x18, 0x30, 0x60, 0xc0, 0x60, 0x30, 0x18, 0, 0xfc, 0, 0, 0, 0, 0, 0x1c, 0x36, 0x36, 0x30, 0x30, 0x30,
    0x30, 0x30, 0x30, 0x30, 0x30, 0x30, 0x30, 0x30, 0x18, 0x18, 0x18, 0x18, 0x18, 0x18, 0x18, 0x18, 0x18, 0x18, 0xd8, 0xd8, 0x70, 0, 0, 0,
    0, 0, 0, 0, 0x30, 0x30, 0, 0xfc, 0, 0x30, 0x30, 0, 0, 0, 0, 0, 0, 0, 0, 0, 0, 0x76, 0xdc, 0,
    0x76, 0xdc, 0, 0, 0, 0, 0, 0, 0, 0x78, 0xcc, 0xcc, 0xcc, 0x78, 0, 0, 0, 0, 0, 0, 0, 0, 0, 0,
    0, 0, 0, 0, 0, 0, 0, 0x30, 0x30, 0, 0, 0, 0, 0, 0, 0, 0, 0, 0, 0, 0, 0, 0, 0x30,
    0, 0, 0, 0, 0, 0, 0, 0, 0, 0x0f, 0x0c, 0x0c, 0x0c, 0x0c, 0x0c, 0x0c, 0x0c, 0xcc, 0x6c, 0x3c, 0x1c, 0x0c, 0, 0]"

definition font_m :: "u8 list" where
  "font_m = [
    0, 0xd8, 0xec, 0xcc, 0xcc, 0xcc, 0xcc, 0xcc, 0, 0, 0, 0, 0, 0, 0, 0, 0, 0x38, 0x6c, 0x0c, 0x18, 0x30, 0x60, 0x7c,
    0, 0, 0, 0, 0, 0, 0, 0, 0, 0, 0, 0, 0x78, 0x78, 0x78, 0x78, 0x78, 0x78, 0x78, 0, 0, 0, 0, 0,
    0, 0, 0, 0, 0, 0, 0, 0, 0, 0, 0, 0, 0, 0, 0, 0]"

definition builtin_font :: "u8 list" where
  "builtin_font = font_a @ font_b @ font_c @ font_d @ font_e @ font_f @
     font_g @ font_h @ font_i @ font_j @ font_k @ font_l @ font_m"

text \<open>The table has a byte for every line of every glyph.\<close>

lemma length_builtin_font: "length builtin_font = 256 * 16"
  by (simp add: builtin_font_def font_a_def font_b_def font_c_def font_d_def font_e_def font_f_def font_g_def font_h_def font_i_def font_j_def font_k_def font_l_def font_m_def)

end
