(* ===== verification/Fb_Init.thy ===== *)
theory Fb_Init
  imports Fb_Screen Terminal_Attributes Builtin_Font
begin

unbundle bit_operations_syntax

text \<open>
  The initialisation of the frame-buffer back end (\<open>flanterm_fb_init\<close> in
  \<open>src/kernel/src/logging/flanterm_backends/fb.c\<close>) the way the kernel uses it, with null pointers
  for \<open>_malloc\<close> and \<open>_free\<close>: memory comes from the static pool, of which only the fill level
  matters to the model, and the canvas is dropped; \<open>Fb_Client\<close> has the other branch. A glyph without width or height makes a
  division trap. Memory the code leaves uninitialised has the value 0 or \<open>False\<close>: it is the table
  of glyph pixels, which is then filled, and the queue behind its index.
\<close>

subsection \<open>The pool\<close>

definition FLANTERM_FB_BUMP_ALLOC_POOL_SIZE :: u64 where "FLANTERM_FB_BUMP_ALLOC_POOL_SIZE = 873000"
definition FLANTERM_FB_WIDTH_LIMIT :: u64 where "FLANTERM_FB_WIDTH_LIMIT = 1920"
definition FLANTERM_FB_HEIGHT_LIMIT :: u64 where "FLANTERM_FB_HEIGHT_LIMIT = 1200"
definition FLANTERM_FB_FONT_GLYPHS :: u64 where "FLANTERM_FB_FONT_GLYPHS = 256"

record bump_state =
  bump_alloc_ptr :: u64
  bump_alloc_base_offset_added :: bool
  bump_allocated_instance :: bool

text \<open>The result is whether there was room; \<open>pool\<close> is the address of \<open>bump_alloc_pool\<close>.\<close>

definition bump_alloc :: "u64 \<Rightarrow> u64 \<Rightarrow> bump_state \<Rightarrow> bool \<times> bump_state" where
  "bump_alloc pool n b =
     (let b = (if \<not> bump_alloc_base_offset_added b
            then (if pool AND 0xf \<noteq> 0 then b\<lparr>bump_alloc_ptr := bump_alloc_ptr b + (0x10 - (pool AND 0xf))\<rparr> else b)
              \<lparr>bump_alloc_base_offset_added := True\<rparr> else b);
          n = (if n AND 0xf \<noteq> 0 then (n + 0x10) AND NOT 0xf else n);
          next_ptr = bump_alloc_ptr b + n
      in if next_ptr > FLANTERM_FB_BUMP_ALLOC_POOL_SIZE then (False, b)
         else (True, b\<lparr>bump_alloc_ptr := next_ptr\<rparr>))"

text \<open>The allocations of \<open>flanterm_fb_init\<close> one after the other; the first that fails ends them.\<close>

fun bump_alloc_all :: "u64 \<Rightarrow> u64 list \<Rightarrow> bump_state \<Rightarrow> bool \<times> bump_state" where
  "bump_alloc_all pool [] b = (True, b)"
| "bump_alloc_all pool (n # ns) b =
     (let (ok, b) = bump_alloc pool n b in if ok then bump_alloc_all pool ns b else (False, b))"

definition flanterm_fb_deinit :: "bump_state \<Rightarrow> bump_state" where
  "flanterm_fb_deinit b =
     (if bump_allocated_instance b
      then b\<lparr>bump_alloc_ptr := 0, bump_alloc_base_offset_added := False, bump_allocated_instance := False\<rparr> else b)"

subsection \<open>Arguments and geometry\<close>

record fb_font =
  fn_bits :: "u8 list"
  fn_width :: u64
  fn_height :: u64
  fn_spacing :: u64

record fb_args =
  a_framebuffer :: u64
  a_width :: u64
  a_height :: u64
  a_pitch :: u64
  a_red_mask_size :: u8
  a_red_mask_shift :: u8
  a_green_mask_size :: u8
  a_green_mask_shift :: u8
  a_blue_mask_size :: u8
  a_blue_mask_shift :: u8
  a_ansi_colours :: "u32 list option"
  a_ansi_bright_colours :: "u32 list option"
  a_default_bg :: "u32 option"
  a_default_fg :: "u32 option"
  a_default_bg_bright :: "u32 option"
  a_default_fg_bright :: "u32 option"
  a_font :: "fb_font option"
  a_font_scale_x :: u64
  a_font_scale_y :: u64
  a_margin :: u64
  a_rotation :: int

text \<open>Width and height as the terminal sees them, after the rotation.\<close>

definition fb_sideways :: "fb_args \<Rightarrow> bool" where
  "fb_sideways a \<longleftrightarrow> a_rotation a = 1 \<or> a_rotation a = 3"

definition fb_logical_size :: "fb_args \<Rightarrow> u64 \<times> u64" where
  "fb_logical_size a = (if fb_sideways a then (a_height a, a_width a) else (a_width a, a_height a))"

definition fb_scale :: "fb_args \<Rightarrow> u64 \<Rightarrow> u64 \<Rightarrow> u64 \<times> u64" where
  "fb_scale a width height =
     (if a_font_scale_x a = 0 \<or> a_font_scale_y a = 0 then
        let scale = (1, 1);
            scale = (if width \<ge> 1920 + 1920 div 3 \<and> height \<ge> 1080 + 1080 div 3 then (2, 2) else scale)
        in if width \<ge> 3840 + 3840 div 3 \<and> height \<ge> 2160 + 2160 div 3 then (4, 4) else scale
      else (a_font_scale_x a, a_font_scale_y a))"

text \<open>A screen that is too large for the pool is cut down to its middle: the new address, width,
  height and physical height.\<close>

definition fb_limit :: "fb_args \<Rightarrow> u64 \<Rightarrow> u64 \<Rightarrow> u64 \<times> u64 \<times> u64 \<times> u64" where
  "fb_limit a width height =
     (if width > FLANTERM_FB_WIDTH_LIMIT \<or> height > FLANTERM_FB_HEIGHT_LIMIT then
        let width_limit = (if width > FLANTERM_FB_WIDTH_LIMIT then FLANTERM_FB_WIDTH_LIMIT else width);
            height_limit = (if height > FLANTERM_FB_HEIGHT_LIMIT then FLANTERM_FB_HEIGHT_LIMIT else height);
            down = height div 2 - height_limit div 2;
            right = width div 2 - width_limit div 2;
            address = (if fb_sideways a then a_framebuffer a + (down * 4 + right * a_pitch a)
              else a_framebuffer a + (down * a_pitch a + right * 4))
        in (address, width_limit, height_limit, if fb_sideways a then width_limit else height_limit)
      else (a_framebuffer a, width, height, a_height a))"

subsection \<open>Font\<close>

definition kernel_font :: fb_font where
  "kernel_font = \<lparr>fn_bits = builtin_font, fn_width = 8, fn_height = 16, fn_spacing = 1\<rparr>"

text \<open>One pixel of a glyph: the columns behind the eighth are empty, but for the line-drawing
  characters, which repeat the last.\<close>

definition font_pixel :: "fb_font \<Rightarrow> nat \<Rightarrow> nat \<Rightarrow> nat \<Rightarrow> bool" where
  "font_pixel f i y x =
     (let line = fn_bits f ! (i * unat (fn_height f) + y)
      in if x < 8 then line AND drop_bit x 0x80 \<noteq> 0 else if 0xc0 \<le> i \<and> i \<le> 0xdf then line AND 1 \<noteq> 0 else False)"

definition expand_font :: "fb_font \<Rightarrow> u64 \<Rightarrow> bool list" where
  "expand_font f width =
     (let w = unat width; h = unat (fn_height f) in
      fold (\<lambda>i. fold (\<lambda>y. fold (\<lambda>x bits. bits[i * h * w + y * w + x := font_pixel f i y x])
        ([0..<8] @ [8..<w])) [0..<h]) [0..<unat FLANTERM_FB_FONT_GLYPHS]
        (replicate (unat (FLANTERM_FB_FONT_GLYPHS * fn_height f * width)) False))"

subsection \<open>The context\<close>

text \<open>What the \<open>memset\<close> leaves.\<close>

definition zero_context :: fb_context where
  "zero_context = \<lparr>tab_size = 0, autoflush = False, cursor_enabled = False, scroll_enabled = False, wrap_enabled = False,
     origin_mode = False, control_sequence = False, escape = False, osc = False, osc_escape = False, osc_buf_i = 0,
     osc_buf = replicate 256 0, rrr = False, discard_next = False, bold = False, bg_bold = False, reverse_video = False,
     dec_private = False, insert_mode = False, csi_unhandled = False, code_point = 0, unicode_remaining = 0, g_select = 0,
     charsets = [0, 0], current_charset = 0, escape_offset = 0, esc_values_i = 0, saved_cursor_x = 0, saved_cursor_y = 0,
     current_primary = 0, current_bg = 0, scroll_top_margin = 0, scroll_bottom_margin = 0, esc_values = replicate 16 0,
     last_printed_char = 0, last_was_graphic = False, saved_state_bold = False, saved_state_bg_bold = False,
     saved_state_reverse_video = False, saved_state_origin_mode = False, saved_state_wrap_enabled = False,
     saved_state_current_charset = 0, saved_state_charsets = [0, 0], saved_state_current_primary = 0,
     saved_state_current_bg = 0, saved_state_scroll_top_margin = 0, saved_state_scroll_bottom_margin = 0,
     rows = 0, cols = 0, has_callback = False, ft_events = [],
     plot_function = Unscaled_Uncanvas, has_flush_callback = False, flushes = [], font_width = 0, font_height = 0,
     glyph_width = 0, glyph_height = 0, font_scale_x = 0, font_scale_y = 0, offset_x = 0, offset_y = 0,
     framebuffer = 0, pixels = (\<lambda>_. 0), pitch = 0, fb_width = 0, fb_height = 0, phys_height = 0,
     red_mask_size = 0, red_mask_shift = 0, green_mask_size = 0, green_mask_shift = 0, blue_mask_size = 0, blue_mask_shift = 0,
     rotation = 0, font_bool = [], ansi_colours = replicate 8 0,
     ansi_bright_colours = replicate 8 0, default_fg = 0, default_bg = 0, default_fg_bright = 0,
     default_bg_bright = 0, canvas = None, grid = [], queue = [],
     queue_i = 0, fb_map = [], text_fg = 0, text_bg = 0, cursor_x = 0, cursor_y = 0,
     saved_state_text_fg = 0, saved_state_text_bg = 0, saved_state_cursor_x = 0, saved_state_cursor_y = 0,
     old_cursor_x = 0, old_cursor_y = 0\<rparr>"

definition set_masks :: "fb_args \<Rightarrow> fb_context \<Rightarrow> fb_context" where
  "set_masks a ctx =
     ctx\<lparr>red_mask_size := a_red_mask_size a, red_mask_shift := a_red_mask_shift a + (a_red_mask_size a - 8),
         green_mask_size := a_green_mask_size a, green_mask_shift := a_green_mask_shift a + (a_green_mask_size a - 8),
         blue_mask_size := a_blue_mask_size a, blue_mask_shift := a_blue_mask_shift a + (a_blue_mask_size a - 8)\<rparr>"

text \<open>Colours a client gives are an array of eight; here the first eight elements of a list.\<close>

definition colour_table :: "u32 list option \<Rightarrow> u32 list \<Rightarrow> u32 list" where
  "colour_table given standard = (case given of Some cs \<Rightarrow> map (\<lambda>i. cs ! i) [0..<8] | None \<Rightarrow> standard)"

definition set_colours :: "fb_args \<Rightarrow> fb_context \<Rightarrow> fb_context" where
  "set_colours a ctx =
     (let convert = convert_colour ctx;
          fg = convert (case a_default_fg a of Some v \<Rightarrow> v | None \<Rightarrow> 0x00aaaaaa)
      in ctx\<lparr>ansi_colours := map convert (colour_table (a_ansi_colours a)
               [0x00000000, 0x00aa0000, 0x0000aa00, 0x00aa5500, 0x000000aa, 0x00aa00aa, 0x0000aaaa, 0x00aaaaaa]),
             ansi_bright_colours := map convert (colour_table (a_ansi_bright_colours a)
               [0x00555555, 0x00ff5555, 0x0055ff55, 0x00ffff55, 0x005555ff, 0x00ff55ff, 0x0055ffff, 0x00ffffff]),
             default_bg := (case a_default_bg a of Some v \<Rightarrow> convert v | None \<Rightarrow> 0x00000000),
             default_fg := fg,
             default_bg_bright := convert (case a_default_bg_bright a of Some v \<Rightarrow> v | None \<Rightarrow> 0x00555555),
             default_fg_bright := convert (case a_default_fg_bright a of Some v \<Rightarrow> v | None \<Rightarrow> 0x00ffffff),
             text_fg := fg, text_bg := 0xffffffff, saved_state_text_fg := fg, saved_state_text_bg := 0xffffffff\<rparr>)"

definition set_layout :: "u64 \<Rightarrow> u64 \<Rightarrow> u64 \<Rightarrow> u64 \<Rightarrow> fb_context \<Rightarrow> fb_context" where
  "set_layout scale_x scale_y height margin ctx =
     (let gw = font_width ctx * scale_x; gh = height * scale_y;
          w = fb_width ctx - margin * 2; h = fb_height ctx - margin * 2
      in ctx\<lparr>font_scale_x := scale_x, font_scale_y := scale_y, glyph_width := gw, glyph_height := gh,
             cols := w div gw, rows := h div gh,
             offset_x := margin + (w mod gw) div 2, offset_y := margin + (h mod gh) div 2\<rparr>)"

definition set_grid :: "fb_context \<Rightarrow> fb_context" where
  "set_grid ctx =
     (let n = unat (rows ctx * cols ctx)
      in ctx\<lparr>grid := replicate n \<lparr>fc_c = 0x20, fc_fg = text_fg ctx, fc_bg = text_bg ctx\<rparr>,
             queue := replicate n \<lparr>qi_x = 0, qi_y = 0, qi_c = \<lparr>fc_c = 0, fc_fg = 0, fc_bg = 0\<rparr>\<rparr>,
             queue_i := 0, fb_map := replicate n None\<rparr>)"

text \<open>The sizes of the structures on x86-64.\<close>

definition SIZEOF_FB_CONTEXT :: u64 where "SIZEOF_FB_CONTEXT = 1112"

definition allocation_sizes :: "fb_font \<Rightarrow> fb_context \<Rightarrow> u64 list" where
  "allocation_sizes f ctx =
     [fn_height f * FLANTERM_FB_FONT_GLYPHS, FLANTERM_FB_FONT_GLYPHS * fn_height f * font_width ctx,
      rows ctx * cols ctx * 12, rows ctx * cols ctx * 32, rows ctx * cols ctx * 8]"

text \<open>The fields up to the allocation of the grid, with the scale and the address, width, height and
  physical height the function has chosen; and the end of the function.\<close>

definition fb_layout :: "fb_args \<Rightarrow> (u64 \<Rightarrow> u32) \<Rightarrow> u64 \<times> u64 \<Rightarrow> u64 \<times> u64 \<times> u64 \<times> u64 \<Rightarrow> fb_context" where
  "fb_layout a px scale area =
     (let (scale_x, scale_y) = scale;
          (address, width, height, physical) = area;
          f = (case a_font a of Some f \<Rightarrow> f | None \<Rightarrow> kernel_font);
          ctx = set_colours a (set_masks a zero_context);
          ctx = ctx\<lparr>rotation := a_rotation a, framebuffer := address, pixels := px, fb_width := width,
            fb_height := height, phys_height := physical, pitch := a_pitch a,
            font_width := fn_width f + fn_spacing f, font_height := fn_height f\<rparr>;
          ctx = ctx\<lparr>font_bool := expand_font f (font_width ctx)\<rparr>
      in set_layout scale_x scale_y (fn_height f) (a_margin a) ctx)"

definition fb_prepare :: "fb_args \<Rightarrow> (u64 \<Rightarrow> u32) \<Rightarrow> fb_context" where
  "fb_prepare a px =
     (let (width, height) = fb_logical_size a
      in fb_layout a px (fb_scale a width height) (fb_limit a width height))"

definition fb_finish :: "fb_context \<Rightarrow> fb_context" where
  "fb_finish ctx =
     flanterm_fb_full_refresh (flanterm_context_reinit ((set_grid ctx)\<lparr>plot_function :=
       if font_scale_x ctx = 1 \<and> font_scale_y ctx = 1 then Unscaled_Uncanvas else Scaled_Uncanvas\<rparr>))"

definition flanterm_fb_init :: "u64 \<Rightarrow> fb_args \<Rightarrow> (u64 \<Rightarrow> u32) \<Rightarrow> bump_state \<Rightarrow> (fb_context option, bump_state) kres" where
  "flanterm_fb_init pool a px b =
     (if a_red_mask_size a < 8 \<or> a_red_mask_size a \<noteq> a_green_mask_size a \<or> a_red_mask_size a \<noteq> a_blue_mask_size a
      then kret None b
      else if bump_allocated_instance b then kret None b
      else let (ok, b) = bump_alloc pool SIZEOF_FB_CONTEXT b in
        if \<not> ok then kret None b
        else let f = (case a_font a of Some f \<Rightarrow> f | None \<Rightarrow> kernel_font);
                 ctx = fb_prepare a px;
                 sizes = allocation_sizes f ctx;
                 fail = (\<lambda>b. kret None (b\<lparr>bump_alloc_ptr := 0, bump_alloc_base_offset_added := False\<rparr>));
                 (ok, b) = bump_alloc_all pool (take 2 sizes) b
          in if \<not> ok then fail b
             else if glyph_width ctx = 0 \<or> glyph_height ctx = 0 then Inl DivideError
             else let (ok, b) = bump_alloc_all pool (drop 2 sizes) b
               in if \<not> ok then fail b
                  else kret (Some (fb_finish ctx)) (b\<lparr>bump_allocated_instance := True\<rparr>))"

definition flanterm_fb_set_flush_callback :: "bool \<Rightarrow> 'z fb_context_scheme \<Rightarrow> 'z fb_context_scheme" where
  "flanterm_fb_set_flush_callback present ctx = ctx\<lparr>has_flush_callback := present\<rparr>"

subsection \<open>The kernel's call\<close>

text \<open>The arguments that are null or fixed in the call, and \<open>printk_init\<close>: \<open>fbs\<close> are the frame
  buffers of the boot loader's response, \<open>None\<close> without one.\<close>

definition kernel_args :: "fb_args \<Rightarrow> fb_args" where
  "kernel_args fb = fb\<lparr>a_ansi_colours := None, a_ansi_bright_colours := None, a_default_bg := None,
     a_default_fg := None, a_default_bg_bright := None, a_default_fg_bright := None, a_font := None,
     a_font_scale_x := 0, a_font_scale_y := 0, a_margin := 0, a_rotation := 0\<rparr>"

definition printk_init :: "u64 \<Rightarrow> fb_args list option \<Rightarrow> (u64 \<Rightarrow> u32) \<Rightarrow> bump_state \<Rightarrow> (fb_context option, bump_state) kres" where
  "printk_init pool fbs px b =
     (case fbs of
        Some (fb # _) \<Rightarrow> flanterm_fb_init pool (kernel_args fb) px b
      | _ \<Rightarrow> kret None b)"

end
