(* ===== verification/Screen_Init.thy ===== *)
theory Screen_Init
  imports Terminal_Invariant Fb_Init
begin

unbundle bit_operations_syntax

text \<open>
  The terminal after \<open>printk_init\<close>: the static pool is large enough for every screen, the
  invariant of the terminal holds, and the frame buffer shows an empty screen.
\<close>

subsection \<open>The pool\<close>

text \<open>Rounding up to sixteen bytes.\<close>

lemma round_up_16:
  assumes "unat n + 16 < 2 ^ 64"
  shows "unat (if n AND 0xf \<noteq> 0 then (n + 0x10) AND NOT 0xf else n :: u64) \<le> unat n + 15"
proof (cases "n AND 0xf = 0")
  case False
  have "unat (w AND NOT 0xf) = unat w - unat (w AND 0xf)" for w :: u64
  proof -
    have "(w AND NOT m) + (w AND m) = w" for m :: u64
      by (subst disjunctive_add_eq_or) (auto simp: bit_simps intro!: bit_word_eqI)
    from this [of "0xf"] have e: "w AND NOT 0xf = w - (w AND 0xf)" by (simp only: eq_diff_eq)
    have "w AND 0xf \<le> w" by (rule word_and_le2)
    then show ?thesis unfolding e by (rule unat_sub)
  qed
  moreover have u: "unat (n + 0x10) = unat n + 16" using assms by (simp add: unat_word_ariths)
  moreover have "(n + 0x10) AND 0xf = n AND 0xf"
  proof -
    have m: "w AND 0xf = w mod 16" for w :: u64
    proof -
      have "w AND 0xf = take_bit 4 w" by (simp add: take_bit_eq_mask mask_eq_exp_minus_1)
      then show ?thesis by (simp add: take_bit_eq_mod)
    qed
    show ?thesis unfolding m by (simp add: word_unat_eq_iff unat_mod_distrib u)
  qed
  moreover have "0 < unat (n AND 0xf)" using False by (simp add: unat_gt_0)
  ultimately show ?thesis using False by simp
qed simp

lemma bump_alloc_fits:
  assumes "bump_alloc_base_offset_added b" and "unat (bump_alloc_ptr b) + (unat n + 15) \<le> 873000"
  shows "\<exists>p. bump_alloc pool n b = (True, b\<lparr>bump_alloc_ptr := p\<rparr>) \<and> unat p \<le> unat (bump_alloc_ptr b) + (unat n + 15)"
proof -
  define k where "k = (if n AND 0xf \<noteq> 0 then (n + 0x10) AND NOT 0xf else n)"
  have k: "unat k \<le> unat n + 15" unfolding k_def using assms(2) by (intro round_up_16) simp
  then have "unat (bump_alloc_ptr b + k) = unat (bump_alloc_ptr b) + unat k"
    using assms(2) by (simp add: unat_word_ariths)
  with k assms show ?thesis
    unfolding bump_alloc_def k_def [symmetric]
    by (intro exI [of _ "bump_alloc_ptr b + k"])
      (simp add: Let_def FLANTERM_FB_BUMP_ALLOC_POOL_SIZE_def word_less_nat_alt not_less)
qed

lemma bump_alloc_all_fits:
  assumes "bump_alloc_base_offset_added b" and "unat (bump_alloc_ptr b) + sum_list (map (\<lambda>n. unat n + 15) ns) \<le> 873000"
  shows "\<exists>p. bump_alloc_all pool ns b = (True, b\<lparr>bump_alloc_ptr := p\<rparr>) \<and>
    unat p \<le> unat (bump_alloc_ptr b) + sum_list (map (\<lambda>n. unat n + 15) ns)"
  using assms
proof (induction ns arbitrary: b)
  case (Cons n ns)
  obtain p where p: "bump_alloc pool n b = (True, b\<lparr>bump_alloc_ptr := p\<rparr>)" "unat p \<le> unat (bump_alloc_ptr b) + (unat n + 15)"
    using bump_alloc_fits [OF Cons(2), of n] Cons(3) by auto
  with Cons(3) have "unat p + sum_list (map (\<lambda>n. unat n + 15) ns) \<le> 873000" by simp
  then obtain q where "bump_alloc_all pool ns (b\<lparr>bump_alloc_ptr := p\<rparr>) = (True, b\<lparr>bump_alloc_ptr := q\<rparr>)"
    "unat q \<le> unat p + sum_list (map (\<lambda>n. unat n + 15) ns)"
    using Cons(1) [of "b\<lparr>bump_alloc_ptr := p\<rparr>"] Cons(2) by auto
  with p show ?case by (intro exI [of _ q]) simp
qed (simp, metis bump_state.surjective bump_state.update_convs(1) order_refl)

lemma bump_alloc_all_append:
  "bump_alloc_all pool (ms @ ns) b = (let (ok, b) = bump_alloc_all pool ms b in if ok then bump_alloc_all pool ns b else (False, b))"
  by (induction ms arbitrary: b) (auto simp: Let_def split: prod.split)

text \<open>The first allocation aligns the pool.\<close>

lemma bump_alloc_aligned:
  assumes "bump_alloc_ptr b = 0" and "\<not> bump_alloc_base_offset_added b"
  shows "bump_alloc pool n b = bump_alloc pool n (b\<lparr>bump_alloc_ptr := if pool AND 0xf \<noteq> 0 then 0x10 - (pool AND 0xf) else 0,
    bump_alloc_base_offset_added := True\<rparr>)"
  using assms by (simp add: bump_alloc_def Let_def)

subsection \<open>The geometry of the kernel's screen\<close>

definition screen_scale :: "fb_args \<Rightarrow> u64" where
  "screen_scale fb = fst (fb_scale (kernel_args fb) (a_width fb) (a_height fb))"

definition screen_width :: "fb_args \<Rightarrow> u64" where
  "screen_width fb = min (a_width fb) 1920"

definition screen_height :: "fb_args \<Rightarrow> u64" where
  "screen_height fb = min (a_height fb) 1200"

lemma kernel_args_fields [simp]:
  "a_width (kernel_args fb) = a_width fb" "a_height (kernel_args fb) = a_height fb" "a_font (kernel_args fb) = None"
  "a_pitch (kernel_args fb) = a_pitch fb" "a_margin (kernel_args fb) = 0" "a_rotation (kernel_args fb) = 0"
  "fb_sideways (kernel_args fb) = False" "fb_logical_size (kernel_args fb) = (a_width fb, a_height fb)"
  "fb_scale (kernel_args fb) (a_width fb) (a_height fb) = (screen_scale fb, screen_scale fb)"
  by (auto simp: kernel_args_def fb_sideways_def fb_logical_size_def screen_scale_def fb_scale_def Let_def)

lemma limit_width:
  "fst (snd (fb_limit (kernel_args fb) (a_width fb) (a_height fb))) = screen_width fb"
  "fst (snd (snd (fb_limit (kernel_args fb) (a_width fb) (a_height fb)))) = screen_height fb"
  by (auto simp: fb_limit_def screen_width_def screen_height_def FLANTERM_FB_WIDTH_LIMIT_def FLANTERM_FB_HEIGHT_LIMIT_def
    Let_def min_def)

lemma prepared_fields:
  assumes ctx: "ctx = fb_prepare (kernel_args fb) px"
  shows "font_width ctx = 9" "font_height ctx = 16" "font_scale_x ctx = screen_scale fb" "font_scale_y ctx = screen_scale fb"
    "glyph_width ctx = 9 * screen_scale fb" "glyph_height ctx = 16 * screen_scale fb"
    "cols ctx = screen_width fb div (9 * screen_scale fb)" "rows ctx = screen_height fb div (16 * screen_scale fb)"
    "offset_x ctx = (screen_width fb mod (9 * screen_scale fb)) div 2"
    "offset_y ctx = (screen_height fb mod (16 * screen_scale fb)) div 2"
    "fb_width ctx = screen_width fb" "fb_height ctx = screen_height fb" "pitch ctx = a_pitch fb" "rotation ctx = 0"
    "canvas ctx = None" "length (ansi_colours ctx) = 8" "length (ansi_bright_colours ctx) = 8"
    "cursor_x ctx = 0" "cursor_y ctx = 0" "old_cursor_x ctx = 0" "old_cursor_y ctx = 0" "saved_state_cursor_x ctx = 0"
    "saved_state_cursor_y ctx = 0" "length (esc_values ctx) = 16" "length (osc_buf ctx) = 256" "osc_buf_i ctx = 0"
    "saved_state_current_charset ctx = 0" "text_bg ctx = 0xffffffff"
proof -
  obtain address physical where l: "fb_limit (kernel_args fb) (a_width fb) (a_height fb) = (address, screen_width fb, screen_height fb, physical)"
    using limit_width [of fb] by (metis prod.collapse)
  note defs = ctx fb_prepare_def fb_layout_def kernel_font_def set_layout_def set_colours_def set_masks_def zero_context_def
    colour_table_def l Let_def
  show "font_width ctx = 9" "font_height ctx = 16" "font_scale_x ctx = screen_scale fb" "font_scale_y ctx = screen_scale fb"
    "glyph_width ctx = 9 * screen_scale fb" "glyph_height ctx = 16 * screen_scale fb"
    "cols ctx = screen_width fb div (9 * screen_scale fb)" "rows ctx = screen_height fb div (16 * screen_scale fb)"
    "offset_x ctx = (screen_width fb mod (9 * screen_scale fb)) div 2"
    "offset_y ctx = (screen_height fb mod (16 * screen_scale fb)) div 2"
    "fb_width ctx = screen_width fb" "fb_height ctx = screen_height fb" "pitch ctx = a_pitch fb" "rotation ctx = 0"
    "canvas ctx = None" "length (ansi_colours ctx) = 8" "length (ansi_bright_colours ctx) = 8"
    "cursor_x ctx = 0" "cursor_y ctx = 0" "old_cursor_x ctx = 0" "old_cursor_y ctx = 0" "saved_state_cursor_x ctx = 0"
    "saved_state_cursor_y ctx = 0" "length (esc_values ctx) = 16" "length (osc_buf ctx) = 256" "osc_buf_i ctx = 0"
    "saved_state_current_charset ctx = 0" "text_bg ctx = 0xffffffff"
    by (simp_all add: defs split: option.split)
qed

lemma scale_cases:
  obtains "screen_scale fb = 1" | "screen_scale fb = 2" "2560 \<le> a_width fb" "1440 \<le> a_height fb"
    | "screen_scale fb = 4" "2560 \<le> a_width fb" "1440 \<le> a_height fb"
proof -
  have "screen_scale fb = 1 \<or> screen_scale fb = 2 \<and> 2560 \<le> a_width fb \<and> 1440 \<le> a_height fb \<or>
      screen_scale fb = 4 \<and> 2560 \<le> a_width fb \<and> 1440 \<le> a_height fb"
    by (auto simp: screen_scale_def fb_scale_def kernel_args_def Let_def word_le_nat_alt)
  then show ?thesis using that by blast
qed

lemma screen_bounds:
  assumes "9 \<le> a_width fb" and "16 \<le> a_height fb"
  defines "s \<equiv> unat (screen_scale fb)" and "w \<equiv> unat (screen_width fb)" and "h \<equiv> unat (screen_height fb)"
  shows "s \<in> {1, 2, 4}" "9 * s \<le> w" "w \<le> 1920" "16 * s \<le> h" "h \<le> 1200"
    "unat (9 * screen_scale fb) = 9 * s" "unat (16 * screen_scale fb) = 16 * s"
proof -
  have w: "w = min (unat (a_width fb)) 1920" "h = min (unat (a_height fb)) 1200"
    by (auto simp: w_def h_def screen_width_def screen_height_def min_def word_le_nat_alt)
  then show "w \<le> 1920" "h \<le> 1200" by simp_all
  show "s \<in> {1, 2, 4}" by (cases rule: scale_cases [of fb]) (simp_all add: s_def)
  show "9 * s \<le> w" "16 * s \<le> h"
    using assms(1,2) by (cases rule: scale_cases [of fb]; simp add: w s_def word_le_nat_alt)+
  show "unat (9 * screen_scale fb) = 9 * s" "unat (16 * screen_scale fb) = 16 * s"
    by (cases rule: scale_cases [of fb]; simp add: s_def)+
qed

lemma prepared_size:
  assumes ctx: "ctx = fb_prepare (kernel_args fb) px" and fb: "9 \<le> a_width fb" "16 \<le> a_height fb"
  shows "1 \<le> unat (cols ctx)" "unat (cols ctx) \<le> 213" "1 \<le> unat (rows ctx)" "unat (rows ctx) \<le> 75"
    "unat (rows ctx * cols ctx) = cells ctx" "cells ctx \<le> 15975"
    "unat (offset_x ctx) + unat (cols ctx) * unat (glyph_width ctx) \<le> unat (screen_width fb)"
    "unat (offset_y ctx) + unat (rows ctx) * unat (glyph_height ctx) \<le> unat (screen_height fb)"
proof -
  note b = screen_bounds [OF fb]
  note f = prepared_fields [OF ctx]
  define s w h where "s = unat (screen_scale fb)" and "w = unat (screen_width fb)" and "h = unat (screen_height fb)"
  note b = b [folded s_def w_def h_def]
  have u: "unat (cols ctx) = w div (9 * s)" "unat (rows ctx) = h div (16 * s)"
    "unat (offset_x ctx) = w mod (9 * s) div 2" "unat (offset_y ctx) = h mod (16 * s) div 2"
    "unat (glyph_width ctx) = 9 * s" "unat (glyph_height ctx) = 16 * s"
    by (simp_all only: f unat_div_distrib unat_mod_distrib b w_def h_def) simp_all
  have "0 < 9 * s" "0 < 16 * s" using b(1) by auto
  then show "1 \<le> unat (cols ctx)" "1 \<le> unat (rows ctx)"
    using b(2,4) by (simp_all only: u) (simp_all add: div_greater_zero_iff Suc_le_eq)
  have "w div (9 * s) \<le> w div 9" "h div (16 * s) \<le> h div 16"
    using b(1) by (auto intro!: div_le_mono2)
  moreover have "w div 9 \<le> 213" "h div 16 \<le> 75" using b(3,5) by auto
  ultimately show c: "unat (cols ctx) \<le> 213" "unat (rows ctx) \<le> 75" by (simp_all only: u)
  have n: "unat (rows ctx) * unat (cols ctx) \<le> 75 * 213" by (rule mult_mono [OF c(2,1)]) simp_all
  then show "cells ctx \<le> 15975" by (simp add: cells_def)
  then show "unat (rows ctx * cols ctx) = cells ctx" by (simp add: cells_def unat_word_ariths)
  have "v mod k div 2 + v div k * k \<le> v" for v k :: nat
    using div_mult_mod_eq [of v k] by linarith
  then show "unat (offset_x ctx) + unat (cols ctx) * unat (glyph_width ctx) \<le> unat (screen_width fb)"
    "unat (offset_y ctx) + unat (rows ctx) * unat (glyph_height ctx) \<le> unat (screen_height fb)"
    by (simp_all only: u flip: w_def h_def)
qed

subsection \<open>The first refresh\<close>

lemma only_pixels_refl: "only_pixels s s"
  by (simp add: only_pixels_def)

lemma only_pixelsE:
  assumes "only_pixels s t"
  obtains p where "t = s\<lparr>pixels := p\<rparr>"
  using assms by (auto simp: only_pixels_def)

lemma geometry_pixels [simp]: "fb_geometry (s\<lparr>pixels := p\<rparr>) = fb_geometry s"
  by (simp add: fb_geometry_def sideways_def cong: if_cong)

text \<open>The loop of \<open>flanterm_fb_full_refresh\<close> draws the cells in their order.\<close>

lemma refresh_cells:
  assumes g: "fb_geometry s" and n: "n \<le> cells s" and small: "cells s < 2 ^ 64"
  defines "t \<equiv> fold (\<lambda>i s. plot_char (grid s ! i) (of_nat i mod cols s) (of_nat i div cols s) s) [0..<n] s"
  shows "only_pixels s t \<and> (\<forall>x < cols s. \<forall>y < rows s. cell_of s x y < n \<longrightarrow> shows_char t x y (grid s ! cell_of s x y))"
  using n unfolding t_def
proof (induction n)
  case 0
  show ?case by (simp add: only_pixels_refl)
next
  case (Suc n)
  define t where "t = fold (\<lambda>i s. plot_char (grid s ! i) (of_nat i mod cols s) (of_nat i div cols s) s) [0..<n] s"
  have IH: "only_pixels s t" "\<forall>x < cols s. \<forall>y < rows s. cell_of s x y < n \<longrightarrow> shows_char t x y (grid s ! cell_of s x y)"
    using Suc by (simp_all add: t_def)
  obtain p where p: "t = s\<lparr>pixels := p\<rparr>" using IH(1) by (rule only_pixelsE)
  define x y where "x = of_nat n mod cols s" and "y = of_nat n div cols s"
  have n: "n < cells s" using Suc(2) by simp
  have un: "unat (of_nat n :: u64) = n" using n small by (simp add: unat_of_nat)
  have xy: "unat x = n mod unat (cols s)" "unat y = n div unat (cols s)"
    by (simp_all add: x_def y_def unat_mod_distrib unat_div_distrib un)
  have c: "x < cols s" "y < rows s" and cell: "cell_of s x y = n"
    using cell_coordinates [OF n small] by (simp_all add: word_less_nat_alt xy cell_of_def)
  have g': "fb_geometry t" using g by (simp add: p)
  have c': "x < cols t" "y < rows t" using c by (simp_all add: p)
  note sh = plot_char_shows [OF g' c', where c = "grid s ! n"]
  have step: "fold (\<lambda>i s. plot_char (grid s ! i) (of_nat i mod cols s) (of_nat i div cols s) s) [0..<Suc n] s =
      plot_char (grid s ! n) x y t"
    by (simp add: t_def [symmetric]) (simp add: p x_def y_def)
  obtain q where q: "plot_char (grid s ! n) x y t = t\<lparr>pixels := q\<rparr>" using sh(1) by (rule only_pixelsE)
  have "shows_char (plot_char (grid s ! n) x y t) x' y' (grid s ! cell_of s x' y')"
    if "x' < cols s" "y' < rows s" "cell_of s x' y' < Suc n" for x' y'
  proof (cases "(x', y') = (x, y)")
    case True
    then show ?thesis using sh(2) cell by simp
  next
    case False
    then have "cell_of s x' y' < n" using that cell_of_eq [OF that(1,2) c] cell by (auto simp: less_Suc_eq)
    with IH(2) that have "shows_char t x' y' (grid s ! cell_of s x' y')" by blast
    with sh(3) [of x' y'] False that show ?thesis by (simp add: p)
  qed
  then show ?case unfolding step using q p by (simp add: only_pixels_def)
qed

text \<open>With an empty queue and the cursor in the first cell a refresh draws the whole grid.\<close>

lemma full_refresh_displays:
  assumes g: "fb_geometry s" and ok: "queue_ok s" and none: "\<forall>i < cells s. fb_map s ! i = None"
    and pos: "0 < cols s" "0 < rows s" and c: "cursor_x s = 0" "cursor_y s = 0" "old_cursor_x s = 0" "old_cursor_y s = 0"
    and on: "cursor_enabled s" and fl: "\<not> has_flush_callback s"
  shows "\<exists>p. flanterm_fb_full_refresh s = s\<lparr>pixels := p\<rparr> \<and> displayed (s\<lparr>pixels := p\<rparr>)"
proof -
  note sz = queue_ok_sized(1) [OF ok] and small = queue_ok_sized(2) [OF queue_ok_sized(1) [OF ok]]
  obtain p0 where p0: "fill_background s = s\<lparr>pixels := p0\<rparr>" by (simp add: fill_background_def)
  define s0 where "s0 = s\<lparr>pixels := p0\<rparr>"
  define t where "t = fold (\<lambda>i s. plot_char (grid s ! i) (of_nat i mod cols s) (of_nat i div cols s) s) [0..<cells s0] s0"
  have s0: "fb_geometry s0" "cells s0 < 2 ^ 64" "cells s0 = cells s" using g small by (simp_all add: s0_def cells_def)
  have t: "only_pixels s0 t" "\<forall>x < cols s0. \<forall>y < rows s0. cell_of s0 x y < cells s0 \<longrightarrow> shows_char t x y (grid s0 ! cell_of s0 x y)"
    using refresh_cells [OF s0(1) order_refl s0(2)] unfolding t_def by blast+
  obtain p1 where "t = s0\<lparr>pixels := p1\<rparr>" using t(1) by (rule only_pixelsE)
  then have p1: "t = s\<lparr>pixels := p1\<rparr>" by (simp add: s0_def)
  have n: "unat (rows s0 * cols s0) = cells s0" using s0(2) by (simp add: cells_def unat_word_ariths)
  have r: "flanterm_fb_full_refresh s = notify_flush (draw_cursor t)"
    unfolding flanterm_fb_full_refresh_def p0 s0_def [symmetric] Let_def n t_def [symmetric] using on by (simp add: p1)
  have t': "fb_geometry t" "screen_sized t" "cursor_x t < cols t" "cursor_y t < rows t" "cell_of t (cursor_x t) (cursor_y t) = 0"
    using g sz pos c by (simp_all add: p1 screen_sized_def cells_def cell_of_def)
  obtain u where u: "only_pixels t u" "draw_cursor t = u\<lparr>grid := (grid t)[0 := char_at 0 t], fb_map := (fb_map t)[0 := None]\<rparr>"
    "\<forall>x' < cols t. \<forall>y' < rows t. \<forall>d. (x', y') \<noteq> (cursor_x t, cursor_y t) \<longrightarrow> shows_char u x' y' d = shows_char t x' y' d"
    using draw_cursor_eq [OF t'(1-4)] unfolding t'(5) by blast
  obtain q where "u = t\<lparr>pixels := q\<rparr>" using u(1) by (rule only_pixelsE)
  then have q: "u = s\<lparr>pixels := q\<rparr>" by (simp add: p1)
  have "0 < cells s" using pos by (simp add: cells_def word_less_nat_alt)
  then have first: "fb_map t ! 0 = None" "fb_map s ! 0 = None" "0 < length (fb_map s)"
    using none sz by (simp_all add: p1 screen_sized_def)
  have same: "(grid t)[0 := char_at 0 t] = grid s" "(fb_map t)[0 := None] = fb_map s"
    using first by (simp_all add: char_at_def p1 list_update_same_conv)
  have d: "draw_cursor t = s\<lparr>pixels := q\<rparr>" unfolding u(2) same by (simp add: q)
  then have "flanterm_fb_full_refresh s = s\<lparr>pixels := q\<rparr>" using fl by (simp add: r notify_flush_def)
  moreover have "displayed (s\<lparr>pixels := q\<rparr>)"
    unfolding displayed_def
  proof (intro allI impI)
    fix x y
    assume a: "x < cols (s\<lparr>pixels := q\<rparr>)" "y < rows (s\<lparr>pixels := q\<rparr>)"
      "(x, y) \<noteq> (old_cursor_x (s\<lparr>pixels := q\<rparr>), old_cursor_y (s\<lparr>pixels := q\<rparr>))"
    then have xy: "x < cols s" "y < rows s" "(x, y) \<noteq> (cursor_x t, cursor_y t)" using c by (simp_all add: p1)
    then have "cell_of s0 x y < cells s0"
      using cell_index(2) [OF xy(1,2) small] by (simp add: s0_def cells_def cell_of_def)
    then have "shows_char t x y (grid s ! cell_of s x y)" using t(2) xy by (simp add: s0_def cell_of_def)
    then show "shows_char (s\<lparr>pixels := q\<rparr>) x y (grid (s\<lparr>pixels := q\<rparr>) ! cell_of (s\<lparr>pixels := q\<rparr>) x y)"
      using u(3) xy by (simp add: q [symmetric]) (simp add: q p1 cell_of_def)
  qed
  ultimately show ?thesis by blast
qed

subsection \<open>The terminal the kernel starts with\<close>

text \<open>What the boot loader has to provide: 32-bit pixels with masks the code accepts, room for one
  glyph, and lines that hold the pixels of the screen.\<close>

definition usable_screen :: "fb_args \<Rightarrow> bool" where
  "usable_screen fb \<longleftrightarrow> 8 \<le> a_red_mask_size fb \<and> a_green_mask_size fb = a_red_mask_size fb \<and>
     a_blue_mask_size fb = a_red_mask_size fb \<and> 9 \<le> a_width fb \<and> 16 \<le> a_height fb \<and>
     4 * unat (a_width fb) \<le> unat (a_pitch fb) \<and> a_pitch fb < 2 ^ 33"

definition blank_screen :: "'z fb_context_scheme \<Rightarrow> fb_char list list" where
  "blank_screen ctx = replicate (unat (rows ctx)) (replicate (unat (cols ctx))
     \<lparr>fc_c = 0x20, fc_fg = default_fg ctx, fc_bg = 0xffffffff\<rparr>)"

text \<open>The context before the refresh.\<close>

definition fb_start :: "fb_context \<Rightarrow> fb_context" where
  "fb_start ctx = flanterm_context_reinit ((set_grid ctx)\<lparr>plot_function :=
     if font_scale_x ctx = 1 \<and> font_scale_y ctx = 1 then Unscaled_Uncanvas else Scaled_Uncanvas\<rparr>)"

lemma fb_start_fields [simp]:
  "rows (fb_start ctx) = rows ctx" "cols (fb_start ctx) = cols ctx" "cells (fb_start ctx) = cells ctx"
  "font_width (fb_start ctx) = font_width ctx" "font_height (fb_start ctx) = font_height ctx"
  "glyph_width (fb_start ctx) = glyph_width ctx" "glyph_height (fb_start ctx) = glyph_height ctx"
  "font_scale_x (fb_start ctx) = font_scale_x ctx" "font_scale_y (fb_start ctx) = font_scale_y ctx"
  "offset_x (fb_start ctx) = offset_x ctx" "offset_y (fb_start ctx) = offset_y ctx" "canvas (fb_start ctx) = canvas ctx"
  "fb_width (fb_start ctx) = fb_width ctx" "fb_height (fb_start ctx) = fb_height ctx" "pitch (fb_start ctx) = pitch ctx"
  "rotation (fb_start ctx) = rotation ctx" "ansi_colours (fb_start ctx) = ansi_colours ctx"
  "ansi_bright_colours (fb_start ctx) = ansi_bright_colours ctx" "queue_i (fb_start ctx) = 0"
  "cursor_x (fb_start ctx) = cursor_x ctx" "cursor_y (fb_start ctx) = cursor_y ctx"
  "old_cursor_x (fb_start ctx) = old_cursor_x ctx" "old_cursor_y (fb_start ctx) = old_cursor_y ctx"
  "cursor_enabled (fb_start ctx) = True" "has_flush_callback (fb_start ctx) = has_flush_callback ctx"
  "default_fg (fb_start ctx) = default_fg ctx"
  "plot_function (fb_start ctx) = (if font_scale_x ctx = 1 \<and> font_scale_y ctx = 1 then Unscaled_Uncanvas else Scaled_Uncanvas)"
  "grid (fb_start ctx) = replicate (unat (rows ctx * cols ctx)) \<lparr>fc_c = 0x20, fc_fg = text_fg ctx, fc_bg = text_bg ctx\<rparr>"
  "fb_map (fb_start ctx) = replicate (unat (rows ctx * cols ctx)) None"
  "length (queue (fb_start ctx)) = unat (rows ctx * cols ctx)"
  by (simp_all add: fb_start_def flanterm_context_reinit_def set_grid_def Let_def cells_def)

lemma prepared_text: "text_fg (fb_prepare a px) = default_fg (fb_prepare a px)" "has_flush_callback (fb_prepare a px) = False"
  by (simp_all add: fb_prepare_def fb_layout_def set_layout_def set_colours_def set_masks_def zero_context_def Let_def split: prod.split)

lemma fb_start_ok:
  assumes fb: "usable_screen fb" and ctx: "ctx = fb_prepare (kernel_args fb) px"
  shows "queue_ok (fb_start ctx)" "fb_geometry (fb_start ctx)" "\<forall>i < cells ctx. fb_map (fb_start ctx) ! i = None"
    "\<forall>i < cells ctx. char_at i (fb_start ctx) = \<lparr>fc_c = 0x20, fc_fg = default_fg ctx, fc_bg = 0xffffffff\<rparr>"
proof -
  have size: "9 \<le> a_width fb" "16 \<le> a_height fb" using fb by (simp_all add: usable_screen_def)
  note p = prepared_size [OF ctx size] and f = prepared_fields [OF ctx] and b = screen_bounds [OF size]
  show "queue_ok (fb_start ctx)" using p(5,6) by (simp add: queue_ok_def screen_sized_def)
  show none: "\<forall>i < cells ctx. fb_map (fb_start ctx) ! i = None" using p(5) by simp
  then show "\<forall>i < cells ctx. char_at i (fb_start ctx) = \<lparr>fc_c = 0x20, fc_fg = default_fg ctx, fc_bg = 0xffffffff\<rparr>"
    using p(5) f(28) prepared_text [of "kernel_args fb" px] by (simp add: char_at_def ctx)
  have line: "unat (a_pitch fb div 4) = unat (a_pitch fb) div 4" by (simp add: unat_div_distrib)
  have "unat (a_pitch fb) < 2 ^ 33" using fb by (simp add: usable_screen_def word_less_nat_alt)
  then have l: "unat (a_pitch fb) div 4 < 2 ^ 31" by simp
  have "unat (screen_width fb) \<le> unat (a_width fb)" by (simp add: screen_width_def min_def word_le_nat_alt)
  moreover have "4 * unat (a_width fb) \<le> unat (a_pitch fb)" using fb by (simp add: usable_screen_def)
  ultimately have across: "unat (screen_width fb) \<le> unat (a_pitch fb) div 4" by linarith
  have "unat (screen_height fb) * (unat (a_pitch fb) div 4) \<le> 1200 * 2 ^ 31"
    by (rule mult_mono) (use b(5) l in simp_all)
  then have down: "4 * (unat (screen_height fb) * (unat (a_pitch fb) div 4)) \<le> 2 ^ 64" by simp
  have s: "0 < screen_scale fb" by (cases rule: scale_cases [of fb]) simp_all
  show "fb_geometry (fb_start ctx)"
    unfolding fb_geometry_def Let_def fb_start_fields f sideways_def
    using line l across down s b(6,7) p(7,8) by (simp add: f)
qed

lemma fb_finish_pixels:
  assumes fb: "usable_screen fb" and ctx: "ctx = fb_prepare (kernel_args fb) px"
  shows "\<exists>q. fb_finish ctx = (fb_start ctx)\<lparr>pixels := q\<rparr> \<and> displayed ((fb_start ctx)\<lparr>pixels := q\<rparr>)"
proof -
  have size: "9 \<le> a_width fb" "16 \<le> a_height fb" using fb by (simp_all add: usable_screen_def)
  note p = prepared_size [OF ctx size] and f = prepared_fields [OF ctx] and st = fb_start_ok [OF fb ctx]
  have pos: "0 < cols ctx" "0 < rows ctx" using p(1,3) by (simp_all add: word_less_nat_alt)
  show ?thesis
    unfolding fb_finish_def fb_start_def [symmetric]
    by (rule full_refresh_displays [OF st(2,1)]) (use st(3) pos f prepared_text(2) [of "kernel_args fb" px] ctx in simp_all)
qed

text \<open>The initial context is well formed and shows an empty screen.\<close>

lemma fb_finish_ok:
  assumes fb: "usable_screen fb" and ctx: "ctx = fb_prepare (kernel_args fb) px"
  shows "terminal_ok (fb_finish ctx) \<and> screen_lines (fb_finish ctx) = blank_screen (fb_finish ctx)"
proof -
  have size: "9 \<le> a_width fb" "16 \<le> a_height fb" using fb by (simp_all add: usable_screen_def)
  note p = prepared_size [OF ctx size] and f = prepared_fields [OF ctx] and st = fb_start_ok [OF fb ctx]
  have pos: "0 < cols ctx" "0 < rows ctx" using p(1,3) by (simp_all add: word_less_nat_alt)
  obtain q where q: "fb_finish ctx = (fb_start ctx)\<lparr>pixels := q\<rparr>" "displayed ((fb_start ctx)\<lparr>pixels := q\<rparr>)"
    using fb_finish_pixels [OF assms] by blast
  define t where "t = (fb_start ctx)\<lparr>pixels := q\<rparr>"
  have same: "rows t = rows ctx" "cols t = cols ctx" "cells t = cells ctx" "default_fg t = default_fg ctx"
    "queue_ok t = queue_ok (fb_start ctx)" "\<And>i. char_at i t = char_at i (fb_start ctx)" "fb_geometry t"
    using st(2) by (simp_all add: t_def cells_def queue_ok_def screen_sized_def item_cell_def char_at_def cong: option.case_cong)
  have "displayed t" unfolding t_def by (rule q(2))
  then have "screen_ok t"
    using st(1,4) pos f(16,17) same by (simp add: screen_ok_def) (simp add: t_def)
  moreover have "cursor_ok t" using f pos by (simp add: cursor_ok_def t_def fb_start_def flanterm_context_reinit_def set_grid_def Let_def)
  moreover have "parser_ok t" using f by (simp add: parser_ok_def t_def fb_start_def flanterm_context_reinit_def set_grid_def Let_def)
  moreover have "modes_ok t"
    using f pos by (simp add: modes_ok_def margins_ok_def t_def fb_start_def flanterm_context_reinit_def set_grid_def Let_def)
  ultimately have "terminal_ok t" by (simp add: terminal_ok_def)
  moreover have "screen_lines t = blank_screen t"
    by (intro nth_equalityI) (simp_all add: screen_lines_def screen_line_def blank_screen_def same st(4) cell_below list_eq_iff_nth_eq)
  ultimately show ?thesis by (simp add: q(1) t_def)
qed

text \<open>The context \<open>printk_init\<close> makes; the static instance is taken, so a second call gets none.\<close>

lemma printk_init_context:
  assumes fb: "usable_screen fb" and "b = \<lparr>bump_alloc_ptr = 0, bump_alloc_base_offset_added = False, bump_allocated_instance = False\<rparr>"
  shows "\<exists>b'. printk_init pool (Some (fb # fbs)) px b = kret (Some (fb_finish (fb_prepare (kernel_args fb) px))) b' \<and>
    printk_init pool (Some (fb # fbs)) px b' = kret None b'"
proof -
  define ctx where "ctx = fb_prepare (kernel_args fb) px"
  have size: "9 \<le> a_width fb" "16 \<le> a_height fb" using fb by (simp_all add: usable_screen_def)
  note p = prepared_size [OF ctx_def size] and f = prepared_fields [OF ctx_def]
  have masks: "\<not> a_red_mask_size (kernel_args fb) < 8" "a_green_mask_size (kernel_args fb) = a_red_mask_size (kernel_args fb)"
    "a_blue_mask_size (kernel_args fb) = a_red_mask_size (kernel_args fb)"
    using fb by (simp_all add: usable_screen_def kernel_args_def not_less)
  define base where "base = (if pool AND 0xf \<noteq> 0 then 0x10 - (pool AND 0xf) else 0)"
  have "unat base \<le> 16"
  proof -
    have "pool AND 0xf \<le> 0xf" by (rule word_and_le1)
    then have "unat (pool AND 0xf) \<le> 15" by (simp add: word_le_nat_alt)
    then show ?thesis by (simp add: base_def unat_sub_if')
  qed
  moreover define b0 where "b0 = b\<lparr>bump_alloc_ptr := base, bump_alloc_base_offset_added := True\<rparr>"
  moreover have sizes: "sum_list (map (\<lambda>n. unat n + 15) (SIZEOF_FB_CONTEXT # allocation_sizes kernel_font ctx)) \<le> 872862"
  proof -
    have "unat (rows ctx * cols ctx * k) = cells ctx * unat k" if "unat k \<le> 32" for k
    proof -
      have "cells ctx * unat k \<le> 15975 * 32" by (rule mult_mono) (use p(6) that in simp_all)
      then show ?thesis by (simp add: unat_word_ariths(2) [of "rows ctx * cols ctx"] p(5))
    qed
    from this [of 12] this [of 32] this [of 8] show ?thesis
      using p(6) by (simp add: allocation_sizes_def SIZEOF_FB_CONTEXT_def FLANTERM_FB_FONT_GLYPHS_def kernel_font_def f)
  qed
  ultimately obtain q1 where q1: "bump_alloc_all pool (SIZEOF_FB_CONTEXT # allocation_sizes kernel_font ctx) b0 = (True, b0\<lparr>bump_alloc_ptr := q1\<rparr>)"
    using bump_alloc_all_fits [of b0 "SIZEOF_FB_CONTEXT # allocation_sizes kernel_font ctx" pool] by auto
  define sizes where "sizes = allocation_sizes kernel_font ctx"
  obtain b1 where b1: "bump_alloc pool SIZEOF_FB_CONTEXT b = (True, b1)" "bump_alloc_all pool sizes b1 = (True, b0\<lparr>bump_alloc_ptr := q1\<rparr>)"
    using q1 bump_alloc_aligned [of b pool SIZEOF_FB_CONTEXT] assms(2)
    by (auto simp: b0_def base_def sizes_def Let_def split: prod.splits if_splits)
  obtain b2 where b2: "bump_alloc_all pool (take 2 sizes) b1 = (True, b2)" "bump_alloc_all pool (drop 2 sizes) b2 = (True, b0\<lparr>bump_alloc_ptr := q1\<rparr>)"
    using b1(2) bump_alloc_all_append [of pool "take 2 sizes" "drop 2 sizes" b1]
    by (auto simp: Let_def split: prod.splits if_splits)
  have "0 < screen_scale fb" by (cases rule: scale_cases [of fb]) simp_all
  then have glyph: "glyph_width ctx \<noteq> 0" "glyph_height ctx \<noteq> 0"
    using screen_bounds(1,6,7) [OF size] f(5,6) by (auto simp: word_unat_eq_iff)
  have "printk_init pool (Some (fb # fbs)) px b = kret (Some (fb_finish ctx)) (b0\<lparr>bump_alloc_ptr := q1, bump_allocated_instance := True\<rparr>)"
    unfolding printk_init_def flanterm_fb_init_def ctx_def [symmetric] using masks assms(2) b1 b2 glyph
    by (simp add: Let_def sizes_def flip: ctx_def)
  moreover have "printk_init pool (Some (fb # fbs)) px (b0\<lparr>bump_alloc_ptr := q1, bump_allocated_instance := True\<rparr>) =
      kret None (b0\<lparr>bump_alloc_ptr := q1, bump_allocated_instance := True\<rparr>)"
    using masks by (simp add: printk_init_def flanterm_fb_init_def)
  ultimately show ?thesis unfolding ctx_def by blast
qed

text \<open>C25. On every usable screen \<open>printk_init\<close> succeeds: the static pool has room for all tables, at
  whatever address it is and however large the screen, the terminal it makes satisfies the
  invariant, and the frame buffer shows an empty screen. A second terminal is refused.\<close>

theorem printk_init_ok:
  assumes fb: "usable_screen fb" and "b = \<lparr>bump_alloc_ptr = 0, bump_alloc_base_offset_added = False, bump_allocated_instance = False\<rparr>"
  shows "\<exists>ctx b'. printk_init pool (Some (fb # fbs)) px b = kret (Some ctx) b' \<and> terminal_ok ctx \<and>
    screen_lines ctx = blank_screen ctx \<and> printk_init pool (Some (fb # fbs)) px b' = kret None b'"
  using printk_init_context [OF assms] fb_finish_ok [OF fb refl] by blast

definition example_screen :: fb_args where
  "example_screen = \<lparr>a_framebuffer = 0xfd000000, a_width = 1280, a_height = 800, a_pitch = 5120,
     a_red_mask_size = 8, a_red_mask_shift = 16, a_green_mask_size = 8, a_green_mask_shift = 8, a_blue_mask_size = 8,
     a_blue_mask_shift = 0, a_ansi_colours = None, a_ansi_bright_colours = None, a_default_bg = None, a_default_fg = None,
     a_default_bg_bright = None, a_default_fg_bright = None, a_font = None, a_font_scale_x = 0, a_font_scale_y = 0,
     a_margin = 0, a_rotation = 0\<rparr>"

lemma example_screen_usable: "usable_screen example_screen"
  by (simp add: usable_screen_def example_screen_def)

lemma printk_init_ok_witness:
  "\<exists>ctx b'. printk_init 0x1008 (Some [example_screen]) (\<lambda>_. 0)
      \<lparr>bump_alloc_ptr = 0, bump_alloc_base_offset_added = False, bump_allocated_instance = False\<rparr> = kret (Some ctx) b' \<and> terminal_ok ctx"
  using printk_init_ok [OF example_screen_usable refl, of "0x1008" "[]"] by blast

end
