(* ===== verification/Fb_Client.thy ===== *)
theory Fb_Client
  imports Screen_Init "HOL-Library.Multiset"
begin

unbundle bit_operations_syntax

text \<open>
  The frame-buffer back end with a client's own allocator and canvas, the branch of
  \<open>flanterm_fb_init\<close> and of \<open>flanterm_fb_deinit\<close> the kernel does not take: which blocks are allocated
  and given back, on success and on every way to fail, and what a refresh paints when a canvas lies
  behind the text. The allocator is a parameter, a pair of functions on a state of its own;
  \<open>_free\<close> may be null.
\<close>

subsection \<open>Allocation\<close>

type_synonym 's malloc = "u64 \<Rightarrow> 's \<Rightarrow> u64 \<times> 's"
type_synonym 's free = "u64 \<Rightarrow> u64 \<Rightarrow> 's \<Rightarrow> 's"
type_synonym block = "u64 \<times> u64"

text \<open>Allocations one after the other; the first null pointer ends them. The result holds the blocks
  made so far with the sizes the context stores for them.\<close>

fun client_alloc_all :: "'s malloc \<Rightarrow> u64 list \<Rightarrow> 's \<Rightarrow> bool \<times> block list \<times> 's" where
  "client_alloc_all malloc [] s = (True, [], s)"
| "client_alloc_all malloc (n # ns) s =
     (let (p, s) = malloc n s in
      if p = 0 then (False, [], s)
      else let (ok, bs, s) = client_alloc_all malloc ns s in (ok, (p, n) # bs, s))"

definition client_free_all :: "'s free \<Rightarrow> block list \<Rightarrow> 's \<Rightarrow> 's" where
  "client_free_all free bs s = fold (\<lambda>(p, n). free p n) bs s"

text \<open>The label \<open>fail\<close>: what was allocated, from the canvas back to the context.\<close>

definition client_fail :: "'s free option \<Rightarrow> block list \<Rightarrow> 's \<Rightarrow> 's" where
  "client_fail free bs s = (case free of None \<Rightarrow> s | Some f \<Rightarrow> client_free_all f (rev bs) s)"

subsection \<open>Initialisation\<close>

definition fb_layout_client :: "fb_args \<Rightarrow> (u64 \<Rightarrow> u32) \<Rightarrow> fb_context" where
  "fb_layout_client a px =
     (let (width, height) = fb_logical_size a
      in fb_layout a px (fb_scale a width height) (a_framebuffer a, width, height, a_height a))"

definition canvas_size :: "fb_context \<Rightarrow> u64" where
  "canvas_size ctx = fb_width ctx * fb_height ctx * 4"

text \<open>The copy of the canvas, in the colours of the frame buffer, and the plot function.\<close>

definition set_canvas :: "(u64 \<Rightarrow> u32) option \<Rightarrow> fb_context \<Rightarrow> fb_context" where
  "set_canvas cv ctx =
     ctx\<lparr>canvas := (case cv of None \<Rightarrow> None
           | Some cv \<Rightarrow> Some (\<lambda>i. if i < fb_width ctx * fb_height ctx then convert_colour ctx (cv i) else 0)),
         plot_function :=
           (if font_scale_x ctx = 1 \<and> font_scale_y ctx = 1
            then if cv = None then Unscaled_Uncanvas else Unscaled_Canvas
            else if cv = None then Scaled_Uncanvas else Scaled_Canvas)\<rparr>"

definition fb_finish_client :: "(u64 \<Rightarrow> u32) option \<Rightarrow> fb_context \<Rightarrow> fb_context" where
  "fb_finish_client cv ctx = flanterm_fb_full_refresh (flanterm_context_reinit (set_canvas cv (set_grid ctx)))"

text \<open>The blocks of the terminal are listed in the order of their allocation: the context, the font,
  its pixels, the grid, the queue, its index and the canvas.\<close>

definition flanterm_fb_init_client ::
  "'s malloc \<Rightarrow> 's free option \<Rightarrow> fb_args \<Rightarrow> (u64 \<Rightarrow> u32) option \<Rightarrow> (u64 \<Rightarrow> u32) \<Rightarrow> 's \<Rightarrow> ((fb_context \<times> block list) option, 's) kres" where
  "flanterm_fb_init_client malloc free a cv px s =
     (if a_red_mask_size a < 8 \<or> a_red_mask_size a \<noteq> a_green_mask_size a \<or> a_red_mask_size a \<noteq> a_blue_mask_size a
      then kret None s
      else let f = (case a_font a of Some f \<Rightarrow> f | None \<Rightarrow> kernel_font);
               ctx = fb_layout_client a px;
               sizes = allocation_sizes f ctx;
               (ok, bs, s) = client_alloc_all malloc (SIZEOF_FB_CONTEXT # take 2 sizes) s
        in if \<not> ok then kret None (client_fail free bs s)
           else if glyph_width ctx = 0 \<or> glyph_height ctx = 0 then Inl DivideError
           else let (ok, bs', s) = client_alloc_all malloc (drop 2 sizes @ (if cv = None then [] else [canvas_size ctx])) s
             in if \<not> ok then kret None (client_fail free (bs @ bs') s)
                else kret (Some (fb_finish_client cv ctx, bs @ bs')) s)"

text \<open>\<open>flanterm_fb_deinit\<close> with a client's \<open>_free\<close>: the context goes last.\<close>

definition flanterm_fb_deinit_client :: "'s free \<Rightarrow> block list \<Rightarrow> 's \<Rightarrow> 's" where
  "flanterm_fb_deinit_client free bs s = client_free_all free (tl bs @ [hd bs]) s"

subsection \<open>Every block is given back once\<close>

text \<open>What a client's allocator promises, with \<open>live\<close> the blocks it has handed out: a null pointer
  changes nothing, any other result is a new block, and a block that is live can be given back with
  its size. Nothing is promised about giving back anything else.\<close>

definition allocator_ok :: "'s malloc \<Rightarrow> 's free \<Rightarrow> ('s \<Rightarrow> block multiset) \<Rightarrow> bool" where
  "allocator_ok malloc free live \<longleftrightarrow>
     (\<forall>n s. case malloc n s of (p, s') \<Rightarrow> live s' = (if p = 0 then live s else add_mset (p, n) (live s))) \<and>
     (\<forall>p n s. (p, n) \<in># live s \<longrightarrow> live (free p n s) = live s - {#(p, n)#})"

lemma allocator_okD:
  assumes "allocator_ok malloc free live"
  shows "malloc n s = (p, s') \<Longrightarrow> live s' = (if p = 0 then live s else add_mset (p, n) (live s))"
    and "(p, n) \<in># live s \<Longrightarrow> live (free p n s) = live s - {#(p, n)#}"
  using assms unfolding allocator_ok_def by (fastforce split: prod.splits)+

lemma client_alloc_all_live:
  assumes "allocator_ok malloc free live"
  shows "client_alloc_all malloc ns s = (ok, bs, s') \<Longrightarrow> live s' = live s + mset bs"
proof (induction ns arbitrary: s ok bs)
  case (Cons n ns)
  obtain p t where p: "malloc n s = (p, t)" by force
  show ?case
  proof (cases "p = 0")
    case True
    then show ?thesis using Cons.prems p allocator_okD(1) [OF assms p] by auto
  next
    case False
    obtain ok' bs' t' where r: "client_alloc_all malloc ns t = (ok', bs', t')" using prod_cases3 by blast
    then have "bs = (p, n) # bs'" "s' = t'" using Cons.prems p False by simp_all
    then show ?thesis using Cons.IH r allocator_okD(1) [OF assms p] False by fastforce
  qed
qed simp

lemma client_free_all_live:
  assumes "allocator_ok malloc free live"
  shows "live s = L + mset bs \<Longrightarrow> live (client_free_all free bs s) = L"
proof (induction bs arbitrary: s)
  case (Cons b bs)
  obtain p n where b: "b = (p, n)" by force
  have "live (free p n s) = L + mset bs" using allocator_okD(2) [OF assms, of p n s] Cons.prems by (simp add: b)
  from Cons.IH [OF this] show ?case by (simp add: client_free_all_def b)
qed (simp add: client_free_all_def)

lemma client_fail_live:
  assumes "allocator_ok malloc free live" and "live s = L + mset bs"
  shows "live (client_fail (Some free) bs s) = L"
  using client_free_all_live [OF assms(1), of s L "rev bs"] assms(2) by (simp add: client_fail_def)

lemma client_alloc_all_sizes:
  "client_alloc_all malloc ns s = (ok, bs, s') \<Longrightarrow>
     (\<exists>k \<le> length ns. map snd bs = take k ns \<and> (ok \<longleftrightarrow> k = length ns)) \<and> (\<forall>b \<in> set bs. fst b \<noteq> 0)"
proof (induction ns arbitrary: s ok bs s')
  case (Cons n ns)
  obtain p t where p: "malloc n s = (p, t)" by force
  show ?case
  proof (cases "p = 0")
    case True
    then show ?thesis using Cons.prems p by (auto intro!: exI [of _ 0])
  next
    case False
    obtain ok' bs' t' where r: "client_alloc_all malloc ns t = (ok', bs', t')" using prod_cases3 by blast
    then have q: "bs = (p, n) # bs'" "ok = ok'" using Cons.prems p False by simp_all
    obtain k where "k \<le> length ns" "map snd bs' = take k ns" "ok' \<longleftrightarrow> k = length ns" "\<forall>b \<in> set bs'. fst b \<noteq> 0"
      using Cons.IH [OF r] by blast
    then show ?thesis using False by (intro conjI exI [of _ "Suc k"]) (auto simp: q)
  qed
qed simp

text \<open>C28. \<open>flanterm_fb_init\<close> with a client's allocator never loses a block: when it returns null the
  blocks that were allocated on the way have been given back and the allocator is where it was; when
  it returns a terminal the new blocks are those of the terminal, one for each table with its size,
  and \<open>flanterm_fb_deinit\<close> gives back each of them once. Only blocks that are live are given back.
  Without a \<open>_free\<close> the blocks of a failed call stay allocated.\<close>

theorem client_blocks_freed:
  assumes a: "allocator_ok malloc free live"
  shows "case flanterm_fb_init_client malloc (Some free) a cv px s of
      Inl e \<Rightarrow> e = DivideError \<and> (glyph_width (fb_layout_client a px) = 0 \<or> glyph_height (fb_layout_client a px) = 0)
    | Inr (None, s') \<Rightarrow> live s' = live s
    | Inr (Some (ctx, bs), s') \<Rightarrow> live s' = live s + mset bs \<and> length bs = (if cv = None then 6 else 7) \<and>
        (\<forall>b \<in> set bs. fst b \<noteq> 0) \<and> live (flanterm_fb_deinit_client free bs s') = live s"
proof (cases "a_red_mask_size a < 8 \<or> a_red_mask_size a \<noteq> a_green_mask_size a \<or> a_red_mask_size a \<noteq> a_blue_mask_size a")
  case True
  then show ?thesis by (auto simp: flanterm_fb_init_client_def kret_def)
next
  case False
  define ctx where "ctx = fb_layout_client a px"
  define sizes where "sizes = allocation_sizes (case a_font a of Some f \<Rightarrow> f | None \<Rightarrow> kernel_font) ctx"
  define rest where "rest = drop 2 sizes @ (if cv = None then [] else [canvas_size ctx])"
  obtain ok bs t where 1: "client_alloc_all malloc (SIZEOF_FB_CONTEXT # take 2 sizes) s = (ok, bs, t)" using prod_cases3 by blast
  obtain ok' bs' t' where 2: "client_alloc_all malloc rest t = (ok', bs', t')" using prod_cases3 by blast
  have live: "live t = live s + mset bs" "live t' = live s + mset (bs @ bs')"
    using client_alloc_all_live [OF a 1] client_alloc_all_live [OF a 2] by simp_all
  have r: "flanterm_fb_init_client malloc (Some free) a cv px s =
      (if \<not> ok then kret None (client_fail (Some free) bs t)
       else if glyph_width ctx = 0 \<or> glyph_height ctx = 0 then Inl DivideError
       else if \<not> ok' then kret None (client_fail (Some free) (bs @ bs') t')
       else kret (Some (fb_finish_client cv ctx, bs @ bs')) t')"
    unfolding flanterm_fb_init_client_def ctx_def [symmetric] Let_def sizes_def [symmetric] rest_def [symmetric]
    by (simp only: False if_False 1 2 prod.case)
  have len: "length bs = 3" "length bs' = (if cv = None then 3 else 4)" if "ok" "ok'"
    using client_alloc_all_sizes [OF 1] client_alloc_all_sizes [OF 2] that
    by (auto simp: rest_def sizes_def allocation_sizes_def dest!: arg_cong [where f = length])
  have nz: "\<forall>b \<in> set (bs @ bs'). fst b \<noteq> 0" using client_alloc_all_sizes [OF 1] client_alloc_all_sizes [OF 2] by auto
  have d: "live (flanterm_fb_deinit_client free (bs @ bs') t') = live s" if "length bs = 3"
  proof -
    have "mset (tl (bs @ bs') @ [hd (bs @ bs')]) = mset (bs @ bs')" using that by (cases bs) simp_all
    then show ?thesis
      unfolding flanterm_fb_deinit_client_def using live(2) by (intro client_free_all_live [OF a]) simp
  qed
  show ?thesis
    unfolding r kret_def ctx_def [symmetric]
    using live client_fail_live [OF a live(1)] client_fail_live [OF a live(2)] len nz d by auto
qed

text \<open>An allocator with a given number of blocks.\<close>

definition counted_malloc :: "(u64 \<times> block list) malloc" where
  "counted_malloc n s = (case s of (k, bs) \<Rightarrow> if k = 0 then (0, s) else (k, (k - 1, (k, n) # bs)))"

definition counted_free :: "(u64 \<times> block list) free" where
  "counted_free p n s = (case s of (k, bs) \<Rightarrow> (k, remove1 (p, n) bs))"

lemma counted_ok: "allocator_ok counted_malloc counted_free (mset \<circ> snd)"
  by (auto simp: allocator_ok_def counted_malloc_def counted_free_def)

lemma client_blocks_freed_witness:
  "case flanterm_fb_init_client counted_malloc (Some counted_free) example_screen (Some (\<lambda>i. ucast i)) (\<lambda>_. 0) (4, [(99, 16)]) of
      Inl e \<Rightarrow> e = DivideError \<and> (glyph_width (fb_layout_client example_screen (\<lambda>_. 0)) = 0 \<or>
        glyph_height (fb_layout_client example_screen (\<lambda>_. 0)) = 0)
    | Inr (None, s') \<Rightarrow> mset (snd s') = {#(99, 16)#}
    | Inr (Some (ctx, bs), s') \<Rightarrow> mset (snd s') = {#(99, 16)#} + mset bs \<and> length bs = 7 \<and>
        (\<forall>b \<in> set bs. fst b \<noteq> 0) \<and> mset (snd (flanterm_fb_deinit_client counted_free bs s')) = {#(99, 16)#}"
  using client_blocks_freed [OF counted_ok, where a = example_screen and cv = "Some (\<lambda>i. ucast i)" and px = "\<lambda>_. 0" and s = "(4, [(99, 16)])"]
  by (auto split: sum.splits prod.splits option.splits)

subsection \<open>What a refresh paints\<close>

definition text_area :: "'z fb_context_scheme \<Rightarrow> u64 \<Rightarrow> u64 \<Rightarrow> bool" where
  "text_area ctx x y \<longleftrightarrow>
     unat (offset_x ctx) \<le> unat x \<and> unat x < unat (offset_x ctx) + unat (cols ctx) * unat (glyph_width ctx) \<and>
     unat (offset_y ctx) \<le> unat y \<and> unat y < unat (offset_y ctx) + unat (rows ctx) * unat (glyph_height ctx)"

lemma cell_in_text_area:
  assumes "fb_geometry ctx" and "x < cols ctx" and "y < rows ctx"
    and "gx < unat (glyph_width ctx)" and "gy < unat (glyph_height ctx)"
  shows "text_area ctx (cell_x ctx x gx) (cell_y ctx y gy)"
proof -
  have "a * g + k < n * g" if "a < n" "k < g" for a g k n :: nat
  proof -
    have "a * g + k < (a + 1) * g" using that(2) by simp
    also have "\<dots> \<le> n * g" using that(1) by (intro mult_le_mono1) simp
    finally show ?thesis .
  qed
  note this [of "unat x" "unat (cols ctx)" gx "unat (glyph_width ctx)"] this [of "unat y" "unat (rows ctx)" gy "unat (glyph_height ctx)"]
  then show ?thesis
    using assms(2-5) by (simp add: text_area_def cell_pixel_bounds(1,2) [OF assms] word_less_nat_alt)
qed

text \<open>Plotting stays inside the text area.\<close>

definition outside_text :: "'z fb_context_scheme \<Rightarrow> u64 \<Rightarrow> bool" where
  "outside_text ctx a \<longleftrightarrow> (\<forall>x < cols ctx. \<forall>y < rows ctx. \<forall>gx < unat (glyph_width ctx). \<forall>gy < unat (glyph_height ctx).
     a \<noteq> pixel_address ctx (cell_x ctx x gx) (cell_y ctx y gy))"

lemma outside_textI:
  assumes g: "fb_geometry ctx" and "x < fb_width ctx" and "y < fb_height ctx" and "\<not> text_area ctx x y"
  shows "outside_text ctx (pixel_address ctx x y)"
  unfolding outside_text_def
proof (intro allI impI notI)
  fix cx cy gx gy
  assume c: "cx < cols ctx" "cy < rows ctx" "gx < unat (glyph_width ctx)" "gy < unat (glyph_height ctx)"
    and e: "pixel_address ctx x y = pixel_address ctx (cell_x ctx cx gx) (cell_y ctx cy gy)"
  have "x = cell_x ctx cx gx \<and> y = cell_y ctx cy gy"
    using pixel_address_inj [OF g assms(2) _ assms(3) _ e] cell_pixel_bounds(3,4) [OF g c] by blast
  then show False using cell_in_text_area [OF g c] assms(4) by simp
qed

lemma outside_text_pixels [simp]: "outside_text (s\<lparr>pixels := p\<rparr>) a = outside_text s a"
  by (simp add: outside_text_def pixel_address_def rotate_pixel_def cell_x_def cell_y_def)

lemma plot_char_outside:
  assumes g: "fb_geometry s" and a: "outside_text s a"
  shows "only_pixels s (plot_char c x y s) \<and> pixels (plot_char c x y s) a = pixels s a"
proof (cases "x < cols s \<and> y < rows s")
  case False
  then have "plot_char c x y s = s" by (auto simp: plot_char_defs not_less split: plot_function.split)
  then show ?thesis by (simp add: only_pixels_refl)
next
  case True
  then obtain fg bg where t: "plot_char c x y s = plot_glyph (font_scale_x s) (font_scale_y s) fg bg c
      (offset_x s + x * glyph_width s) (offset_y s + y * glyph_height s) s"
    using plot_char_glyph [OF g, of x y c] by blast
  show ?thesis
    unfolding t using plot_glyph_pixels(1,3) [OF g, of x y] True a by (simp add: outside_text_def)
qed

lemma plot_cells_outside:
  fixes ks :: "nat list"
  assumes "fb_geometry s" and "outside_text s a"
  defines "t \<equiv> fold (\<lambda>i s. plot_char (grid s ! i) (of_nat i mod cols s) (of_nat i div cols s) s) ks s"
  shows "only_pixels s t \<and> pixels t a = pixels s a"
  unfolding t_def
proof (induction ks rule: rev_induct)
  case (snoc i ks)
  define u where "u = fold (\<lambda>i s. plot_char (grid s ! i) (of_nat i mod cols s) (of_nat i div cols s) s) ks s"
  have u: "only_pixels s u" "pixels u a = pixels s a" using snoc by (simp_all add: u_def)
  obtain p where p: "u = s\<lparr>pixels := p\<rparr>" using u(1) by (rule only_pixelsE)
  have "fb_geometry u" "outside_text u a" using assms(1,2) by (simp_all add: p)
  from plot_char_outside [OF this, of "grid u ! i" "of_nat i mod cols u" "of_nat i div cols u"]
  show ?case using u by (simp add: u_def [symmetric]) (simp add: p only_pixels_def)
qed (simp add: only_pixels_refl)

lemma fill_background_pixels:
  assumes g: "fb_geometry s" and x: "x < fb_width s" and y: "y < fb_height s"
  shows "pixels (fill_background s) (pixel_address s x y) = pixel_colour s 0xffffffff x y"
proof -
  define addr where "addr = (\<lambda>p :: nat \<times> nat. pixel_address s (of_nat (snd p)) (of_nat (fst p)))"
  define val where "val = (\<lambda>p :: nat \<times> nat. pixel_colour s 0xffffffff (of_nat (snd p)) (of_nat (fst p)))"
  define P where "P = List.product [0..<unat (fb_height s)] [0..<unat (fb_width s)]"
  have P: "p \<in> set P \<longleftrightarrow> fst p < unat (fb_height s) \<and> snd p < unat (fb_width s)" for p
    by (cases p) (simp add: P_def)
  have fill: "pixels (fill_background s) = fold (\<lambda>p buf. buf(addr p := val p)) P (pixels s)"
    by (simp add: fill_background_def fold_product P_def addr_def val_def pixel_address_def pixel_colour_def case_prod_unfold
      Let_def add.commute cong: option.case_cong)
  have lt: "(of_nat i :: u64) < w" "unat (of_nat i :: u64) = i" if "i < unat w" for i and w :: u64
    using that of_nat_below [OF that] by (simp_all add: word_less_nat_alt)
  have "inj_on addr (set P)"
  proof (rule inj_onI)
    fix p q assume m: "p \<in> set P" "q \<in> set P" and e: "addr p = addr q"
    have "(of_nat (snd p) :: u64) = of_nat (snd q) \<and> (of_nat (fst p) :: u64) = of_nat (fst q)"
      using m lt(1) e by (intro pixel_address_inj [OF g]) (simp_all add: P addr_def)
    then have "snd p = snd q" "fst p = fst q" using m lt(2) by (metis P)+
    then show "p = q" by (rule prod_eqI [OF _ _, rotated])
  qed
  moreover have "(unat y, unat x) \<in> set P" using x y by (simp add: P word_less_nat_alt)
  ultimately have "pixels (fill_background s) (addr (unat y, unat x)) = val (unat y, unat x)"
    unfolding fill by (rule fold_updates(1))
  then show ?thesis by (simp add: addr_def val_def)
qed

lemma fill_background_only: "only_pixels s (fill_background s)"
  by (simp add: only_pixels_def fill_background_def)

lemma draw_cursor_pixels:
  assumes g: "fb_geometry s" and a: "outside_text s a"
  shows "pixels (draw_cursor s) a = pixels s a"
  using plot_char_outside [OF assms] by (simp add: draw_cursor_def Let_def split: option.split)

lemma notify_flush_fields:
  "pixels (notify_flush s) = pixels s" "shows_char (notify_flush s) x y c = shows_char s x y c"
  "flushes (notify_flush s) = flushes s @ (if has_flush_callback s then [pitch s * phys_height s] else [])"
  by (simp_all add: notify_flush_def shows_char_def char_pixel_def pixel_colour_def glyph_bit_def pixel_address_def
    rotate_pixel_def cell_x_def cell_y_def cong: if_cong option.case_cong)

lemma shows_char_stored [simp]:
  "shows_char (s\<lparr>grid := gr, fb_map := m\<rparr>) x y c = shows_char s x y c"
  by (simp add: shows_char_def char_pixel_def pixel_colour_def glyph_bit_def pixel_address_def rotate_pixel_def cell_x_def
    cell_y_def cong: if_cong option.case_cong)

text \<open>When every cell shows its character of the grid, drawing the cursor changes that of the cursor.\<close>

lemma cursor_shows:
  assumes g: "fb_geometry u" and sz: "screen_sized u"
    and u: "\<And>x y. x < cols u \<Longrightarrow> y < rows u \<Longrightarrow> shows_char u x y (grid u ! cell_of u x y)"
  defines "v \<equiv> if cursor_enabled u then draw_cursor u else u"
  shows "flushes v = flushes u \<and> has_flush_callback v = has_flush_callback u \<and> pitch v = pitch u \<and> phys_height v = phys_height u \<and>
    (\<forall>x < cols u. \<forall>y < rows u. shows_char v x y (if cursor_drawn u \<and> (x, y) = (cursor_x u, cursor_y u)
      then swapped (char_at (cell_of u x y) u) else grid u ! cell_of u x y))"
proof (cases "cursor_drawn u")
  case False
  then have "v = u" by (auto simp: v_def draw_cursor_def cursor_drawn_def not_less)
  then show ?thesis using u False by simp
next
  case True
  define i where "i = cell_of u (cursor_x u) (cursor_y u)"
  from True have c: "cursor_enabled u" "cursor_x u < cols u" "cursor_y u < rows u" by (simp_all add: cursor_drawn_def)
  obtain p where p: "only_pixels u p" "v = p\<lparr>grid := (grid u)[i := char_at i u], fb_map := (fb_map u)[i := None]\<rparr>"
    "shows_char p (cursor_x u) (cursor_y u) (swapped (char_at i u))"
    "\<forall>x < cols u. \<forall>y < rows u. \<forall>d. (x, y) \<noteq> (cursor_x u, cursor_y u) \<longrightarrow> shows_char p x y d = shows_char u x y d"
    using draw_cursor_eq [OF g sz c(2,3)] c(1) by (auto simp: v_def i_def)
  obtain q where q: "p = u\<lparr>pixels := q\<rparr>" using p(1) by (rule only_pixelsE)
  have "shows_char v x y d = shows_char p x y d" for x y d unfolding p(2) by (rule shows_char_stored)
  moreover have "flushes v = flushes u" "has_flush_callback v = has_flush_callback u" "pitch v = pitch u" "phys_height v = phys_height u"
    unfolding p(2) by (simp_all add: q)
  ultimately show ?thesis using p(3,4) u True by (auto simp: i_def)
qed

text \<open>The screen before the cursor is drawn, and the two halves of what a refresh paints.\<close>

lemma refresh_before_cursor:
  assumes g: "fb_geometry s" and sz: "screen_sized s"
  obtains u where "only_pixels s u" and "flanterm_fb_full_refresh s = notify_flush (if cursor_enabled u then draw_cursor u else u)"
    and "\<And>x y. x < cols s \<Longrightarrow> y < rows s \<Longrightarrow> shows_char u x y (grid s ! cell_of s x y)"
    and "\<And>x y. x < fb_width s \<Longrightarrow> y < fb_height s \<Longrightarrow> \<not> text_area s x y \<Longrightarrow>
      pixels u (pixel_address s x y) = pixel_colour s 0xffffffff x y"
proof -
  define s0 where "s0 = fill_background s"
  obtain p0 where p0: "s0 = s\<lparr>pixels := p0\<rparr>" using fill_background_only unfolding s0_def by (rule only_pixelsE)
  have small: "cells s < 2 ^ 64" using sz by (rule queue_ok_sized(2))
  define u where "u = fold (\<lambda>i s. plot_char (grid s ! i) (of_nat i mod cols s) (of_nat i div cols s) s) [0..<cells s0] s0"
  have s0: "fb_geometry s0" "cells s0 < 2 ^ 64" "cells s0 = cells s" using g small by (simp_all add: p0 cells_def)
  have u: "only_pixels s0 u" "\<forall>x < cols s0. \<forall>y < rows s0. cell_of s0 x y < cells s0 \<longrightarrow> shows_char u x y (grid s0 ! cell_of s0 x y)"
    using refresh_cells [OF s0(1) order_refl s0(2)] unfolding u_def by blast+
  obtain p1 where "u = s0\<lparr>pixels := p1\<rparr>" using u(1) by (rule only_pixelsE)
  then have p1: "u = s\<lparr>pixels := p1\<rparr>" by (simp add: p0)
  have n: "unat (rows s0 * cols s0) = cells s0" using s0(2) by (simp add: cells_def unat_word_ariths)
  show ?thesis
  proof
    show "only_pixels s u" by (simp add: p1 only_pixels_def)
    show "flanterm_fb_full_refresh s = notify_flush (if cursor_enabled u then draw_cursor u else u)"
      unfolding flanterm_fb_full_refresh_def s0_def [symmetric] Let_def n u_def [symmetric] ..
    show "shows_char u x y (grid s ! cell_of s x y)" if "x < cols s" "y < rows s" for x y
      using u(2) that cell_index(2) [OF that small] s0(3) by (simp add: p0 cell_of_def cells_def)
    show "pixels u (pixel_address s x y) = pixel_colour s 0xffffffff x y"
      if xy: "x < fb_width s" "y < fb_height s" "\<not> text_area s x y" for x y
    proof -
      have o: "outside_text s0 (pixel_address s x y)" using outside_textI [OF g xy] by (simp add: p0)
      show ?thesis using plot_cells_outside [OF s0(1) o] fill_background_pixels [OF g xy(1,2)] by (simp add: s0_def u_def)
    qed
  qed
qed

lemma refresh_background:
  assumes g: "fb_geometry s" and sz: "screen_sized s"
    and xy: "x < fb_width s" "y < fb_height s" "\<not> text_area s x y"
  shows "pixels (flanterm_fb_full_refresh s) (pixel_address s x y) =
    (case canvas s of Some cv \<Rightarrow> cv (x + y * fb_width s) | None \<Rightarrow> default_bg s)"
proof -
  obtain u where u: "only_pixels s u" "flanterm_fb_full_refresh s = notify_flush (if cursor_enabled u then draw_cursor u else u)"
    "pixels u (pixel_address s x y) = pixel_colour s 0xffffffff x y"
    using refresh_before_cursor [OF g sz] xy by metis
  obtain p where p: "u = s\<lparr>pixels := p\<rparr>" using u(1) by (rule only_pixelsE)
  have "fb_geometry u" "outside_text u (pixel_address s x y)" using g outside_textI [OF g xy] by (simp_all add: p)
  from draw_cursor_pixels [OF this] u(3) show ?thesis by (simp add: u(2) notify_flush_fields pixel_colour_def)
qed

lemma refresh_cells_shown:
  assumes g: "fb_geometry s" and sz: "screen_sized s"
  defines "t \<equiv> flanterm_fb_full_refresh s"
  shows "flushes t = flushes s @ (if has_flush_callback s then [pitch s * phys_height s] else []) \<and>
    (\<forall>x < cols s. \<forall>y < rows s. shows_char t x y (if cursor_drawn s \<and> (x, y) = (cursor_x s, cursor_y s)
      then swapped (char_at (cell_of s x y) s) else grid s ! cell_of s x y))"
proof -
  obtain u where u: "only_pixels s u" "t = notify_flush (if cursor_enabled u then draw_cursor u else u)"
    "\<And>x y. x < cols s \<Longrightarrow> y < rows s \<Longrightarrow> shows_char u x y (grid s ! cell_of s x y)"
    using refresh_before_cursor [OF g sz] unfolding t_def by metis
  obtain p where p: "u = s\<lparr>pixels := p\<rparr>" using u(1) by (rule only_pixelsE)
  have u': "fb_geometry u" "screen_sized u" using g sz by (simp_all add: p screen_sized_def cells_def)
  have same: "cursor_drawn u = cursor_drawn s" "cursor_x u = cursor_x s" "cursor_y u = cursor_y s" "cols u = cols s" "rows u = rows s"
    "char_at k u = char_at k s" "cell_of u x y = cell_of s x y" "grid u = grid s"
    "flushes u = flushes s" "has_flush_callback u = has_flush_callback s" "pitch u = pitch s" "phys_height u = phys_height s" for k x y
    by (simp_all add: p cursor_drawn_def char_at_def cell_of_def cong: option.case_cong)
  note v = cursor_shows [OF u', unfolded same, OF u(3)]
  show ?thesis unfolding u(2) notify_flush_fields using v by simp
qed

text \<open>A full refresh decides every pixel of the screen, whatever was in the frame buffer, for every
  rotation, scale and margin and with or without a canvas: each cell shows its character of the grid,
  the cell of a visible cursor shows its character with the colours exchanged, and every pixel outside
  the text area has the colour of the canvas at its place, or the default background. A client's flush
  callback is shown the whole frame buffer once.\<close>

theorem refresh_paints_screen:
  assumes "fb_geometry s" and "screen_sized s" and "t = flanterm_fb_full_refresh s"
  shows "(\<forall>x < fb_width s. \<forall>y < fb_height s. \<not> text_area s x y \<longrightarrow>
      pixels t (pixel_address s x y) = (case canvas s of Some cv \<Rightarrow> cv (x + y * fb_width s) | None \<Rightarrow> default_bg s)) \<and>
    (\<forall>x < cols s. \<forall>y < rows s. shows_char t x y
      (if cursor_drawn s \<and> (x, y) = (cursor_x s, cursor_y s) then swapped (char_at (cell_of s x y) s) else grid s ! cell_of s x y)) \<and>
    flushes t = flushes s @ (if has_flush_callback s then [pitch s * phys_height s] else [])"
  using refresh_background [OF assms(1,2)] refresh_cells_shown [OF assms(1,2)] unfolding assms(3) by blast

subsection \<open>The terminal a client gets\<close>

text \<open>Arguments that make sense: a glyph fits between the margins, a glyph is at most 256 lines high,
  the lines of the frame buffer hold its pixels, and the frame buffer fits the address space.\<close>

definition args_font :: "fb_args \<Rightarrow> fb_font" where
  "args_font a = (case a_font a of Some f \<Rightarrow> f | None \<Rightarrow> kernel_font)"

definition usable_args :: "fb_args \<Rightarrow> bool" where
  "usable_args a \<longleftrightarrow>
     (let (w, h) = fb_logical_size a; (sx, sy) = fb_scale a w h; f = args_font a;
          gw = unat sx * (unat (fn_width f) + unat (fn_spacing f)); gh = unat sy * unat (fn_height f)
      in 0 < gw \<and> 0 < gh \<and> unat (fn_height f) \<le> 256 \<and>
         2 * unat (a_margin a) + gw \<le> unat w \<and> 2 * unat (a_margin a) + gh \<le> unat h) \<and>
     unat (a_width a) \<le> unat (a_pitch a) div 4 \<and> a_pitch a < 2 ^ 33 \<and>
     4 * (unat (a_height a) * (unat (a_pitch a) div 4)) \<le> 2 ^ 64"

definition fb_start_client :: "(u64 \<Rightarrow> u32) option \<Rightarrow> fb_context \<Rightarrow> fb_context" where
  "fb_start_client cv ctx = flanterm_context_reinit (set_canvas cv (set_grid ctx))"

lemmas layout_defs = fb_layout_client_def fb_layout_def set_layout_def set_colours_def set_masks_def zero_context_def Let_def

text \<open>The cells between two margins, and where they begin.\<close>

lemma margin_cells:
  fixes w m g :: u64
  assumes "2 * unat m + unat g \<le> unat w" and "0 < unat g"
  shows "unat (m + ((w - m * 2) mod g) div 2) + unat ((w - m * 2) div g) * unat g \<le> unat w"
    and "0 < unat ((w - m * 2) div g)"
proof -
  have m: "unat (m * 2) = 2 * unat m" using assms unat_64 [of w] by (simp add: unat_word_ariths)
  then have d: "unat (w - m * 2) = unat w - 2 * unat m" using assms by (simp add: unat_sub_if')
  define n k where "n = unat w - 2 * unat m" and "k = unat g"
  have e: "unat ((w - m * 2) mod g) = n mod k" "unat ((w - m * 2) div g) = n div k"
    by (simp_all add: unat_mod_distrib unat_div_distrib d n_def k_def)
  have n: "n mod k + n div k * k = n" by simp
  have h: "unat (((w - m * 2) mod g) div 2) = (n mod k) div 2" by (simp add: unat_div_distrib e)
  have "unat m + (n mod k) div 2 + n div k * k \<le> unat m + n" using n by linarith
  also have "\<dots> \<le> unat w" using assms by (simp add: n_def)
  finally have "unat m + (n mod k) div 2 + n div k * k \<le> unat w" .
  moreover from this have "unat (m + ((w - m * 2) mod g) div 2) = unat m + (n mod k) div 2"
    using unat_64 [of w] unfolding unat_word_ariths(1) [of m] h by simp
  ultimately show "unat (m + ((w - m * 2) mod g) div 2) + unat ((w - m * 2) div g) * unat g \<le> unat w"
    by (simp add: e k_def)
  have "k \<le> n" using assms by (simp add: n_def k_def)
  then show "0 < unat ((w - m * 2) div g)" using assms(2) by (simp add: e k_def div_greater_zero_iff)
qed

text \<open>The geometry of the context before the refresh.\<close>

lemma layout_fields:
  assumes u: "usable_args a" and ctx: "ctx = fb_layout_client a px"
  shows "(fb_width ctx, fb_height ctx) = fb_logical_size a" "rotation ctx = a_rotation a" "pitch ctx = a_pitch a"
    "0 < font_scale_x ctx" "0 < font_scale_y ctx"
    "unat (glyph_width ctx) = unat (font_scale_x ctx) * unat (font_width ctx)" "0 < unat (glyph_width ctx)"
    "unat (glyph_height ctx) = unat (font_scale_y ctx) * unat (font_height ctx)" "0 < unat (glyph_height ctx)"
    "unat (font_height ctx) \<le> 256"
    "unat (offset_x ctx) + unat (cols ctx) * unat (glyph_width ctx) \<le> unat (fb_width ctx)"
    "unat (offset_y ctx) + unat (rows ctx) * unat (glyph_height ctx) \<le> unat (fb_height ctx)"
    "0 < cols ctx" "0 < rows ctx"
proof -
  obtain w h sx sy where q: "fb_logical_size a = (w, h)" "fb_scale a w h = (sx, sy)" by force
  define f where "f = args_font a"
  define gw gh where "gw = (fn_width f + fn_spacing f) * sx" and "gh = fn_height f * sy"
  have u': "0 < unat sx * (unat (fn_width f) + unat (fn_spacing f))" "0 < unat sy * unat (fn_height f)" "unat (fn_height f) \<le> 256"
    "2 * unat (a_margin a) + unat sx * (unat (fn_width f) + unat (fn_spacing f)) \<le> unat w"
    "2 * unat (a_margin a) + unat sy * unat (fn_height f) \<le> unat h"
    using u by (simp_all add: usable_args_def Let_def q f_def)
  have fw: "unat (fn_width f + fn_spacing f) = unat (fn_width f) + unat (fn_spacing f)"
  proof -
    have "1 * (unat (fn_width f) + unat (fn_spacing f)) \<le> unat sx * (unat (fn_width f) + unat (fn_spacing f))"
      using u'(1) by (intro mult_le_mono1) simp
    also have "\<dots> \<le> unat w" using u'(4) by (rule add_leD2)
    finally have "unat (fn_width f) + unat (fn_spacing f) < 2 ^ 64" using unat_64 [of w] by simp
    then show ?thesis by (simp add: unat_word_ariths)
  qed
  have g: "unat gw = unat sx * (unat (fn_width f) + unat (fn_spacing f))" "unat gh = unat sy * unat (fn_height f)"
    using u'(4,5) unat_64 [of w] unat_64 [of h] by (simp_all add: gw_def gh_def mult.commute [of _ sx] mult.commute [of _ sy] unat_word_ariths(2) [of sx] unat_word_ariths(2) [of sy] fw)
  have fields: "fb_width ctx = w" "fb_height ctx = h" "rotation ctx = a_rotation a" "pitch ctx = a_pitch a" "font_scale_x ctx = sx"
    "font_scale_y ctx = sy" "font_width ctx = fn_width f + fn_spacing f" "font_height ctx = fn_height f" "glyph_width ctx = gw"
    "glyph_height ctx = gh" "cols ctx = (w - a_margin a * 2) div gw" "rows ctx = (h - a_margin a * 2) div gh"
    "offset_x ctx = a_margin a + ((w - a_margin a * 2) mod gw) div 2" "offset_y ctx = a_margin a + ((h - a_margin a * 2) mod gh) div 2"
    by (simp_all add: ctx layout_defs q f_def args_font_def gw_def gh_def)
  note x = margin_cells [of "a_margin a" gw w] and y = margin_cells [of "a_margin a" gh h]
  show "(fb_width ctx, fb_height ctx) = fb_logical_size a" "rotation ctx = a_rotation a" "pitch ctx = a_pitch a"
    "unat (glyph_width ctx) = unat (font_scale_x ctx) * unat (font_width ctx)"
    "unat (glyph_height ctx) = unat (font_scale_y ctx) * unat (font_height ctx)"
    "unat (font_height ctx) \<le> 256" "0 < unat (glyph_width ctx)" "0 < unat (glyph_height ctx)"
    using g fw u'(1-3) by (simp_all add: fields q)
  show "0 < font_scale_x ctx" "0 < font_scale_y ctx" using u'(1,2) by (simp_all add: fields word_less_nat_alt)
  show "unat (offset_x ctx) + unat (cols ctx) * unat (glyph_width ctx) \<le> unat (fb_width ctx)"
    "unat (offset_y ctx) + unat (rows ctx) * unat (glyph_height ctx) \<le> unat (fb_height ctx)"
    "0 < cols ctx" "0 < rows ctx"
    using x y u' by (simp_all only: fields g word_less_nat_alt unat_0)
qed

lemma convert_colour_grid [simp]: "convert_colour (set_grid ctx) = convert_colour ctx"
  by (rule ext) (simp add: convert_colour_def set_grid_def Let_def)

lemma set_grid_size [simp]: "fb_width (set_grid ctx) = fb_width ctx" "fb_height (set_grid ctx) = fb_height ctx"
  "font_scale_x (set_grid ctx) = font_scale_x ctx" "font_scale_y (set_grid ctx) = font_scale_y ctx"
  by (simp_all add: set_grid_def Let_def)

lemma start_client_fields [simp]:
  "rows (fb_start_client cv ctx) = rows ctx" "cols (fb_start_client cv ctx) = cols ctx" "cells (fb_start_client cv ctx) = cells ctx"
  "font_width (fb_start_client cv ctx) = font_width ctx" "font_height (fb_start_client cv ctx) = font_height ctx"
  "glyph_width (fb_start_client cv ctx) = glyph_width ctx" "glyph_height (fb_start_client cv ctx) = glyph_height ctx"
  "font_scale_x (fb_start_client cv ctx) = font_scale_x ctx" "font_scale_y (fb_start_client cv ctx) = font_scale_y ctx"
  "offset_x (fb_start_client cv ctx) = offset_x ctx" "offset_y (fb_start_client cv ctx) = offset_y ctx"
  "fb_width (fb_start_client cv ctx) = fb_width ctx" "fb_height (fb_start_client cv ctx) = fb_height ctx"
  "pitch (fb_start_client cv ctx) = pitch ctx" "rotation (fb_start_client cv ctx) = rotation ctx"
  "queue_i (fb_start_client cv ctx) = 0" "cursor_x (fb_start_client cv ctx) = cursor_x ctx"
  "cursor_y (fb_start_client cv ctx) = cursor_y ctx" "cursor_enabled (fb_start_client cv ctx) = True"
  "default_bg (fb_start_client cv ctx) = default_bg ctx"
  "canvas (fb_start_client cv ctx) = (case cv of None \<Rightarrow> None
     | Some cv \<Rightarrow> Some (\<lambda>i. if i < fb_width ctx * fb_height ctx then convert_colour ctx (cv i) else 0))"
  "plot_function (fb_start_client cv ctx) = (if font_scale_x ctx = 1 \<and> font_scale_y ctx = 1
     then if cv = None then Unscaled_Uncanvas else Unscaled_Canvas else if cv = None then Scaled_Uncanvas else Scaled_Canvas)"
  "grid (fb_start_client cv ctx) = replicate (unat (rows ctx * cols ctx)) \<lparr>fc_c = 0x20, fc_fg = text_fg ctx, fc_bg = text_bg ctx\<rparr>"
  "fb_map (fb_start_client cv ctx) = replicate (unat (rows ctx * cols ctx)) None"
  "length (queue (fb_start_client cv ctx)) = unat (rows ctx * cols ctx)"
  by (simp_all add: fb_start_client_def set_canvas_def flanterm_context_reinit_def cells_def split: option.split cong: if_cong)
    (simp_all add: set_grid_def Let_def)

lemma start_client_ok:
  assumes u: "usable_args a" and ctx: "ctx = fb_layout_client a px"
  shows "fb_geometry (fb_start_client cv ctx)" "screen_sized (fb_start_client cv ctx)"
    "unat (fb_width ctx * fb_height ctx) = unat (fb_width ctx) * unat (fb_height ctx)" "cells ctx < 2 ^ 64"
proof -
  note f = layout_fields [OF u ctx]
  define line where "line = unat (a_pitch a) div 4"
  have u': "unat (a_width a) \<le> line" "line < 2 ^ 31" "4 * (unat (a_height a) * line) \<le> 2 ^ 64"
    using u unfolding usable_args_def line_def word_less_nat_alt by (simp_all add: less_mult_imp_div_less)
  have line: "unat (a_pitch a div 4) = line" by (simp add: unat_div_distrib line_def)
  have dims: "sideways ctx = fb_sideways a" "(if fb_sideways a then fb_height ctx else fb_width ctx) = a_width a"
    "(if fb_sideways a then fb_width ctx else fb_height ctx) = a_height a"
    using f(1,2) by (auto simp: fb_logical_size_def sideways_def fb_sideways_def split: if_splits)
  have area: "unat (fb_width ctx) * unat (fb_height ctx) = unat (a_width a) * unat (a_height a)"
    using dims(2,3) by (auto split: if_splits)
  have "unat (a_width a) * unat (a_height a) \<le> unat (a_height a) * line"
    using mult_le_mono1 [OF u'(1), of "unat (a_height a)"] by (simp only: mult.commute)
  then have "4 * (unat (a_width a) * unat (a_height a)) \<le> 2 ^ 64" using u'(3) by linarith
  then have small: "4 * (unat (fb_width ctx) * unat (fb_height ctx)) \<le> 2 ^ 64" by (simp only: area)
  have "n < 2 ^ 64" if "4 * n \<le> 2 ^ 64" for n :: nat using that by simp
  from this [OF small] have area_lt: "unat (fb_width ctx) * unat (fb_height ctx) < 2 ^ 64" .
  then show "unat (fb_width ctx * fb_height ctx) = unat (fb_width ctx) * unat (fb_height ctx)"
    unfolding unat_word_ariths(2) by (intro mod_less) simp
  have "cells ctx \<le> unat (fb_width ctx) * unat (fb_height ctx)"
  proof -
    have "unat (cols ctx) * 1 \<le> unat (cols ctx) * unat (glyph_width ctx)" "unat (rows ctx) * 1 \<le> unat (rows ctx) * unat (glyph_height ctx)"
      using f(7,9) by (intro mult_le_mono2, simp)+
    then have "unat (cols ctx) \<le> unat (fb_width ctx)" "unat (rows ctx) \<le> unat (fb_height ctx)" using f(11,12) by linarith+
    from mult_le_mono [OF this] show ?thesis by (simp add: cells_def mult.commute)
  qed
  from this area_lt show c: "cells ctx < 2 ^ 64" by (rule le_less_trans)
  then have "unat (rows ctx * cols ctx) = cells ctx" by (simp add: cells_def unat_word_ariths)
  with c show "screen_sized (fb_start_client cv ctx)" by (simp add: screen_sized_def)
  have side: "sideways (fb_start_client cv ctx) = fb_sideways a" by (simp add: sideways_def fb_sideways_def f(2))
  show "fb_geometry (fb_start_client cv ctx)"
    unfolding fb_geometry_def Let_def side start_client_fields dims f(3) line
    using u' f(4-6,8,10-12) by (auto simp: mult.commute split: option.split)
qed

lemma canvas_index:
  fixes w h :: u64
  assumes "unat (w * h) = unat w * unat h" and "x < w" and "y < h"
  shows "x + y * w < w * h"
proof -
  have "unat x + unat y * unat w < (unat y + 1) * unat w" using assms(2) by (simp add: word_less_nat_alt)
  also have "\<dots> \<le> unat h * unat w" using assms(3) by (intro mult_le_mono1) (simp add: word_less_nat_alt)
  finally have "unat x + unat y * unat w < unat (w * h)" unfolding assms(1) by (simp only: mult.commute)
  moreover from this have "unat (x + y * w) = unat x + unat y * unat w"
    using unat_64 [of "w * h"] by (simp add: unat_word_ariths(1,2))
  ultimately show ?thesis by (simp add: word_less_nat_alt)
qed

lemma start_client_geometry:
  "text_area (fb_start_client cv ctx) x y = text_area ctx x y" "cell_of (fb_start_client cv ctx) x y = cell_of ctx x y"
  "pixel_address (fb_start_client cv ctx) x y = pixel_address ctx x y"
  by (simp_all add: text_area_def cell_of_def pixel_address_def rotate_pixel_def)
    (simp add: fb_start_client_def set_canvas_def flanterm_context_reinit_def set_grid_def Let_def)

definition turned_screen :: fb_args where
  "turned_screen = example_screen\<lparr>a_rotation := 1, a_margin := 3, a_font_scale_x := 2, a_font_scale_y := 1\<rparr>"

lemma turned_screen_usable: "usable_args turned_screen"
  by (simp add: usable_args_def turned_screen_def example_screen_def fb_logical_size_def fb_sideways_def fb_scale_def args_font_def
    kernel_font_def)

text \<open>C27. What a client sees that starts a terminal with arguments that make sense, for every rotation,
  scale, margin and font: the screen has at least one cell, every pixel outside the text area shows
  the client's canvas at its place, in the colours of the frame buffer, or the default background
  without a canvas, and every cell but that of the cursor shows a blank whose background is the
  canvas.\<close>

theorem client_terminal_shown:
  assumes u: "usable_args a" and init: "flanterm_fb_init_client malloc free a cv px s = kret (Some (ctx, bs)) s'"
    and start: "start = fb_layout_client a px"
  shows "(fb_width start, fb_height start) = fb_logical_size a \<and> 0 < rows start \<and> 0 < cols start \<and>
    (\<forall>x < fb_width start. \<forall>y < fb_height start. \<not> text_area start x y \<longrightarrow>
      pixels ctx (pixel_address start x y) =
        (case cv of Some c \<Rightarrow> convert_colour start (c (x + y * fb_width start)) | None \<Rightarrow> default_bg start)) \<and>
    (\<forall>x < cols start. \<forall>y < rows start. (x, y) \<noteq> (0, 0) \<longrightarrow>
      shows_char ctx x y \<lparr>fc_c = 0x20, fc_fg = default_fg start, fc_bg = 0xffffffff\<rparr>)"
proof -
  define t where "t = fb_start_client cv start"
  note f = layout_fields [OF u start] and ok = start_client_ok [OF u start]
  have "ctx = fb_finish_client cv start"
    using init unfolding flanterm_fb_init_client_def Let_def start
    by (auto simp: kret_def split: if_splits prod.splits)
  then have ctx: "ctx = flanterm_fb_full_refresh t" by (simp add: fb_finish_client_def t_def fb_start_client_def)
  have colours: "text_fg start = default_fg start" "text_bg start = 0xffffffff" "cursor_x start = 0" "cursor_y start = 0"
    by (simp_all add: start layout_defs split: prod.split)
  have t: "fb_geometry t" "screen_sized t" unfolding t_def by (rule ok(1,2))+
  have "pixels ctx (pixel_address start x y) =
      (case cv of Some c \<Rightarrow> convert_colour start (c (x + y * fb_width start)) | None \<Rightarrow> default_bg start)"
    if "x < fb_width start" "y < fb_height start" "\<not> text_area start x y" for x y
    using refresh_background [OF t, of x y] that canvas_index [OF ok(3) that(1,2)]
    by (simp add: ctx t_def start_client_geometry split: option.split)
  moreover have "shows_char ctx x y \<lparr>fc_c = 0x20, fc_fg = default_fg start, fc_bg = 0xffffffff\<rparr>"
    if xy: "x < cols start" "y < rows start" "(x, y) \<noteq> (0, 0)" for x y
  proof -
    have "cell_of start x y < unat (rows start * cols start)"
      using cell_index(2) [OF xy(1,2) ok(4)] ok(4) by (simp add: cell_of_def cells_def unat_word_ariths)
    then have "grid t ! cell_of start x y = \<lparr>fc_c = 0x20, fc_fg = default_fg start, fc_bg = 0xffffffff\<rparr>"
      by (simp add: t_def colours)
    moreover have "shows_char ctx x y (grid t ! cell_of start x y)"
    proof -
      have e: "cols t = cols start" "rows t = rows start" "cursor_x t = 0" "cursor_y t = 0" "cell_of t x y = cell_of start x y"
        by (simp_all add: t_def colours start_client_geometry)
      have "shows_char ctx x y (if cursor_drawn t \<and> (x, y) = (cursor_x t, cursor_y t) then swapped (char_at (cell_of t x y) t)
          else grid t ! cell_of t x y)"
        using conjunct2 [OF refresh_cells_shown [OF t]] xy(1,2) unfolding ctx e(1,2) by blast
      moreover have "\<not> (cursor_drawn t \<and> (x, y) = (cursor_x t, cursor_y t))" using xy(3) by (simp add: e)
      ultimately show ?thesis by (simp only: if_False e(5))
    qed
    ultimately show ?thesis by simp
  qed
  ultimately show ?thesis using f(1,13,14) by blast
qed

lemma client_starts:
  assumes "usable_args a" and "8 \<le> a_red_mask_size a" and "a_green_mask_size a = a_red_mask_size a" and "a_blue_mask_size a = a_red_mask_size a"
  shows "\<exists>ctx bs s'. flanterm_fb_init_client counted_malloc free a cv px (9, []) = kret (Some (ctx, bs)) s'"
proof -
  note f = layout_fields(7,9) [OF assms(1) refl, of px]
  have "glyph_width (fb_layout_client a px) \<noteq> 0" "glyph_height (fb_layout_client a px) \<noteq> 0" using f by auto
  moreover have "\<not> a_red_mask_size a < 8" using assms(2) by (simp add: not_less)
  ultimately show ?thesis
    using assms(3,4) by (simp add: flanterm_fb_init_client_def Let_def allocation_sizes_def counted_malloc_def kret_def)
qed

lemma client_terminal_shown_witness:
  "\<exists>(ctx :: fb_context) start. start = fb_layout_client turned_screen (\<lambda>_. 7) \<and> (fb_width start, fb_height start) = (800, 1280) \<and>
    (\<forall>x < fb_width start. \<forall>y < fb_height start. \<not> text_area start x y \<longrightarrow>
      pixels ctx (pixel_address start x y) = convert_colour start (ucast (x + y * fb_width start)))"
proof -
  obtain ctx bs s' where i: "flanterm_fb_init_client counted_malloc None turned_screen (Some ucast) (\<lambda>_. 7) (9, []) = kret (Some (ctx, bs)) s'"
    using client_starts [OF turned_screen_usable, of None "Some ucast" "\<lambda>_. 7"] by (auto simp: turned_screen_def example_screen_def)
  have size: "fb_logical_size turned_screen = (800, 1280)"
    by (simp add: turned_screen_def example_screen_def fb_logical_size_def fb_sideways_def)
  note r = client_terminal_shown [OF turned_screen_usable i refl, unfolded size option.case]
  show ?thesis
    by (rule exI [of _ ctx], rule exI [of _ "fb_layout_client turned_screen (\<lambda>_. 7)"], intro conjI refl)
      (rule conjunct1 [OF r], rule r [THEN conjunct2, THEN conjunct2, THEN conjunct2, THEN conjunct1])
qed

lemma refresh_paints_screen_witness:
  "\<exists>s :: fb_context. rotation s = 1 \<and> canvas s \<noteq> None \<and>
    (\<forall>x < cols s. \<forall>y < rows s. shows_char (flanterm_fb_full_refresh s) x y
      (if cursor_drawn s \<and> (x, y) = (cursor_x s, cursor_y s) then swapped (char_at (cell_of s x y) s) else grid s ! cell_of s x y))"
proof -
  define s where "s = fb_start_client (Some ucast) (fb_layout_client turned_screen (\<lambda>_. 7))"
  have "fb_geometry s" "screen_sized s" unfolding s_def by (rule start_client_ok [OF turned_screen_usable refl])+
  from refresh_paints_screen [OF this refl] have "\<forall>x < cols s. \<forall>y < rows s. shows_char (flanterm_fb_full_refresh s) x y
      (if cursor_drawn s \<and> (x, y) = (cursor_x s, cursor_y s) then swapped (char_at (cell_of s x y) s) else grid s ! cell_of s x y)"
    by blast
  moreover have "rotation s = 1" "canvas s \<noteq> None"
    using layout_fields(2) [OF turned_screen_usable refl, of "\<lambda>_. 7"] by (simp_all add: s_def turned_screen_def)
  ultimately show ?thesis by blast
qed

end
