(* ===== verification/Translation.thy ===== *)
theory Translation
  imports Page_Ranges
begin

text \<open>
  The contract of the page tables towards the virtual-memory layers, as an interface: a
  translation from pages to entries with \<open>map\<close>, \<open>unmap\<close> and \<open>lookup\<close>. Inside the locale a
  whole sequence of operations is shown to implement the obvious update of a function; the
  interpretation discharges the laws for \<open>map_page\<close>, \<open>unmap_page\<close> and
  \<open>paging_get_entry\<close>.
\<close>

datatype pt_op = Map u64 u64 u64 | Unmap u64

fun abs_op :: "pt_op \<Rightarrow> (u64 \<Rightarrow> u64) \<Rightarrow> u64 \<Rightarrow> u64" where
  "abs_op (Map v p flags) T w = (if same_page w v then leaf_entry p flags else T w)"
| "abs_op (Unmap v) T w = (if same_page w v then 0 else T w)"

fun is_map :: "pt_op \<Rightarrow> bool" where
  "is_map (Map _ _ _) = True"
| "is_map (Unmap _) = False"

fun run_op :: "(u64 \<Rightarrow> u64 \<Rightarrow> u64 \<Rightarrow> 's \<Rightarrow> 's) \<Rightarrow> (u64 \<Rightarrow> 's \<Rightarrow> 's) \<Rightarrow> pt_op \<Rightarrow> 's \<Rightarrow> 's" where
  "run_op map_op unmap_op (Map v p flags) s = map_op v p flags s"
| "run_op map_op unmap_op (Unmap v) s = unmap_op v s"

locale translation =
  fixes map_op :: "u64 \<Rightarrow> u64 \<Rightarrow> u64 \<Rightarrow> 's \<Rightarrow> 's"
    and unmap_op :: "u64 \<Rightarrow> 's \<Rightarrow> 's"
    and lookup :: "u64 \<Rightarrow> 's \<Rightarrow> u64"
    and ready :: "nat \<Rightarrow> 's \<Rightarrow> bool"
  assumes map_ready: "ready (Suc n) s \<Longrightarrow> ready n (map_op v p flags s)"
    and lookup_map: "ready (Suc n) s \<Longrightarrow>
      lookup w (map_op v p flags s) = (if same_page w v then leaf_entry p flags else lookup w s)"
    and unmap_ready: "ready n s \<Longrightarrow> ready n (unmap_op v s)"
    and lookup_unmap: "ready n s \<Longrightarrow>
      lookup w (unmap_op v s) = (if same_page w v then 0 else lookup w s)"
begin

lemma run_op_ready:
  "ready (length (filter is_map (x # ops))) s \<Longrightarrow> ready (length (filter is_map ops)) (run_op map_op unmap_op x s)"
  by (cases x) (simp_all add: map_ready unmap_ready)

lemma run_op_lookup:
  "ready (length (filter is_map (x # ops))) s \<Longrightarrow> lookup w (run_op map_op unmap_op x s) = abs_op x (\<lambda>w. lookup w s) w"
  by (cases x) (simp_all add: lookup_map lookup_unmap)

lemma run_refines:
  "ready (length (filter is_map ops)) s \<Longrightarrow>
    (\<lambda>w. lookup w (fold (run_op map_op unmap_op) ops s)) = fold abs_op ops (\<lambda>w. lookup w s)"
proof (induction ops arbitrary: s)
  case Nil
  then show ?case by simp
next
  case (Cons x ops)
  have "(\<lambda>w. lookup w (run_op map_op unmap_op x s)) = abs_op x (\<lambda>w. lookup w s)"
    using run_op_lookup [OF Cons.prems] by (intro ext)
  with Cons.IH [OF run_op_ready [OF Cons.prems]] show ?case by simp
qed

lemma map_unmap_lookup:
  "ready (Suc n) s \<Longrightarrow> lookup w (unmap_op v (map_op v p flags s)) = (if same_page w v then 0 else lookup w s)"
  using lookup_unmap [OF map_ready] lookup_map by simp

end

definition pt_ready :: "u64 \<Rightarrow> nat \<Rightarrow> 'z paging_state_scheme \<Rightarrow> bool" where
  "pt_ready r n s \<longleftrightarrow> (\<exists>fs. pt_inv s r fs \<and> 3 * n \<le> length fs)"

interpretation pt: translation "map_page r" "unmap_page r" "paging_get_entry r" "pt_ready r" for r
proof unfold_locales
  fix n and s :: "'a paging_state_scheme" and v p flags w
  assume "pt_ready r (Suc n) s"
  then obtain fs where fs: "pt_inv s r fs" "3 * Suc n \<le> length fs" by (auto simp: pt_ready_def)
  then have "3 \<le> length fs" by simp
  from map_page_inv [OF fs(1) this, of v p flags] obtain k where
    k: "k \<le> 3" "pt_inv (map_page r v p flags s) r (drop k fs)"
    "\<forall>w. paging_get_entry r w (map_page r v p flags s) =
      (if same_page w v then leaf_entry p flags else paging_get_entry r w s)" by blast
  have "3 * n \<le> length (drop k fs)" using fs(2) k(1) by simp
  then show "pt_ready r n (map_page r v p flags s)" using k(2) by (auto simp: pt_ready_def)
  show "paging_get_entry r w (map_page r v p flags s) =
      (if same_page w v then leaf_entry p flags else paging_get_entry r w s)" using k(3) by blast
next
  fix n and s :: "'a paging_state_scheme" and v w
  assume "pt_ready r n s"
  then show "pt_ready r n (unmap_page r v s)"
    and "paging_get_entry r w (unmap_page r v s) = (if same_page w v then 0 else paging_get_entry r w s)"
    using unmap_page_inv by (fastforce simp: pt_ready_def)+
qed

end
