(* ===== verification/Mmio.thy ===== *)
theory Mmio
  imports Vm_Lemmas
begin

unbundle bit_operations_syntax

text \<open>
  Memory-mapped device registers (\<open>src/kernel/src/memory/mmio.c\<close>). A
  \<open>struct mmio_region\<close> takes one frame: \<open>phys_base\<close>, \<open>virt_base\<close>, \<open>size\<close> at the offsets 0, 8,
  16 and the embedded \<open>struct vm_region\<close> at 24. An access is checked against \<open>size\<close> and is
  then a plain load or store; the device behind the register is the memory.
\<close>

abbreviation (input) mr_phys_base :: "u64 \<Rightarrow> u64" where "mr_phys_base mr \<equiv> mr"
abbreviation (input) mr_virt_base :: "u64 \<Rightarrow> u64" where "mr_virt_base mr \<equiv> mr + 8"
abbreviation (input) mr_size :: "u64 \<Rightarrow> u64" where "mr_size mr \<equiv> mr + 16"
abbreviation (input) mr_vm_region :: "u64 \<Rightarrow> u64" where "mr_vm_region mr \<equiv> mr + 24"

definition MMIO_FLAGS :: u64 where
  "MMIO_FLAGS = ENTRY_FLAG_PRESENT OR ENTRY_FLAG_RW OR ENTRY_FLAG_PWT OR ENTRY_FLAG_PCD OR ENTRY_FLAG_NX"

definition mmio_init :: "u64 \<Rightarrow> u64 \<Rightarrow> u64 \<Rightarrow> 'z paging_state_scheme \<Rightarrow> (u64, 'z paging_state_scheme) kres" where
  "mmio_init space phys_base sz s =
     kbind (kassert ''space != NULL'' (space \<noteq> 0) s) (\<lambda>_ s.
     kbind (kassert ''phys_base % 0x1000 == 0'' (phys_base mod 0x1000 = 0) s) (\<lambda>_ s.
     kbind (kassert ''size > 0'' (sz > 0) s) (\<lambda>_ s.
     let aligned_size = page_round sz;
         (phys, s) = frame_alloc s;
         mr = offset s + phys;
         s = put64 (mr_phys_base mr) phys_base s;
         s = put64 (mr_size mr) aligned_size s;
         s = put64 (region_base (mr_vm_region mr)) phys_base s;
         s = put64 (region_size (mr_vm_region mr)) aligned_size s;
         s = put64 (region_next (mr_vm_region mr)) 0 s
     in kbind (vm_map_region space (mr_vm_region mr) MMIO_FLAGS s) (\<lambda>virt s.
        kret mr (put64 (mr_virt_base mr) virt s)))))"

definition mmio_read8 :: "u64 \<Rightarrow> u64 \<Rightarrow> 'z hhdm_state_scheme \<Rightarrow> (u8, 'z hhdm_state_scheme) kres" where
  "mmio_read8 mr off s =
     kbind (kassert ''mr != NULL'' (mr \<noteq> 0) s) (\<lambda>_ s.
     kbind (kassert ''offset_bytes < mr->size'' (off < get64 (mr_size mr) s) s) (\<lambda>_ s.
     kret (mem s (get64 (mr_virt_base mr) s + off)) s))"

definition mmio_read16 :: "u64 \<Rightarrow> u64 \<Rightarrow> 'z hhdm_state_scheme \<Rightarrow> (u16, 'z hhdm_state_scheme) kres" where
  "mmio_read16 mr off s =
     kbind (kassert ''mr != NULL'' (mr \<noteq> 0) s) (\<lambda>_ s.
     kbind (kassert ''offset_bytes + sizeof(uint16_t) <= mr->size'' (off + 2 \<le> get64 (mr_size mr) s) s) (\<lambda>_ s.
     kret (load16 (get64 (mr_virt_base mr) s + off) (mem s)) s))"

definition mmio_read32 :: "u64 \<Rightarrow> u64 \<Rightarrow> 'z hhdm_state_scheme \<Rightarrow> (u32, 'z hhdm_state_scheme) kres" where
  "mmio_read32 mr off s =
     kbind (kassert ''mr != NULL'' (mr \<noteq> 0) s) (\<lambda>_ s.
     kbind (kassert ''offset_bytes + sizeof(uint32_t) <= mr->size'' (off + 4 \<le> get64 (mr_size mr) s) s) (\<lambda>_ s.
     kret (load32 (get64 (mr_virt_base mr) s + off) (mem s)) s))"

definition mmio_read64 :: "u64 \<Rightarrow> u64 \<Rightarrow> 'z hhdm_state_scheme \<Rightarrow> (u64, 'z hhdm_state_scheme) kres" where
  "mmio_read64 mr off s =
     kbind (kassert ''mr != NULL'' (mr \<noteq> 0) s) (\<lambda>_ s.
     kbind (kassert ''offset_bytes + sizeof(uint64_t) <= mr->size'' (off + 8 \<le> get64 (mr_size mr) s) s) (\<lambda>_ s.
     kret (load64 (get64 (mr_virt_base mr) s + off) (mem s)) s))"

definition mmio_write8 :: "u64 \<Rightarrow> u64 \<Rightarrow> u8 \<Rightarrow> 'z hhdm_state_scheme \<Rightarrow> (unit, 'z hhdm_state_scheme) kres" where
  "mmio_write8 mr off val s =
     kbind (kassert ''mr != NULL'' (mr \<noteq> 0) s) (\<lambda>_ s.
     kbind (kassert ''offset_bytes < mr->size'' (off < get64 (mr_size mr) s) s) (\<lambda>_ s.
     kret () (s\<lparr>mem := put_bytes (get64 (mr_virt_base mr) s + off) [val] (mem s)\<rparr>)))"

definition mmio_write16 :: "u64 \<Rightarrow> u64 \<Rightarrow> u16 \<Rightarrow> 'z hhdm_state_scheme \<Rightarrow> (unit, 'z hhdm_state_scheme) kres" where
  "mmio_write16 mr off val s =
     kbind (kassert ''mr != NULL'' (mr \<noteq> 0) s) (\<lambda>_ s.
     kbind (kassert ''offset_bytes + sizeof(uint16_t) <= mr->size'' (off + 2 \<le> get64 (mr_size mr) s) s) (\<lambda>_ s.
     kret () (s\<lparr>mem := store16 (get64 (mr_virt_base mr) s + off) val (mem s)\<rparr>)))"

definition mmio_write32 :: "u64 \<Rightarrow> u64 \<Rightarrow> u32 \<Rightarrow> 'z hhdm_state_scheme \<Rightarrow> (unit, 'z hhdm_state_scheme) kres" where
  "mmio_write32 mr off val s =
     kbind (kassert ''mr != NULL'' (mr \<noteq> 0) s) (\<lambda>_ s.
     kbind (kassert ''offset_bytes + sizeof(uint32_t) <= mr->size'' (off + 4 \<le> get64 (mr_size mr) s) s) (\<lambda>_ s.
     kret () (s\<lparr>mem := store32 (get64 (mr_virt_base mr) s + off) val (mem s)\<rparr>)))"

definition mmio_write64 :: "u64 \<Rightarrow> u64 \<Rightarrow> u64 \<Rightarrow> 'z hhdm_state_scheme \<Rightarrow> (unit, 'z hhdm_state_scheme) kres" where
  "mmio_write64 mr off val s =
     kbind (kassert ''mr != NULL'' (mr \<noteq> 0) s) (\<lambda>_ s.
     kbind (kassert ''offset_bytes + sizeof(uint64_t) <= mr->size'' (off + 8 \<le> get64 (mr_size mr) s) s) (\<lambda>_ s.
     kret () (s\<lparr>mem := store64 (get64 (mr_virt_base mr) s + off) val (mem s)\<rparr>)))"

definition mmio_destroy :: "u64 \<Rightarrow> u64 \<Rightarrow> 'z paging_state_scheme \<Rightarrow> (unit, 'z paging_state_scheme) kres" where
  "mmio_destroy space mr s =
     kbind (kassert ''space != NULL'' (space \<noteq> 0) s) (\<lambda>_ s.
     kbind (kassert ''mr != NULL'' (mr \<noteq> 0) s) (\<lambda>_ s.
     kbind (paging_unmap_page (get64 (space_pml4 space) s) (get64 (mr_virt_base mr) s) (get64 (mr_size mr) s) s) (\<lambda>_ s.
     kret () (frame_free (mr - offset s) s))))"

subsection \<open>Register access\<close>

lemma wrapping_bound:
  assumes "off + 4 \<le> (lim :: u64)" and "18446744073709551612 \<le> unat off"
  shows "off + 4 < 4"
  using assms unat64_less [of off] by (auto simp: word_less_nat_alt unat_plus_if')

text \<open>
  The bound \<open>offset_bytes + sizeof(uint32_t) <= mr->size\<close> is computed modulo \<open>2\<^sup>6\<^sup>4\<close>: the
  four largest offsets pass it for every region of four bytes or more.
\<close>

lemma mmio_read32_cases:
  "mmio_read32 mr off s =
     (if mr = 0 then Inl (Assertion ''mr != NULL'')
      else if get64 (mr + 16) s < off + 4 then Inl (Assertion ''offset_bytes + sizeof(uint32_t) <= mr->size'')
      else Inr (load32 (get64 (mr + 8) s + off) (mem s), s))"
  by (auto simp: mmio_read32_def kbind_kassert kret_def)

lemma mmio_write32_cases:
  "mmio_write32 mr off val s =
     (if mr = 0 then Inl (Assertion ''mr != NULL'')
      else if get64 (mr + 16) s < off + 4 then Inl (Assertion ''offset_bytes + sizeof(uint32_t) <= mr->size'')
      else Inr ((), s\<lparr>mem := store32 (get64 (mr + 8) s + off) val (mem s)\<rparr>))"
  by (auto simp: mmio_write32_def kbind_kassert kret_def)

end
