(* ===== verification/Memory_Properties.thy ===== *)
theory Memory_Properties
  imports Boot_Machine Translation Mmio
begin

unbundle bit_operations_syntax

text \<open>
  The theorems about memory management: the byte routines, the frame allocator, the page
  tables, address spaces, mapped registers and the heap. Each is instantiated on the machine
  of \<open>Boot_Machine\<close>.
\<close>

subsection \<open>Byte routines\<close>

text \<open>\<open>memset\<close> writes the low byte of its argument to exactly the \<open>count\<close> addresses from
  \<open>dest\<close> on, wrapping at the end of the address space like the C pointer, and leaves every
  other byte alone.\<close>

theorem memset_exact:
  "memset dest ch count m = (\<lambda>x. if unat (x - dest) < unat count then ucast ch else m x)"
  by (auto simp: memset_eq put_bytes_def fun_eq_iff)

text \<open>C36. \<open>memmove\<close> copies correctly however source and destination overlap: for ranges that do
  not wrap, the destination holds the bytes the source had before the call.\<close>

theorem memmove_overlap:
  assumes "unat src + unat count \<le> 2 ^ 64" and "unat dest + unat count \<le> 2 ^ 64"
  shows "get_bytes dest (unat count) (memmove dest src count m) = get_bytes src (unat count) m \<and>
    (\<forall>x. unat count \<le> unat (x - dest) \<longrightarrow> memmove dest src count m x = m x)"
  using unat64_less [of count]
  by (simp add: memmove_eq [OF assms] get_put_same put_bytes_outside)

lemma memmove_overlap_witness:
  "get_bytes 0x1002 4 (memmove 0x1002 0x1000 4 (\<lambda>x. ucast x)) = [0, 1, 2, 3]"
proof -
  have "get_bytes 0x1002 4 (memmove 0x1002 0x1000 4 (\<lambda>x. ucast x)) = get_bytes 0x1000 4 (\<lambda>x. ucast x)"
    using memmove_overlap [of "0x1000" 4 "0x1002" "\<lambda>x. ucast x"] by simp
  moreover have "[0..<4] = [0, 1, 2, 3 :: nat]" by (simp add: upt_rec)
  ultimately show ?thesis by (simp add: get_bytes_def)
qed

text \<open>C37. \<open>memcmp\<close> compares bytes lexicographically, with the sign reversed: it is negative when
  the first range is the greater one, where the C standard asks for a positive result.\<close>

theorem memcmp_reversed:
  "memcmp lhs rhs count m = - byte_order (get_bytes lhs (unat count) m) (get_bytes rhs (unat count) m) \<and>
   (memcmp lhs rhs count m = 0 \<longleftrightarrow> get_bytes lhs (unat count) m = get_bytes rhs (unat count) m)"
  by (simp add: memcmp_eq byte_order_0_iff)

subsection \<open>Frames\<close>

text \<open>C13. From the memory map of the boot loader, \<open>frame_init\<close> returns and builds a free list
  of exactly the usable pages, each once, the last page of the map first.\<close>

theorem frame_init_builds_pool:
  assumes "memmap_ok usable es" and "page_list s = 0"
  shows "\<exists>s'. frame_init usable es s = Some s' \<and> free_frames s' (rev (usable_pages usable es)) \<and>
    distinct (usable_pages usable es)"
  using frame_init_pool [OF assms] assms(1) by (auto simp: memmap_ok_def)

definition boot_map :: "memmap_entry list" where
  "boot_map = [\<lparr>me_base = 0x100000, me_length = 0x1000, me_type = 1\<rparr>,
     \<lparr>me_base = 0x200000, me_length = 0x10000, me_type = 0\<rparr>]"

lemma frame_init_builds_pool_witness:
  "\<exists>s'. frame_init 0 boot_map boot_base = Some s' \<and> free_frames s' (rev boot_pages)"
proof -
  have u: "usable_pages 0 boot_map = boot_pages" by (simp add: usable_pages_def boot_map_def boot_pages_def)
  then have "memmap_ok 0 boot_map"
    using boot_pages_distinct by (simp add: memmap_ok_def boot_map_def page_aligned_def)
  moreover have "page_list boot_base = 0" by (simp add: boot_base_def)
  ultimately show ?thesis using frame_init_builds_pool [of 0 boot_map boot_base] by (auto simp: u)
qed

text \<open>C12. As long as the pool lasts, any number of allocations yields distinct frames that were
  free, and none of them is still in the pool.\<close>

theorem frames_distinct:
  assumes "free_frames s fs" and "n \<le> length fs"
  shows "distinct (fst (alloc_times frame_alloc n s)) \<and> fst (alloc_times frame_alloc n s) = take n fs \<and>
    free_frames (snd (alloc_times frame_alloc n s)) (drop n fs) \<and>
    set (fst (alloc_times frame_alloc n s)) \<inter> set (drop n fs) = {}"
  using fp.alloc_times_distinct [OF assms] fp.alloc_times_take [OF assms] by blast

lemma frames_distinct_witness: "distinct (fst (alloc_times frame_alloc 16 boot_machine))"
  using frames_distinct [OF boot_free, of 16, unfolded length_rev length_boot_pages, OF order_refl] by (rule conjunct1)

text \<open>A frame that is given back is the next one handed out, and when the pool is empty
  \<open>frame_alloc\<close> returns 0 and changes nothing.\<close>

theorem frame_free_alloc:
  assumes "free_frames s fs" and "f \<noteq> 0" and "page_aligned f" and "f \<notin> set fs"
  shows "fst (frame_alloc (frame_free f s)) = f \<and> free_frames (snd (frame_alloc (frame_free f s))) fs \<and>
    (fs = [] \<longrightarrow> frame_alloc s = (0, s))"
  using fp.alloc_free [OF assms] assms(1) by (auto simp: frame_alloc_Nil)

lemma frame_free_alloc_witness: "fst (frame_alloc (frame_free 0x300000 boot_machine)) = 0x300000"
proof -
  have "0x300000 \<notin> set (rev boot_pages)" using boot_pages_wf(4) [of "0x300000"] by auto
  from frame_free_alloc [OF boot_free _ _ this] show ?thesis by (simp add: page_aligned_def)
qed

subsection \<open>Page tables\<close>

text \<open>C1. Any sequence of \<open>map_page\<close> and \<open>unmap_page\<close> calls, for which the pool has three frames
  per mapping, has the effect of the same updates on a function from pages to entries.\<close>

theorem page_tables_refine:
  assumes "pt_ready r (length (filter is_map ops)) s"
  shows "(\<lambda>w. paging_get_entry r w (fold (run_op (map_page r) (unmap_page r)) ops s)) =
    fold abs_op ops (\<lambda>w. paging_get_entry r w s)"
  by (rule pt.run_refines [OF assms])

lemma boot_ready: "n \<le> 5 \<Longrightarrow> pt_ready (kernel_pml4 boot_machine) n boot_machine"
  unfolding pt_ready_def using boot_inv by (intro exI [of _ "rev boot_pages"]) (simp add: length_boot_pages)

lemma page_tables_refine_witness:
  "paging_get_entry (kernel_pml4 boot_machine) 0x7000
     (fold (run_op (map_page (kernel_pml4 boot_machine)) (unmap_page (kernel_pml4 boot_machine)))
       [Map 0x7000 0x300000 2, Unmap 0x8000] boot_machine) = 0x300003"
proof -
  have sp: "\<not> same_page 0x7000 0x8000" "same_page 0x7000 0x7000"
    by (simp_all add: same_page_iff vaddr_to_index_def)
  from page_tables_refine [where ops = "[Map 0x7000 0x300000 2, Unmap 0x8000]", OF boot_ready, THEN fun_cong, of "0x7000"]
  show ?thesis using sp by (simp add: leaf_entry_def ENTRY_FLAG_PRESENT_def ENTRY_4K_ADDRESS_MASK_def)
qed

text \<open>C11. \<open>paging_map_page\<close> returns; the pages of the range translate to consecutive frames with
  the given flags, every other page translates as before, memory outside the tables and the
  free frames is untouched, and the TLB entries of exactly these pages are invalidated.\<close>

theorem map_range:
  assumes "pt_inv s r fs" and "3 * n \<le> length fs" and "page_aligned v" and "page_aligned p" and "n < 2 ^ 36"
  shows "\<exists>k\<le>3 * n. \<exists>s'. paging_map_page r v p (of_nat (4096 * n)) flags s = Inr ((), s') \<and>
    pt_inv s' r (drop k fs) \<and>
    (\<forall>i<n. paging_get_entry r (v + of_nat (4096 * i)) s' = leaf_entry (p + of_nat (4096 * i)) flags) \<and>
    (\<forall>w. \<not> in_range w v n \<longrightarrow> paging_get_entry r w s' = paging_get_entry r w s) \<and>
    (\<forall>x. x \<notin> footprint s r fs \<longrightarrow> mem s' x = mem s x) \<and>
    invlpg_log s' = invlpg_log s @ region_pages v n"
  using paging_map_page_inv [OF assms, of flags] unfolding range_mapped_def pt_step_def by blast

lemma map_range_witness:
  "\<exists>s'. paging_map_page (kernel_pml4 boot_machine) 0x7000 0x300000 0x2000 2 boot_machine = Inr ((), s') \<and>
     invlpg_log s' = [0x7000, 0x8000]"
proof -
  have "region_pages 0x7000 2 = [0x7000, 0x8000]" by (simp add: region_pages_def upt_rec)
  moreover have "page_aligned 0x7000" "page_aligned 0x300000" by (simp_all add: page_aligned_def)
  ultimately show ?thesis using map_range [OF boot_inv, of 2 "0x7000" "0x300000" 2] by (auto simp: length_boot_pages)
qed

text \<open>\<open>paging_unmap_page\<close> returns; exactly the pages of the range lose their translation and
  are invalidated in the TLB, and no frame is taken or given back.\<close>

theorem unmap_range:
  assumes "pt_inv s r fs" and "page_aligned v" and "4096 * n < 18446744073709551616"
  shows "\<exists>s'. paging_unmap_page r v (of_nat (4096 * n)) s = Inr ((), s') \<and> pt_inv s' r fs \<and>
    (\<forall>w. paging_get_entry r w s' = (if in_range w v n then 0 else paging_get_entry r w s)) \<and>
    invlpg_log s' = invlpg_log s @ region_pages v n"
  using paging_unmap_page_inv [OF assms] by blast

lemma unmap_range_witness:
  "\<exists>s'. paging_unmap_page (kernel_pml4 boot_machine) 0x7000 0x1000 boot_machine = Inr ((), s') \<and>
     invlpg_log s' = [0x7000]"
  using unmap_range [OF boot_inv, of "0x7000" 1]
  by (auto simp: page_aligned_def region_pages_def)

text \<open>C34. The TLB loop of \<open>invalidate\<close> ends exactly when the length is a multiple of the page
  size; for any other length it runs for ever, because the remaining length never becomes 0.\<close>

theorem invalidate_terminates:
  "invalidate a len s =
     (if page_aligned len then Inr ((), s\<lparr>invlpg_log := invlpg_log s @ region_pages a (unat len div 4096)\<rparr>)
      else Inl Diverges)"
  by (simp add: invalidate_eq invalidate_diverges)

text \<open>A new address space shares the kernel half: its upper 256 root entries translate like
  the kernel's, its lower half is empty, and the kernel's own translation is unchanged.\<close>

theorem pml4_shares_kernel:
  assumes "pt_inv s (kernel_pml4 s) (f # fs)"
  shows "\<exists>s'. paging_create_pml4 s = (offset s + f, s') \<and> pt_inv s' (offset s + f) fs \<and> pt_inv s' (kernel_pml4 s) fs \<and>
    (\<forall>v. paging_get_entry (offset s + f) v s' =
      (if 256 \<le> unat (vaddr_to_index v 4) then paging_get_entry (kernel_pml4 s) v s else 0)) \<and>
    (\<forall>v. paging_get_entry (kernel_pml4 s) v s' = paging_get_entry (kernel_pml4 s) v s)"
  using paging_create_pml4_inv [OF assms] by blast

lemma boot_inv_Cons:
  "pt_inv boot_machine (kernel_pml4 boot_machine) (hd (rev boot_pages) # tl (rev boot_pages))"
proof -
  have "rev boot_pages \<noteq> []" using length_boot_pages by fastforce
  then show ?thesis by (subst list.collapse) (simp, rule boot_inv)
qed

lemma pml4_shares_kernel_witness:
  "\<exists>s'. paging_create_pml4 boot_machine = (boot_offset + hd (rev boot_pages), s') \<and>
     paging_get_entry (boot_offset + hd (rev boot_pages)) 0x7000 s' = 0"
proof -
  have "\<not> 256 \<le> unat (vaddr_to_index 0x7000 4)" by (simp add: vaddr_to_index_def)
  moreover note pml4_shares_kernel [OF boot_inv_Cons]
  ultimately show ?thesis by (simp only: boot_fields) force
qed

subsection \<open>Address spaces\<close>

text \<open>\<open>vm_space_create\<close> makes an empty address space: its own root table with the kernel
  half shared, the heap range it was given, no regions, and everything the other operations
  rely on.\<close>

theorem space_created:
  assumes "pt_inv s (kernel_pml4 s) (f # g # fs)" and "offset s + f \<noteq> 0"
  shows "\<exists>s'. vm_space_create hb hs s = (offset s + f, s') \<and> vm_inv s' (offset s + f) fs \<and>
    get64 (space_heap_end (offset s + f)) s' = hb + hs \<and> get64 (space_next_free (offset s + f)) s' = hb \<and>
    get64 (space_regions (offset s + f)) s' = 0 \<and>
    (\<forall>v. paging_get_entry (get64 (space_pml4 (offset s + f)) s') v s' =
      (if 256 \<le> unat (vaddr_to_index v 4) then paging_get_entry (kernel_pml4 s) v s else 0))"
  using vm_space_create_inv [OF assms, of hb hs] by auto

definition boot_space :: u64 where
  "boot_space = boot_offset + hd (rev boot_pages)"

definition boot_space_machine :: heap_state where
  "boot_space_machine = snd (vm_space_create 0x10000000 0x100000 boot_machine)"

abbreviation boot_frames :: "u64 list" where
  "boot_frames \<equiv> tl (tl (rev boot_pages))"

lemma boot_inv_Cons2:
  "pt_inv boot_machine (kernel_pml4 boot_machine) (hd (rev boot_pages) # hd (tl (rev boot_pages)) # boot_frames)"
proof -
  have "rev boot_pages \<noteq> []" "tl (rev boot_pages) \<noteq> []"
    using length_boot_pages length_tl [of "rev boot_pages"] by (fastforce, fastforce)
  then have "hd (rev boot_pages) # hd (tl (rev boot_pages)) # boot_frames = rev boot_pages"
    by (metis list.collapse)
  then show ?thesis using boot_inv by (simp only:)
qed

lemma boot_space_nonzero: "boot_offset + hd (rev boot_pages) \<noteq> 0"
proof -
  have "rev boot_pages \<noteq> []" using length_boot_pages by fastforce
  then have "hd (rev boot_pages) \<in> set boot_pages" using hd_in_set by fastforce
  from boot_pages_wf(3,4) [OF this] have "unat (boot_offset + hd (rev boot_pages)) \<noteq> 0"
    by (simp add: boot_offset_def unat_word_ariths)
  then show ?thesis by auto
qed

lemma boot_space_facts:
  "vm_inv boot_space_machine boot_space boot_frames" "get64 (boot_space + 24) boot_space_machine = 0x10000000"
  "get64 (boot_space + 16) boot_space_machine = 0x10100000" "length boot_frames = 14"
  using vm_space_create_inv [OF boot_inv_Cons2, of "0x10000000" "0x100000"] boot_space_nonzero
  by (auto simp: boot_space_def boot_space_machine_def length_boot_pages)

lemma space_created_witness:
  "\<exists>s'. vm_space_create 0x10000000 0x100000 boot_machine = (boot_space, s') \<and> get64 (boot_space + 32) s' = 0"
  using space_created [OF boot_inv_Cons2, of "0x10000000" "0x100000"] boot_space_nonzero
  by (auto simp: boot_space_def)

lemma boot_space_fits: "sz > 0 \<Longrightarrow> unat sz \<le> 0x10000 \<Longrightarrow> space_fits boot_space sz boot_space_machine"
proof -
  assume sz: "sz > 0" "unat sz \<le> 0x10000"
  have r: "unat (page_round sz) = 4096 * pages_of sz" using sz(2) by (intro page_round_eq) simp
  have "pages_of sz \<le> 16" using sz(2) by (simp add: pages_of_def)
  then have "0x10000000 + page_round sz \<le> 0x10100000"
    using r by (simp add: word_le_nat_alt unat_word_ariths)
  moreover have "page_aligned 0x10000000" by (simp add: page_aligned_def)
  ultimately show ?thesis using sz \<open>pages_of sz \<le> 16\<close> by (simp add: space_fits_def boot_space_facts)
qed

text \<open>C9. \<open>vm_alloc\<close> of a size that fits returns the address where the space's free range
  began, advances it by the size rounded up to pages, backs every page with a distinct frame of
  the pool that belongs to nobody else, and records the region at the head of the list; no other
  translation changes.\<close>

theorem alloc_backs_pages:
  assumes "vm_inv s space fs" and "space_fits space sz s" and "4 * pages_of sz + 1 \<le> length fs"
    and "v = get64 (space_next_free space) s" and "p = get64 (space_pml4 space) s" and "n = pages_of sz"
  shows "\<exists>s' gs fs'. vm_alloc space sz flags s = Inr (v, s') \<and> vm_inv s' space fs' \<and> get64 (space_pml4 space) s' = p \<and>
    length gs = n \<and> distinct gs \<and> set gs \<subseteq> set fs - set fs' \<and>
    (\<forall>i<n. paging_get_entry p (v + of_nat (4096 * i)) s' = leaf_entry (gs ! i) flags) \<and>
    (\<forall>w. \<not> in_range w v n \<longrightarrow> paging_get_entry p w s' = paging_get_entry p w s) \<and>
    get64 (space_next_free space) s' = v + of_nat (4096 * n) \<and> region_recorded space v (of_nat (4096 * n)) s s'"
proof -
  obtain s' gs fs' where h: "vm_alloc space sz flags s = Inr (v, s')" "vm_inv s' space fs'" "get64 space s' = p"
    "backed p v flags n gs s s'" "frames_taken gs p fs s' fs'" "get64 (space + 24) s' = v + of_nat (4096 * n)"
    "region_recorded space v (of_nat (4096 * n)) s s'"
    using vm_alloc_inv [OF assms(1-3), of flags] unfolding assms(4-6) by blast
  have "set gs \<subseteq> set fs - set fs'" "distinct gs" using h(5) by (auto simp: frames_taken_def)
  then show ?thesis
    using h(4) unfolding backed_def by (intro exI [of _ s'] exI [of _ gs] exI [of _ fs'] conjI h(1-3,6,7)) auto
qed

lemma alloc_backs_pages_witness:
  "\<exists>s'. vm_alloc boot_space 0x1800 2 boot_space_machine = Inr (0x10000000, s') \<and>
     get64 (boot_space + 24) s' = 0x10002000"
proof -
  have n: "pages_of 0x1800 = 2" by (simp add: pages_of_def)
  then have l: "4 * pages_of 0x1800 + 1 \<le> length boot_frames" by (simp only: boot_space_facts(4))
  have f: "space_fits boot_space 0x1800 boot_space_machine" by (rule boot_space_fits) simp_all
  from alloc_backs_pages [OF boot_space_facts(1) f l boot_space_facts(2) [symmetric] refl n [symmetric], of 2]
  show ?thesis by auto
qed

text \<open>C10. \<open>vm_map\<close> gives the physical range at \<open>pa\<close> an address in the space, and
  \<open>vm_virt_to_phys\<close> finds the physical address of every mapped page again.\<close>

theorem map_virt_to_phys:
  assumes "vm_inv s space fs" and "space_fits space sz s" and "3 * pages_of sz + 1 \<le> length fs"
    and "page_aligned pa" and "flags AND ENTRY_4K_ADDRESS_MASK = 0"
    and "i < pages_of sz" and "phys_ok (pa + of_nat (4096 * i))" and "v = get64 (space_next_free space) s"
  shows "\<exists>s'. vm_map space pa sz flags s = Inr (v, s') \<and>
    vm_virt_to_phys space (v + of_nat (4096 * i)) s' = Inr (pa + of_nat (4096 * i), s')"
proof -
  obtain s' fs' where s': "vm_map space pa sz flags s = Inr (v, s')" "vm_inv s' space fs'"
    "get64 space s' = get64 space s" "range_mapped (get64 space s) v pa flags (pages_of sz) s s'"
    using vm_map_inv [OF assms(1-4), of flags] assms(8) by blast
  have e: "paging_get_entry (get64 space s') (v + of_nat (4096 * i)) s' = leaf_entry (pa + of_nat (4096 * i)) flags"
    using s'(3,4) assms(6) by (simp add: range_mapped_def)
  have "page_aligned v" using assms(2,8) by (simp add: space_fits_def)
  moreover have "page_aligned (of_nat (4096 * i))"
    by (simp add: page_aligned_unat unsigned_of_nat take_bit_eq_mod mod_mod_cancel del: of_nat_mult)
  ultimately have "page_aligned (v + of_nat (4096 * i))" by (rule page_aligned_add)
  then have off: "(v + of_nat (4096 * i)) AND 0xFFF = 0"
    by (simp add: page_aligned_take_bit take_bit_eq_mask mask_eq_exp_minus_1)
  have "space \<noteq> 0" using assms(1) by (simp add: vm_inv_def)
  then have "vm_virt_to_phys space (v + of_nat (4096 * i)) s' = Inr (pa + of_nat (4096 * i), s')"
    using leaf_masked [OF assms(7,5)] e off by (simp add: vm_virt_to_phys_def kret_def Let_def)
  then show ?thesis using s'(1) by blast
qed

lemma map_virt_to_phys_witness:
  "\<exists>s'. vm_map boot_space 0xFEBF0000 0x2000 0x12 boot_space_machine = Inr (0x10000000, s') \<and>
     vm_virt_to_phys boot_space 0x10001000 s' = Inr (0xFEBF1000, s')"
proof -
  have n: "pages_of 0x2000 = 2" by (simp add: pages_of_def)
  then have l: "3 * pages_of 0x2000 + 1 \<le> length boot_frames" by (simp only: boot_space_facts(4))
  have f: "space_fits boot_space 0x2000 boot_space_machine" by (rule boot_space_fits) simp_all
  have a: "page_aligned 0xFEBF0000" "(0x12 :: u64) AND ENTRY_4K_ADDRESS_MASK = 0" "1 < pages_of 0x2000"
    "phys_ok (0xFEBF0000 + of_nat (4096 * 1))"
    by (simp_all add: page_aligned_def ENTRY_4K_ADDRESS_MASK_def phys_ok_def n)
  from map_virt_to_phys [OF boot_space_facts(1) f l a boot_space_facts(2) [symmetric]] show ?thesis by simp
qed


lemma offset_vm_space_create: "offset (snd (vm_space_create hb hs s)) = offset s"
proof -
  have "offset (snd (frame_alloc t)) = offset t" for t :: "'a paging_state_scheme"
    by (simp add: frame_alloc_def Let_def)
  moreover have "offset (fold (\<lambda>i u. u\<lparr>mem := h i u\<rparr>) xs t) = offset t"
    for h and xs :: "nat list" and t :: "'a paging_state_scheme"
    by (induction xs arbitrary: t) simp_all
  ultimately have "offset (snd (paging_create_pml4 t)) = offset t" "offset (snd (frame_alloc t)) = offset t"
    for t :: "'a paging_state_scheme"
    by (simp_all add: paging_create_pml4_def case_prod_unfold Let_def del: upt_rec_numeral)
  then show ?thesis by (simp add: vm_space_create_def case_prod_unfold Let_def put64_def)
qed

lemma boot_frames_nonzero: "\<forall>f\<in>set boot_frames. offset boot_space_machine + f \<noteq> 0"
proof
  fix f assume f: "f \<in> set boot_frames"
  have "offset boot_space_machine = boot_offset"
    by (simp add: boot_space_machine_def offset_vm_space_create)
  moreover have "f \<in> set boot_pages" using f by (metis list.set_sel(2) set_rev tl_Nil)
  from boot_pages_wf(3,4) [OF this] have "unat (boot_offset + f) \<noteq> 0"
    by (simp add: boot_offset_def unat_word_ariths)
  ultimately show "offset boot_space_machine + f \<noteq> 0" by auto
qed


subsection \<open>Mapped registers\<close>

text \<open>C35. A 32-bit register write inside a region is read back by the same offset, and an access
  that the bound rejects stops with an assertion.\<close>

theorem mmio_read_write:
  assumes "mr \<noteq> 0" and "off + 4 \<le> get64 (mr + 16) s"
    and "sep (get64 (mr + 8) s + off) 4 (mr + 8) 16"
  shows "\<exists>s'. mmio_write32 mr off val s = Inr ((), s') \<and> mmio_read32 mr off s' = Inr (val, s') \<and>
    (\<forall>big. get64 (mr + 16) s < big + 4 \<longrightarrow>
       mmio_read32 mr big s = Inl (Assertion ''offset_bytes + sizeof(uint32_t) <= mr->size''))"
proof -
  define a where "a = get64 (mr + 8) s + off"
  have w: "mmio_write32 mr off val s = Inr ((), s\<lparr>mem := store32 a val (mem s)\<rparr>)"
    using assms(1,2) by (simp add: mmio_write32_cases a_def not_less [symmetric])
  have "sep (mr + 8) 16 a 4" using assms(3) by (simp add: a_def sep_commute)
  then have "sep (mr + 8 + i) 8 a 4" if "unat i + 8 \<le> 16" for i
    using sep_subrange [of "mr + 8" 16 a 4 i 8 0 4] that by simp
  from this [of 0] this [of 8] have "sep (mr + 8) 8 a 4" "sep (mr + 8 + 8) 8 a 4" by simp_all
  moreover have "mr + 8 + 8 = mr + 16" by simp
  ultimately have "sep (mr + 8) 8 a 4" "sep (mr + 16) 8 a 4" by (simp_all only:)
  then have "get64 (mr + 8) (s\<lparr>mem := store32 a val (mem s)\<rparr>) = get64 (mr + 8) s"
    "get64 (mr + 16) (s\<lparr>mem := store32 a val (mem s)\<rparr>) = get64 (mr + 16) s"
    by (simp_all add: get64_def store32_def load64_put_sep)
  then have "mmio_read32 mr off (s\<lparr>mem := store32 a val (mem s)\<rparr>) = Inr (val, s\<lparr>mem := store32 a val (mem s)\<rparr>)"
    using assms(1,2) by (simp add: mmio_read32_cases not_less [symmetric] flip: a_def)
  with w show ?thesis using assms(1) by (auto simp: mmio_read32_cases)
qed

lemma mmio_read_write_witness:
  "\<exists>s'. mmio_write32 0x5000 0 7 (boot_base\<lparr>mem := store64 0x5008 0x9000 (store64 0x5010 0x1000 (\<lambda>_. 0))\<rparr>) = Inr ((), s') \<and>
     mmio_read32 0x5000 0 s' = Inr (7, s')"
proof -
  let ?s = "boot_base\<lparr>mem := store64 0x5008 0x9000 (store64 0x5010 0x1000 (\<lambda>_. 0))\<rparr>"
  have "get64 0x5008 ?s = 0x9000" "get64 0x5010 ?s = 0x1000"
    by (simp_all add: get64_def load64_store64_sep sep_def)
  then have "sep (get64 (0x5000 + 8) ?s + 0) 4 (0x5000 + 8) 16" "0 + 4 \<le> get64 (0x5000 + 16) ?s" by (simp_all add: sep_def)
  from mmio_read_write [OF _ this(2,1), of 7] show ?thesis by auto
qed

text \<open>The bound check wraps: the offset 0xFFFFFFFFFFFFFFFC passes it for every region of at
  least one byte, and the read goes to the four bytes in front of the region.\<close>

theorem mmio_bound_wraps:
  assumes "mr \<noteq> 0"
  shows "mmio_read32 mr 0xFFFFFFFFFFFFFFFC s = Inr (load32 (get64 (mr + 8) s - 4) (mem s), s)"
proof -
  have e: "(0xFFFFFFFFFFFFFFFC :: u64) = - 4" by simp
  show ?thesis unfolding e using assms by (simp add: mmio_read32_cases)
qed

lemma mmio_bound_wraps_witness:
  "mmio_read32 0x5000 0xFFFFFFFFFFFFFFFC boot_base = Inr (load32 (get64 0x5008 boot_base - 4) (mem boot_base), boot_base)"
  using mmio_bound_wraps [of "0x5000" boot_base] by simp

end
