(* ===== verification/Boot_Paging.thy ===== *)
theory Boot_Paging
  imports Memory_Properties
begin

unbundle bit_operations_syntax

text \<open>
  Memory management at boot: \<open>hhdm_init\<close>, \<open>frame_init\<close> and \<open>paging_init\<close> one after the other. A
  table that exists costs no frame, so the identity map of the first four megabytes needs at most
  four; and what the walk does when it meets a large page.
\<close>

subsection \<open>A walk through tables that exist\<close>

definition tables_kept :: "u64 \<Rightarrow> 'z paging_state_scheme \<Rightarrow> 'z paging_state_scheme \<Rightarrow> bool" where
  "tables_kept r s s' \<longleftrightarrow> (\<forall>w e u. e \<le> 3 \<longrightarrow> pt_table (mem s) (offset s) r w e = Some u \<longrightarrow>
     pt_table (mem s') (offset s') r w e = Some u)"

lemma tables_kept_refl: "tables_kept r s s"
  by (simp add: tables_kept_def)

lemma tables_kept_trans: "tables_kept r s t \<Longrightarrow> tables_kept r t u \<Longrightarrow> tables_kept r s u"
  by (simp add: tables_kept_def)

lemma tables_keptD:
  "tables_kept r s s' \<Longrightarrow> e \<le> 3 \<Longrightarrow> pt_table (mem s) (offset s) r w e = Some u \<Longrightarrow>
    pt_table (mem s') (offset s') r w e = Some u"
  by (simp add: tables_kept_def)

lemma ensure_table_kept:
  assumes inv: "pt_inv s r fs" and t: "pt_table (mem s) (offset s) r v d = Some t" and d: "d \<le> 2"
    and fs: "1 \<le> length fs"
  shows "tables_kept r s (ensure_table (4 - d) t v flags s)"
proof (cases "present (load64 (pte_addr t v (4 - d)) (mem s))")
  case True
  then show ?thesis by (simp add: ensure_table_present tables_kept_refl)
next
  case False
  obtain f gs where fs: "fs = f # gs" using fs by (cases fs) auto
  have fr: "free_frames s (f # gs)" and ok: "phys_ok f" and tree: "pt_tree (mem s) (offset s) r"
    and al: "page_aligned (r - offset s)" and ap: "pt_apart (mem s) (offset s) r {f}"
    using inv by (auto simp: pt_inv_def fs pt_apart_def)
  note g = pt_table_grow [OF tree al ap phys_ok_aligned [OF ok] t d False present_intermediate masked_intermediate [OF ok] refl]
  show ?thesis
    unfolding ensure_table_absent [OF fr False] tables_kept_def
    using g pt_table_absent [OF t False] by auto
qed

lemma walk_from:
  assumes "pt_table (mem s) (offset s) r v d = Some t" and "d \<le> 3"
  shows "map_page_walk 4 r v flags s = map_page_walk (4 - d) t v flags s"
  using assms
proof (induction d arbitrary: t)
  case (Suc d)
  then obtain u where u: "pt_table (mem s) (offset s) r v d = Some u" by (auto split: option.splits)
  then have p: "present (load64 (pte_addr u v (4 - d)) (mem s))"
    and t: "t = offset s + (load64 (pte_addr u v (4 - d)) (mem s) AND ENTRY_4K_ADDRESS_MASK)"
    using Suc.prems by (auto simp: Let_def split: if_splits)
  have "map_page_walk (4 - d) u v flags s = map_page_walk (4 - d - 1) t v flags s"
    using Suc.prems(2) by (subst map_page_walk.simps) (auto simp: Let_def ensure_table_present [OF p] t)
  then show ?case using Suc.IH [OF u] Suc.prems by simp
qed simp

lemma walk_within:
  assumes "pt_inv s r fs" and "pt_table (mem s) (offset s) r v d = Some t" and "d + n = 3" and "n \<le> length fs"
    and "map_page_walk (Suc n) t v flags s = (t', s')"
  shows "\<exists>k\<le>n. pt_inv s' r (drop k fs) \<and> pt_step r s fs s' (drop k fs) \<and> tables_kept r s s' \<and>
    (\<forall>w. paging_get_entry r w s' = paging_get_entry r w s) \<and> pt_table (mem s') (offset s') r v 3 = Some t'"
  using assms
proof (induction n arbitrary: s fs d t)
  case 0
  then have "s' = s" "t' = t" "d = 3" by (simp_all add: map_page_walk.simps)
  with 0 show ?case by (simp add: pt_step_refl tables_kept_refl)
next
  case (Suc n)
  define s1 where "s1 = ensure_table (4 - d) t v flags s"
  define t1 where "t1 = offset s1 + (load64 (pte_addr t v (4 - d)) (mem s1) AND ENTRY_4K_ADDRESS_MASK)"
  have l: "Suc (Suc n) = 4 - d" and d: "d \<le> 2" "Suc d + n = 3" using Suc.prems(3) by simp_all
  have w: "map_page_walk (Suc n) t1 v flags s1 = (t', s')"
  proof -
    have "Suc n = 4 - d - 1" "1 < 4 - d" using l d by simp_all
    then show ?thesis using Suc.prems(5) unfolding l s1_def t1_def
      by (subst (asm) map_page_walk.simps) (simp add: Let_def)
  qed
  have fs: "1 \<le> length fs" using Suc.prems(4) by simp
  obtain a where a: "a \<le> 1" "pt_inv s1 r (drop a fs)" "pt_step r s fs s1 (drop a fs)"
    "\<forall>w. paging_get_entry r w s1 = paging_get_entry r w s" "pt_table (mem s1) (offset s1) r v (Suc d) = Some t1"
    using ensure_table_step [OF Suc.prems(1,2) d(1) fs s1_def] unfolding t1_def by blast
  have "n \<le> length (drop a fs)" using a(1) Suc.prems(4) by simp
  from Suc.IH [OF a(2,5) d(2) this w] obtain k where k: "k \<le> n" "pt_inv s' r (drop k (drop a fs))"
    "pt_step r s1 (drop a fs) s' (drop k (drop a fs))" "tables_kept r s1 s'"
    "\<forall>w. paging_get_entry r w s' = paging_get_entry r w s1" "pt_table (mem s') (offset s') r v 3 = Some t'"
    by blast
  moreover have "tables_kept r s s1" unfolding s1_def by (rule ensure_table_kept [OF Suc.prems(1,2) d(1) fs])
  ultimately show ?case
    using a(1,4) pt_step_trans [OF a(3) k(3)] by (intro exI [of _ "k + a"]) (auto intro: tables_kept_trans)
qed

text \<open>With \<open>d\<close> levels of tables present, mapping a page costs at most \<open>3 - d\<close> frames.\<close>

lemma map_page_within:
  assumes inv: "pt_inv s r fs" and t: "pt_table (mem s) (offset s) r v d = Some t" and d: "d \<le> 3" and fs: "3 - d \<le> length fs"
    and s': "s' = map_page r v p flags s"
  shows "\<exists>k\<le>3 - d. pt_inv s' r (drop k fs) \<and> pt_step r s fs s' (drop k fs) \<and> tables_kept r s s' \<and>
    pt_table (mem s') (offset s') r v 3 \<noteq> None \<and>
    (\<forall>w. paging_get_entry r w s' = (if same_page w v then leaf_entry p flags else paging_get_entry r w s))"
proof -
  obtain u s1 where w: "map_page_walk 4 r v flags s = (u, s1)" by (cases "map_page_walk 4 r v flags s")
  have "Suc (3 - d) = 4 - d" using d by simp
  then have "map_page_walk (Suc (3 - d)) t v flags s = (u, s1)" using walk_from [OF t d] w by metis
  from walk_within [OF inv t _ fs this] d obtain k where k: "k \<le> 3 - d" "pt_inv s1 r (drop k fs)"
    "pt_step r s fs s1 (drop k fs)" "tables_kept r s s1" "\<forall>w. paging_get_entry r w s1 = paging_get_entry r w s"
    "pt_table (mem s1) (offset s1) r v 3 = Some u" by auto
  have mp: "s' = s1\<lparr>mem := store64 (pte_addr u v 1) (leaf_entry p flags) (mem s1)\<rparr>"
    by (simp add: s' map_page_def w leaf_entry_def)
  have tr: "pt_tree (mem s1) (offset s1) r" "page_aligned (r - offset s1)" using k(2) by (auto simp: pt_inv_def)
  note lw = pt_table_leaf_write [OF tr k(6), where e = "leaf_entry p flags"]
  have "tables_kept r s1 s'" "pt_table (mem s') (offset s') r v 3 \<noteq> None"
    using lw k(6) by (simp_all add: mp tables_kept_def)
  then show ?thesis
    unfolding mp using k(1,4,5) pt_inv_leaf_write [OF k(2,6)] pt_entry_leaf_write [OF tr k(6)]
      pt_step_trans [OF k(3) pt_step_leaf_write [OF tr k(6)]] tables_kept_trans [OF k(4)]
    by (intro exI [of _ k]) (simp add: paging_get_entry_eq)
qed

text \<open>Pages that share a leaf table.\<close>

lemma map_table_within:
  assumes inv: "pt_inv s r fs" and t: "pt_table (mem s) (offset s) r v d = Some t" and d: "d \<le> 3" and fs: "3 - d \<le> length fs"
    and al: "page_aligned v" and n: "n \<le> 512" and same: "\<And>i. i < n \<Longrightarrow> same_prefix 3 (v + of_nat (4096 * i)) v"
  shows "\<exists>k\<le>3 - d. \<exists>s'. fold (\<lambda>i. map_page r (v + of_nat (4096 * i)) (p + of_nat (4096 * i)) flags) [0..<n] s = s' \<and>
    pt_inv s' r (drop k fs) \<and> pt_step r s fs s' (drop k fs) \<and> tables_kept r s s' \<and> range_mapped r v p flags n s s' \<and>
    (n = 0 \<and> k = 0 \<or> pt_table (mem s') (offset s') r v 3 \<noteq> None)"
  using n same
proof (induction n)
  case 0
  then show ?case using inv by (intro exI [of _ 0]) (simp add: pt_step_refl tables_kept_refl range_mapped_def)
next
  case (Suc n)
  let ?v = "v + of_nat (4096 * n)" and ?p = "p + of_nat (4096 * n)"
  obtain k u where k: "k \<le> 3 - d"
    "fold (\<lambda>i. map_page r (v + of_nat (4096 * i)) (p + of_nat (4096 * i)) flags) [0..<n] s = u"
    "pt_inv u r (drop k fs)" "pt_step r s fs u (drop k fs)" "tables_kept r s u" "range_mapped r v p flags n s u"
    "n = 0 \<and> k = 0 \<or> pt_table (mem u) (offset u) r v 3 \<noteq> None"
    using Suc by auto
  have pre: "same_prefix 3 ?v v" using Suc.prems(2) [of n] by simp
  have "\<exists>c x. c \<le> 3 \<and> pt_table (mem u) (offset u) r ?v c = Some x \<and> 3 - c \<le> length (drop k fs) \<and> 3 - c + k \<le> 3 - d"
  proof (cases "pt_table (mem u) (offset u) r v 3")
    case None
    then have "pt_table (mem u) (offset u) r ?v d = Some t" "k = 0" using k(5,7) t d by (auto dest: tables_keptD)
    then show ?thesis using d fs by auto
  next
    case (Some x)
    then have "pt_table (mem u) (offset u) r ?v 3 = Some x" using pt_table_prefix [OF pre] by simp
    then show ?thesis using k(1) by auto
  qed
  then obtain c x where c: "c \<le> 3" "pt_table (mem u) (offset u) r ?v c = Some x" "3 - c \<le> length (drop k fs)" "3 - c + k \<le> 3 - d"
    by blast
  obtain j where j: "j \<le> 3 - c" "pt_inv (map_page r ?v ?p flags u) r (drop j (drop k fs))"
    "pt_step r u (drop k fs) (map_page r ?v ?p flags u) (drop j (drop k fs))" "tables_kept r u (map_page r ?v ?p flags u)"
    "pt_table (mem (map_page r ?v ?p flags u)) (offset (map_page r ?v ?p flags u)) r ?v 3 \<noteq> None"
    "\<And>w. paging_get_entry r w (map_page r ?v ?p flags u) =
      (if same_page w ?v then leaf_entry ?p flags else paging_get_entry r w u)"
    using map_page_within [OF k(3) c(2,1,3) refl, of ?p flags] by blast
  have "n < 2 ^ 36" using Suc.prems(1) by simp
  then show ?case
    using j c(4) k(2) pt_step_trans [OF k(4) j(3)] tables_kept_trans [OF k(5) j(4)] range_mapped_Suc [OF k(6) al _ j(6)]
      pt_table_prefix [OF pre, of "mem (map_page r ?v ?p flags u)" "offset (map_page r ?v ?p flags u)" r]
    by (intro exI [of _ "j + k"]) (simp del: of_nat_mult)
qed

subsection \<open>The identity map\<close>

text \<open>Pages in the same two megabytes share their leaf table, pages in the same gigabyte the table above.\<close>

lemma same_prefix_drop:
  assumes "drop_bit (48 - 9 * d) v = drop_bit (48 - 9 * d) w" and "d \<le> 4"
  shows "same_prefix d v w"
  unfolding same_prefix_def vaddr_to_index_def
proof (intro allI impI)
  fix k assume k: "k < d"
  then have "drop_bit ((4 - k - 1) * 9 + 12) x = drop_bit ((4 - k - 1) * 9 + 12 - (48 - 9 * d)) (drop_bit (48 - 9 * d) x)" for x :: u64
    using assms(2) by (simp add: drop_bit_drop_bit add.commute)
  from this [of v] this [of w] assms(1)
  show "drop_bit ((4 - k - 1) * 9 + 12) v AND 0x1FF = drop_bit ((4 - k - 1) * 9 + 12) w AND 0x1FF"
    by (simp only:)
qed

lemma low_page:
  assumes "j < 2" and "i < 512"
  shows "same_prefix 3 (of_nat (0x200000 * j) + of_nat (4096 * i)) (of_nat (0x200000 * j))"
    and "same_prefix 2 (of_nat (0x200000 * j)) 0"
proof -
  have u: "unat (of_nat (0x200000 * j) + of_nat (4096 * i) :: u64) = 0x200000 * j + 4096 * i"
    "unat (of_nat (0x200000 * j) :: u64) = 0x200000 * j"
    using assms by (simp_all add: unat_word_ariths unat_of_nat64)
  have "drop_bit 21 (of_nat (0x200000 * j) + of_nat (4096 * i) :: u64) = drop_bit 21 (of_nat (0x200000 * j))"
    unfolding word_unat_eq_iff unat_drop_bit_eq u using assms by (simp add: drop_bit_nat_def)
  then show "same_prefix 3 (of_nat (0x200000 * j) + of_nat (4096 * i)) (of_nat (0x200000 * j))"
    by (intro same_prefix_drop) simp_all
  have "drop_bit 30 (of_nat (0x200000 * j) :: u64) = drop_bit 30 0"
    unfolding word_unat_eq_iff unat_drop_bit_eq u using assms by (simp add: drop_bit_nat_def)
  then show "same_prefix 2 (of_nat (0x200000 * j)) 0" by (intro same_prefix_drop) simp_all
qed

lemma phys_okI:
  assumes "page_aligned p" and "unat p < 2 ^ 52"
  shows "phys_ok p"
  unfolding phys_ok_def
proof (rule bit_word_eqI)
  fix n
  have m: "(0x000FFFFFFFFFF000 :: u64) = mask 52 AND NOT (mask 12)" by (simp add: mask_eq_exp_minus_1)
  have "\<not> bit p n" if "52 \<le> n" using word_bit_ge [OF _ that] assms(2) by blast
  moreover have "\<not> bit p n" if "n < 12"
    using assms(1) that by (metis bit_0_eq bit_take_bit_iff bot_apply bot_bool_def page_aligned_take_bit)
  ultimately have "bit p n \<Longrightarrow> 12 \<le> n \<and> n < 52" by (meson not_le)
  then show "bit (p AND ENTRY_4K_ADDRESS_MASK) n = bit p n"
    unfolding ENTRY_4K_ADDRESS_MASK_def m by (auto simp: bit_simps dest: bit_imp_le_length)
qed

lemma load64_zeros: "load64 a (\<lambda>_. 0) = 0"
  by (simp add: load64_def get_bytes_def map_replicate_trivial numeral_eq_Suc)

lemma paging_init_eq:
  "paging_init s = (let r = 0xFFFF800000000000 + (cr3 s AND ENTRY_4K_ADDRESS_MASK); f = ENTRY_FLAG_PRESENT OR ENTRY_FLAG_RW
    in fold (\<lambda>i. map_page r (0x200000 + of_nat (4096 * i)) (0x200000 + of_nat (4096 * i)) f) [0..<512]
      (fold (\<lambda>i. map_page r (0 + of_nat (4096 * i)) (0 + of_nat (4096 * i)) f) [0..<512] (s\<lparr>kernel_pml4 := r\<rparr>)))"
proof -
  have "[0..<0x400] = [0..<512] @ map (\<lambda>i. i + 512) [0..<512]"
    using upt_add_eq_append [of 0 512 512] by (simp only: map_add_upt) simp
  then show ?thesis by (simp add: paging_init_def Let_def fold_map comp_def algebra_simps del: upt_rec_numeral)
qed

lemma in_range_split: "in_range w v (m + n) \<longleftrightarrow> in_range w v m \<or> in_range w (v + of_nat (4096 * m)) n"
proof
  assume "in_range w v (m + n)"
  then obtain i where i: "i < m + n" "same_page w (v + of_nat (4096 * i))" by (auto simp: in_range_def)
  show "in_range w v m \<or> in_range w (v + of_nat (4096 * m)) n"
  proof (cases "i < m")
    case False
    then have "v + of_nat (4096 * i) = v + of_nat (4096 * m) + of_nat (4096 * (i - m))"
      by (simp add: of_nat_diff algebra_simps)
    with i False have "in_range w (v + of_nat (4096 * m)) n" unfolding in_range_def by (intro exI [of _ "i - m"]) simp
    then show ?thesis ..
  qed (use i in \<open>auto simp: in_range_def\<close>)
next
  assume "in_range w v m \<or> in_range w (v + of_nat (4096 * m)) n"
  then show "in_range w v (m + n)"
  proof
    assume "in_range w (v + of_nat (4096 * m)) n"
    then obtain i where "i < n" "same_page w (v + of_nat (4096 * m) + of_nat (4096 * i))" by (auto simp: in_range_def)
    then show ?thesis unfolding in_range_def by (intro exI [of _ "m + i"]) (simp add: algebra_simps)
  next
    assume "in_range w v m"
    then show ?thesis unfolding in_range_def by (meson trans_less_add1)
  qed
qed

lemma paging_init_inv:
  assumes inv: "pt_inv s r fs" and r: "r = 0xFFFF800000000000 + (cr3 s AND ENTRY_4K_ADDRESS_MASK)" and fs: "4 \<le> length fs"
  defines "f \<equiv> ENTRY_FLAG_PRESENT OR ENTRY_FLAG_RW"
  shows "\<exists>k\<le>4. pt_inv (paging_init s) r (drop k fs) \<and> pt_step r (s\<lparr>kernel_pml4 := r\<rparr>) fs (paging_init s) (drop k fs) \<and>
    range_mapped r 0 0 f 1024 s (paging_init s)"
proof -
  define s0 where "s0 = s\<lparr>kernel_pml4 := r\<rparr>"
  have inv0: "pt_inv s0 r fs" and e0: "paging_get_entry r w s0 = paging_get_entry r w s" for w
    using inv by (simp_all add: s0_def pt_inv_def free_frames_def paging_get_entry_eq)
  define s1 where "s1 = fold (\<lambda>i. map_page r (0 + of_nat (4096 * i)) (0 + of_nat (4096 * i)) f) [0..<512] s0"
  define s2 where "s2 = fold (\<lambda>i. map_page r (0x200000 + of_nat (4096 * i)) (0x200000 + of_nat (4096 * i)) f) [0..<512] s1"
  have s2: "paging_init s = s2" by (simp only: paging_init_eq Let_def s2_def s1_def s0_def r f_def)
  have al: "page_aligned (0 :: u64)" "page_aligned (0x200000 :: u64)" by (simp_all add: page_aligned_def)
  have p3: "same_prefix 3 (0 + of_nat (4096 * i)) 0" "same_prefix 3 (0x200000 + of_nat (4096 * i)) 0x200000" if "i < 512" for i
    using low_page(1) [of 0 i] low_page(1) [of 1 i] that by simp_all
  have "pt_table (mem s0) (offset s0) r 0 0 = Some r" by simp
  from map_table_within [OF inv0 this _ _ al(1) order_refl p3(1), of 0 f, folded s1_def] fs
  obtain k where k: "k \<le> 3" "pt_inv s1 r (drop k fs)" "pt_step r s0 fs s1 (drop k fs)" "range_mapped r 0 0 f 512 s0 s1"
    "pt_table (mem s1) (offset s1) r 0 3 \<noteq> None"
    by auto
  then obtain t where "pt_table (mem s1) (offset s1) r 0 2 = Some t" by (auto simp: numeral_3_eq_3 numeral_2_eq_2 split: option.splits)
  then have t: "pt_table (mem s1) (offset s1) r 0x200000 2 = Some t"
    using pt_table_prefix [OF low_page(2) [of 1 0]] by simp
  have "3 - 2 \<le> length (drop k fs)" using k(1) fs by simp
  from map_table_within [OF k(2) t _ this al(2) order_refl p3(2), of "0x200000" f, folded s2_def]
  obtain j where j: "j \<le> 1" "pt_inv s2 r (drop j (drop k fs))" "pt_step r s1 (drop k fs) s2 (drop j (drop k fs))"
    "range_mapped r 0x200000 0x200000 f 512 s1 s2"
    by auto
  have "range_mapped r 0 0 f 1024 s s2"
    unfolding range_mapped_def
  proof (intro conjI allI impI)
    fix w assume w: "\<not> in_range w 0 1024"
    then have "\<not> in_range w 0 512" "\<not> in_range w 0x200000 512" using in_range_split [of w 0 512 512] by simp_all
    then show "paging_get_entry r w s2 = paging_get_entry r w s" using k(4) j(4) by (simp add: range_mapped_def e0)
  next
    fix i :: nat assume i: "i < 1024"
    show "paging_get_entry r (0 + of_nat (4096 * i)) s2 = leaf_entry (0 + of_nat (4096 * i)) f"
    proof (cases "i < 512")
      case False
      then have e: "(0 + of_nat (4096 * i) :: u64) = 0x200000 + of_nat (4096 * (i - 512))" by (simp add: of_nat_diff algebra_simps)
      show ?thesis unfolding e using j(4) i False by (simp only: range_mapped_def)
    next
      case True
      have "\<not> in_range (0 + of_nat (4096 * i)) 0x200000 512"
      proof
        assume "in_range (0 + of_nat (4096 * i)) 0x200000 512"
        then obtain m where m: "m < 512" "same_page (0 + of_nat (4096 * i)) (0x200000 + of_nat (4096 * m))" by (auto simp: in_range_def)
        moreover have "0x200000 + of_nat (4096 * m) = (0 + of_nat (4096 * (512 + m)) :: u64)" by simp
        ultimately have "same_page (0 + of_nat (4096 * i)) (0 + of_nat (4096 * (512 + m)))" by (simp only:)
        moreover have "\<not> same_page (0 + of_nat (4096 * i)) (0 + of_nat (4096 * (512 + m)))"
          by (rule range_pages_differ [OF al(1)]) (use True m(1) in simp_all)
        ultimately show False by blast
      qed
      then show ?thesis using k(4) j(4) True by (simp add: range_mapped_def)
    qed
  qed
  then show ?thesis
    unfolding s2 using k(1) j(1,2) pt_step_trans [OF k(3) j(3)] by (intro exI [of _ "j + k"]) (simp add: s0_def)
qed

subsection \<open>From the memory map to the page tables\<close>

lemma pt_table_push:
  assumes out: "page_outside g s r fs" and "d \<le> 3"
  shows "pt_table (mem (frame_free g s)) (offset s) r v d = pt_table (mem s) (offset s) r v d"
proof (rule pt_table_cong(1) [OF _ assms(2)])
  fix v d t x
  assume "d \<le> 3" "pt_table (mem s) (offset s) r v d = Some t" "unat (x - t) < 4096"
  then have "x \<in> footprint s r fs" by (rule footprintI_table)
  then have "4096 \<le> unat (x - (offset s + g))"
    using out unfolding page_outside_def not_less [symmetric] by blast
  then show "mem (frame_free g s) x = mem s x" using store64_outside [of 4096 x "offset s + g" 0] by (simp add: frame_free_eq)
qed

text \<open>The frames of the pool join a tree of tables they are apart from.\<close>

lemma pool_inv:
  assumes "pt_inv s r fs" and "\<And>p. p \<in> set ps \<Longrightarrow> p \<noteq> 0 \<and> phys_ok p" and "distinct ps" and "set ps \<inter> set fs = {}"
    and "pt_apart (mem s) (offset s) r (set ps)"
  shows "pt_inv (fold frame_free ps s) r (rev ps @ fs) \<and>
    (\<forall>w. paging_get_entry r w (fold frame_free ps s) = paging_get_entry r w s)"
  using assms
proof (induction ps arbitrary: s fs)
  case (Cons p ps)
  have p: "p \<noteq> 0" "phys_ok p" "p \<notin> set fs" using Cons.prems(2,4) by auto
  have al: "page_aligned (r - offset s)" and fa: "\<And>f. f \<in> set fs \<Longrightarrow> page_aligned f"
    using Cons.prems(1) by (auto simp: pt_inv_def list_all_iff phys_ok_aligned)
  have out: "page_outside p s r fs"
    unfolding page_outside_def footprint_def
  proof (safe)
    fix x v d t
    assume x: "unat (x - (offset s + p)) < 4096" "unat (x - t) < 4096" and t: "pt_table (mem s) (offset s) r v d = Some t" "d \<le> 3"
    have "t - offset s \<noteq> p" using pt_apartD [OF Cons.prems(5) t] by auto
    with pages_apart [of "t - offset s" p x "offset s"] x pt_table_aligned [OF al t(1)] phys_ok_aligned [OF p(2)]
    show False by auto
  next
    fix x f
    assume x: "unat (x - (offset s + p)) < 4096" "unat (x - (offset s + f)) < 4096" and f: "f \<in> set fs"
    with pages_apart [of f p x "offset s"] fa [OF f] phys_ok_aligned [OF p(2)] p(3) show False by auto
  qed
  note push = pt_inv_push [OF Cons.prems(1) out p(2,1,3)]
  have "t - offset s \<notin> set ps" if "d \<le> 3" "pt_table (mem (frame_free p s)) (offset s) r v d = Some t" for v d t
  proof -
    have "pt_table (mem s) (offset s) r v d = Some t" using that by (simp add: pt_table_push [OF out])
    then show ?thesis using pt_apartD [OF Cons.prems(5)] that(1) by auto
  qed
  then have "pt_apart (mem (frame_free p s)) (offset (frame_free p s)) r (set ps)" by (simp add: pt_apart_def frame_free_eq)
  with Cons.IH [OF push(1)] Cons.prems(2-4) push(2) show ?case by auto
qed simp


text \<open>An empty root table in the frame at 0x100000.\<close>

lemma empty_tables:
  "pt_tree (\<lambda>_. 0) boot_offset (boot_offset + 0x100000)"
  "pt_apart (\<lambda>_. 0) boot_offset (boot_offset + 0x100000) (set boot_pages)"
proof -
  have t: "pt_table (\<lambda>_. 0) boot_offset (boot_offset + 0x100000) v d = (if d = 0 then Some (boot_offset + 0x100000) else None)" for v d
    by (induction d) (auto simp: load64_zeros present_def Let_def)
  have "0x100000 \<notin> set boot_pages" using boot_pages_wf(3) [of "0x100000"] by auto
  then show "pt_tree (\<lambda>_. 0) boot_offset (boot_offset + 0x100000)"
    "pt_apart (\<lambda>_. 0) boot_offset (boot_offset + 0x100000) (set boot_pages)"
    by (auto simp: pt_tree_def pt_apart_def t same_prefix_def split: if_splits)
qed

lemma boot_map_ok: "usable_pages 0 boot_map = boot_pages" "memmap_ok 0 boot_map"
proof -
  show p: "usable_pages 0 boot_map = boot_pages" by (simp add: usable_pages_def boot_map_def boot_pages_def)
  show "memmap_ok 0 boot_map"
    using boot_pages_distinct by (simp add: memmap_ok_def p) (simp add: boot_map_def page_aligned_def)
qed


subsection \<open>Large pages\<close>

text \<open>C18. The walk never looks at the page-size bit. When the entry for two megabytes maps a large
  page, as boot loaders build the direct map, \<open>map_page\<close> takes the page for a table: it writes the
  new entry into the data of the large page, and the processor still translates through that page.\<close>

theorem large_page_overwritten:
  assumes t: "pt_table (mem s) (offset s) r v 2 = Some t" and e: "load64 (pte_addr t v 2) (mem s) = e" "present e" "bit e 7"
    and apart: "offset s + (e AND ENTRY_4K_ADDRESS_MASK) \<noteq> t" "page_aligned (r - offset s)"
    and s': "s' = map_page r v p flags s"
  shows "s' = s\<lparr>mem := store64 (offset s + (e AND ENTRY_4K_ADDRESS_MASK) + 8 * vaddr_to_index v 1) (leaf_entry p flags) (mem s)\<rparr> \<and>
    load64 (pte_addr t v 2) (mem s') = e"
proof -
  define d where "d = offset s + (e AND ENTRY_4K_ADDRESS_MASK)"
  have "pt_table (mem s) (offset s) r v 3 = Some d" using t e by (simp add: numeral_3_eq_3 numeral_2_eq_2 Let_def d_def)
  from walk_from [OF this order_refl, of flags] have w: "map_page_walk 4 r v flags s = (d, s)" by (simp add: map_page_walk.simps)
  have "page_aligned (t - offset s)" "page_aligned (d - offset s)" using pt_table_aligned [OF apart(2) t] by (simp_all add: d_def)
  with apart(1) have "load64 (pte_addr t v 2) (store64 (pte_addr d v 1) x (mem s)) = load64 (pte_addr t v 2) (mem s)" for x
    by (intro load_pte_other) (auto simp: d_def)
  then show ?thesis unfolding s' by (simp add: map_page_def w leaf_entry_def e(1) flip: d_def) (simp add: pte_addr_def)
qed

text \<open>The direct map of the first two megabytes of memory as one large page.\<close>

definition large_page_machine :: paging_state where
  "large_page_machine = \<lparr>mem = store64 (boot_offset + 0x100800) 0x101003 (store64 (boot_offset + 0x101000) 0x102003
     (store64 (boot_offset + 0x102000) 0x83 (\<lambda>_. 0))), offset = boot_offset, page_list = 0,
     kernel_pml4 = boot_offset + 0x100000, cr3 = 0x100000, invlpg_log = []\<rparr>"

lemma large_page_overwritten_witness:
  "load64 (boot_offset + 8 * 5) (mem (map_page (boot_offset + 0x100000) (boot_offset + 0x5000) 0x5000 2 large_page_machine)) = 0x5003"
proof -
  let ?m = "mem large_page_machine" and ?r = "boot_offset + 0x100000" and ?v = "boot_offset + 0x5000"
  have i: "vaddr_to_index ?v 4 = 256" "vaddr_to_index ?v 3 = 0" "vaddr_to_index ?v 2 = 0" "vaddr_to_index ?v 1 = 5"
    by (simp_all add: boot_offset_def vaddr_to_index_def)
  have s: "sep (boot_offset + 0x101000) 8 (boot_offset + 0x100800) 8" "sep (boot_offset + 0x102000) 8 (boot_offset + 0x100800) 8"
    "sep (boot_offset + 0x102000) 8 (boot_offset + 0x101000) 8"
    by (simp_all add: sep_def)
  have l: "load64 (boot_offset + 0x100800) ?m = 0x101003" "load64 (boot_offset + 0x101000) ?m = 0x102003"
    "load64 (boot_offset + 0x102000) ?m = 0x83"
    using s by (simp_all add: large_page_machine_def load64_store64 load64_store64_sep)
  have o: "offset large_page_machine = boot_offset" by (simp add: large_page_machine_def)
  have a: "?r + 0x800 = boot_offset + 0x100800" by simp
  have "pt_table ?m boot_offset ?r ?v 2 = Some (boot_offset + 0x102000)"
    using l by (simp add: numeral_2_eq_2 pte_addr_def i a [unfolded add.assoc] add.commute [of _ boot_offset] add.assoc Let_def present_def ENTRY_FLAG_PRESENT_def ENTRY_4K_ADDRESS_MASK_def)
  moreover have "load64 (pte_addr (boot_offset + 0x102000) ?v 2) ?m = 0x83" using l by (simp add: pte_addr_def i)
  moreover have "present 0x83" "bit (0x83 :: u64) 7" by (simp_all add: present_def ENTRY_FLAG_PRESENT_def)
  ultimately show ?thesis
    using large_page_overwritten [of large_page_machine ?r ?v "boot_offset + 0x102000" "0x83" _ "0x5000" 2, OF _ _ _ _ _ _ refl]
    by (simp add: o i [unfolded One_nat_def] load64_store64 ENTRY_4K_ADDRESS_MASK_def leaf_entry_def ENTRY_FLAG_PRESENT_def page_aligned_def)
qed

end
