(* ===== verification/Utf8.thy ===== *)
theory Utf8
  imports Screen_Cells Terminal
begin

unbundle bit_operations_syntax

text \<open>
  The UTF-8 decoder inside \<open>flanterm_putchar\<close> against the encoding of Unicode: the bytes of a
  scalar value are decoded to that value and printed, at whatever point of a sequence they arrive.
\<close>

subsection \<open>The encoding\<close>

definition scalar_value :: "nat \<Rightarrow> bool" where
  "scalar_value n \<longleftrightarrow> n \<le> 0x10ffff \<and> \<not> (0xd800 \<le> n \<and> n \<le> 0xdfff)"

definition utf8 :: "nat \<Rightarrow> u8 list" where
  "utf8 n =
     (if n < 0x80 then [of_nat n]
      else if n < 0x800 then [of_nat (0xc0 + n div 64), of_nat (0x80 + n mod 64)]
      else if n < 0x10000 then [of_nat (0xe0 + n div 64 ^ 2), of_nat (0x80 + n div 64 mod 64), of_nat (0x80 + n mod 64)]
      else [of_nat (0xf0 + n div 64 ^ 3), of_nat (0x80 + n div 64 ^ 2 mod 64), of_nat (0x80 + n div 64 mod 64),
            of_nat (0x80 + n mod 64)])"

subsection \<open>One byte\<close>

lemma byte_unat: "n < 256 \<Longrightarrow> unat (of_nat n :: u8) = n"
  by (simp add: unat_of_nat)

lemma low_bits:
  assumes "n < 256"
  shows "(of_nat n :: u8) AND 0x1f = of_nat (n mod 32)" "(of_nat n :: u8) AND 0x0f = of_nat (n mod 16)"
    "(of_nat n :: u8) AND 0x07 = of_nat (n mod 8)" "(of_nat n :: u8) AND 0x3f = of_nat (n mod 64)"
    "(of_nat n :: u8) AND 0xc0 = of_nat (n div 64 * 64)"
proof -
  have m: "w AND 0x1f = take_bit 5 w" "w AND 0x0f = take_bit 4 w" "w AND 0x07 = take_bit 3 w" "w AND 0x3f = take_bit 6 w"
    for w :: u8 by (simp_all add: take_bit_eq_mask mask_eq_exp_minus_1)
  show "(of_nat n :: u8) AND 0x1f = of_nat (n mod 32)" "(of_nat n :: u8) AND 0x0f = of_nat (n mod 16)"
    "(of_nat n :: u8) AND 0x07 = of_nat (n mod 8)" "(of_nat n :: u8) AND 0x3f = of_nat (n mod 64)"
    by (simp_all only: m take_bit_of_nat) (simp_all add: take_bit_eq_mod)
  have "w AND 0xc0 = push_bit 6 (drop_bit 6 w)" for w :: u8
  proof (rule bit_word_eqI)
    fix k assume "k < LENGTH(8)"
    then have "k = 0 \<or> k = 1 \<or> k = 2 \<or> k = 3 \<or> k = 4 \<or> k = 5 \<or> k = 6 \<or> k = 7" by auto
    then show "bit (w AND 0xc0) k = bit (push_bit 6 (drop_bit 6 w)) k" by (auto simp: bit_simps)
  qed
  moreover have "unat (drop_bit 6 (of_nat n :: u8)) = n div 64"
    by (simp only: unat_drop_bit_eq byte_unat [OF assms]) (simp add: drop_bit_eq_div)
  then have "drop_bit 6 (of_nat n :: u8) = of_nat (n div 64)"
    using assms by (simp add: word_unat_eq_iff byte_unat)
  ultimately show "(of_nat n :: u8) AND 0xc0 = of_nat (n div 64 * 64)" by (simp add: push_bit_eq_mult)
qed

text \<open>A lead byte starts a code point whose remaining bits are zero.\<close>

definition decoding :: "nat \<Rightarrow> nat \<Rightarrow> 'z fb_context_scheme \<Rightarrow> 'z fb_context_scheme" where
  "decoding k v ctx = ctx\<lparr>g_select := 0, unicode_remaining := of_nat k, code_point := of_nat v\<rparr>"

lemma decoding_simps [simp]:
  "unicode_remaining (decoding k v ctx) = of_nat k" "code_point (decoding k v ctx) = of_nat v"
  "discard_next (decoding k v ctx) = discard_next ctx"
  "(decoding k v ctx)\<lparr>unicode_remaining := of_nat j, code_point := of_nat w\<rparr> = decoding j w ctx"
  by (simp_all add: decoding_def)

lemma byte_range:
  assumes "n < 256" and "k < 256"
  shows "of_nat n < (of_nat k :: u8) \<longleftrightarrow> n < k" "of_nat n \<le> (of_nat k :: u8) \<longleftrightarrow> n \<le> k" "of_nat n = (of_nat k :: u8) \<longleftrightarrow> n = k"
  using assms by (simp_all add: word_less_nat_alt word_le_nat_alt word_unat_eq_iff byte_unat)

lemma ucast_byte: "n < 256 \<Longrightarrow> (ucast (of_nat n :: u8) :: u64) = of_nat n"
  by (simp add: word_unat_eq_iff unsigned_ucast_eq byte_unat unat_of_nat take_bit_nat_eq_self)

lemma lead_bytes:
  assumes "\<not> discard_next ctx" and "unicode_remaining ctx = 0"
  shows "0xc2 \<le> n \<Longrightarrow> n \<le> 0xdf \<Longrightarrow> flanterm_putchar (of_nat n) ctx = decoding 1 (n mod 32 * 64) ctx" (is "?c1 \<Longrightarrow> ?c2 \<Longrightarrow> ?c")
    and "0xe0 \<le> n \<Longrightarrow> n \<le> 0xef \<Longrightarrow> flanterm_putchar (of_nat n) ctx = decoding 2 (n mod 16 * 64 ^ 2) ctx" (is "?d1 \<Longrightarrow> ?d2 \<Longrightarrow> ?d")
    and "0xf0 \<le> n \<Longrightarrow> n \<le> 0xf4 \<Longrightarrow> flanterm_putchar (of_nat n) ctx = decoding 3 (n mod 8 * 64 ^ 3) ctx" (is "?e1 \<Longrightarrow> ?e2 \<Longrightarrow> ?e")
proof -
  have ord: "(0xc2 \<le> (of_nat n :: u8)) = (0xc2 \<le> n)" "((of_nat n :: u8) \<le> 0xdf) = (n \<le> 0xdf)"
    "(0xe0 \<le> (of_nat n :: u8)) = (0xe0 \<le> n)" "((of_nat n :: u8) \<le> 0xef) = (n \<le> 0xef)" "((of_nat n :: u8) \<le> 0xf4) = (n \<le> 0xf4)"
    "((of_nat n :: u8) = 0x18) = (n = 0x18)" "((of_nat n :: u8) = 0x1a) = (n = 0x1a)" if "n < 256"
    by (simp_all add: word_le_nat_alt word_unat_eq_iff byte_unat that)
  have bits: "(ucast ((of_nat n :: u8) AND 0x1f) :: u64) = of_nat (n mod 32)" "(ucast ((of_nat n :: u8) AND 0x0f) :: u64) = of_nat (n mod 16)"
    "(ucast ((of_nat n :: u8) AND 0x07) :: u64) = of_nat (n mod 8)" if "n < 256"
    by (simp_all only: low_bits that) (rule ucast_byte, simp)+
  note defs = flanterm_putchar_def unicode_error_def lead_byte_def Let_def decoding_def push_bit_eq_mult
  show ?c if ?c1 ?c2 using that assms by (simp add: defs ord bits)
  show ?d if ?d1 ?d2 using that assms by (simp add: defs ord bits)
  show ?e if ?e1 ?e2 using that assms by (simp add: defs ord bits)
qed

text \<open>A continuation byte adds six bits below those already there.\<close>

lemma or_six_bits:
  assumes "r < 64"
  shows "(of_nat (m * 64 ^ Suc k) :: u64) OR push_bit (6 * k) (of_nat r) = of_nat (m * 64 ^ Suc k + r * 64 ^ k)"
proof -
  have r: "take_bit 6 r = r" using assms by (simp add: take_bit_nat_eq_self)
  have "push_bit 6 m AND r = 0"
    by (subst r [symmetric], rule bit_eqI) (auto simp: bit_simps)
  then have "push_bit 6 m OR r = m * 64 + r" by (simp add: disjunctive_add_eq_or [symmetric] push_bit_eq_mult)
  then have "push_bit (6 * k) (push_bit 6 m OR r) = push_bit (6 * k) (m * 64 + r)" by (rule arg_cong)
  then have "push_bit (6 * k) (push_bit 6 m) OR push_bit (6 * k) r = push_bit (6 * k) (m * 64 + r)"
    by (simp only: push_bit_or)
  moreover have p: "(2 :: nat) ^ (6 * k) = 64 ^ k" by (simp only: power_mult) simp
  ultimately have "(m * 64 ^ Suc k) OR (r * 64 ^ k) = m * 64 ^ Suc k + r * 64 ^ k"
    by (simp add: push_bit_eq_mult algebra_simps del: push_bit_push_bit)
  moreover have "push_bit (6 * k) (of_nat r :: u64) = of_nat (r * 64 ^ k)"
    using arg_cong [OF p, of "of_nat :: nat \<Rightarrow> u64"] by (simp add: push_bit_eq_mult)
  ultimately show ?thesis by (simp only: of_nat_or_eq [symmetric])
qed

lemma continuation:
  assumes "k < 3" and "m * 64 ^ Suc k < 2 ^ 32" and n: "0x80 \<le> n" "n < 0xc0" and d: "\<not> discard_next ctx"
  defines "w \<equiv> m * 64 ^ Suc k + n mod 64 * 64 ^ k"
  shows "flanterm_putchar (of_nat n) (decoding (Suc k) (m * 64 ^ Suc k) ctx) =
    (if k = 1 \<and> w < 0x800 \<or> k = 2 \<and> (w < 0x10000 \<or> 0x10ffff < w) then unicode_error (of_nat n) (decoding 0 w ctx)
     else if k \<noteq> 0 then decoding k w ctx
     else if 0xd800 \<le> w \<and> w \<le> 0xdfff then unicode_error (of_nat n) (decoding 0 w ctx)
     else print_code_point (decoding 0 w ctx))"
proof -
  have "64 ^ k \<le> (64 :: nat) ^ 2" using assms(1) by (intro power_increasing) auto
  then have "n mod 64 * 64 ^ k \<le> 63 * 64 ^ 2" by (intro mult_mono) auto
  then have w: "w < 2 ^ 33" using assms(2) by (simp add: w_def)
  have ord: "((of_nat n :: u8) = 0x18) = (n = 0x18)" "((of_nat n :: u8) = 0x1a) = (n = 0x1a)"
    using n by (simp_all add: word_unat_eq_iff byte_unat)
  have bits: "(of_nat n :: u8) AND 0xc0 = 0x80" "(ucast ((of_nat n :: u8) AND 0x3f) :: u64) = of_nat (n mod 64)"
  proof -
    have "n div 64 = 2" using n by simp
    then show "(of_nat n :: u8) AND 0xc0 = 0x80" using n by (simp add: low_bits)
    show "(ucast ((of_nat n :: u8) AND 0x3f) :: u64) = of_nat (n mod 64)"
      using n by (simp only: low_bits) (rule ucast_byte, simp)
  qed
  have rem: "(of_nat (Suc k) :: u64) \<noteq> 0" "(of_nat (Suc k) - 1 :: u64) = of_nat k" "unat (6 * of_nat k :: u64) = 6 * k"
    "((of_nat k :: u64) = 1) = (k = 1)" "((of_nat k :: u64) = 2) = (k = 2)" "((of_nat k :: u64) = 0) = (k = 0)"
    using assms(1) by (auto simp: less_Suc_eq numeral_3_eq_3)
  have cp: "((of_nat w :: u64) < 0x800) = (w < 0x800)" "((of_nat w :: u64) < 0x10000) = (w < 0x10000)"
    "(0x10ffff < (of_nat w :: u64)) = (0x10ffff < w)" "(0xd800 \<le> (of_nat w :: u64)) = (0xd800 \<le> w)"
    "((of_nat w :: u64) \<le> 0xdfff) = (w \<le> 0xdfff)"
    using w by (simp_all add: word_less_nat_alt word_le_nat_alt unat_of_nat)
  have or: "(of_nat (m * 64 ^ Suc k) :: u64) OR push_bit (6 * k) (of_nat (n mod 64)) = of_nat w"
    unfolding w_def by (rule or_six_bits) simp
  have zero: "(decoding j v ctx)\<lparr>unicode_remaining := 0\<rparr> = decoding 0 v ctx" for j v by (simp add: decoding_def)
  have "continuation_byte (of_nat n) (decoding (Suc k) (m * 64 ^ Suc k) ctx) =
    (if k = 1 \<and> w < 0x800 then unicode_error (of_nat n) (decoding 0 w ctx)
     else if k = 2 \<and> w < 0x10000 then unicode_error (of_nat n) (decoding 0 w ctx)
     else if k = 2 \<and> 0x10ffff < w then unicode_error (of_nat n) (decoding 0 w ctx)
     else if k \<noteq> 0 then decoding k w ctx
     else if 0xd800 \<le> w \<and> w \<le> 0xdfff then unicode_error (of_nat n) (decoding 0 w ctx)
     else print_code_point (decoding 0 w ctx))"
    unfolding continuation_byte_def Let_def decoding_simps(1,2) rem(2,3) bits or decoding_simps(4) cp rem(4-6) zero
    by simp
  then show ?thesis
    using n d rem(1) by (auto simp: flanterm_putchar_def ord simp del: of_nat_Suc)
qed

text \<open>The steps of a valid code point.\<close>

lemma continuation_steps:
  assumes "r < 64" and "\<not> discard_next ctx" and "m * 64 ^ Suc k < 2 ^ 32" and w: "w = m * 64 ^ Suc k + r * 64 ^ k"
  shows "k = 0 \<Longrightarrow> \<not> (0xd800 \<le> w \<and> w \<le> 0xdfff) \<Longrightarrow>
      flanterm_putchar (of_nat (0x80 + r)) (decoding (Suc k) (m * 64 ^ Suc k) ctx) = print_code_point (decoding 0 w ctx)"
    and "k = 1 \<and> 0x800 \<le> w \<or> k = 2 \<and> 0x10000 \<le> w \<and> w \<le> 0x10ffff \<Longrightarrow>
      flanterm_putchar (of_nat (0x80 + r)) (decoding (Suc k) (m * 64 ^ Suc k) ctx) = decoding k w ctx"
proof -
  have r: "(0x80 + r) mod 64 = r" using assms(1) by (simp add: mod_add_left_eq [symmetric])
  note c = continuation [of k m "0x80 + r" ctx, OF _ assms(3) _ _ assms(2), unfolded r, folded w]
  show "flanterm_putchar (of_nat (0x80 + r)) (decoding (Suc k) (m * 64 ^ Suc k) ctx) = print_code_point (decoding 0 w ctx)"
    if "k = 0" "\<not> (0xd800 \<le> w \<and> w \<le> 0xdfff)"
    using that assms(1) by (subst c) auto
  show "flanterm_putchar (of_nat (0x80 + r)) (decoding (Suc k) (m * 64 ^ Suc k) ctx) = decoding k w ctx"
    if "k = 1 \<and> 0x800 \<le> w \<or> k = 2 \<and> 0x10000 \<le> w \<and> w \<le> 0x10ffff"
    using that assms(1) by (subst c) auto
qed

subsection \<open>A code point\<close>

text \<open>C24. Decoding undoes encoding: the UTF-8 bytes of a scalar value outside ASCII make the
  terminal print exactly that code point, in every state that is not inside another code point; so
  they do so even in the middle of an escape sequence or an OSC string.\<close>

theorem utf8_round_trip:
  assumes "scalar_value n" and "0x80 \<le> n" and "\<not> discard_next ctx" and "unicode_remaining ctx = 0"
  shows "fold flanterm_putchar (utf8 n) ctx =
    print_code_point (ctx\<lparr>g_select := 0, unicode_remaining := 0, code_point := of_nat n\<rparr>)"
proof -
  define a b c where "a = n div 64" and "b = a div 64" and "c = b div 64"
  have e: "n = a * 64 + n mod 64" "a = b * 64 + a mod 64" "b = c * 64 + b mod 64" by (simp_all add: a_def b_def c_def)
  have dv: "n div 64 ^ 2 = b" "n div 64 ^ 3 = c" by (simp_all add: a_def b_def c_def div_mult2_eq [symmetric])
  have "n \<le> 0x10ffff" "\<not> (0xd800 \<le> n \<and> n \<le> 0xdfff)" using assms(1) by (simp_all add: scalar_value_def)
  note n = this
  have up: "a \<le> 17407" "b \<le> 271" "c \<le> 4" using n(1) e by linarith+
  have lo: "0x800 \<le> n \<Longrightarrow> 32 \<le> a" "0x10000 \<le> n \<Longrightarrow> 16 \<le> b" by (simp_all add: a_def b_def)
  note two = numeral_2_eq_2 [symmetric]
  have last: "flanterm_putchar (of_nat (0x80 + n mod 64)) (decoding 1 (a * 64) ctx) = print_code_point (decoding 0 n ctx)"
    using continuation_steps(1) [of "n mod 64" ctx a 0 n] n assms(3) e(1) up by simp
  have middle: "flanterm_putchar (of_nat (0x80 + a mod 64)) (decoding 2 (b * 64 ^ 2) ctx) = decoding 1 (a * 64) ctx" if "0x800 \<le> n"
    using continuation_steps(2) [of "a mod 64" ctx b 1 "a * 64"] assms(3) e(2) up lo(1) [OF that] by (simp add: two)
  have first: "flanterm_putchar (of_nat (0x80 + b mod 64)) (decoding 3 (c * 64 ^ 3) ctx) = decoding 2 (b * 64 ^ 2) ctx" if "0x10000 \<le> n"
    using continuation_steps(2) [of "b mod 64" ctx c 2 "b * 64 ^ 2"] assms(3) e(3) up lo(2) [OF that] by (simp add: two)
  have "fold flanterm_putchar (utf8 n) ctx = print_code_point (decoding 0 n ctx)"
  proof -
    consider "n < 0x800" | "0x800 \<le> n" "n < 0x10000" | "0x10000 \<le> n" by linarith
    then show ?thesis
    proof cases
      case 1
      then have "2 \<le> a" "a < 32" using assms(2) by (auto simp: a_def)
      then have "flanterm_putchar (of_nat (0xc0 + a)) ctx = decoding 1 (a * 64) ctx"
        using lead_bytes(1) [OF assms(3,4), of "0xc0 + a"] by (simp add: mod_add_left_eq [symmetric])
      with 1 assms(2) last show ?thesis by (simp add: utf8_def a_def [symmetric] del: of_nat_add)
    next
      case 2
      then have "b < 16" by (auto simp: a_def b_def)
      then have "flanterm_putchar (of_nat (0xe0 + b)) ctx = decoding 2 (b * 64 ^ 2) ctx"
        using lead_bytes(2) [OF assms(3,4), of "0xe0 + b"] by (simp add: mod_add_left_eq [symmetric])
      with 2 last middle show ?thesis by (simp add: utf8_def dv [simplified] a_def [symmetric] del: of_nat_add)
    next
      case 3
      have "c < 5" using up by simp
      then have "flanterm_putchar (of_nat (0xf0 + c)) ctx = decoding 3 (c * 64 ^ 3) ctx"
        using lead_bytes(3) [OF assms(3,4), of "0xf0 + c"] by (simp add: mod_add_left_eq [symmetric])
      with 3 last middle first show ?thesis by (simp add: utf8_def dv [simplified] a_def [symmetric] del: of_nat_add)
    qed
  qed
  then show ?thesis by (simp add: decoding_def)
qed

lemma utf8_round_trip_witness:
  "fold flanterm_putchar [0xe2, 0x82, 0xac] tiny_screen =
     print_code_point (tiny_screen\<lparr>g_select := 0, unicode_remaining := 0, code_point := 0x20ac\<rparr>)"
proof -
  have "utf8 0x20ac = [0xe2, 0x82, 0xac]" by (simp add: utf8_def)
  moreover have "scalar_value 0x20ac" "\<not> discard_next tiny_screen" "unicode_remaining tiny_screen = 0"
    by (simp_all add: scalar_value_def tiny_screen_def)
  ultimately show ?thesis using utf8_round_trip [where n = "0x20ac" and ctx = tiny_screen] by simp
qed

end
