(* ===== verification/Terminal_Properties.thy ===== *)
theory Terminal_Properties
  imports Terminal_Invariant Utf8
begin

unbundle bit_operations_syntax

text \<open>
  Properties of the terminal: the invariant under every client, what the frame buffer shows, the
  UTF-8 decoder, and sequences that are aborted.
\<close>





subsection \<open>Aborted control sequences\<close>

text \<open>No sequence is open.\<close>

definition ground :: "'z fb_context_scheme \<Rightarrow> bool" where
  "ground ctx \<longleftrightarrow> \<not> discard_next ctx \<and> unicode_remaining ctx = 0 \<and> g_select ctx = 0 \<and> \<not> escape ctx \<and>
     \<not> osc ctx \<and> \<not> control_sequence ctx"

lemma csi_start:
  assumes "ground ctx"
  shows "fold flanterm_putchar [0x1b, 0x5b] ctx = ctx\<lparr>escape_offset := 1, escape := True, esc_values := replicate 16 0,
     esc_values_i := 0, rrr := False, csi_unhandled := False, control_sequence := True\<rparr>"
  using assms by (simp add: ground_def flanterm_putchar_def unicode_error_def ground_byte_def escape_parse_def
    escape_command_def flanterm_fb_get_cursor_pos_def FLANTERM_MAX_ESC_VALUES_def Let_def)

lemma csi_byte:
  assumes "escape ctx" "control_sequence ctx" "\<not> osc ctx" "\<not> discard_next ctx" "unicode_remaining ctx = 0" "c < 0x80" "c \<noteq> 0x18" "c \<noteq> 0x1a"
  shows "flanterm_putchar c ctx = control_sequence_parse c (ctx\<lparr>escape_offset := escape_offset ctx + 1\<rparr>)"
proof -
  have "\<not> 0xc2 \<le> c" using assms(6) by (simp add: word_le_nat_alt word_less_nat_alt)
  with assms show ?thesis by (simp add: flanterm_putchar_def unicode_error_def escape_parse_def Let_def)
qed

lemma csi_thirty_one:
  assumes "ground ctx"
  shows "fold flanterm_putchar [0x1b, 0x5b, 0x33, 0x31] ctx = ctx\<lparr>escape_offset := 3, escape := True, 
     esc_values := 31 # replicate 15 0,
     esc_values_i := 0, rrr := True, csi_unhandled := False, control_sequence := True\<rparr>"
proof -
  have "replicate 16 0 = 0 # replicate 15 (0 :: u32)" by (simp add: numeral_eq_Suc)
  then show ?thesis
  using csi_start [OF assms] assms
  by (simp add: ground_def csi_byte control_sequence_parse_def csi_digit_def FLANTERM_MAX_ESC_VALUES_def Let_def)
qed

lemma csi_red:
  assumes "ground ctx"
  shows "fold flanterm_putchar [0x1b, 0x5b, 0x33, 0x31, 0x6d] ctx =
    csi_final 0x6d (ctx\<lparr>escape := True, esc_values := 31 # replicate 15 0, csi_unhandled := False,
      control_sequence := True, escape_offset := 4, esc_values_i := 1, rrr := False\<rparr>)"
proof -
  have "fold flanterm_putchar [0x1b, 0x5b, 0x33, 0x31, 0x6d] ctx = flanterm_putchar 0x6d (fold flanterm_putchar [0x1b, 0x5b, 0x33, 0x31] ctx)"
    by simp
  then show ?thesis
    using assms unfolding csi_thirty_one [OF assms] by (simp add: ground_def csi_byte control_sequence_parse_def Let_def)
qed

lemma csi_private:
  assumes "ground ctx" "\<not> dec_private ctx"
  shows "fold flanterm_putchar [0x1b, 0x5b, 0x3f] ctx = ctx\<lparr>escape_offset := 2, escape := True, esc_values := replicate 16 0,
     esc_values_i := 0, rrr := False, dec_private := True, csi_unhandled := False, control_sequence := True\<rparr>"
proof -
  have "fold flanterm_putchar [0x1b, 0x5b, 0x3f] ctx = flanterm_putchar 0x3f (fold flanterm_putchar [0x1b, 0x5b] ctx)"
    by simp
  then show ?thesis
    using assms unfolding csi_start [OF assms(1)] by (simp add: ground_def csi_byte control_sequence_parse_def)
qed

text \<open>C39. A private control sequence that is aborted leaves the parser in the wrong state. After a
  cancelled one (CAN) the next control sequence is taken for a private one, so that a colour it
  sets is ignored; and ESC, which aborts an ordinary control sequence and starts an escape
  sequence, merely ends a private one, so that what follows is printed.\<close>

theorem cancelled_private_sequence:
  assumes g: "ground ctx" and p: "\<not> dec_private ctx" and a: "\<not> bold ctx" "\<not> bg_bold ctx" "\<not> reverse_video ctx"
  defines "red \<equiv> [0x1b, 0x5b, 0x33, 0x31, 0x6d]"
  shows "text_fg (fold flanterm_putchar red ctx) = ansi_colours ctx ! 1 \<and>
    text_fg (fold flanterm_putchar ([0x1b, 0x5b, 0x3f, 0x18] @ red) ctx) = text_fg ctx \<and>
    escape (fold flanterm_putchar [0x1b, 0x5b, 0x1b] ctx) \<and>
    ground (fold flanterm_putchar [0x1b, 0x5b, 0x3f, 0x1b] ctx)"
proof (intro conjI)
  show "text_fg (fold flanterm_putchar red ctx) = ansi_colours ctx ! 1"
    unfolding red_def csi_red [OF g] using p a g
    by (simp add: csi_final_def csi_defaults_def FLANTERM_MAX_ESC_VALUES_def csi_execute_def csi_command_def csi_cleanup_def
      flanterm_fb_get_cursor_pos_def sgr_def sgr_single_def sgr_set_fg_def flanterm_fb_set_text_fg_def Let_def ground_def)
  define s where "s = fold flanterm_putchar [0x1b, 0x5b, 0x3f, 0x18] ctx"
  have "s = flanterm_putchar 0x18 (fold flanterm_putchar [0x1b, 0x5b, 0x3f] ctx)" by (simp add: s_def)
  then have s: "ground s" "dec_private s" "text_fg s = text_fg ctx"
    unfolding csi_private [OF g p] using g by (simp_all add: flanterm_putchar_def cancel_sequence_def ground_def)
  have "text_fg (fold flanterm_putchar red s) = text_fg s"
    unfolding red_def csi_red [OF s(1)] using s(2)
    by (simp add: csi_final_def csi_defaults_def csi_cleanup_def dec_private_parse_def Let_def)
  then show "text_fg (fold flanterm_putchar ([0x1b, 0x5b, 0x3f, 0x18] @ red) ctx) = text_fg ctx"
    using s(3) by (simp add: s_def)
  have "fold flanterm_putchar [0x1b, 0x5b, 0x1b] ctx = flanterm_putchar 0x1b (fold flanterm_putchar [0x1b, 0x5b] ctx)" by simp
  then show "escape (fold flanterm_putchar [0x1b, 0x5b, 0x1b] ctx)"
    unfolding csi_start [OF g] using g p
    by (simp add: ground_def csi_byte control_sequence_parse_def csi_final_def csi_defaults_def csi_execute_def
      flanterm_fb_get_cursor_pos_def Let_def)
  have "fold flanterm_putchar [0x1b, 0x5b, 0x3f, 0x1b] ctx = flanterm_putchar 0x1b (fold flanterm_putchar [0x1b, 0x5b, 0x3f] ctx)" by simp
  then show "ground (fold flanterm_putchar [0x1b, 0x5b, 0x3f, 0x1b] ctx)"
    unfolding csi_private [OF g p] using g
    by (simp add: ground_def csi_byte control_sequence_parse_def csi_final_def csi_defaults_def dec_private_parse_def
      csi_cleanup_def Let_def)
qed

lemma cancelled_private_sequence_witness:
  "text_fg (fold flanterm_putchar [0x1b, 0x5b, 0x3f, 0x18, 0x1b, 0x5b, 0x33, 0x31, 0x6d] tiny_screen) = 7"
proof -
  have "ground tiny_screen" "\<not> dec_private tiny_screen" "\<not> bold tiny_screen" "\<not> bg_bold tiny_screen" "\<not> reverse_video tiny_screen"
    by (simp_all add: ground_def tiny_screen_def)
  from cancelled_private_sequence [OF this] show ?thesis by (simp add: tiny_screen_def)
qed

end
