(* ===== verification/Console.thy ===== *)
theory Console
  imports Terminal_Properties Printk
begin

unbundle bit_operations_syntax

text \<open>
  The log on the terminal: \<open>print_char\<close> of \<open>printk.c\<close> writes one byte to the terminal, which the
  model of the log collects in \<open>console\<close>; here these characters are given to the terminal.
\<close>

definition show_char :: "char \<Rightarrow> 'z fb_context_scheme \<Rightarrow> 'z fb_context_scheme" where
  "show_char c ctx = flanterm_write [of_nat (of_char c)] ctx"

definition show_console :: "string \<Rightarrow> 'z fb_context_scheme \<Rightarrow> 'z fb_context_scheme" where
  "show_console = fold show_char"

definition printable :: "char \<Rightarrow> bool" where
  "printable c \<longleftrightarrow> 0x20 \<le> (of_char c :: nat) \<and> (of_char c :: nat) \<le> 0x7e"

text \<open>A terminal that takes plain text.\<close>

definition plain :: "'z fb_context_scheme \<Rightarrow> bool" where
  "plain ctx \<longleftrightarrow> terminal_ok ctx \<and> ground ctx \<and> \<not> insert_mode ctx \<and>
     charsets ctx ! unat (current_charset ctx) = CHARSET_DEFAULT"

definition glyph :: "char \<Rightarrow> 'z fb_context_scheme \<Rightarrow> fb_char" where
  "glyph c ctx = \<lparr>fc_c = of_nat (of_char c), fc_fg = text_fg ctx, fc_bg = text_bg ctx\<rparr>"

text \<open>What printing a character does not change.\<close>

definition same_text :: "'z fb_context_scheme \<Rightarrow> 'z fb_context_scheme \<Rightarrow> bool" where
  "same_text s t \<longleftrightarrow> rows t = rows s \<and> cols t = cols s \<and> cells t = cells s \<and> cursor_y t = cursor_y s \<and>
     text_fg t = text_fg s \<and> text_bg t = text_bg s"

lemma putchar_printable:
  assumes "plain ctx" and "printable c" and "cursor_x ctx < cols ctx"
  shows "flanterm_putchar (of_nat (of_char c)) ctx = push_to_queue (glyph c ctx) (cursor_x ctx) (cursor_y ctx)
    (ctx\<lparr>last_printed_char := of_nat (of_char c), last_was_graphic := True, cursor_x := cursor_x ctx + 1\<rparr>)"
proof -
  define b where "b = (of_nat (of_char c) :: u8)"
  have u: "unat b = of_char c" using assms(2) by (simp add: b_def printable_def unat_of_nat)
  have "0x20 \<le> b" "b \<le> 0x7e" "\<not> b \<le> 0x1f" "b \<noteq> 0x1b" "b \<noteq> 0x7f" "b \<noteq> 0" "\<not> b < 0x20" "\<not> 0xc2 \<le> b" "b \<noteq> 0x18" "b \<noteq> 0x1a"
    using assms(2) by (auto simp: word_le_nat_alt word_less_nat_alt word_unat_eq_iff u printable_def)
  moreover have "(ucast b :: u32) = of_nat (of_char c)"
    using assms(2) by (simp add: word_unat_eq_iff unsigned_ucast_eq u printable_def unat_of_nat take_bit_nat_eq_self)
  moreover have "\<not> cols ctx \<le> cursor_x ctx" using assms(3) by simp
  moreover have "CHARSET_DEFAULT \<noteq> CHARSET_DEC_SPECIAL" by (simp add: CHARSET_DEFAULT_def CHARSET_DEC_SPECIAL_def)
  ultimately show ?thesis
    using assms(1,3) unfolding b_def [symmetric]
    by (simp add: plain_def ground_def flanterm_putchar_def unicode_error_def ground_byte_def print_byte_def insert_shift_def
      print_graphic_def flanterm_fb_raw_putchar_def glyph_def Let_def)
qed

lemma only_flushed_text:
  assumes "only_flushed s t"
  shows "rows t = rows s" "cols t = cols s" "cells t = cells s" "cursor_x t = cursor_x s" "cursor_y t = cursor_y s"
    "text_fg t = text_fg s" "text_bg t = text_bg s" "ground t = ground s" "insert_mode t = insert_mode s"
    "charsets t = charsets s" "current_charset t = current_charset s"
  by (subst assms [unfolded only_flushed_def], simp add: cells_def ground_def)+

lemma show_char_plain:
  assumes p: "plain ctx" and c: "printable c" and x: "cursor_x ctx < cols ctx" and t: "t = show_char c ctx"
  shows "plain t" "same_text ctx t" "cursor_x t = cursor_x ctx + 1"
    "\<And>j. j < cells ctx \<Longrightarrow> char_at j t = (if j = cell_of ctx (cursor_x ctx) (cursor_y ctx) then glyph c ctx else char_at j ctx)"
proof -
  have ok: "terminal_ok ctx" using p by (simp add: plain_def)
  define s where "s = ctx\<lparr>last_printed_char := of_nat (of_char c), last_was_graphic := True, cursor_x := cursor_x ctx + 1\<rparr>"
  define u where "u = push_to_queue (glyph c ctx) (cursor_x ctx) (cursor_y ctx) s"
  have pc: "flanterm_putchar (of_nat (of_char c)) ctx = u" unfolding u_def s_def by (rule putchar_printable [OF p c x])
  have s: "queue_ok s" "cells s = cells ctx" "\<And>j. char_at j s = char_at j ctx" "cols s = cols ctx" "rows s = rows ctx"
    using terminal_okD(1) [OF ok] by (simp_all add: s_def cells_def queue_ok_def screen_sized_def item_cell_def char_at_def cong: option.case_cong)
  have y: "cursor_y ctx < rows ctx" using terminal_okD(8) [OF ok] .
  have pu: "queue_ok u" "\<forall>j < cells ctx. char_at j u = (if j = cell_of ctx (cursor_x ctx) (cursor_y ctx) then glyph c ctx else char_at j ctx)"
    using push_ok [OF s(1), of "cursor_x ctx" "cursor_y ctx", OF _ _ u_def refl] x y by (simp_all add: s cell_of_def)
  have q: "only_queue s u" by (simp add: u_def)
  then obtain qu n m where um: "u = s\<lparr>queue := qu, queue_i := n, fb_map := m\<rparr>" by (auto simp: only_queue_def)
  have uok: "terminal_ok u" using putchar_keeps [OF ok] pc by metis
  have up: "plain u" "same_text ctx u" "cursor_x u = cursor_x ctx + 1"
    using p uok by (simp_all add: plain_def ground_def same_text_def um s_def cells_def)
  have "plain t \<and> same_text u t \<and> cursor_x t = cursor_x u \<and> (\<forall>j < cells u. char_at j t = char_at j u)"
  proof (cases "autoflush u")
    case False
    then show ?thesis using up(1) by (simp add: t show_char_def flanterm_write_def pc Let_def same_text_def)
  next
    case True
    have d: "fb_geometry u" "displayed u" using uok by (simp_all add: terminal_ok_def screen_ok_def)
    have tf: "t = flanterm_fb_double_buffer_flush u" using True by (simp add: t show_char_def flanterm_write_def pc Let_def)
    note r = flush_result [OF d(1) pu(1) d(2) tf]
    have "terminal_ok t" unfolding tf by (rule flush_keeps [OF uok])
    with r up(1) show ?thesis by (simp add: plain_def same_text_def only_flushed_text [OF conjunct1 [OF r]])
  qed
  moreover have "cells u = cells ctx" using up(2) by (simp add: same_text_def)
  ultimately show "plain t" "same_text ctx t" "cursor_x t = cursor_x ctx + 1"
    "\<And>j. j < cells ctx \<Longrightarrow> char_at j t = (if j = cell_of ctx (cursor_x ctx) (cursor_y ctx) then glyph c ctx else char_at j ctx)"
    using up(2,3) pu(2) by (simp_all add: same_text_def)
qed

text \<open>Printable characters go to consecutive cells of the line of the cursor.\<close>

lemma show_console_cells:
  assumes "plain ctx" and "\<forall>c \<in> set cs. printable c" and "unat (cursor_x ctx) + length cs \<le> unat (cols ctx)"
    and "t = show_console cs ctx"
  shows "plain t \<and> same_text ctx t \<and> unat (cursor_x t) = unat (cursor_x ctx) + length cs \<and>
    (\<forall>j < cells ctx. char_at j t =
      (if cell_of ctx (cursor_x ctx) (cursor_y ctx) \<le> j \<and> j < cell_of ctx (cursor_x ctx) (cursor_y ctx) + length cs
       then glyph (cs ! (j - cell_of ctx (cursor_x ctx) (cursor_y ctx))) ctx else char_at j ctx))"
  using assms
proof (induction cs arbitrary: ctx)
  case Nil
  then show ?case by (auto simp: show_console_def same_text_def)
next
  case (Cons c cs)
  have x: "cursor_x ctx < cols ctx" using Cons(4) by (simp add: word_less_nat_alt)
  define s where "s = show_char c ctx"
  have pc: "printable c" using Cons(3) by simp
  note one = show_char_plain [OF Cons(2) pc x s_def]
  note st = one(2) [unfolded same_text_def]
  have ux: "unat (cursor_x s) = unat (cursor_x ctx) + 1"
    using x unat_64 [of "cols ctx"] by (simp add: one(3) word_less_nat_alt unat_word_ariths)
  define i where "i = cell_of ctx (cursor_x ctx) (cursor_y ctx)"
  have i': "cell_of s (cursor_x s) (cursor_y s) = i + 1" using st ux by (simp add: cell_of_def i_def)
  have g: "glyph d s = glyph d ctx" for d using st by (simp add: glyph_def)
  have "plain t \<and> same_text s t \<and> unat (cursor_x t) = unat (cursor_x s) + length cs \<and>
    (\<forall>j < cells s. char_at j t = (if i + 1 \<le> j \<and> j < i + 1 + length cs then glyph (cs ! (j - (i + 1))) s else char_at j s))"
    using Cons(1) [OF one(1), unfolded i'] Cons(3-5) st ux by (simp add: s_def show_console_def)
  moreover have "char_at j s = (if j = i then glyph c ctx else char_at j ctx)" if "j < cells ctx" for j
    using one(4) [OF that] by (simp add: i_def)
  moreover have "cells s = cells ctx" using st by blast
  ultimately show ?case
    using st ux unfolding i_def [symmetric] g same_text_def
    by (auto simp: nth_Cons' Suc_le_eq)
qed

text \<open>The lines of the screen after a message.\<close>

lemma show_console_lines:
  assumes "plain ctx" and "\<forall>c \<in> set cs. printable c" and "unat (cursor_x ctx) + length cs \<le> unat (cols ctx)"
    and t: "t = show_console cs ctx" and r: "r < unat (rows ctx)" and c: "k < unat (cols ctx)"
  shows "screen_lines t ! r ! k =
      (if r = unat (cursor_y ctx) \<and> unat (cursor_x ctx) \<le> k \<and> k < unat (cursor_x ctx) + length cs
       then glyph (cs ! (k - unat (cursor_x ctx))) ctx else screen_lines ctx ! r ! k)"
proof -
  define i where "i = cell_of ctx (cursor_x ctx) (cursor_y ctx)"
  note m = show_console_cells [OF assms(1-4), folded i_def]
  then have st: "rows t = rows ctx" "cols t = cols ctx" "cursor_y t = cursor_y ctx"
    by (simp_all add: same_text_def)
  have j: "r * unat (cols ctx) + k < cells ctx" using r c cell_below by (simp add: cells_def)
  have line: "i \<le> r * unat (cols ctx) + k \<and> r * unat (cols ctx) + k < i + length cs \<longleftrightarrow>
      r = unat (cursor_y ctx) \<and> unat (cursor_x ctx) \<le> k \<and> k < unat (cursor_x ctx) + length cs"
  proof -
    define Y X C where "Y = unat (cursor_y ctx)" and "X = unat (cursor_x ctx)" and "C = unat (cols ctx)"
    note li = line_index(1,2) [OF c, folded C_def]
    have "r = Y" if "Y * C + X \<le> r * C + k" "r * C + k < Y * C + X + length cs"
    proof -
      have "Y * C \<le> r * C + k" "r * C + k < Suc Y * C" using that assms(3) by (simp_all add: X_def C_def)
      then show ?thesis using li [of Y r] li [of "Suc Y" r] by simp
    qed
    then show ?thesis unfolding i_def cell_of_def Y_def [symmetric] X_def [symmetric] C_def [symmetric] by auto
  qed
  have d: "r = unat (cursor_y ctx) \<Longrightarrow> r * unat (cols ctx) + k - i = k - unat (cursor_x ctx)" by (simp add: i_def cell_of_def)
  have "char_at (r * unat (cols ctx) + k) t = (if r = unat (cursor_y ctx) \<and> unat (cursor_x ctx) \<le> k \<and> k < unat (cursor_x ctx) + length cs
      then glyph (cs ! (k - unat (cursor_x ctx))) ctx else char_at (r * unat (cols ctx) + k) ctx)"
    using m j line d by auto
  then show ?thesis using m r c st by (simp add: screen_line_def)
qed

text \<open>A message of printable characters that fits the line of the cursor appears there: each
  character of what the log prints takes its cell in the current colours, the rest of the screen
  is kept and the cursor stands behind the message, with or without a flush after each byte.\<close>

theorem message_appears:
  assumes "plain ctx" and "\<forall>c \<in> set cs. printable c" and "unat (cursor_x ctx) + length cs \<le> unat (cols ctx)"
    and t: "t = show_console cs ctx" and r: "r < unat (rows ctx)" and c: "k < unat (cols ctx)"
  shows "screen_lines t ! r ! k =
      (if r = unat (cursor_y ctx) \<and> unat (cursor_x ctx) \<le> k \<and> k < unat (cursor_x ctx) + length cs
       then glyph (cs ! (k - unat (cursor_x ctx))) ctx else screen_lines ctx ! r ! k) \<and>
    unat (cursor_x t) = unat (cursor_x ctx) + length cs \<and> cursor_y t = cursor_y ctx \<and> terminal_ok t"
  using show_console_lines [OF assms] show_console_cells [OF assms(1-4)] by (simp add: same_text_def plain_def)

lemma message_appears_witness:
  "fc_c (screen_lines (show_console ''Hi'' tiny_screen) ! 0 ! 1) = 0x69 \<and> cursor_y (show_console ''Hi'' tiny_screen) = 0"
proof -
  have f: "rows tiny_screen = 2" "cols tiny_screen = 2" "cursor_x tiny_screen = 0" "cursor_y tiny_screen = 0"
    by (simp_all add: tiny_screen_def)
  have "plain tiny_screen"
    using tiny_terminal_ok by (simp add: plain_def ground_def) (simp add: tiny_screen_def CHARSET_DEFAULT_def)
  moreover have "\<forall>c \<in> set ''Hi''. printable c" by (simp add: printable_def)
  ultimately show ?thesis
    using message_appears [of tiny_screen "''Hi''" _ 0 1, OF _ _ _ refl] by (simp add: f glyph_def)
qed

end
