(* ===== verification/Boot_Screen.thy ===== *)
theory Boot_Screen
  imports Screen_Init Console
begin

unbundle bit_operations_syntax

text \<open>
  From the boot loader's frame buffer to the pixels of a message: \<open>printk_init\<close>, the log, the
  terminal, its back end and the frame buffer together.
\<close>

text \<open>Every cell shows its character of the screen, as it does after a flush.\<close>

definition up_to_date :: "'z fb_context_scheme \<Rightarrow> bool" where
  "up_to_date ctx \<longleftrightarrow> (\<forall>x < cols ctx. \<forall>y < rows ctx. let c = screen_lines ctx ! unat y ! unat x in
     shows_char ctx x y (if cursor_drawn ctx \<and> (x, y) = (cursor_x ctx, cursor_y ctx) then swapped c else c))"

lemma only_flushed_cursor:
  assumes "only_flushed s t"
  shows "cursor_drawn t = cursor_drawn s" "autoflush t = autoflush s"
  by (subst assms [unfolded only_flushed_def], simp add: cursor_drawn_def)+

lemma show_char_up_to_date:
  assumes "plain ctx" and "printable c" and "cursor_x ctx < cols ctx" and "autoflush ctx"
  shows "up_to_date (show_char c ctx) \<and> autoflush (show_char c ctx)"
proof -
  define u where "u = flanterm_putchar (of_nat (of_char c)) ctx"
  have ok: "terminal_ok u" unfolding u_def using assms(1) by (intro putchar_keeps) (simp add: plain_def)
  have "only_queue (ctx\<lparr>last_printed_char := of_nat (of_char c), last_was_graphic := True, cursor_x := cursor_x ctx + 1\<rparr>) u"
    unfolding u_def putchar_printable [OF assms(1-3)] by simp
  then have af: "autoflush u" using assms(4) by (auto simp: only_queue_def dest!: arg_cong [where f = autoflush])
  have d: "fb_geometry u" "queue_ok u" "displayed u" using ok by (simp_all add: terminal_ok_def screen_ok_def)
  define t where "t = flanterm_fb_double_buffer_flush u"
  have t: "show_char c ctx = t" using af by (simp add: show_char_def flanterm_write_def Let_def u_def t_def)
  note r = flush_result [OF d t_def]
  note f = only_flushed_text [OF conjunct1 [OF r]] only_flushed_cursor [OF conjunct1 [OF r]]
  have "up_to_date t" using r unfolding up_to_date_def f by simp
  then show ?thesis using af by (simp add: t f)
qed

lemma show_console_up_to_date:
  assumes "plain ctx" and "\<forall>c \<in> set cs. printable c" and "unat (cursor_x ctx) + length cs \<le> unat (cols ctx)"
    and "autoflush ctx" and "cs \<noteq> []"
  shows "up_to_date (show_console cs ctx)"
proof -
  have "plain (show_console ds ctx) \<and> autoflush (show_console ds ctx)"
    if "\<forall>c \<in> set ds. printable c" "unat (cursor_x ctx) + length ds \<le> unat (cols ctx)" for ds
    using that
  proof (induction ds rule: rev_induct)
    case (snoc d ds)
    then have m: "plain (show_console ds ctx)" "autoflush (show_console ds ctx)" by simp_all
    have "unat (cursor_x (show_console ds ctx)) = unat (cursor_x ctx) + length ds" "cols (show_console ds ctx) = cols ctx"
      using show_console_cells [OF assms(1) _ _ refl, of ds] snoc(2,3) by (simp_all add: same_text_def)
    then have x: "cursor_x (show_console ds ctx) < cols (show_console ds ctx)" using snoc(3) by (simp add: word_less_nat_alt)
    have "printable d" using snoc(2) by simp
    with show_char_up_to_date [OF m(1) _ x m(2)] show_char_plain(1) [OF m(1) _ x refl] show ?case
      by (simp add: show_console_def)
  qed (simp add: show_console_def assms(1,4))
  moreover obtain ds d where cs: "cs = ds @ [d]" using assms(5) rev_exhaust by blast
  ultimately have m: "plain (show_console ds ctx)" "autoflush (show_console ds ctx)" using assms(2,3) by simp_all
  have "unat (cursor_x (show_console ds ctx)) = unat (cursor_x ctx) + length ds" "cols (show_console ds ctx) = cols ctx"
    using show_console_cells [OF assms(1) _ _ refl, of ds] assms(2,3) cs by (simp_all add: same_text_def)
  then have x: "cursor_x (show_console ds ctx) < cols (show_console ds ctx)" using assms(3) cs by (simp add: word_less_nat_alt)
  then show ?thesis using show_char_up_to_date [OF m(1) _ x m(2), of d] assms(2) by (simp add: cs show_console_def)
qed

text \<open>The terminal \<open>printk_init\<close> makes is ready for text.\<close>

lemma fb_finish_plain:
  assumes fb: "usable_screen fb"
  and ctx: "ctx = fb_finish (fb_prepare (kernel_args fb) px)"
  shows "plain ctx" "autoflush ctx" "cursor_x ctx = 0" "cursor_y ctx = 0" "text_bg ctx = 0xffffffff"
    "cols ctx = screen_width fb div (9 * screen_scale fb)"
proof -
  define s where "s = fb_prepare (kernel_args fb) px"
  obtain q where q: "ctx = (fb_start s)\<lparr>pixels := q\<rparr>" using fb_finish_pixels [OF fb s_def] by (auto simp: ctx s_def)
  have ok: "terminal_ok ctx" using fb_finish_ok [OF fb s_def] by (simp add: ctx s_def)
  note f = prepared_fields [OF s_def]
  have "ground ctx" "\<not> insert_mode ctx" "charsets ctx = [CHARSET_DEFAULT, CHARSET_DEC_SPECIAL]" "current_charset ctx = 0"
    by (simp_all add: q ground_def fb_start_def flanterm_context_reinit_def set_grid_def Let_def)
  with ok show "plain ctx" by (simp add: plain_def)
  show "autoflush ctx" "cursor_x ctx = 0" "cursor_y ctx = 0" "text_bg ctx = 0xffffffff"
    "cols ctx = screen_width fb div (9 * screen_scale fb)"
    by (simp_all add: q f) (simp_all add: fb_start_def flanterm_context_reinit_def set_grid_def Let_def f)
qed

text \<open>The first message the kernel logs is on the screen, pixel for pixel: after \<open>printk_init\<close> on
  a usable frame buffer a printable message that fits a line stands in the first line of the frame
  buffer, and every other cell, but for the cursor behind the message, is drawn blank.\<close>

theorem first_message_displayed:
  assumes fb: "usable_screen fb" and b: "b = \<lparr>bump_alloc_ptr = 0, bump_alloc_base_offset_added = False, bump_allocated_instance = False\<rparr>"
    and cs: "\<forall>c \<in> set cs. printable c" "cs \<noteq> []" "length cs \<le> unat (screen_width fb div (9 * screen_scale fb))"
  shows "\<exists>ctx b'. printk_init pool (Some (fb # fbs)) px b = kret (Some ctx) b' \<and>
    cols ctx = screen_width fb div (9 * screen_scale fb) \<and> 0 < rows ctx \<and>
    (\<forall>x < cols ctx. \<forall>y < rows ctx. (unat x, y) \<noteq> (length cs, 0) \<longrightarrow> shows_char (show_console cs ctx) x y
      (if y = 0 \<and> unat x < length cs then glyph (cs ! unat x) ctx else \<lparr>fc_c = 0x20, fc_fg = default_fg ctx, fc_bg = 0xffffffff\<rparr>))"
proof -
  define ctx t where "ctx = fb_finish (fb_prepare (kernel_args fb) px)" and "t = show_console cs ctx"
  note p = fb_finish_plain [OF fb ctx_def]
  have blank: "screen_lines ctx = blank_screen ctx" using fb_finish_ok [OF fb refl] by (simp add: ctx_def)
  have fit: "unat (cursor_x ctx) + length cs \<le> unat (cols ctx)" using cs(3) p(3,6) by simp
  note m = show_console_cells [OF p(1) cs(1) fit t_def]
  have up: "up_to_date t" unfolding t_def by (rule show_console_up_to_date [OF p(1) cs(1) fit p(2) cs(2)])
  have "shows_char t x y (if y = 0 \<and> unat x < length cs then glyph (cs ! unat x) ctx
      else \<lparr>fc_c = 0x20, fc_fg = default_fg ctx, fc_bg = 0xffffffff\<rparr>)"
    if xy: "x < cols ctx" "y < rows ctx" "(unat x, y) \<noteq> (length cs, 0)" for x y
  proof -
    have st: "rows t = rows ctx" "cols t = cols ctx" "cells t = cells ctx" "cursor_y t = 0" "unat (cursor_x t) = length cs"
      using m p(3,4) by (simp_all add: same_text_def)
    have "shows_char t x y (if cursor_drawn t \<and> (x, y) = (cursor_x t, cursor_y t)
        then swapped (screen_lines t ! unat y ! unat x) else screen_lines t ! unat y ! unat x)"
      using up xy(1,2) st(1,2) unfolding up_to_date_def by (simp add: Let_def)
    moreover have "\<not> (cursor_drawn t \<and> (x, y) = (cursor_x t, cursor_y t))" using xy(3) st(4,5) by auto
    ultimately have "shows_char t x y (screen_lines t ! unat y ! unat x)" by (simp only: if_False)
    then have s: "shows_char t x y c" if "screen_lines t ! unat y ! unat x = c" for c using that by simp
    have b: "screen_lines ctx ! unat y ! unat x = \<lparr>fc_c = 0x20, fc_fg = default_fg ctx, fc_bg = 0xffffffff\<rparr>"
      using xy by (simp add: blank blank_screen_def word_less_nat_alt)
    have "screen_lines t ! unat y ! unat x =
        (if y = 0 \<and> unat x < length cs then glyph (cs ! unat x) ctx else screen_lines ctx ! unat y ! unat x)"
      using show_console_lines [OF p(1) cs(1) fit t_def, of "unat y" "unat x"] xy(1,2) p(3,4)
      by (simp add: word_less_nat_alt unat_eq_0)
    then show ?thesis unfolding b by (rule s)
  qed
  note cells = this
  have "0 < rows ctx" using terminal_okD(8) [of ctx] p(1) by (auto simp: plain_def word_gt_0)
  moreover obtain b' where "printk_init pool (Some (fb # fbs)) px b = kret (Some ctx) b'"
    using printk_init_context [OF fb b, of pool fbs px] unfolding ctx_def [symmetric] by (elim exE conjE)
  ultimately show ?thesis
    by (intro exI [of _ ctx] exI [of _ b'] conjI allI impI p(6)) (simp_all only: flip: t_def, rule cells)
qed

lemma first_message_displayed_witness:
  "\<exists>ctx b'. printk_init 0x1008 (Some [example_screen]) (\<lambda>_. 0)
      \<lparr>bump_alloc_ptr = 0, bump_alloc_base_offset_added = False, bump_allocated_instance = False\<rparr> = kret (Some ctx) b' \<and>
    shows_char (show_console ''Hi'' ctx) 1 0 (glyph (CHR ''i'') ctx)"
proof -
  have c: "screen_width example_screen div (9 * screen_scale example_screen) = 142"
    by (simp add: example_screen_def screen_width_def screen_scale_def fb_scale_def kernel_args_def Let_def)
  have "\<forall>c \<in> set ''Hi''. printable c" "''Hi'' \<noteq> []" by (simp_all add: printable_def)
  moreover have "length ''Hi'' \<le> unat (screen_width example_screen div (9 * screen_scale example_screen))"
    unfolding c by simp
  ultimately obtain ctx b' where m: "printk_init 0x1008 (Some [example_screen]) (\<lambda>_. 0)
      \<lparr>bump_alloc_ptr = 0, bump_alloc_base_offset_added = False, bump_allocated_instance = False\<rparr> = kret (Some ctx) b'"
    "cols ctx = 142" "0 < rows ctx"
    "\<forall>x < cols ctx. \<forall>y < rows ctx. (unat x, y) \<noteq> (length ''Hi'', 0) \<longrightarrow> shows_char (show_console ''Hi'' ctx) x y
      (if y = 0 \<and> unat x < length ''Hi'' then glyph (''Hi'' ! unat x) ctx
       else \<lparr>fc_c = 0x20, fc_fg = default_fg ctx, fc_bg = 0xffffffff\<rparr>)"
    using first_message_displayed [OF example_screen_usable refl, where cs = "''Hi''" and pool = "0x1008" and fbs = "[]" and px = "\<lambda>_. 0"]
    unfolding c by blast
  from m(4) [rule_format, of 1 0] m(2,3) have "shows_char (show_console ''Hi'' ctx) 1 0 (glyph (CHR ''i'') ctx)"
    by simp
  then show ?thesis using m(1) by blast
qed

end
