(* ===== verification/Log_Display.thy ===== *)
theory Log_Display
  imports Boot_Screen
begin

unbundle bit_operations_syntax

text \<open>
  The lines of the log on the screen. A line of \<open>printk_level\<close> is a carriage return, a control
  sequence that sets the colour of the level, the prefix, a control sequence that resets the
  colour, the message and a line feed; the terminal flushes after each byte. Its effect is that of
  an operation on a list of lines.
\<close>

subsection \<open>Bytes that control the terminal\<close>

lemma screen_lines_cong:
  assumes "rows t = rows s" "cols t = cols s" "grid t = grid s" "queue t = queue s" "fb_map t = fb_map s"
  shows "screen_lines t = screen_lines s"
  using assms by (simp add: screen_lines_def screen_line_def char_at_def cong: option.case_cong)

definition flushed :: "'z fb_context_scheme \<Rightarrow> 'z fb_context_scheme \<Rightarrow> bool" where
  "flushed s t \<longleftrightarrow> (\<exists>p g m f a b. t = s\<lparr>pixels := p, grid := g, fb_map := m, old_cursor_x := a, old_cursor_y := b,
     queue_i := 0, flushes := f\<rparr>)"

lemma flushedE:
  assumes "flushed s t"
  obtains p g m f a b where "t = s\<lparr>pixels := p, grid := g, fb_map := m, old_cursor_x := a, old_cursor_y := b,
    queue_i := 0, flushes := f\<rparr>"
  using assms unfolding flushed_def by (elim exE)

lemma flushedI:
  "t = s\<lparr>pixels := p, grid := g, fb_map := m, old_cursor_x := a, old_cursor_y := b, queue_i := 0, flushes := f\<rparr> \<Longrightarrow> flushed s t"
  unfolding flushed_def by (intro exI)

lemma show_control:
  assumes ok: "terminal_ok ctx" and u: "flanterm_putchar (of_nat (of_char c)) ctx = u" and a: "autoflush u"
  shows "flushed u (show_char c ctx)" "terminal_ok (show_char c ctx)" "screen_lines (show_char c ctx) = screen_lines u"
    "up_to_date (show_char c ctx)"
proof -
  have uok: "terminal_ok u" using putchar_keeps [OF ok] u by metis
  have d: "fb_geometry u" "queue_ok u" "displayed u" using uok by (simp_all add: terminal_ok_def screen_ok_def)
  define t where "t = flanterm_fb_double_buffer_flush u"
  have t: "show_char c ctx = t" using a by (simp add: show_char_def flanterm_write_def Let_def u t_def)
  note r = flush_result [OF d t_def]
  note f = only_flushed_text [OF conjunct1 [OF r]] only_flushed_cursor [OF conjunct1 [OF r]]
  show "up_to_date (show_char c ctx)" using r unfolding t up_to_date_def f by simp
  show "terminal_ok (show_char c ctx)" unfolding t t_def by (rule flush_keeps [OF uok])
  show "screen_lines (show_char c ctx) = screen_lines u" using r by (simp add: t)
  show "flushed u (show_char c ctx)" using conjunct1 [OF r, unfolded only_flushed_def] unfolding t flushed_def by blast
qed

text \<open>A terminal between two characters of the log.\<close>

definition log_ready :: "'z fb_context_scheme \<Rightarrow> bool" where
  "log_ready ctx \<longleftrightarrow> plain ctx \<and> autoflush ctx \<and> \<not> reverse_video ctx \<and> \<not> bold ctx \<and> \<not> bg_bold ctx \<and> \<not> dec_private ctx \<and>
     scroll_top_margin ctx = 0 \<and> scroll_bottom_margin ctx = rows ctx \<and> text_bg ctx = 0xffffffff"

definition same_setup :: "'z fb_context_scheme \<Rightarrow> 'z fb_context_scheme \<Rightarrow> bool" where
  "same_setup s t \<longleftrightarrow> rows t = rows s \<and> cols t = cols s \<and> default_fg t = default_fg s \<and> ansi_colours t = ansi_colours s"

lemma same_setup_trans: "same_setup s t \<Longrightarrow> same_setup t u \<Longrightarrow> same_setup s u"
  by (simp add: same_setup_def)

subsection \<open>Colours\<close>

text \<open>Inside a control sequence.\<close>

definition in_csi :: "u64 \<Rightarrow> u32 \<Rightarrow> bool \<Rightarrow> 'z fb_context_scheme \<Rightarrow> 'z fb_context_scheme \<Rightarrow> bool" where
  "in_csi off v r ctx t \<longleftrightarrow> terminal_ok t \<and> screen_lines t = screen_lines ctx \<and>
     flushed (ctx\<lparr>escape_offset := off, escape := True, esc_values := v # replicate 15 0, esc_values_i := 0, rrr := r,
       csi_unhandled := False, control_sequence := True\<rparr>) t"

lemma show_csi_start:
  assumes "log_ready ctx"
  shows "in_csi 1 0 False ctx (show_char CHR ''['' (show_char esc_char ctx))"
proof -
  have r: "terminal_ok ctx" "ground ctx" "autoflush ctx" using assms by (simp_all add: log_ready_def plain_def)
  define u where "u = ctx\<lparr>escape_offset := 0, escape := True\<rparr>"
  have "flanterm_putchar (of_nat (of_char esc_char)) ctx = u" using r(2)
    by (simp add: u_def ground_def flanterm_putchar_def unicode_error_def ground_byte_def)
  moreover have "autoflush u" using r(3) by (simp add: u_def)
  ultimately have "flushed u (show_char esc_char ctx)" and 1: "terminal_ok (show_char esc_char ctx)"
    "screen_lines (show_char esc_char ctx) = screen_lines u"
    by (rule show_control [OF r(1)])+
  then obtain p g m f a b where t: "show_char esc_char ctx = u\<lparr>pixels := p, grid := g, fb_map := m, old_cursor_x := a,
      old_cursor_y := b, queue_i := 0, flushes := f\<rparr>"
    by (elim flushedE)
  define w where "w = (show_char esc_char ctx)\<lparr>escape_offset := 1, esc_values := replicate 16 0, esc_values_i := 0, rrr := False,
     csi_unhandled := False, control_sequence := True\<rparr>"
  have "flanterm_putchar (of_nat (of_char CHR ''['')) (show_char esc_char ctx) = w" using r(2)
    by (simp add: w_def t u_def ground_def flanterm_putchar_def unicode_error_def escape_parse_def escape_command_def
      flanterm_fb_get_cursor_pos_def FLANTERM_MAX_ESC_VALUES_def Let_def)
  moreover have "autoflush w" using r(3) by (simp add: w_def t u_def)
  ultimately have "flushed w (show_char CHR ''['' (show_char esc_char ctx))"
    and 2: "terminal_ok (show_char CHR ''['' (show_char esc_char ctx))"
    "screen_lines (show_char CHR ''['' (show_char esc_char ctx)) = screen_lines w"
    by (rule show_control [OF 1(1)])+
  then obtain p' g' m' f' a' b' where "show_char CHR ''['' (show_char esc_char ctx) = w\<lparr>pixels := p', grid := g',
      fb_map := m', old_cursor_x := a', old_cursor_y := b', queue_i := 0, flushes := f'\<rparr>"
    by (elim flushedE)
  moreover have "replicate 16 0 = 0 # replicate 15 (0 :: u32)" by (simp add: numeral_eq_Suc)
  ultimately have "flushed (ctx\<lparr>escape_offset := 1, escape := True, esc_values := 0 # replicate 15 0, esc_values_i := 0,
      rrr := False, csi_unhandled := False, control_sequence := True\<rparr>) (show_char CHR ''['' (show_char esc_char ctx))"
    by (intro flushedI [where p = p' and g = g' and m = m' and f = f' and a = a' and b = b']) (simp add: w_def t u_def)
  moreover have "screen_lines w = screen_lines (show_char esc_char ctx)" "screen_lines u = screen_lines ctx"
    by (rule screen_lines_cong; simp add: w_def u_def)+
  ultimately show ?thesis using 1 2 by (simp add: in_csi_def)
qed

text \<open>A digit of the parameter.\<close>

lemma show_csi_digit:
  assumes i: "in_csi off v r ctx t" and c: "of_char c = 48 + d" "d \<le> 9" and v: "v \<le> 9" and a: "autoflush ctx"
    and g: "ground ctx"
  shows "in_csi (off + 1) (v * 10 + of_nat d) True ctx (show_char c t)"
proof -
  obtain p g m f a b where t: "t = (ctx\<lparr>escape_offset := off, escape := True, esc_values := v # replicate 15 0, esc_values_i := 0, rrr := r,
       csi_unhandled := False, control_sequence := True\<rparr>)\<lparr>pixels := p, grid := g, fb_map := m, old_cursor_x := a,
      old_cursor_y := b, queue_i := 0, flushes := f\<rparr>"
    using i unfolding in_csi_def by (elim conjE flushedE)
  define k where "k = (of_nat (48 + d) :: u8)"
  have uk: "unat k = 48 + d" unfolding k_def unat_of_nat using c(2) by (simp add: take_bit_nat_eq_self)
  then have k: "k < 0x80" "k \<noteq> 0x18" "k \<noteq> 0x1a" "k \<noteq> 0x5b" "k \<noteq> 0x3f" "\<not> k < 0x20" "0x30 \<le> k" "k \<le> 0x39"
    using c(2) by (auto simp: word_less_nat_alt word_le_nat_alt)
  have dig: "ucast k - 0x30 = (of_nat d :: u32)"
  proof -
    have "(ucast k :: u32) = of_nat (48 + d)"
      unfolding word_unat_eq_iff unat_of_nat unsigned_ucast_eq uk using c(2) by (simp add: take_bit_nat_eq_self)
    then show ?thesis by simp
  qed
  have big: "\<not> v > 0xFFFFFFFF div 10" "\<not> v * 10 > 0xFFFFFFFF - of_nat d"
  proof -
    have u: "unat (of_nat d :: u32) = d" unfolding unat_of_nat using c(2) by (simp add: take_bit_nat_eq_self)
    have "unat (v * 10) \<le> 90" using v by (simp add: word_le_nat_alt unat_word_ariths)
    moreover have "unat (0xFFFFFFFF - of_nat d :: u32) = 0xFFFFFFFF - d"
      using u c(2) by (subst unat_sub) (simp_all add: word_le_nat_alt)
    ultimately show "\<not> v > 0xFFFFFFFF div 10" "\<not> v * 10 > 0xFFFFFFFF - of_nat d"
      using v c(2) by (simp_all add: word_le_nat_alt word_less_nat_alt)
  qed
  define w where "w = t\<lparr>escape_offset := off + 1, esc_values := (v * 10 + of_nat d) # replicate 15 0, rrr := True\<rparr>"
  have "flanterm_putchar k t = w"
    using g k big by (simp add: t csi_byte ground_def control_sequence_parse_def csi_digit_def FLANTERM_MAX_ESC_VALUES_def Let_def dig w_def)
  moreover have "autoflush w" using a by (simp add: w_def t)
  moreover have "of_nat (of_char c) = k" by (simp add: k_def c(1))
  moreover have ok: "terminal_ok t" using i by (simp add: in_csi_def)
  ultimately have "flushed w (show_char c t)" and 1: "terminal_ok (show_char c t)" "screen_lines (show_char c t) = screen_lines w"
    using show_control [OF ok, of c w] by simp_all
  then obtain p' g' m' f' a' b' where "show_char c t = w\<lparr>pixels := p', grid := g',
      fb_map := m', old_cursor_x := a', old_cursor_y := b', queue_i := 0, flushes := f'\<rparr>"
    by (elim flushedE)
  then have "flushed (ctx\<lparr>escape_offset := off + 1, escape := True, esc_values := (v * 10 + of_nat d) # replicate 15 0, esc_values_i := 0,
      rrr := True, csi_unhandled := False, control_sequence := True\<rparr>) (show_char c t)"
    by (intro flushedI [where p = p' and g = g' and m = m' and f = f' and a = a' and b = b']) (simp add: w_def t)
  moreover have "screen_lines w = screen_lines t" by (rule screen_lines_cong; simp add: w_def)
  ultimately show ?thesis using 1 i by (simp add: in_csi_def)
qed

text \<open>What a colour change leaves as it was.\<close>

definition recoloured :: "u32 \<Rightarrow> 'z fb_context_scheme \<Rightarrow> 'z fb_context_scheme \<Rightarrow> bool" where
  "recoloured colour s t \<longleftrightarrow> log_ready t \<and> same_setup s t \<and> screen_lines t = screen_lines s \<and> cursor_x t = cursor_x s \<and>
     cursor_y t = cursor_y s \<and> text_fg t = colour"

lemma sgr_colour:
  assumes "unat v = 30 + d" and "d \<le> 7" and "\<not> reverse_video ctx" "\<not> bold ctx"
  shows "sgr_single v ctx = ctx\<lparr>current_primary := of_nat d, text_fg := ansi_colours ctx ! d\<rparr>"
proof -
  have v: "v \<noteq> 0" "v \<noteq> 1" "v \<noteq> 2" "v \<noteq> 3" "v \<noteq> 4" "v \<noteq> 8" "v \<noteq> 5" "v \<noteq> 22" "v \<noteq> 23" "v \<noteq> 24" "v \<noteq> 28" "v \<noteq> 25"
    "30 \<le> v" "v \<le> 37"
    using assms(1,2) by (auto simp: word_le_nat_alt)
  have "unat (ucast v :: u64) = 30 + d" using assms(1,2) by (simp add: unsigned_ucast_eq take_bit_nat_eq_self)
  then have "unat (ucast v - 30 :: u64) = d" by (subst unat_sub) (simp_all add: word_le_nat_alt)
  then have c: "unat (ucast v - 30 :: u64) = d" "(ucast v - 30 :: u64) = of_nat d" by (simp, metis unat_eq_of_nat64)
  have "unat (of_nat d :: u64) = d" using assms(2) by (intro unat_of_nat64) simp
  then show ?thesis unfolding sgr_single_def Let_def using v assms(3,4) by (simp add: sgr_set_fg_def flanterm_fb_set_text_fg_def c)
qed

lemma show_csi_m:
  assumes i: "in_csi off v True ctx t" and r: "log_ready ctx" and v: "v = 0 \<and> colour = default_fg ctx \<or> unat v = 30 + d \<and> d \<le> 7 \<and> colour = ansi_colours ctx ! d"
  shows "recoloured colour ctx (show_char CHR ''m'' t)"
proof -
  have ok: "terminal_ok t" using i by (simp add: in_csi_def)
  obtain p g m f a b where t: "t = (ctx\<lparr>escape_offset := off, escape := True, esc_values := v # replicate 15 0, esc_values_i := 0, rrr := True,
       csi_unhandled := False, control_sequence := True\<rparr>)\<lparr>pixels := p, grid := g, fb_map := m, old_cursor_x := a,
      old_cursor_y := b, queue_i := 0, flushes := f\<rparr>"
    using i unfolding in_csi_def by (elim conjE flushedE)
  have rc: "ground ctx" "\<not> reverse_video ctx" "\<not> bold ctx" "\<not> bg_bold ctx" "\<not> dec_private ctx" "autoflush ctx" "text_bg ctx = 0xffffffff"
    "scroll_top_margin ctx = 0" "scroll_bottom_margin ctx = rows ctx" "\<not> insert_mode ctx"
    "charsets ctx ! unat (current_charset ctx) = CHARSET_DEFAULT"
    using r by (simp_all add: log_ready_def plain_def)
  define w where "w = flanterm_putchar 0x6d t"
  have w0: "w = csi_final 0x6d (t\<lparr>escape_offset := off + 1, esc_values_i := 1, rrr := False\<rparr>)"
    using rc(1) by (simp add: w_def t csi_byte ground_def control_sequence_parse_def Let_def)
  have "\<exists>cp cb vs. w = t\<lparr>escape_offset := off + 1, esc_values_i := 1, rrr := False, esc_values := vs, control_sequence := False,
      escape := False, current_primary := cp, current_bg := cb, text_fg := colour\<rparr>"
    using v
  proof
    assume v: "v = 0 \<and> colour = default_fg ctx"
    show ?thesis
      unfolding w0 using rc v by (intro exI [of _ "- 1"] exI [of _ "- 1"] exI [of _ "0 # replicate 15 0"])
        (simp add: t csi_final_def csi_defaults_def FLANTERM_MAX_ESC_VALUES_def csi_execute_def csi_command_def csi_cleanup_def
          flanterm_fb_get_cursor_pos_def sgr_def sgr_single_def sgr_reset_def flanterm_fb_set_text_fg_default_def
          flanterm_fb_set_text_bg_default_def Let_def ground_def)
  next
    assume v: "unat v = 30 + d \<and> d \<le> 7 \<and> colour = ansi_colours ctx ! d"
    then have n: "v \<noteq> 38" "v \<noteq> 48" by (auto simp: word_unat_eq_iff)
    show ?thesis
      unfolding w0 using rc v n by (intro exI [of _ "of_nat d"] exI [of _ "current_bg ctx"] exI [of _ "v # replicate 15 0"])
        (simp add: t csi_final_def csi_defaults_def FLANTERM_MAX_ESC_VALUES_def csi_execute_def csi_command_def csi_cleanup_def
          flanterm_fb_get_cursor_pos_def sgr_def sgr_colour Let_def ground_def)
  qed
  then obtain cp cb vs where w: "w = t\<lparr>escape_offset := off + 1, esc_values_i := 1, rrr := False, esc_values := vs,
      control_sequence := False, escape := False, current_primary := cp, current_bg := cb, text_fg := colour\<rparr>" by blast
  define z where "z = show_char CHR ''m'' t"
  have "autoflush w" "flanterm_putchar (of_nat (of_char CHR ''m'')) t = w" using rc(6) by (simp add: w t, simp add: w_def)
  then have "flushed w z" and 1: "terminal_ok z"
    "screen_lines z = screen_lines w"
    using show_control [OF ok, of "CHR ''m''" w] by (simp_all add: z_def)
  then obtain p' g' m' f' a' b' where e: "z = w\<lparr>pixels := p', grid := g',
      fb_map := m', old_cursor_x := a', old_cursor_y := b', queue_i := 0, flushes := f'\<rparr>"
    by (elim flushedE)
  have "log_ready z"
    using rc 1(1) unfolding log_ready_def plain_def by (simp add: e w t ground_def)
  moreover have "screen_lines w = screen_lines t" by (rule screen_lines_cong; simp add: w)
  moreover have "same_setup ctx z" "cursor_x z = cursor_x ctx"
    "cursor_y z = cursor_y ctx" "text_fg z = colour"
    by (simp_all add: e w t same_setup_def)
  ultimately show ?thesis using 1 i unfolding z_def [symmetric] by (simp add: recoloured_def in_csi_def)
qed

lemma show_console_Cons: "show_console (c # cs) ctx = show_console cs (show_char c ctx)"
  and show_console_Nil: "show_console [] ctx = ctx"
  and show_console_append: "show_console (cs @ ds) ctx = show_console ds (show_console cs ctx)"
  by (simp_all add: show_console_def)

lemma show_colour:
  assumes r: "log_ready ctx" and c: "of_char c = 48 + d" "d \<le> 7"
  shows "recoloured (ansi_colours ctx ! d) ctx (show_console (esc_char # ''[3'' @ [c] @ ''m'') ctx)"
proof -
  have g: "ground ctx" "autoflush ctx" using r by (simp_all add: log_ready_def plain_def)
  have "in_csi (1 + 1) (0 * 10 + of_nat 3) True ctx (show_char CHR ''3'' (show_char CHR ''['' (show_char esc_char ctx)))"
    by (rule show_csi_digit [OF show_csi_start [OF r] _ _ _ g(2,1)]) simp_all
  then have "in_csi (1 + 1 + 1) ((0 * 10 + of_nat 3) * 10 + of_nat d) True ctx
      (show_char c (show_char CHR ''3'' (show_char CHR ''['' (show_char esc_char ctx))))"
    by (rule show_csi_digit [OF _ c(1) _ _ g(2,1)]) (use c(2) in simp_all)
  moreover have "unat ((0 * 10 + of_nat 3) * 10 + of_nat d :: u32) = 30 + d"
  proof -
    have "((0 * 10 + of_nat 3) * 10 + of_nat d :: u32) = of_nat (30 + d)" by simp
    then show ?thesis unfolding unat_of_nat using c(2) by (simp only: unat_of_nat) (simp add: take_bit_nat_eq_self)
  qed
  ultimately show ?thesis
    using show_csi_m [OF _ r, of _ _ _ "ansi_colours ctx ! d" d] c(2) by (simp add: show_console_Cons show_console_Nil)
qed

lemma show_reset:
  assumes r: "log_ready ctx"
  shows "recoloured (default_fg ctx) ctx (show_console ANSI_RESET ctx)"
proof -
  have g: "ground ctx" "autoflush ctx" using r by (simp_all add: log_ready_def plain_def)
  have "in_csi (1 + 1) (0 * 10 + of_nat 0) True ctx (show_char CHR ''0'' (show_char CHR ''['' (show_char esc_char ctx)))"
    by (rule show_csi_digit [OF show_csi_start [OF r] _ _ _ g(2,1)]) simp_all
  then show ?thesis
    using show_csi_m [OF _ r, of _ _ _ "default_fg ctx"] by (simp add: ANSI_RESET_def show_console_Cons show_console_Nil)
qed

subsection \<open>Text\<close>

lemma show_char_ready:
  assumes r: "log_ready ctx" and c: "printable c" and x: "cursor_x ctx < cols ctx"
  shows "log_ready (show_char c ctx)" "same_setup ctx (show_char c ctx)"
proof -
  have p: "plain ctx" and ok: "terminal_ok ctx" using r by (simp_all add: log_ready_def plain_def)
  define u where "u = flanterm_putchar (of_nat (of_char c)) ctx"
  have "only_queue (ctx\<lparr>last_printed_char := of_nat (of_char c), last_was_graphic := True, cursor_x := cursor_x ctx + 1\<rparr>) u"
    unfolding u_def putchar_printable [OF p c x] by simp
  then obtain qu n m where u: "u = ctx\<lparr>last_printed_char := of_nat (of_char c), last_was_graphic := True,
      cursor_x := cursor_x ctx + 1, queue := qu, queue_i := n, fb_map := m\<rparr>" by (auto simp: only_queue_def)
  have "autoflush u" using r by (simp add: u log_ready_def)
  then have "flushed u (show_char c ctx)" by (rule show_control(1) [OF ok u_def [symmetric]])
  then obtain p g m f a b where t: "show_char c ctx = u\<lparr>pixels := p, grid := g, fb_map := m, old_cursor_x := a,
      old_cursor_y := b, queue_i := 0, flushes := f\<rparr>" by (elim flushedE)
  have "plain (show_char c ctx)" by (rule show_char_plain(1) [OF p c x refl])
  then show "log_ready (show_char c ctx)" using r unfolding log_ready_def by (simp add: t u)
  show "same_setup ctx (show_char c ctx)" by (simp add: t u same_setup_def)
qed

definition write_at :: "nat \<Rightarrow> 'a list \<Rightarrow> 'a list \<Rightarrow> 'a list" where
  "write_at x cs row = take x row @ cs @ drop (x + length cs) row"

lemma write_at_twice:
  "x + length cs + length ds \<le> length row \<Longrightarrow> write_at (x + length cs) ds (write_at x cs row) = write_at x (cs @ ds) row"
  by (simp add: write_at_def add.commute add.left_commute)

lemma show_text_ready:
  assumes "log_ready ctx" and "\<forall>c \<in> set cs. printable c" and "unat (cursor_x ctx) + length cs \<le> unat (cols ctx)"
  shows "log_ready (show_console cs ctx) \<and> same_setup ctx (show_console cs ctx)"
  using assms
proof (induction cs arbitrary: ctx)
  case Nil
  then show ?case by (simp add: show_console_Nil same_setup_def)
next
  case (Cons c cs)
  have x: "cursor_x ctx < cols ctx" using Cons.prems(3) by (simp add: word_less_nat_alt)
  have pc: "plain ctx" "printable c" using Cons.prems(1,2) by (simp_all add: log_ready_def)
  note s = show_char_ready [OF Cons.prems(1) pc(2) x]
  have "unat (cursor_x (show_char c ctx)) = unat (cursor_x ctx) + 1"
    using x unat_64 [of "cols ctx"] by (simp add: show_char_plain(3) [OF pc x refl] word_less_nat_alt unat_word_ariths)
  then have "unat (cursor_x (show_char c ctx)) + length cs \<le> unat (cols (show_char c ctx))"
    using s(2) Cons.prems(3) by (simp add: same_setup_def)
  with Cons.IH [OF s(1)] Cons.prems(2) show ?case
    using same_setup_trans [OF s(2)] by (simp add: show_console_Cons)
qed

lemma show_text:
  assumes r: "log_ready ctx" and c: "\<forall>c \<in> set cs. printable c" and fit: "unat (cursor_x ctx) + length cs \<le> unat (cols ctx)"
    and t: "t = show_console cs ctx"
  shows "log_ready t" "same_setup ctx t" "cursor_y t = cursor_y ctx" "unat (cursor_x t) = unat (cursor_x ctx) + length cs"
    "text_fg t = text_fg ctx"
    "screen_lines t = (screen_lines ctx)[unat (cursor_y ctx) :=
      write_at (unat (cursor_x ctx)) (map (\<lambda>c. glyph c ctx) cs) (screen_lines ctx ! unat (cursor_y ctx))]"
proof -
  have p: "plain ctx" and ok: "terminal_ok ctx" using r by (simp_all add: log_ready_def plain_def)
  show "log_ready t" "same_setup ctx t" using show_text_ready [OF r c fit] by (simp_all add: t)
  have y: "unat (cursor_y ctx) < unat (rows ctx)" using terminal_okD(8) [OF ok] by (simp add: word_less_nat_alt)
  note m = show_console_cells [OF p c fit t]
  show "cursor_y t = cursor_y ctx" "unat (cursor_x t) = unat (cursor_x ctx) + length cs" "text_fg t = text_fg ctx"
    using m by (simp_all add: same_text_def)
  show "screen_lines t = (screen_lines ctx)[unat (cursor_y ctx) :=
      write_at (unat (cursor_x ctx)) (map (\<lambda>c. glyph c ctx) cs) (screen_lines ctx ! unat (cursor_y ctx))]"
  proof (rule nth_equalityI)
    have st: "rows t = rows ctx" "cols t = cols ctx" using m by (simp_all add: same_text_def)
    then show "length (screen_lines t) = length ((screen_lines ctx)[unat (cursor_y ctx) :=
        write_at (unat (cursor_x ctx)) (map (\<lambda>c. glyph c ctx) cs) (screen_lines ctx ! unat (cursor_y ctx))])" by simp
    fix k assume k: "k < length (screen_lines t)"
    have l: "length (screen_line j c) = unat (cols c)" for j and c :: "'a fb_context_scheme" by (simp add: screen_line_def)
    show "screen_lines t ! k = (screen_lines ctx)[unat (cursor_y ctx) :=
        write_at (unat (cursor_x ctx)) (map (\<lambda>c. glyph c ctx) cs) (screen_lines ctx ! unat (cursor_y ctx))] ! k"
    proof (rule nth_equalityI)
      show "length (screen_lines t ! k) = length ((screen_lines ctx)[unat (cursor_y ctx) :=
          write_at (unat (cursor_x ctx)) (map (\<lambda>c. glyph c ctx) cs) (screen_lines ctx ! unat (cursor_y ctx))] ! k)"
        using k st fit y by (auto simp: nth_list_update l write_at_def)
      fix i assume "i < length (screen_lines t ! k)"
      then have i: "i < unat (cols ctx)" using k st by (simp add: l)
      from show_console_lines [OF p c fit t _ i, of k] k st
      show "screen_lines t ! k ! i = (screen_lines ctx)[unat (cursor_y ctx) :=
          write_at (unat (cursor_x ctx)) (map (\<lambda>c. glyph c ctx) cs) (screen_lines ctx ! unat (cursor_y ctx))] ! k ! i"
        using fit i y by (auto simp: nth_list_update write_at_def nth_append l)
    qed
  qed
qed

subsection \<open>Carriage return and line feed\<close>

lemma show_return:
  assumes r: "log_ready ctx" and t: "t = show_char carriage_return ctx"
  shows "log_ready t" "same_setup ctx t" "screen_lines t = screen_lines ctx" "cursor_x t = 0" "cursor_y t = cursor_y ctx"
proof -
  have ok: "terminal_ok ctx" and g: "ground ctx" using r by (simp_all add: log_ready_def plain_def)
  have y: "cursor_y ctx < rows ctx" "0 < cols ctx" using terminal_okD(3,8) [OF ok] by simp_all
  define u where "u = ctx\<lparr>last_was_graphic := False, cursor_x := 0\<rparr>"
  have u: "flanterm_putchar (of_nat (of_char carriage_return)) ctx = u"
    using g y by (simp add: u_def ground_def flanterm_putchar_def unicode_error_def ground_byte_def execute_c0_def
      flanterm_fb_get_cursor_pos_def flanterm_fb_set_cursor_pos_def clamp_coordinate_def Let_def not_le word_gt_0)
  have "autoflush u" using r by (simp add: u_def log_ready_def)
  note c = show_control [OF ok u this, folded t]
  obtain p g m f a b where e: "t = u\<lparr>pixels := p, grid := g, fb_map := m, old_cursor_x := a,
      old_cursor_y := b, queue_i := 0, flushes := f\<rparr>" using c(1) by (elim flushedE)
  show "log_ready t" using r c(2) unfolding log_ready_def plain_def by (simp add: e u_def ground_def)
  show "same_setup ctx t" "cursor_x t = 0" "cursor_y t = cursor_y ctx" by (simp_all add: e u_def same_setup_def)
  have "screen_lines u = screen_lines ctx" by (rule screen_lines_cong; simp add: u_def)
  then show "screen_lines t = screen_lines ctx" using c(3) by simp
qed

text \<open>A line feed on a list of lines and a row.\<close>

fun feed :: "'a list \<Rightarrow> 'a list list \<times> nat \<Rightarrow> 'a list list \<times> nat" where
  "feed blank (ls, y) = (if y + 1 < length ls then (ls, y + 1) else (scroll_up 0 (length ls) blank ls, y))"

lemma show_line_feed:
  assumes r: "log_ready ctx" and t: "t = show_char newline ctx"
  shows "log_ready t" "same_setup ctx t" "(screen_lines t, unat (cursor_y t)) = feed (blank_line ctx) (screen_lines ctx, unat (cursor_y ctx))"
    "text_fg t = text_fg ctx" "up_to_date t"
proof -
  have ok: "terminal_ok ctx" and g: "ground ctx" using r by (simp_all add: log_ready_def plain_def)
  have m: "scroll_top_margin ctx = 0" "scroll_bottom_margin ctx = rows ctx" using r by (simp_all add: log_ready_def)
  have y: "cursor_y ctx < rows ctx" "0 < rows ctx" using terminal_okD(4,8) [OF ok] by simp_all
  have reg: "region_ok ctx" by (rule terminal_okD(2) [OF ok])
  have last: "cursor_y ctx = rows ctx - 1 \<longleftrightarrow> \<not> unat (cursor_y ctx) + 1 < unat (rows ctx)"
    "cursor_y ctx < rows ctx - 1 \<longleftrightarrow> unat (cursor_y ctx) + 1 < unat (rows ctx)"
    "unat (rows ctx - 1) = unat (rows ctx) - 1"
  proof -
    show u: "unat (rows ctx - 1) = unat (rows ctx) - 1" using y(2) by (rule unat_minus_1_64)
    show "cursor_y ctx < rows ctx - 1 \<longleftrightarrow> unat (cursor_y ctx) + 1 < unat (rows ctx)"
      using u y by (auto simp: word_less_nat_alt)
    show "cursor_y ctx = rows ctx - 1 \<longleftrightarrow> \<not> unat (cursor_y ctx) + 1 < unat (rows ctx)"
      using u y by (auto simp: word_less_nat_alt word_unat_eq_iff)
  qed
  define s where "s = ctx\<lparr>last_was_graphic := False\<rparr>"
  define u where "u = flanterm_putchar (of_nat (of_char newline)) ctx"
  have u: "u = line_feed (fst (flanterm_fb_get_cursor_pos s)) (cursor_y ctx) s"
    using g y(1) by (simp add: u_def s_def ground_def flanterm_putchar_def unicode_error_def ground_byte_def execute_c0_def
      flanterm_fb_get_cursor_pos_def Let_def not_le)
  have "\<exists>qu n m x y'. u = ctx\<lparr>last_was_graphic := False, queue := qu, queue_i := n, fb_map := m, cursor_x := x, cursor_y := y'\<rparr> \<and>
      (screen_lines u, unat y') = feed (blank_line ctx) (screen_lines ctx, unat (cursor_y ctx))"
  proof (cases "unat (cursor_y ctx) + 1 < unat (rows ctx)")
    case True
    have "unat (cursor_y ctx + 1) = unat (cursor_y ctx) + 1" using True unat64_less [of "rows ctx"] by (simp add: unat_word_ariths)
    moreover from this have "\<not> rows ctx \<le> cursor_y ctx + 1" using True by (simp add: word_le_nat_alt)
    ultimately have e: "u = ctx\<lparr>last_was_graphic := False, cursor_x := clamp_coordinate (fst (flanterm_fb_get_cursor_pos s)) (cols ctx),
        cursor_y := cursor_y ctx + 1\<rparr>" and uy: "unat (cursor_y ctx + 1) = unat (cursor_y ctx) + 1"
      using True m last(1,2) by (simp_all add: u line_feed_def flanterm_fb_set_cursor_pos_def s_def clamp_coordinate_def)
    have "screen_lines u = screen_lines ctx" by (rule screen_lines_cong; simp add: e)
    then show ?thesis using True uy
      by (intro exI [of _ "queue ctx"] exI [of _ "queue_i ctx"] exI [of _ "fb_map ctx"] exI conjI) (rule trans [OF e], simp_all)
  next
    case False
    have "region_ok s" using reg by (simp add: s_def region_ok_def queue_ok_def screen_sized_def cells_def item_cell_def)
    note sc = scroll_lines [OF this] scroll_cells(1) [OF this]
    obtain qu n mp where q: "flanterm_fb_scroll s = s\<lparr>queue := qu, queue_i := n, fb_map := mp\<rparr>"
      using sc(2) by (auto simp: only_queue_def)
    have e: "u = ctx\<lparr>last_was_graphic := False, queue := qu, queue_i := n, fb_map := mp,
        cursor_x := clamp_coordinate (fst (flanterm_fb_get_cursor_pos s)) (cols ctx), cursor_y := cursor_y ctx\<rparr>"
    proof -
      have "cursor_y ctx = scroll_bottom_margin s - 1" using False last(1) m(2) by (simp add: s_def)
      then have "u = flanterm_fb_set_cursor_pos (fst (flanterm_fb_get_cursor_pos s)) (cursor_y ctx) (flanterm_fb_scroll s)"
        unfolding u line_feed_def by (rule if_P)
      moreover have "clamp_coordinate (cursor_y ctx) (rows ctx) = cursor_y ctx" using y(1) by (simp add: clamp_coordinate_def linorder_not_less [symmetric])
      ultimately show ?thesis by (simp add: flanterm_fb_set_cursor_pos_def q) (simp add: s_def)
    qed
    have "screen_lines u = screen_lines (flanterm_fb_scroll s)" by (rule screen_lines_cong; simp add: e q; simp add: s_def)
    moreover have "screen_lines s = screen_lines ctx" by (rule screen_lines_cong; simp add: s_def)
    moreover have "blank_line s = blank_line ctx" by (simp add: blank_line_def empty_char_def s_def)
    ultimately have "screen_lines u = scroll_up 0 (unat (rows ctx)) (blank_line ctx) (screen_lines ctx)"
      using sc(1) m by (simp add: s_def)
    then show ?thesis using False
      by (intro exI [of _ qu] exI [of _ n] exI [of _ mp] exI conjI) (rule trans [OF e], simp_all)
  qed
  then obtain qu n mp x y' where e: "u = ctx\<lparr>last_was_graphic := False, queue := qu, queue_i := n, fb_map := mp, cursor_x := x, cursor_y := y'\<rparr>"
    and l: "(screen_lines u, unat y') = feed (blank_line ctx) (screen_lines ctx, unat (cursor_y ctx))" by blast
  have "autoflush u" using r by (simp add: e log_ready_def)
  note c = show_control [OF ok u_def [symmetric] this, folded t]
  obtain p g' m' f a b where e': "t = u\<lparr>pixels := p, grid := g', fb_map := m', old_cursor_x := a,
      old_cursor_y := b, queue_i := 0, flushes := f\<rparr>" using c(1) by (elim flushedE)
  show "log_ready t" using r c(2) unfolding log_ready_def plain_def by (simp add: e' e ground_def)
  show "same_setup ctx t" "text_fg t = text_fg ctx" by (simp_all add: e' e same_setup_def)
  show "up_to_date t" by (rule c(4))
  have "cursor_y t = y'" by (simp add: e' e)
  then show "(screen_lines t, unat (cursor_y t)) = feed (blank_line ctx) (screen_lines ctx, unat (cursor_y ctx))"
    using l c(3) by simp
qed

subsection \<open>A line of the log\<close>

definition coloured :: "u32 \<Rightarrow> string \<Rightarrow> fb_char list" where
  "coloured fg cs = map (\<lambda>c. \<lparr>fc_c = of_nat (of_char c), fc_fg = fg, fc_bg = 0xffffffff\<rparr>) cs"

definition level_colour :: "int \<Rightarrow> nat" where
  "level_colour level = [6, 2, 3, 1, 5] ! log_level level"

definition log_cells :: "'z fb_context_scheme \<Rightarrow> int \<Rightarrow> string \<Rightarrow> fb_char list" where
  "log_cells ctx level body =
     coloured (ansi_colours ctx ! level_colour level) (level_prefix ! log_level level) @ coloured (default_fg ctx) body"

definition blank_row :: "'z fb_context_scheme \<Rightarrow> fb_char list" where
  "blank_row ctx = coloured (default_fg ctx) (replicate (unat (cols ctx)) CHR '' '')"

text \<open>The message has a line feed of its own and \<open>printk_level\<close> adds another.\<close>

fun put_line :: "'a list \<Rightarrow> 'a list \<Rightarrow> 'a list list \<times> nat \<Rightarrow> 'a list list \<times> nat" where
  "put_line blank cs (ls, y) = feed blank (feed blank (ls[y := write_at 0 cs (ls ! y)], y))"

lemma log_level_cases: "log_level level \<in> {0, 1, 2, 3, 4}"
  by (auto simp: log_level_def LOG_DEBUG_def LOG_FATAL_def)

lemma show_level:
  assumes "log_ready ctx"
  shows "recoloured (ansi_colours ctx ! level_colour level) ctx (show_console (level_color ! log_level level) ctx)"
  using log_level_cases [of level] show_colour [OF assms, of _ "level_colour level"]
  by (elim insertE emptyE) (simp_all add: level_colour_def level_color_def)

lemma level_prefix_facts: "length (level_prefix ! log_level level) = 8" "\<forall>c \<in> set (level_prefix ! log_level level). printable c"
  using log_level_cases [of level] by (auto simp: level_prefix_def printable_def)

lemma glyph_coloured:
  "text_bg ctx = 0xffffffff \<Longrightarrow> map (\<lambda>c. glyph c ctx) cs = coloured (text_fg ctx) cs"
  by (simp add: glyph_def coloured_def)

lemma show_log_line:
  assumes r: "log_ready ctx" and c: "\<forall>c \<in> set body. printable c" "8 + length body \<le> unat (cols ctx)"
    and t: "t = show_console (log_line level (body @ [newline])) ctx"
  shows "log_ready t \<and> same_setup ctx t \<and> up_to_date t \<and> (screen_lines t, unat (cursor_y t)) =
    put_line (blank_row ctx) (log_cells ctx level body) (screen_lines ctx, unat (cursor_y ctx))"
proof -
  define pre where "pre = level_prefix ! log_level level"
  note p = level_prefix_facts [of level, folded pre_def]
  define y where "y = unat (cursor_y ctx)"
  define t1 t2 t3 t4 t5 t6 where "t1 = show_char carriage_return ctx" and "t2 = show_console (level_color ! log_level level) t1"
    and "t3 = show_console pre t2" and "t4 = show_console ANSI_RESET t3" and "t5 = show_console body t4" and "t6 = show_char newline t5"
  have te: "t = show_char newline t6"
    by (simp add: t log_line_def header_def show_console_append show_console_Cons show_console_Nil
      t1_def t2_def t3_def t4_def t5_def t6_def pre_def)
  note 1 = show_return [OF r t1_def]
  note 2 = show_level [OF 1(1), of level, folded t2_def, unfolded recoloured_def]
  then have r2: "log_ready t2" by blast
  have fit2: "unat (cursor_x t2) + length pre \<le> unat (cols t2)" using 1 2 c(2) p(1) by (simp add: same_setup_def)
  note 3 = show_text [OF r2 p(2) fit2 t3_def]
  note 4 = show_reset [OF 3(1), folded t4_def, unfolded recoloured_def]
  then have r4: "log_ready t4" by blast
  have fit4: "unat (cursor_x t4) + length body \<le> unat (cols t4)" using 1 2 3 4 c(2) p(1) by (simp add: same_setup_def)
  note 5 = show_text [OF r4 c(1) fit4 t5_def]
  note 6 = show_line_feed [OF 5(1) t6_def]
  note 7 = show_line_feed [OF 6(1) te]
  have same: "same_setup ctx t5" "same_setup ctx t6" "same_setup ctx t"
    using 1(2) 2 3(2) 4 5(2) 6(2) 7(2) by (simp_all add: same_setup_def)
  have ok: "terminal_ok ctx" using r by (simp add: log_ready_def plain_def)
  have y: "y < length (screen_lines ctx)" using terminal_okD(8) [OF ok] by (simp add: y_def word_less_nat_alt)
  have row: "length (screen_lines ctx ! y) = unat (cols ctx)" using y by (simp add: screen_line_def)
  have "text_bg t2 = 0xffffffff" "text_bg t4 = 0xffffffff" "text_fg t2 = ansi_colours ctx ! level_colour level"
    "text_fg t4 = default_fg ctx"
    using 1 2 3 4 by (simp_all add: log_ready_def same_setup_def)
  moreover have "unat (cursor_x t2) = 0" "unat (cursor_x t4) = 8" "unat (cursor_y t2) = y" "unat (cursor_y t4) = y" "unat (cursor_y t5) = y"
    using 1 2 3 4 5 p(1) by (simp_all add: y_def)
  ultimately have "screen_lines t5 = (screen_lines ctx)[y := write_at 8 (coloured (default_fg ctx) body)
      (write_at 0 (coloured (ansi_colours ctx ! level_colour level) pre) (screen_lines ctx ! y))]" and cy: "unat (cursor_y t5) = y"
    using 1(3) 2 3(6) 4 5(6) y by (simp_all add: glyph_coloured)
  moreover have "write_at (0 + length (coloured (ansi_colours ctx ! level_colour level) pre)) (coloured (default_fg ctx) body)
      (write_at 0 (coloured (ansi_colours ctx ! level_colour level) pre) (screen_lines ctx ! y)) =
      write_at 0 (log_cells ctx level body) (screen_lines ctx ! y)"
    unfolding log_cells_def pre_def [symmetric] by (rule write_at_twice) (use p(1) c(2) row in \<open>simp add: coloured_def\<close>)
  then have "write_at 8 (coloured (default_fg ctx) body) (write_at 0 (coloured (ansi_colours ctx ! level_colour level) pre) (screen_lines ctx ! y)) =
      write_at 0 (log_cells ctx level body) (screen_lines ctx ! y)"
    using p(1) by (simp add: coloured_def)
  ultimately have l5: "screen_lines t5 = (screen_lines ctx)[y := write_at 0 (log_cells ctx level body) (screen_lines ctx ! y)]"
    by simp
  have b: "blank_line u = blank_row ctx" if "same_setup ctx u" "text_fg u = default_fg ctx" "log_ready u" for u
    using that by (simp add: blank_line_def blank_row_def empty_char_def coloured_def same_setup_def log_ready_def)
  have "text_fg t5 = default_fg ctx" "text_fg t6 = default_fg ctx" using 1 2 3 4 5 6 by (simp_all add: same_setup_def)
  then have "blank_line t5 = blank_row ctx" "blank_line t6 = blank_row ctx" using b same 5(1) 6(1) by blast+
  then have "(screen_lines t, unat (cursor_y t)) =
      put_line (blank_row ctx) (log_cells ctx level body) (screen_lines ctx, y)"
    using 6(3) 7(3) l5 cy by simp
  then show ?thesis using 7 same(3) by (simp add: y_def)
qed

subsection \<open>The log as a whole\<close>

definition log_text :: "(int \<times> string) list \<Rightarrow> string" where
  "log_text ms = concat (map (\<lambda>(level, msg). log_line level msg) ms)"

definition end_lines :: "(int \<times> string) list \<Rightarrow> (int \<times> string) list" where
  "end_lines ms = map (\<lambda>(level, body). (level, body @ [newline])) ms"

definition log_fits :: "'z fb_context_scheme \<Rightarrow> (int \<times> string) list \<Rightarrow> bool" where
  "log_fits ctx ms \<longleftrightarrow> (\<forall>(level, body) \<in> set ms. (\<forall>c \<in> set body. printable c) \<and> 8 + length body \<le> unat (cols ctx))"

lemma show_log:
  assumes "log_ready ctx" and "log_fits ctx ms" and "t = show_console (log_text (end_lines ms)) ctx"
  shows "log_ready t \<and> same_setup ctx t \<and> (ms \<noteq> [] \<longrightarrow> up_to_date t) \<and> (screen_lines t, unat (cursor_y t)) =
    fold (\<lambda>(level, body). put_line (blank_row ctx) (log_cells ctx level body)) ms (screen_lines ctx, unat (cursor_y ctx))"
  using assms(2,3)
proof (induction ms arbitrary: t rule: rev_induct)
  case Nil
  then show ?case using assms(1) by (simp add: log_text_def end_lines_def show_console_Nil same_setup_def)
next
  case (snoc m ms)
  obtain level body where m: "m = (level, body)" by (cases m)
  define u where "u = show_console (log_text (end_lines ms)) ctx"
  have "log_fits ctx ms" using snoc.prems(1) by (simp add: log_fits_def)
  from snoc.IH [OF this u_def] have u: "log_ready u" "same_setup ctx u" "(screen_lines u, unat (cursor_y u)) =
      fold (\<lambda>(level, body). put_line (blank_row ctx) (log_cells ctx level body)) ms (screen_lines ctx, unat (cursor_y ctx))"
    by blast+
  have fit: "\<forall>c \<in> set body. printable c" "8 + length body \<le> unat (cols u)"
    using snoc.prems(1) u(2) by (simp_all add: log_fits_def m same_setup_def)
  have "t = show_console (log_line level (body @ [newline])) u"
    by (simp add: snoc.prems(2) u_def m log_text_def end_lines_def show_console_append)
  note l = show_log_line [OF u(1) fit this]
  have "blank_row u = blank_row ctx" "log_cells u level body = log_cells ctx level body"
    using u(2) by (simp_all add: blank_row_def log_cells_def same_setup_def)
  then show ?case using l u(2,3) same_setup_trans by (auto simp: m)
qed


text \<open>On an empty screen with room for all lines every second line is a message.\<close>

definition padded :: "'a list \<Rightarrow> 'a list \<Rightarrow> 'a list" where
  "padded blank cs = cs @ drop (length cs) blank"

lemma put_lines_blank:
  assumes "2 * length ms < R" and "(ls, y) = fold (put_line blank) ms (replicate R blank, 0)"
  shows "length ls = R \<and> y = 2 * length ms \<and> (\<forall>k < R. ls ! k =
    (if even k \<and> k div 2 < length ms then padded blank (ms ! (k div 2)) else blank))"
  using assms
proof (induction ms arbitrary: ls y rule: rev_induct)
  case (snoc m ms)
  obtain ks z where k: "(ks, z) = fold (put_line blank) ms (replicate R blank, 0)" by (metis surj_pair)
  with snoc.IH [OF _ k] snoc.prems(1) have i: "length ks = R" "z = 2 * length ms"
    "\<And>k. k < R \<Longrightarrow> ks ! k = (if even k \<and> k div 2 < length ms then padded blank (ms ! (k div 2)) else blank)" by simp_all
  have "(ls, y) = put_line blank m (ks, z)" using snoc.prems(2) by (simp flip: k)
  then have e: "ls = ks[z := write_at 0 m (ks ! z)]" "y = z + 2" using i(1,2) snoc.prems(1) by (simp_all add: Let_def)
  have "ks ! z = blank" using i(2,3) snoc.prems(1) by simp
  then have "ls = ks[z := padded blank m]" using e by (simp add: write_at_def padded_def)
  moreover have "k div 2 = length ms" if "even k" "\<not> k div 2 < length ms" "k div 2 < Suc (length ms)" for k :: nat using that by simp
  ultimately show ?case using i e snoc.prems(1)
    by (auto simp: nth_list_update nth_append elim!: evenE)
qed simp

lemma fold_split: "fold (\<lambda>(a, b). f (g a b)) xs = fold f (map (\<lambda>(a, b). g a b) xs)"
  by (simp add: fold_map comp_def case_prod_unfold)

text \<open>The terminal \<open>printk_init\<close> makes.\<close>

lemma fb_finish_ready:
  assumes fb: "usable_screen fb" and ctx: "ctx = fb_finish (fb_prepare (kernel_args fb) px)"
  shows "log_ready ctx" "screen_lines ctx = replicate (unat (rows ctx)) (blank_row ctx)"
    "rows ctx = screen_height fb div (16 * screen_scale fb)"
proof -
  define s where "s = fb_prepare (kernel_args fb) px"
  obtain q where q: "ctx = (fb_start s)\<lparr>pixels := q\<rparr>" using fb_finish_pixels [OF fb s_def] by (auto simp: ctx s_def)
  note f = prepared_fields [OF s_def]
  have "\<not> reverse_video ctx" "\<not> bold ctx" "\<not> bg_bold ctx" "\<not> dec_private ctx" "scroll_top_margin ctx = 0"
    "scroll_bottom_margin ctx = rows ctx"
    by (simp_all add: q fb_start_def flanterm_context_reinit_def set_grid_def Let_def)
  then show "log_ready ctx" using fb_finish_plain [OF fb ctx] by (simp add: log_ready_def)
  show "screen_lines ctx = replicate (unat (rows ctx)) (blank_row ctx)"
    using fb_finish_ok [OF fb refl] by (simp add: ctx blank_screen_def blank_row_def coloured_def)
  show "rows ctx = screen_height fb div (16 * screen_scale fb)"
    by (simp add: q fb_start_def flanterm_context_reinit_def set_grid_def Let_def f)
qed

text \<open>The screen after a log that fits.\<close>

lemma log_on_blank_screen:
  assumes fb: "usable_screen fb" and ctx: "ctx = fb_finish (fb_prepare (kernel_args fb) px)"
    and ms: "log_fits ctx ms" "ms \<noteq> []" "2 * length ms < unat (rows ctx)" and t: "t = show_console (log_text (end_lines ms)) ctx"
  shows "up_to_date t" "same_setup ctx t" "log_ready t" "unat (cursor_y t) = 2 * length ms"
    "\<And>k. k < unat (rows ctx) \<Longrightarrow> screen_lines t ! k = (if even k \<and> k div 2 < length ms
      then padded (blank_row ctx) (case ms ! (k div 2) of (level, body) \<Rightarrow> log_cells ctx level body) else blank_row ctx)"
proof -
  note r = fb_finish_ready [OF fb ctx]
  note l = show_log [OF r(1) ms(1) t]
  show "up_to_date t" "same_setup ctx t" "log_ready t" using l ms(2) by blast+
  have "unat (cursor_y ctx) = 0" using fb_finish_plain [OF fb ctx] by simp
  then have "(screen_lines t, unat (cursor_y t)) = fold (put_line (blank_row ctx)) (map (\<lambda>(level, body). log_cells ctx level body) ms)
      (replicate (unat (rows ctx)) (blank_row ctx), 0)"
    using l unfolding r(2) fold_split by simp
  from put_lines_blank [OF _ this] ms(3)
  show "unat (cursor_y t) = 2 * length ms"
    "\<And>k. k < unat (rows ctx) \<Longrightarrow> screen_lines t ! k = (if even k \<and> k div 2 < length ms
      then padded (blank_row ctx) (case ms ! (k div 2) of (level, body) \<Rightarrow> log_cells ctx level body) else blank_row ctx)"
    by (simp_all del: screen_lines_simps)
qed


end
