(* ===== verification/Ahci.thy ===== *)
theory Ahci
  imports Apic Printk
begin

unbundle bit_operations_syntax

text \<open>
  The AHCI driver (\<open>src/kernel/src/storage/ahci.c\<close>). The controller's registers and its
  command structures are memory; \<open>hw\<close> is what the hardware does to the machine before each
  volatile read, an arbitrary function of the state. The polling loops of a transfer count to
  one million and end; those of \<open>start_cmd\<close> and \<open>stop_cmd\<close> wait for the hardware and are
  \<open>None\<close> when it never answers. \<open>klog\<close> collects the
  messages given to \<open>log_info\<close>, in their order, with level, format and arguments.
\<close>

record ahci_port_info =
  port_type :: u8
  port_present :: u8

record ahci_controller =
  ctl_abar :: u64
  ctl_ports :: "ahci_port_info list"

record ahci_state = apic_state +
  g_abars :: "u64 list"
  g_abar_count :: u8
  g_controllers :: "ahci_controller list"
  g_count :: u8
  klog :: "(int \<times> string \<times> fmt_arg list) list"

type_synonym 'z hw = "'z ahci_state_scheme \<Rightarrow> 'z ahci_state_scheme"

definition AHCI_BASE :: u64 where "AHCI_BASE = 0x400000"
definition AHCI_DEV_NULL :: u8 where "AHCI_DEV_NULL = 0"
definition AHCI_DEV_SATA :: u8 where "AHCI_DEV_SATA = 1"
definition AHCI_DEV_SEMB :: u8 where "AHCI_DEV_SEMB = 2"
definition AHCI_DEV_PM :: u8 where "AHCI_DEV_PM = 3"
definition AHCI_DEV_SATAPI :: u8 where "AHCI_DEV_SATAPI = 4"
definition ATA_BUSY_DRQ :: u32 where "ATA_BUSY_DRQ = 0x80 OR 0x08"
definition HBA_PxIS_ERRORS :: u32 where
  "HBA_PxIS_ERRORS = push_bit 30 1 OR push_bit 29 1 OR push_bit 28 1 OR push_bit 27 1"

definition log_info :: "string \<Rightarrow> fmt_arg list \<Rightarrow> 'z ahci_state_scheme \<Rightarrow> 'z ahci_state_scheme" where
  "log_info fmt args s = s\<lparr>klog := klog s @ [(LOG_INFO, fmt, args)]\<rparr>"

definition rd32 :: "'z hw \<Rightarrow> u64 \<Rightarrow> 'z ahci_state_scheme \<Rightarrow> u32 \<times> 'z ahci_state_scheme" where
  "rd32 hw a s = (let s = hw s in (load32 a (mem s), s))"

definition wr32 :: "u64 \<Rightarrow> u32 \<Rightarrow> 'z ahci_state_scheme \<Rightarrow> 'z ahci_state_scheme" where
  "wr32 a v s = s\<lparr>mem := store32 a v (mem s)\<rparr>"

definition update32 :: "'z hw \<Rightarrow> u64 \<Rightarrow> (u32 \<Rightarrow> u32) \<Rightarrow> 'z ahci_state_scheme \<Rightarrow> 'z ahci_state_scheme" where
  "update32 hw a f s = (let (v, s) = rd32 hw a s in wr32 a (f v) s)"

definition zero_mem :: "u64 \<Rightarrow> u64 \<Rightarrow> 'z ahci_state_scheme \<Rightarrow> 'z ahci_state_scheme" where
  "zero_mem a n s = s\<lparr>mem := memset a 0 n (mem s)\<rparr>"

text \<open>\<open>&abar->ports[i]\<close>; the fields of \<open>HBA_PORT\<close> are written as their offsets.\<close>

definition hba_port :: "u64 \<Rightarrow> u8 \<Rightarrow> u64" where
  "hba_port abar i = abar + 0x100 + ucast i * 0x80"

subsection \<open>Finding controllers\<close>

definition check_type :: "'z hw \<Rightarrow> u64 \<Rightarrow> 'z ahci_state_scheme \<Rightarrow> u8 \<times> 'z ahci_state_scheme" where
  "check_type hw port s =
     (let (ssts, s) = rd32 hw (port + 0x28) s;
          ipm = drop_bit 8 ssts AND 0x0F;
          det = ssts AND 0x0F
      in if det \<noteq> 3 then (AHCI_DEV_NULL, s)
         else if ipm \<noteq> 1 then (AHCI_DEV_NULL, s)
         else let (sig, s) = rd32 hw (port + 0x24) s in
           (if sig = 0xEB140101 then AHCI_DEV_SATAPI
            else if sig = 0xC33C0101 then AHCI_DEV_SEMB
            else if sig = 0x96690101 then AHCI_DEV_PM
            else AHCI_DEV_SATA, s))"

definition pci_read_bar64 :: "io_device \<Rightarrow> u8 \<Rightarrow> u8 \<Rightarrow> u8 \<Rightarrow> u8 \<Rightarrow> 'z io_state_scheme \<Rightarrow> u64 \<times> 'z io_state_scheme" where
  "pci_read_bar64 dev bus slot func off s =
     (let (low, s) = pci_read_config_dword dev bus slot func off s in
      if low AND 1 \<noteq> 0 then (0, s)
      else let addr_low = ucast (low AND 0xfffffff0) :: u64;
               (high, s) = pci_read_config_dword dev bus slot func (off + 4) s
           in (push_bit 32 (ucast high) OR addr_low, s))"

definition pci_is_ahci_device :: "io_device \<Rightarrow> u8 \<Rightarrow> u8 \<Rightarrow> u8 \<Rightarrow> 'z io_state_scheme \<Rightarrow> bool \<times> 'z io_state_scheme" where
  "pci_is_ahci_device dev bus slot func s =
     (let (class_code, s) = pci_read_config_byte dev bus slot func 0x0b s;
          (subclass, s) = pci_read_config_byte dev bus slot func 0x0a s;
          (prog_if, s) = pci_read_config_byte dev bus slot func 0x09 s
      in (class_code = 0x01 \<and> subclass = 0x06 \<and> prog_if = 0x01, s))"

subsection \<open>Bringing a port up\<close>

partial_function (option) wait_clear :: "'z hw \<Rightarrow> u64 \<Rightarrow> u32 \<Rightarrow> 'z ahci_state_scheme \<Rightarrow> 'z ahci_state_scheme option" where
  "wait_clear hw a bits s =
     (let (v, s) = rd32 hw a s in if v AND bits \<noteq> 0 then wait_clear hw a bits s else Some s)"

definition start_cmd :: "'z hw \<Rightarrow> u64 \<Rightarrow> 'z ahci_state_scheme \<Rightarrow> 'z ahci_state_scheme option" where
  "start_cmd hw port s =
     (case wait_clear hw (port + 0x18) (push_bit 15 1) s of
        None \<Rightarrow> None
      | Some s \<Rightarrow>
          Some (update32 hw (port + 0x18) (\<lambda>v. v OR push_bit 0 1)
            (update32 hw (port + 0x18) (\<lambda>v. v OR push_bit 4 1) s)))"

partial_function (option) stop_wait :: "'z hw \<Rightarrow> u64 \<Rightarrow> 'z ahci_state_scheme \<Rightarrow> 'z ahci_state_scheme option" where
  "stop_wait hw a s =
     (let (v, s) = rd32 hw a s in
      if v AND push_bit 14 1 \<noteq> 0 then stop_wait hw a s
      else let (v, s) = rd32 hw a s in
        if v AND push_bit 15 1 \<noteq> 0 then stop_wait hw a s else Some s)"

definition stop_cmd :: "'z hw \<Rightarrow> u64 \<Rightarrow> 'z ahci_state_scheme \<Rightarrow> 'z ahci_state_scheme option" where
  "stop_cmd hw port s =
     stop_wait hw (port + 0x18)
       (update32 hw (port + 0x18) (\<lambda>v. v AND NOT (push_bit 4 1))
         (update32 hw (port + 0x18) (\<lambda>v. v AND NOT (push_bit 0 1)) s))"

definition clb_phys :: "nat \<Rightarrow> u64" where
  "clb_phys portno = AHCI_BASE + push_bit 10 (of_nat portno)"

definition fb_phys :: "nat \<Rightarrow> u64" where
  "fb_phys portno = AHCI_BASE + push_bit 10 32 + push_bit 8 (of_nat portno)"

definition ctba_phys :: "nat \<Rightarrow> nat \<Rightarrow> u64" where
  "ctba_phys portno i = AHCI_BASE + push_bit 10 40 + push_bit 13 (of_nat portno) + push_bit 8 (of_nat i)"

definition init_header :: "u64 \<Rightarrow> nat \<Rightarrow> nat \<Rightarrow> 'z ahci_state_scheme \<Rightarrow> 'z ahci_state_scheme" where
  "init_header virt_clb portno i s =
     (let phys = ctba_phys portno i;
          hdr = virt_clb + 32 * of_nat i;
          s = s\<lparr>mem := store16 (hdr + 2) 8 (mem s)\<rparr>;
          s = wr32 (hdr + 8) (ucast phys) s;
          s = wr32 (hdr + 12) (ucast (drop_bit 32 phys)) s
      in zero_mem (phys_virt s phys) 256 s)"

definition port_rebase :: "'z hw \<Rightarrow> u64 \<Rightarrow> nat \<Rightarrow> 'z ahci_state_scheme \<Rightarrow> 'z ahci_state_scheme option" where
  "port_rebase hw port portno s =
     (case stop_cmd hw port s of
        None \<Rightarrow> None
      | Some s \<Rightarrow>
          let virt_clb = phys_virt s (clb_phys portno);
              s = wr32 port (ucast (clb_phys portno)) s;
              s = wr32 (port + 0x4) (ucast (drop_bit 32 (clb_phys portno))) s;
              s = zero_mem virt_clb 1024 s;
              virt_fb = phys_virt s (fb_phys portno);
              s = wr32 (port + 0x8) (ucast (fb_phys portno)) s;
              s = wr32 (port + 0xC) (ucast (drop_bit 32 (fb_phys portno))) s;
              s = zero_mem virt_fb 256 s;
              s = wr32 (port + 0x10) (-1) s;
              s = wr32 (port + 0x14) (-1) s;
              s = wr32 (port + 0x30) (-1) s;
              s = wr32 (port + 0x38) 0 s;
              s = wr32 (port + 0x34) 0 s;
              s = fold (init_header virt_clb portno) [0..<32] s
          in start_cmd hw port s)"

definition type_message :: "u8 \<Rightarrow> string" where
  "type_message type =
     (if type = AHCI_DEV_SATA then ''SATA drive found at controller %u port %u\<newline>''
      else if type = AHCI_DEV_SATAPI then ''SATAPI drive found at controller %u port %u\<newline>''
      else if type = AHCI_DEV_SEMB then ''SEMB device at controller %u port %u\<newline>''
      else if type = AHCI_DEV_PM then ''Port multiplier at controller %u port %u\<newline>''
      else ''No device at controller %u port %u\<newline>'')"

definition set_port_info :: "u8 \<Rightarrow> nat \<Rightarrow> u8 \<Rightarrow> 'z ahci_state_scheme \<Rightarrow> 'z ahci_state_scheme" where
  "set_port_info controller i type s =
     (let c = g_controllers s ! unat controller;
          info = \<lparr>port_type = type, port_present = (if type \<noteq> AHCI_DEV_NULL then 1 else 0)\<rparr>
      in s\<lparr>g_controllers := (g_controllers s)[unat controller := c\<lparr>ctl_ports := (ctl_ports c)[i := info]\<rparr>]\<rparr>)"

fun probe_ports_from :: "'z hw \<Rightarrow> u64 \<Rightarrow> u8 \<Rightarrow> u32 \<Rightarrow> nat list \<Rightarrow> 'z ahci_state_scheme \<Rightarrow> 'z ahci_state_scheme option" where
  "probe_ports_from hw abar controller pi [] s = Some s"
| "probe_ports_from hw abar controller pi (i # is) s =
     (if pi AND push_bit i 1 = 0 then probe_ports_from hw abar controller pi is s
      else let port = hba_port abar (of_nat i); (type, s) = check_type hw port s in
        case port_rebase hw port i s of
          None \<Rightarrow> None
        | Some s \<Rightarrow>
            probe_ports_from hw abar controller pi is
              (log_info (type_message type) [Word (ucast controller), Word (of_nat i)] (set_port_info controller i type s)))"

definition ahci_probe_ports :: "'z hw \<Rightarrow> u64 \<Rightarrow> u8 \<Rightarrow> 'z ahci_state_scheme \<Rightarrow> 'z ahci_state_scheme option" where
  "ahci_probe_ports hw abar controller s =
     (let (pi, s) = rd32 hw (abar + 0xC) s in probe_ports_from hw abar controller pi [0..<32] s)"

fun kfold :: "('a \<Rightarrow> 's \<Rightarrow> (unit, 's) kres) \<Rightarrow> 'a list \<Rightarrow> 's \<Rightarrow> (unit, 's) kres" where
  "kfold f [] s = kret () s"
| "kfold f (x # xs) s = kbind (f x s) (\<lambda>_ s. kfold f xs s)"

definition attach_controller ::
  "'z hw \<Rightarrow> u8 \<Rightarrow> u8 \<Rightarrow> u8 \<Rightarrow> u64 \<Rightarrow> 'z ahci_state_scheme \<Rightarrow> (unit, 'z ahci_state_scheme) kres" where
  "attach_controller hw bus slot func abar_phys s =
     (let abar = phys_virt s abar_phys;
          pml4 = paging_get_current_pml4 s in
      kbind (paging_map_page pml4 abar abar_phys 0x1000 (ENTRY_FLAG_PRESENT OR ENTRY_FLAG_RW) s) (\<lambda>_ s.
      kbind (paging_map_page pml4 (phys_virt s AHCI_BASE) AHCI_BASE 0x4A000 (ENTRY_FLAG_PRESENT OR ENTRY_FLAG_RW) s) (\<lambda>_ s.
      let ctrl_idx = g_abar_count s;
          c = g_controllers s ! unat ctrl_idx;
          s = s\<lparr>g_abars := (g_abars s)[unat ctrl_idx := abar],
                g_controllers := (g_controllers s)[unat ctrl_idx := c\<lparr>ctl_abar := abar\<rparr>]\<rparr>;
          s = log_info ''AHCI controller %u found at %u:%u:%u base 0x%lx\<newline>''
                (map Word [ucast ctrl_idx, ucast bus, ucast slot, ucast func, abar_phys]) s
      in case ahci_probe_ports hw abar ctrl_idx s of
           None \<Rightarrow> Inl Diverges
         | Some s \<Rightarrow> kret () (s\<lparr>g_abar_count := g_abar_count s + 1\<rparr>))))"

text \<open>The body of the function loop; its value is the new \<open>func_limit\<close>.\<close>

definition probe_function ::
  "io_device \<Rightarrow> 'z hw \<Rightarrow> u8 \<Rightarrow> u8 \<Rightarrow> u8 \<Rightarrow> 'z ahci_state_scheme \<Rightarrow> (nat, 'z ahci_state_scheme) kres" where
  "probe_function dev hw bus slot func s =
     (let (vendor, s) = pci_read_config_word dev bus slot func 0 s in
      if vendor = 0xffff then kret 1 s
      else let (limit, s) =
             (if func = 0
              then let (header_type, s) = pci_read_config_byte dev bus slot func 0x0e s
                   in (if header_type AND 0x80 \<noteq> 0 then 8 else 1, s)
              else (1, s));
             (is_ahci, s) = pci_is_ahci_device dev bus slot func s
        in if \<not> is_ahci then kret limit s
           else let (abar_phys, s) = pci_read_bar64 dev bus slot func 0x24 s in
             if abar_phys = 0 then kret limit s
             else if g_abar_count s \<ge> 8 then
               kret limit (log_info ''AHCI: max controllers reached, skipping %u:%u:%u\<newline>''
                 (map Word [ucast bus, ucast slot, ucast func]) s)
             else kbind (attach_controller hw bus slot func abar_phys s) (\<lambda>_ s. kret limit s))"

text \<open>Only function 0 changes the limit, so the loop is its first step and the rest.\<close>

definition probe_slot ::
  "io_device \<Rightarrow> 'z hw \<Rightarrow> u8 \<Rightarrow> nat \<Rightarrow> 'z ahci_state_scheme \<Rightarrow> (unit, 'z ahci_state_scheme) kres" where
  "probe_slot dev hw bus slot s =
     kbind (probe_function dev hw bus (of_nat slot) 0 s) (\<lambda>limit s.
     kfold (\<lambda>func s. kbind (probe_function dev hw bus (of_nat slot) (of_nat func) s) (\<lambda>_ s. kret () s))
       [1..<limit] s)"

definition no_controller :: ahci_controller where
  "no_controller = \<lparr>ctl_abar = 0, ctl_ports = replicate 32 \<lparr>port_type = 0, port_present = 0\<rparr>\<rparr>"

definition ahci_init :: "io_device \<Rightarrow> 'z hw \<Rightarrow> 'z ahci_state_scheme \<Rightarrow> (u8, 'z ahci_state_scheme) kres" where
  "ahci_init dev hw s =
     (let s = s\<lparr>g_controllers := replicate 8 no_controller, g_count := 0, g_abars := replicate 8 0, g_abar_count := 0\<rparr>
      in kbind (kfold (\<lambda>bus. kfold (probe_slot dev hw (of_nat bus)) [0..<32]) [0..<256] s) (\<lambda>_ s.
         let s = s\<lparr>g_count := g_abar_count s\<rparr> in kret (g_abar_count s) s))"

definition ahci_get_controller_count :: "'z ahci_state_scheme \<Rightarrow> u8" where
  "ahci_get_controller_count s = g_count s"

definition ahci_get_controller :: "u8 \<Rightarrow> 'z ahci_state_scheme \<Rightarrow> ahci_controller option" where
  "ahci_get_controller index s = (if index \<ge> g_count s then None else Some (g_controllers s ! unat index))"

subsection \<open>Transfers\<close>

fun free_slot :: "u32 \<Rightarrow> nat list \<Rightarrow> nat option" where
  "free_slot slots [] = None"
| "free_slot slots (i # is) = (if slots AND push_bit i 1 = 0 then Some i else free_slot slots is)"

definition find_cmdslot :: "'z hw \<Rightarrow> u64 \<Rightarrow> 'z ahci_state_scheme \<Rightarrow> nat option \<times> 'z ahci_state_scheme" where
  "find_cmdslot hw port s =
     (let (sact, s) = rd32 hw (port + 0x34) s; (ci, s) = rd32 hw (port + 0x38) s
      in (free_slot (sact OR ci) [0..<32], s))"

definition update_header :: "u64 \<Rightarrow> bool \<Rightarrow> nat \<Rightarrow> memory \<Rightarrow> memory" where
  "update_header hdr write prdt_entries m =
     (let saved_ctba = load32 (hdr + 8) m; saved_ctbau = load32 (hdr + 12) m;
          m = memset hdr 0 32 m;
          m = store32 (hdr + 8) saved_ctba m;
          m = store32 (hdr + 12) saved_ctbau m;
          m = store16 hdr ((load16 hdr m AND NOT 0x1F) OR 5) m;
          m = store16 hdr ((load16 hdr m AND NOT 0x40) OR push_bit 6 (of_bool write)) m;
          m = store16 (hdr + 2) (of_nat prdt_entries) m
      in store32 (hdr + 4) 0 m)"

text \<open>One pass of the loop over \<open>prdt_entry\<close>; \<open>dbc\<close> is the low 22 bits of its word and
  \<open>i\<close> the top one. \<open>buffer\<close> and \<open>remaining\<close> are the loop's variables.\<close>

definition prdt_addr :: "u64 \<Rightarrow> nat \<Rightarrow> u64" where
  "prdt_addr cmdtbl i = cmdtbl + 0x80 + 16 * of_nat i"

definition fill_entry :: "u64 \<Rightarrow> u64 \<Rightarrow> nat \<Rightarrow> nat \<Rightarrow> u64 \<Rightarrow> u32 \<Rightarrow> memory \<Rightarrow> memory" where
  "fill_entry off cmdtbl prdt_entries i buffer entry_bytes m =
     (let e = prdt_addr cmdtbl i; buf_phys = buffer - off;
          m = store32 e (ucast (buf_phys AND 0xFFFFFFFF)) m;
          m = store32 (e + 4) (ucast (drop_bit 32 buf_phys)) m;
          m = store32 (e + 12) ((load32 (e + 12) m AND NOT 0x3FFFFF) OR ((entry_bytes - 1) AND 0x3FFFFF)) m
      in store32 (e + 12) ((load32 (e + 12) m AND NOT (push_bit 31 1))
           OR (if i + 1 = prdt_entries then push_bit 31 1 else 0)) m)"

fun fill_prdt :: "u64 \<Rightarrow> u64 \<Rightarrow> nat \<Rightarrow> nat list \<Rightarrow> u64 \<Rightarrow> u8 \<Rightarrow> memory \<Rightarrow> memory" where
  "fill_prdt off cmdtbl prdt_entries [] buffer remaining m = m"
| "fill_prdt off cmdtbl prdt_entries (i # is) buffer remaining m =
     (let entry_sectors = (if remaining > 16 then 16 else ucast remaining) :: u32;
          entry_bytes = entry_sectors * 512
      in fill_prdt off cmdtbl prdt_entries is (buffer + ucast entry_bytes) (remaining - ucast entry_sectors)
           (fill_entry off cmdtbl prdt_entries i buffer entry_bytes m))"

definition fis_fields :: "u8 \<Rightarrow> u32 \<Rightarrow> u8 \<Rightarrow> (u64 \<times> u8) list" where
  "fis_fields command sector count =
     [(0, 0x27), (1, 0x80), (2, command),
      (4, ucast (sector AND 0xFF)), (5, ucast (drop_bit 8 sector AND 0xFF)),
      (6, ucast (drop_bit 16 sector AND 0xFF)), (8, ucast (drop_bit 24 sector AND 0xFF)),
      (9, 0), (10, 0), (7, push_bit 6 1), (12, count AND 0xFF), (13, ucast (drop_bit 8 (ucast count :: u32) AND 0xFF))]"

definition write_fis :: "u64 \<Rightarrow> u8 \<Rightarrow> u32 \<Rightarrow> u8 \<Rightarrow> memory \<Rightarrow> memory" where
  "write_fis cfis command sector count m =
     fold (\<lambda>(i, v) m. m(cfis + i := v)) (fis_fields command sector count) (memset cfis 0 20 m)"

text \<open>From the command header to the command FIS: the part of \<open>ahci_read\<close> and
  \<open>ahci_write\<close> that prepares the command.\<close>

definition build_command :: "u64 \<Rightarrow> bool \<Rightarrow> u64 \<Rightarrow> nat \<Rightarrow> u32 \<Rightarrow> u8 \<Rightarrow> u64 \<Rightarrow> memory \<Rightarrow> memory" where
  "build_command off write hdr prdt_entries sector count buf m =
     (let ctba = ucast (load32 (hdr + 8) m) OR push_bit 32 (ucast (load32 (hdr + 12) m)) :: u64;
          m = update_header hdr write prdt_entries m;
          cmdtbl = off + ctba;
          m = memset cmdtbl 0 (256 + (of_nat prdt_entries - 1) * 16) m;
          m = fill_prdt off cmdtbl prdt_entries [0..<prdt_entries] buf count m
      in write_fis cmdtbl (if write then 0x35 else 0x25) sector count m)"

function spin_ready :: "'z hw \<Rightarrow> u64 \<Rightarrow> nat \<Rightarrow> 'z ahci_state_scheme \<Rightarrow> bool \<times> 'z ahci_state_scheme" where
  "spin_ready hw hba spin s =
     (let (tfd, s) = rd32 hw (hba + 0x20) s in
      if tfd AND ATA_BUSY_DRQ \<noteq> 0
      then if spin + 1 > 1000000 then (False, s) else spin_ready hw hba (spin + 1) s
      else (True, s))"
  by pat_completeness auto
termination by (relation "measure (\<lambda>(_, _, spin, _). 1000000 - spin)") auto

function spin_done :: "'z hw \<Rightarrow> u64 \<Rightarrow> u32 \<Rightarrow> nat \<Rightarrow> 'z ahci_state_scheme \<Rightarrow> bool \<times> 'z ahci_state_scheme" where
  "spin_done hw hba slot_bit spin s =
     (let (ci, s) = rd32 hw (hba + 0x38) s in
      if ci AND slot_bit \<noteq> 0
      then let (is, s) = rd32 hw (hba + 0x10) s in
        if is AND HBA_PxIS_ERRORS \<noteq> 0 then (False, s)
        else if spin + 1 > 1000000 then (False, s)
        else spin_done hw hba slot_bit (spin + 1) s
      else (True, s))"
  by pat_completeness auto
termination by (relation "measure (\<lambda>(_, _, _, spin, _). 1000000 - spin)") auto

declare spin_ready.simps [simp del] spin_done.simps [simp del]

definition issue_command :: "'z hw \<Rightarrow> u64 \<Rightarrow> nat \<Rightarrow> 'z ahci_state_scheme \<Rightarrow> u8 \<times> 'z ahci_state_scheme" where
  "issue_command hw hba slot s =
     (let (ready, s) = spin_ready hw hba 0 s in
      if \<not> ready then (1, s)
      else let s = update32 hw (hba + 0x38) (\<lambda>v. v OR push_bit slot 1) s;
               (finished, s) = spin_done hw hba (push_bit slot 1) 0 s
        in if \<not> finished then (1, s)
           else let (tfd, s) = rd32 hw (hba + 0x20) s in
             if tfd AND ATA_BUSY_DRQ \<noteq> 0 then (1, s) else (0, s))"

definition ahci_transfer ::
  "'z hw \<Rightarrow> bool \<Rightarrow> u8 \<Rightarrow> u8 \<Rightarrow> u32 \<Rightarrow> u8 \<Rightarrow> u64 \<Rightarrow> 'z ahci_state_scheme \<Rightarrow> u8 \<times> 'z ahci_state_scheme" where
  "ahci_transfer hw write controller port sector count buf s =
     (if count = 0 then (1, s)
      else if controller \<ge> g_abar_count s \<or> g_abars s ! unat controller = 0 then (1, s)
      else let hba = hba_port (g_abars s ! unat controller) port;
               s = wr32 (hba + 0x10) (-1) s;
               s = wr32 (hba + 0x30) (-1) s;
               (slot, s) = find_cmdslot hw hba s
        in case slot of
             None \<Rightarrow> (1, s)
           | Some slot \<Rightarrow>
               let prdt_entries = (unat count + 15) div 16 in
               if prdt_entries > 8 then (1, s)
               else let (clb, s) = rd32 hw hba s; (clbu, s) = rd32 hw (hba + 4) s;
                        clb_phys = ucast clb OR push_bit 32 (ucast clbu);
                        hdr = phys_virt s clb_phys + 32 * of_nat slot;
                        s = s\<lparr>mem := build_command (offset s) write hdr prdt_entries sector count buf (mem s)\<rparr>
                 in issue_command hw hba slot s)"

definition ahci_read :: "'z hw \<Rightarrow> u8 \<Rightarrow> u8 \<Rightarrow> u32 \<Rightarrow> u8 \<Rightarrow> u64 \<Rightarrow> 'z ahci_state_scheme \<Rightarrow> u8 \<times> 'z ahci_state_scheme" where
  "ahci_read hw = ahci_transfer hw False"

definition ahci_write :: "'z hw \<Rightarrow> u8 \<Rightarrow> u8 \<Rightarrow> u32 \<Rightarrow> u8 \<Rightarrow> u64 \<Rightarrow> 'z ahci_state_scheme \<Rightarrow> u8 \<times> 'z ahci_state_scheme" where
  "ahci_write hw = ahci_transfer hw True"

subsection \<open>Command slots and the layout of the command memory\<close>

lemma free_slot_find: "free_slot slots xs = List.find (\<lambda>i. slots AND push_bit i 1 = 0) xs"
  by (induction xs) auto

lemma free_slot_first:
  "free_slot slots [0..<32] = Some i \<longleftrightarrow> i < 32 \<and> \<not> bit slots i \<and> (\<forall>j<i. bit slots j)"
  by (auto simp: free_slot_find find_Some_iff and_exp_eq_0_iff_not_bit simp del: upt_rec_numeral)

lemma free_slot_none: "free_slot slots [0..<32] = None \<longleftrightarrow> (\<forall>i<32. bit slots i)"
  by (auto simp: free_slot_find find_None_iff and_exp_eq_0_iff_not_bit simp del: upt_rec_numeral)

lemma unat_clb_phys: "p < 32 \<Longrightarrow> unat (clb_phys p) = 0x400000 + 1024 * p"
  and unat_fb_phys: "p < 32 \<Longrightarrow> unat (fb_phys p) = 0x408000 + 256 * p"
  and unat_ctba_phys: "p < 32 \<Longrightarrow> i < 32 \<Longrightarrow> unat (ctba_phys p i) = 0x40A000 + 8192 * p + 256 * i"
  by (simp_all add: clb_phys_def fb_phys_def ctba_phys_def AHCI_BASE_def push_bit_eq_mult unat_word_ariths unat_of_nat64)

subsection \<open>The prepared command\<close>

lemma load32_put_sep: "sep a 4 b (length bs) \<Longrightarrow> load32 a (put_bytes b bs m) = load32 a m"
  by (simp add: load32_def get_put_sep)

lemma get_store_sep:
  "sep a n b 4 \<Longrightarrow> get_bytes a n (store32 b v m) = get_bytes a n m"
  "sep a n b 2 \<Longrightarrow> get_bytes a n (store16 b w m) = get_bytes a n m"
  by (simp_all add: store32_def store16_def get_put_sep)

lemma store32_sep: "sep a 4 b 4 \<Longrightarrow> load32 a (store32 b v m) = load32 a m"
  by (simp add: store32_def load32_put_sep)

lemma get_memset_sep: "sep a n b (unat k) \<Longrightarrow> get_bytes a n (memset b c k m) = get_bytes a n m"
  by (simp add: memset_eq get_put_sep)

lemma hba_field_sep: "i \<noteq> j \<Longrightarrow> i + 4 \<le> j \<or> j + 4 \<le> i \<Longrightarrow> j < 1024 \<Longrightarrow> i < 1024 \<Longrightarrow>
   sep (a + of_nat i) 4 (a + of_nat j) 4"
  by (auto simp: sep_def unat_sub_if' unat_of_nat64)

lemma small_sep:
  assumes "i + n \<le> j \<or> j + k \<le> i" and "i < 1024" "j < 1024" "n \<le> 1024" "k \<le> 1024" "0 < n" "0 < k"
  shows "sep (a + of_nat i) n (a + of_nat j) k"
  using assms by (auto simp: sep_def unat_sub_if' unat_of_nat64)

lemma within_sep:
  assumes "sep b k a n" and "i + l \<le> n" and "0 < l" and "0 < k"
  shows "sep b k (a + of_nat i) l"
proof -
  have "i < 2 ^ 64" using assms unat64_less [of "b - a"] unat64_less [of "a - b"] by (simp add: sep_def)
  then show ?thesis using sep_subrange [OF assms(1), of 0 k "of_nat i" l] assms(2-4) by (simp add: unat_of_nat64)
qed

lemma prdt_addr_nat: "prdt_addr t i = t + of_nat (128 + 16 * i)"
  by (simp add: prdt_addr_def)

lemma fill_entry_frame:
  assumes "sep b k (prdt_addr t i) 16" and "0 < k"
  shows "get_bytes b k (fill_entry off t n i buffer eb m) = get_bytes b k m"
proof -
  have "sep b k (prdt_addr t i + of_nat p) 4" if "p + 4 \<le> 16" for p
    using within_sep [OF assms(1) that _ assms(2)] by simp
  from this [of 0] this [of 4] this [of 12] show ?thesis
    by (simp add: fill_entry_def Let_def get_store_sep)
qed

definition entry_at :: "u64 \<Rightarrow> nat \<Rightarrow> memory \<Rightarrow> u64 \<times> u32 \<times> bool" where
  "entry_at cmdtbl i m =
     (let e = prdt_addr cmdtbl i
      in (ucast (load32 e m) OR push_bit 32 (ucast (load32 (e + 4) m)),
          load32 (e + 12) m AND 0x3FFFFF, bit (load32 (e + 12) m) 31))"

lemma join_halves: "ucast (ucast (x AND 0xFFFFFFFF) :: u32) OR push_bit 32 (ucast (ucast (drop_bit 32 x) :: u32)) = (x :: u64)"
proof (rule bit_word_eqI)
  fix n assume n: "n < LENGTH(64)"
  have t: "x AND 0xFFFFFFFF = take_bit 32 x" by (simp add: take_bit_eq_mask mask_eq_exp_minus_1)
  show "bit (ucast (ucast (x AND 0xFFFFFFFF) :: u32) OR push_bit 32 (ucast (ucast (drop_bit 32 x) :: u32)) :: u64) n = bit x n"
    unfolding t by (cases "n < 32") (use n in \<open>auto simp: bit_simps\<close>)
qed

lemma fill_entry_at:
  "entry_at t i (fill_entry off t n i buffer eb m) =
     (buffer - off, (eb - 1) AND 0x3FFFFF, i + 1 = n)"
proof -
  define e where "e = prdt_addr t i"
  have s: "sep (e + of_nat p) 4 (e + of_nat q) 4" if "p + 4 \<le> q \<or> q + 4 \<le> p" "p < 16" "q < 16" for p q
    using small_sep [of p 4 q 4 e] that by simp
  have top: "bit (2147483648 :: int) n \<longleftrightarrow> n = 31" for n
    using bit_exp_iff [of 31 n, where ?'a = int] by simp
  have m: "(0x3FFFFF :: u32) = mask 22" by (simp add: mask_eq_exp_minus_1)
  note ss = s [of 0 4] s [of 0 12] s [of 4 12] s [of 4 0]
  show ?thesis
    using ss unfolding entry_at_def fill_entry_def e_def [symmetric] Let_def
    by (simp add: store32_sep join_halves m bit_simps) (auto intro!: bit_word_eqI simp: bit_simps top)
qed

lemma prdt_sep: "i \<noteq> j \<Longrightarrow> i < 8 \<Longrightarrow> j < 8 \<Longrightarrow> sep (prdt_addr t i) 16 (prdt_addr t j) 16"
  unfolding prdt_addr_nat by (rule small_sep) auto

lemma entry_at_cong:
  assumes "get_bytes (prdt_addr t i) 16 m = get_bytes (prdt_addr t i) 16 m'"
  shows "entry_at t i m = entry_at t i m'"
proof -
  have "get_bytes (prdt_addr t i + of_nat p) 4 m = get_bytes (prdt_addr t i + of_nat p) 4 m'" if "p + 4 \<le> 16" for p
  proof (rule nth_equalityI)
    fix k assume "k < length (get_bytes (prdt_addr t i + of_nat p) 4 m)"
    then show "get_bytes (prdt_addr t i + of_nat p) 4 m ! k = get_bytes (prdt_addr t i + of_nat p) 4 m' ! k"
      using that arg_cong [OF assms, of "\<lambda>xs. xs ! (p + k)"] by (simp add: add.assoc)
  qed simp
  from this [of 0] this [of 4] this [of 12] show ?thesis by (simp add: entry_at_def load32_def)
qed

text \<open>What the loop writes: entry \<open>i\<close> covers the sectors from \<open>16 i\<close> on.\<close>

definition entry_spec :: "u64 \<Rightarrow> nat \<Rightarrow> u64 \<Rightarrow> u8 \<Rightarrow> nat \<Rightarrow> u64 \<times> u32 \<times> bool" where
  "entry_spec off n buf count i =
     (buf + of_nat (8192 * i) - off, of_nat (512 * min 16 (unat count - 16 * i) - 1), i + 1 = n)"

lemma fill_prdt_frame:
  assumes "\<And>i. i \<in> set is \<Longrightarrow> sep b k (prdt_addr t i) 16" and "0 < k"
  shows "get_bytes b k (fill_prdt off t n is buffer r m) = get_bytes b k m"
  using assms by (induction "is" arbitrary: buffer r m) (simp_all add: fill_entry_frame Let_def)

lemma entry_length:
  assumes "s \<le> 16" and "0 < s"
  shows "((of_nat s :: u32) * 512 - 1) AND 0x3FFFFF = of_nat (512 * s - 1)"
proof -
  have "(of_nat s :: u32) * 512 - 1 = of_nat (512 * s - 1)" using assms by (simp add: of_nat_diff)
  moreover have "(0x3FFFFF :: u32) = mask 22" by (simp add: mask_eq_exp_minus_1)
  moreover have "take_bit 22 (of_nat k :: u32) = of_nat k" if "k < 2 ^ 22" for k
    using that by (subst take_bit_of_nat) (simp only: take_bit_nat_eq_self)
  moreover have "512 * s - 1 < 2 ^ 22" using assms by simp
  ultimately show ?thesis by (metis take_bit_eq_mask)
qed

lemma fill_prdt_spec:
  assumes "n = (unat count + 15) div 16" and "n \<le> 8" and "k \<le> n"
    and "unat r = unat count - 16 * k" and "buffer = buf + of_nat (8192 * k)"
    and "k \<le> i" and "i < n"
  shows "entry_at t i (fill_prdt off t n [k..<n] buffer r m) = entry_spec off n buf count i"
  using assms(3-)
proof (induction "n - k" arbitrary: k buffer r m)
  case 0
  then show ?case by simp
next
  case (Suc d)
  define s where "s = (if r > 16 then 16 else ucast r :: u32)"
  have k: "16 * k < unat count" using Suc.prems assms(1) by simp
  have r: "unat r = unat count - 16 * k" by (rule Suc.prems)
  have s_eq: "s = of_nat (min 16 (unat r))" and s_nat: "unat s = min 16 (unat r)"
    by (auto simp: s_def word_less_nat_alt min_def word_unat_eq_iff unsigned_ucast_eq unsigned_of_nat
      take_bit_nat_eq_self_iff)
  have sr: "ucast s \<le> r" "unat (ucast s :: u8) = min 16 (unat r)"
    by (auto simp: s_def word_less_nat_alt word_le_nat_alt unsigned_ucast_eq take_bit_nat_eq_self_iff)
  have r': "unat (r - ucast s) = unat count - 16 * Suc k" if "Suc k < n"
    using that k r sr assms(1) by (auto simp: unat_sub_if')
  have upt: "[k..<n] = k # [Suc k..<n]" using Suc by (simp add: upt_conv_Cons)
  show ?case
  proof (cases "i = k")
    case True
    have "entry_at t k (fill_prdt off t n [Suc k..<n] b q m') = entry_at t k m'" for b q m'
      by (rule entry_at_cong, rule fill_prdt_frame) (use assms(2) Suc.prems in \<open>auto intro!: prdt_sep\<close>)
    then show ?thesis
      using k r s_eq True
      by (simp add: upt s_def [symmetric] Let_def fill_entry_at entry_spec_def entry_length Suc.prems(3))
  next
    case False
    then have less: "Suc k < n" "Suc k \<le> i" using Suc by auto
    have b': "buffer + ucast (s * 512) = buf + of_nat (8192 * Suc k)"
    proof -
      have "unat r > 16" using less r assms(1) by linarith
      then have "s = 16" by (simp add: s_def word_less_nat_alt)
      then have "ucast (s * 512) = (of_nat 8192 :: u64)" by simp
      moreover have "8192 * Suc k = 8192 * k + 8192" by simp
      ultimately show ?thesis by (simp only: Suc.prems(3) of_nat_add add.assoc)
    qed
    have "entry_at t i (fill_prdt off t n [Suc k..<n] (buffer + ucast (s * 512)) (r - ucast s) m') =
        entry_spec off n buf count i" for m'
      by (rule Suc.hyps(1) [OF _ _ r' [OF less(1)] b' less(2)]) (use Suc.hyps(2) Suc.prems(5) less in \<open>simp_all\<close>)
    then show ?thesis by (simp only: upt fill_prdt.simps Let_def s_def [symmetric])
  qed
qed


text \<open>The command FIS, byte by byte.\<close>

definition fis_bytes :: "u8 \<Rightarrow> u32 \<Rightarrow> u8 \<Rightarrow> u8 list" where
  "fis_bytes command sector count =
     [0x27, 0x80, command, 0] @ map (\<lambda>k. ucast (drop_bit (8 * k) sector)) [0, 1, 2] @ [0x40]
       @ [ucast (drop_bit 24 sector), 0, 0, 0, count, 0] @ [0, 0, 0, 0, 0, 0]"

lemma upd_nth: "get_bytes a n (m(a + of_nat i := v)) = (get_bytes a n m)[i := v]" if "i < n" "n \<le> 2 ^ 64"
proof (rule nth_equalityI)
  fix k assume k: "k < length (get_bytes a n (m(a + of_nat i := v)))"
  then have "(of_nat k :: u64) = of_nat i \<longleftrightarrow> k = i"
    using that unat_of_nat64 [of k] unat_of_nat64 [of i] by (metis length_get_bytes order.strict_trans2)
  then show "get_bytes a n (m(a + of_nat i := v)) ! k = (get_bytes a n m)[i := v] ! k"
    using k that by (auto simp: nth_list_update)
qed simp

lemma write_fis_bytes: "get_bytes a 20 (write_fis a command sector count m) = fis_bytes command sector count"
proof -
  have r: "replicate 20 (0 :: u8) = [0, 0, 0, 0, 0, 0, 0, 0, 0, 0, 0, 0, 0, 0, 0, 0, 0, 0, 0, 0]"
    by (simp add: numeral_eq_Suc)
  have z: "get_bytes a 20 (memset a 0 20 m) = replicate 20 0"
    by (simp add: memset_eq get_put_same)
  have u: "get_bytes a 20 (m(a + w := v)) = (get_bytes a 20 m)[unat w := v]" if "unat w < 20" for m w v
    using upd_nth [of "unat w" 20 a m v] that by simp
  have b: "ucast (x AND 0xFF) = (ucast x :: u8)" for x :: u32
  proof -
    have "x AND 0xFF = take_bit 8 x" by (simp add: take_bit_eq_mask mask_eq_exp_minus_1)
    then show ?thesis by (auto intro!: bit_word_eqI simp: bit_simps)
  qed
  have c: "(ucast (drop_bit 8 (ucast count :: u32)) :: u8) = 0" "count AND 0xFF = count"
  proof -
    show "(ucast (drop_bit 8 (ucast count :: u32)) :: u8) = 0"
      using unsigned_less [of count, where ?'a = nat] word_bit_ge [of count 8]
      by (auto intro!: bit_word_eqI simp: bit_simps)
    have "count AND 0xFF = take_bit 8 count" by (simp add: take_bit_eq_mask mask_eq_exp_minus_1)
    then show "count AND 0xFF = count" by (auto intro!: bit_word_eqI simp: bit_simps)
  qed
  show ?thesis
    unfolding write_fis_def fis_fields_def using u [of 0]
    by (simp add: u z b c fis_bytes_def r)
qed

lemma write_fis_frame:
  assumes "sep b k a 20" and "0 < k"
  shows "get_bytes b k (write_fis a command sector count m) = get_bytes b k m"
proof -
  have u: "get_bytes b k (m(a + w := v)) = get_bytes b k m" if "unat w < 20" for m w v
  proof -
    have "m(a + w := v) = put_bytes (a + of_nat (unat w)) [v] m"
      by (auto simp: put_bytes_def fun_eq_iff unsigned_eq_0_iff)
    moreover have "sep b k (a + of_nat (unat w)) 1" by (rule within_sep [OF assms(1)]) (use that assms in auto)
    ultimately show ?thesis by (simp only: get_put_sep length_Cons list.size One_nat_def add_0)
  qed
  have z: "get_bytes b k (memset a 0 20 m) = get_bytes b k m"
    using assms by (simp add: get_memset_sep)
  show ?thesis unfolding write_fis_def fis_fields_def using u [of 0] by (simp add: u z)
qed

lemma update_header_fields:
  assumes "m' = update_header hdr write n m" and "n < 2 ^ 16"
  shows "load16 hdr m' = (if write then 0x45 else 5)" and "load16 (hdr + 2) m' = of_nat n"
    and "load32 (hdr + 8) m' = load32 (hdr + 8) m" and "load32 (hdr + 12) m' = load32 (hdr + 12) m"
    and "load32 (hdr + 4) m' = 0"
proof -
  have s: "sep (hdr + of_nat p) k (hdr + of_nat q) l"
    if "p + k \<le> q \<or> q + l \<le> p" "p < 32" "q < 32" "k \<in> {2, 4}" "l \<in> {2, 4}" for p q k l
    using small_sep [of p k q l hdr] that by auto
  have l16: "load16 a (put_bytes b bs m) = load16 a m" if "sep a 2 b (length bs)" for a b bs m
    using that by (simp add: load16_def get_put_sep)
  have z: "get_bytes hdr 2 (memset hdr 0 32 m) = [0, 0]" for m
  proof -
    have "get_bytes hdr 2 (put_bytes hdr (replicate 32 0) m) = replicate 2 0"
      by (intro nth_equalityI) (simp_all add: put_bytes_def unat_of_nat64)
    moreover have "replicate 2 (0 :: u8) = [0, 0]" by (simp add: numeral_2_eq_2)
    ultimately show ?thesis by (simp add: memset_eq)
  qed
  have z16: "load16 hdr (memset hdr 0 32 m) = 0" for m by (simp add: load16_def z)
  note sep_rules = s [of 0 2 8 4] s [of 0 2 12 4] s [of 0 2 2 2] s [of 0 2 4 4] s [of 2 2 4 4] s [of 2 2 0 2]
    s [of 8 4 12 4] s [of 8 4 0 2] s [of 8 4 2 2] s [of 8 4 4 4] s [of 12 4 0 2] s [of 12 4 2 2] s [of 12 4 4 4]
  note rules = store32_def store16_def l16 load32_put_sep
  have ss: "sep hdr 2 (hdr + 8) 4" "sep hdr 2 (hdr + 12) 4" "sep hdr 2 (hdr + 2) 2" "sep hdr 2 (hdr + 4) 4"
    "sep (hdr + 2) 2 (hdr + 4) 4" "sep (hdr + 2) 2 hdr 2" "sep (hdr + 8) 4 (hdr + 12) 4" "sep (hdr + 8) 4 hdr 2"
    "sep (hdr + 8) 4 (hdr + 2) 2" "sep (hdr + 8) 4 (hdr + 4) 4" "sep (hdr + 12) 4 hdr 2"
    "sep (hdr + 12) 4 (hdr + 2) 2" "sep (hdr + 12) 4 (hdr + 4) 4"
    using sep_rules by simp_all
  show "load32 (hdr + 4) m' = 0" by (simp add: assms(1) update_header_def Let_def)
  show "load16 (hdr + 2) m' = of_nat n"
    using ss by (simp add: assms(1) update_header_def Let_def store32_def [of "hdr + 4"] l16)
  show "load32 (hdr + 8) m' = load32 (hdr + 8) m" "load32 (hdr + 12) m' = load32 (hdr + 12) m"
    using ss by (simp_all add: assms(1) update_header_def Let_def store32_def [of "hdr + 4"] store16_def
        store32_def [of "hdr + 12"] load32_put_sep)
      (simp_all add: store32_def [symmetric])
  have "load16 hdr m' = load16 hdr (store16 hdr (((0 :: u16) AND NOT 0x1F OR 5) AND NOT 0x40 OR push_bit 6 (of_bool write)) m)"
    using ss by (simp add: assms(1) update_header_def Let_def store32_def store16_def [of "hdr + 2"] l16 z16)
  then show "load16 hdr m' = (if write then 0x45 else 5)" by (cases "write") simp_all
qed


definition command_table :: "u64 \<Rightarrow> u64 \<Rightarrow> memory \<Rightarrow> u64" where
  "command_table off hdr m = off + (ucast (load32 (hdr + 8) m) OR push_bit 32 (ucast (load32 (hdr + 12) m)))"

lemma table_length: "0 < n \<Longrightarrow> n \<le> 8 \<Longrightarrow> unat (256 + (of_nat n - 1) * 16 :: u64) = 256 + 16 * (n - 1)"
  by (cases n) (simp_all add: unat_word_ariths unat_of_nat64)

lemma build_command_table:
  "build_command off w hdr n sector count buf m =
    write_fis (command_table off hdr m) (if w then 0x35 else 0x25) sector count
     (fill_prdt off (command_table off hdr m) n [0..<n] buf count
       (memset (command_table off hdr m) 0 (256 + (of_nat n - 1) * 16) (update_header hdr w n m)))"
  by (simp add: build_command_def Let_def command_table_def)

lemma build_command_frame:
  assumes "sep b k (command_table off hdr m) (256 + 16 * (n - 1))" and "0 < n" and "n \<le> 8" and "0 < k"
  shows "get_bytes b k (build_command off w hdr n sector count buf m) = get_bytes b k (update_header hdr w n m)"
proof -
  define t where "t = command_table off hdr m"
  have f: "sep b k (t + of_nat p) l" if "p + l \<le> 256" "0 < l" for p l
    by (rule within_sep [OF assms(1) [folded t_def]]) (use that assms in auto)
  have "sep b k (prdt_addr t i) 16" if "i < n" for i
    unfolding prdt_addr_nat by (rule f) (use that assms in auto)
  then have p: "get_bytes b k (fill_prdt off t n [0..<n] buf count m') = get_bytes b k m'" for m'
    using assms by (intro fill_prdt_frame) auto
  have w: "get_bytes b k (write_fis t c sector count m') = get_bytes b k m'" for c m'
    using f [of 0 20] assms by (intro write_fis_frame) auto
  have "get_bytes b k (memset t 0 (256 + (of_nat n - 1) * 16) m') = get_bytes b k m'" for m'
    by (rule get_memset_sep) (simp only: table_length [OF assms(2,3)] assms(1) [folded t_def])
  then show ?thesis unfolding build_command_table t_def [symmetric] by (simp only: p w)
qed

lemma build_command_entries:
  assumes "n = (unat count + 15) div 16" and "0 < unat count" and "n \<le> 8" and "i < n"
  shows "entry_at (command_table off hdr m) i (build_command off w hdr n sector count buf m) = entry_spec off n buf count i"
proof -
  define t where "t = command_table off hdr m"
  have "0 < n" using assms by simp
  have "entry_at t i (write_fis t c sector count m') = entry_at t i m'" for c m'
  proof (rule entry_at_cong, rule write_fis_frame)
    show "sep (prdt_addr t i) 16 t 20"
      unfolding prdt_addr_nat using small_sep [of "128 + 16 * i" 16 0 20 t] assms by simp
  qed simp
  then show ?thesis
    unfolding build_command_table t_def [symmetric]
    using fill_prdt_spec [OF assms(1,3), where k = 0 and i = i and off = off and t = t and buf = buf] assms(4) by simp
qed

lemma command_sectors:
  "n = (count + 15) div 16 \<Longrightarrow> (\<Sum>i<n. 512 * min 16 (count - 16 * i)) = 512 * (count :: nat)"
proof -
  have "(\<Sum>i<k. 512 * min 16 (count - 16 * i)) = 512 * min (16 * k) count" for k
    by (induction k) (auto simp: min_def)
  moreover assume n: "n = (count + 15) div 16"
  moreover have "count \<le> 16 * n" unfolding n by presburger
  ultimately show ?thesis by simp
qed

text \<open>C6. For every transfer of 1 to 128 sectors, the command prepared for the controller
  carries the ATA opcode, the 32-bit sector number and the count in its FIS; the PRDT length in
  the header is the number of entries; entry \<open>i\<close> points at the buffer's physical address plus
  8192 i, is no longer than sixteen sectors, and only the last asks for an interrupt; together
  the entries cover exactly \<open>count\<close> sectors.\<close>

theorem command_prepared:
  assumes "n = (unat count + 15) div 16" and "0 < unat count" and "n \<le> 8"
    and "sep hdr 32 (command_table off hdr m) (256 + 16 * (n - 1))"
    and "m' = build_command off w hdr n sector count buf m"
  shows "load16 hdr m' = (if w then 0x45 else 5) \<and> load16 (hdr + 2) m' = of_nat n \<and>
    command_table off hdr m' = command_table off hdr m \<and>
    get_bytes (command_table off hdr m) 20 m' = fis_bytes (if w then 0x35 else 0x25) sector count \<and>
    (\<forall>i<n. entry_at (command_table off hdr m) i m' =
       (buf + of_nat (8192 * i) - off, of_nat (512 * min 16 (unat count - 16 * i) - 1), i + 1 = n)) \<and>
    (\<Sum>i<n. 512 * min 16 (unat count - 16 * i)) = 512 * unat count"
proof -
  have n: "0 < n" using assms by simp
  have h: "get_bytes (hdr + of_nat p) k m' = get_bytes (hdr + of_nat p) k (update_header hdr w n m)"
    if "p + k \<le> 32" "0 < k" for p k
  proof -
    have "sep (command_table off hdr m) (256 + 16 * (n - 1)) (hdr + of_nat p) k"
      by (rule within_sep [OF assms(4) [unfolded sep_commute [of hdr]]]) (use that in auto)
    then show ?thesis unfolding assms(5) using n assms(3) that by (intro build_command_frame) (simp_all add: sep_commute)
  qed
  have "n < 2 ^ 16" using assms(3) by simp
  note fields = update_header_fields [OF refl this, of hdr w m]
  have hs: "load16 hdr m' = load16 hdr (update_header hdr w n m)"
    "load16 (hdr + 2) m' = load16 (hdr + 2) (update_header hdr w n m)"
    "load32 (hdr + 8) m' = load32 (hdr + 8) (update_header hdr w n m)"
    "load32 (hdr + 12) m' = load32 (hdr + 12) (update_header hdr w n m)"
    using h [of 0 2] h [of 2 2] h [of 8 4] h [of 12 4] by (simp_all add: load16_def load32_def)
  have f: "get_bytes (command_table off hdr m) 20 m' = fis_bytes (if w then 0x35 else 0x25) sector count"
    by (simp add: assms(5) build_command_table write_fis_bytes)
  have e: "\<forall>i<n. entry_at (command_table off hdr m) i m' =
       (buf + of_nat (8192 * i) - off, of_nat (512 * min 16 (unat count - 16 * i) - 1), i + 1 = n)"
    unfolding assms(5) using build_command_entries [OF assms(1-3)] by (simp add: entry_spec_def)
  show ?thesis
    using hs fields f e command_sectors [OF assms(1)] by (simp add: command_table_def)
qed


lemma load32_zero: "load32 a (\<lambda>_. 0) = 0"
proof -
  have "get_bytes a 4 (\<lambda>_. 0) = [0, 0, 0, 0]"
    by (simp add: get_bytes_def map_replicate_trivial numeral_eq_Suc)
  then show ?thesis by (simp add: load32_def)
qed

lemma command_prepared_witness:
  "entry_at 0x8000 0 (build_command 0x8000 False 0x1000 1 7 3 0x20000 (\<lambda>_. 0)) = (0x18000, 1535, True)"
  using command_prepared [where n = 1 and count = 3 and hdr = "0x1000" and off = "0x8000" and m = "\<lambda>_. 0"
    and w = False and sector = 7 and buf = "0x20000", OF _ _ _ _ refl]
  by (simp add: command_table_def load32_zero sep_def)

text \<open>C31. A transfer of more than sixteen sectors clears more than its own command table:
  the tables of a port are 256 bytes apart, and the first \<open>16 (n - 1)\<close> bytes of the next
  one are zero when the command has been prepared.\<close>

theorem command_table_overrun:
  assumes "n = (unat count + 15) div 16" and "16 < unat count" and "n \<le> 8" and "p < 32" and "i < 31"
    and "command_table off hdr m = off + ctba_phys p i"
  shows "get_bytes (off + ctba_phys p (i + 1)) (16 * (n - 1)) (build_command off w hdr n sector count buf m)
    = replicate (16 * (n - 1)) 0"
proof -
  define t where "t = off + ctba_phys p i"
  have n: "0 < n" "1 < n" using assms by auto
  have "unat (ctba_phys p (i + 1)) = unat (ctba_phys p i + 256)"
    using assms by (simp add: unat_word_ariths unat_ctba_phys)
  then have "ctba_phys p (i + 1) = ctba_phys p i + 256" by (simp only: word_unat_eq_iff)
  then have next_table: "off + ctba_phys p (i + 1) = t + of_nat 256" by (simp add: t_def)
  have sp: "sep (t + of_nat 256) (16 * (n - 1)) (t + of_nat q) l" if "q + l \<le> 256" "0 < l" for q l
    by (rule small_sep) (use that assms n in auto)
  have e: "sep (t + of_nat 256) (16 * (n - 1)) (prdt_addr t j) 16" if "j < n" for j
    unfolding prdt_addr_nat by (rule sp) (use that assms(3) in auto)
  have a: "get_bytes (t + of_nat 256) (16 * (n - 1)) (fill_prdt off t n [0..<n] buf count m') =
      get_bytes (t + of_nat 256) (16 * (n - 1)) m'" for m'
    using assms n e by (intro fill_prdt_frame) auto
  have b: "get_bytes (t + of_nat 256) (16 * (n - 1)) (write_fis t c sector count m') =
      get_bytes (t + of_nat 256) (16 * (n - 1)) m'" for c m'
    using n sp [of 0 20] by (intro write_fis_frame) auto
  have z: "get_bytes (t + of_nat 256) (16 * (n - 1)) (memset t 0 (256 + (of_nat n - 1) * 16) m') =
      replicate (16 * (n - 1)) 0" for m'
  proof (rule nth_equalityI)
    fix k assume "k < length (get_bytes (t + of_nat 256) (16 * (n - 1)) (memset t 0 (256 + (of_nat n - 1) * 16) m'))"
    then have k: "k < 16 * (n - 1)" by simp
    then have "unat (t + of_nat 256 + of_nat k - t) = 256 + k"
      using assms(3) unat_of_nat64 [of "256 + k"] by simp
    then show "get_bytes (t + of_nat 256) (16 * (n - 1)) (memset t 0 (256 + (of_nat n - 1) * 16) m') ! k =
        replicate (16 * (n - 1)) 0 ! k"
      using k by (simp only: nth_get_bytes memset_eq put_bytes_def table_length [OF n(1) assms(3)] length_replicate) simp
  qed simp
  show ?thesis unfolding next_table build_command_table assms(6) t_def [symmetric] by (simp only: a b z)
qed

lemma command_table_overrun_witness:
  "get_bytes 0x80000040A100 16 (build_command 0x800000000000 False 0x1000 2 7 17 0x20000
     (store32 0x1008 0x40A000 (store32 0x100C 0 (\<lambda>_. 0xFF)))) = replicate 16 0"
proof -
  have "load32 0x100C (store32 0x1008 0x40A000 (store32 0x100C 0 (\<lambda>_. 0xFF))) = 0"
    by (simp add: store32_sep sep_def)
  then have "command_table 0x800000000000 0x1000 (store32 0x1008 0x40A000 (store32 0x100C 0 (\<lambda>_. 0xFF))) =
      0x800000000000 + ctba_phys 0 0"
    by (simp add: command_table_def ctba_phys_def AHCI_BASE_def)
  from command_table_overrun [OF _ _ _ _ _ this, where n = 2 and count = 17 and w = False and sector = 7 and buf = "0x20000"]
  show ?thesis by (simp add: ctba_phys_def AHCI_BASE_def)
qed

lemma table_order:
  fixes x y i j :: nat
  assumes "i < 32" and "j < 32" and "i \<noteq> j"
  shows "256 + (8192 * y + 256 * j) \<le> 8192 * x + 256 * i \<or> 8192 * x + (256 * i + 256) \<le> 8192 * y + 256 * j"
  using assms by (cases x y rule: linorder_cases) linarith+

datatype ahci_area = Command_List nat | Receive_Fis nat | Command_Table nat nat

fun area_range :: "ahci_area \<Rightarrow> u64 \<times> nat" where
  "area_range (Command_List p) = (clb_phys p, 1024)"
| "area_range (Receive_Fis p) = (fb_phys p, 256)"
| "area_range (Command_Table p i) = (ctba_phys p i, 256)"

fun area_ok :: "ahci_area \<Rightarrow> bool" where
  "area_ok (Command_List p) = (p < 32)"
| "area_ok (Receive_Fis p) = (p < 32)"
| "area_ok (Command_Table p i) = (p < 32 \<and> i < 32)"

text \<open>The fixed area of the driver: the command lists, receive areas and command tables of
  all 32 ports lie inside the 0x4A000 bytes from \<open>AHCI_BASE\<close> that \<open>ahci_init\<close> maps, and no two
  of them meet.\<close>

theorem ahci_areas_apart:
  assumes "area_ok a" and "area_ok b"
  shows "(case area_range a of (x, n) \<Rightarrow>
      unat AHCI_BASE \<le> unat x \<and> unat x + n \<le> unat AHCI_BASE + 0x4A000 \<and>
      (a \<noteq> b \<longrightarrow> (case area_range b of (y, k) \<Rightarrow> unat x + n \<le> unat y \<or> unat y + k \<le> unat x)))"
  using assms
  by (cases a; cases b) (auto simp: unat_clb_phys unat_fb_phys unat_ctba_phys AHCI_BASE_def, metis table_order)

lemma ahci_areas_apart_witness: "unat (ctba_phys 31 31) + 256 \<le> unat AHCI_BASE + 0x4A000"
  using ahci_areas_apart [of "Command_Table 31 31" "Command_Table 31 31"] by simp

text \<open>\<open>ahci_init\<close> maps one page of a controller's registers, which ends before the
  registers of ports 30 and 31.\<close>

theorem port_registers_mapped:
  "i < 32 \<Longrightarrow> unat (hba_port abar i - abar) + 0x80 \<le> 0x1000 \<longleftrightarrow> i < 30"
proof -
  assume i: "i < 32"
  have "unat (ucast i :: u64) = unat i" by (simp add: unsigned_ucast_eq take_bit_nat_eq_self_iff order.strict_trans [OF unsigned_less [of i]])
  moreover have "unat i < 32" using i by (simp add: word_less_nat_alt)
  moreover have "hba_port abar i - abar = 0x100 + ucast i * 0x80" by (simp add: hba_port_def)
  ultimately have "unat (hba_port abar i - abar) = 256 + 128 * unat i"
    by (simp add: unat_word_ariths)
  then show ?thesis by (auto simp: word_less_nat_alt)
qed

lemma port_registers_mapped_witness: "\<not> unat (hba_port 0xFEBF0000 31 - 0xFEBF0000) + 0x80 \<le> 0x1000"
  using port_registers_mapped [of 31 "0xFEBF0000"] by simp

lemma spin_ready_clear:
  "spin_ready hw hba spin s = (True, s') \<Longrightarrow> load32 (hba + 0x20) (mem s') AND ATA_BUSY_DRQ = 0"
proof (induction hw hba spin s rule: spin_ready.induct)
  case (1 hw hba spin s)
  show ?case
    using 1(2) 1(1) [OF refl prod.collapse] spin_ready.simps [of hw hba spin s]
    by (auto simp: rd32_def Let_def split: if_splits)
qed

lemma spin_ready_busy:
  "(\<And>s. load32 (hba + 0x20) (mem (hw s)) AND ATA_BUSY_DRQ \<noteq> 0) \<Longrightarrow> \<not> fst (spin_ready hw hba spin s)"
  by (induction hw hba spin s rule: spin_ready.induct) (subst spin_ready.simps, simp add: rd32_def Let_def)

lemma issue_ok_idle:
  "issue_command hw hba slot s = (0, s') \<Longrightarrow> load32 (hba + 0x20) (mem s') AND ATA_BUSY_DRQ = 0"
  by (auto simp: issue_command_def rd32_def Let_def case_prod_unfold split: if_splits)

text \<open>C19. A transfer reports success only for 1 to 128 sectors on a controller that was found,
  and only when the device has finished: its status register shows neither busy nor a pending
  data request.\<close>

theorem transfer_success:
  assumes "ahci_transfer hw w controller port sector count buf s = (0, s')"
  shows "0 < count \<and> count \<le> 128 \<and> controller < g_abar_count s \<and> g_abars s ! unat controller \<noteq> 0 \<and>
    load32 (hba_port (g_abars s ! unat controller) port + 0x20) (mem s') AND ATA_BUSY_DRQ = 0"
proof -
  have c: "0 < count" "controller < g_abar_count s" "g_abars s ! unat controller \<noteq> 0"
    using assms by (auto simp: ahci_transfer_def word_gt_0 not_le split: if_splits)
  have "\<not> 8 < (unat count + 15) div 16" and
    i: "load32 (hba_port (g_abars s ! unat controller) port + 0x20) (mem s') AND ATA_BUSY_DRQ = 0"
    using assms c
    by (auto simp: ahci_transfer_def Let_def case_prod_unfold not_less split: if_splits option.splits dest: issue_ok_idle)
  then have "unat count \<le> 128" by linarith
  then show ?thesis using c i by (simp add: word_le_nat_alt)
qed

text \<open>An idle machine with one controller, whose hardware finishes every command at once.\<close>

definition one_controller :: ahci_state where
  "one_controller = \<lparr>mem = (\<lambda>_. 0), offset = 0xFFFF800000000000, page_list = 0, kernel_pml4 = 0, cr3 = 0,
     invlpg_log = [], free_list = 0, heap_top = 0, io_log = [], apic_virt = 0, ioapic_virt = 0, apic_space = 0, apic_base_msr = 0, g_abars = [0xFEBF0000], g_abar_count = 1,
     g_controllers = [], g_count = 1, klog = []\<rparr>"

lemma transfer_success_witness:
  "\<exists>s'. ahci_transfer (\<lambda>s. s\<lparr>mem := \<lambda>_. 0\<rparr>) False 0 0 5 1 0x20000 one_controller = (0, s') \<and>
     load32 (hba_port 0xFEBF0000 0 + 0x20) (mem s') AND ATA_BUSY_DRQ = 0"
proof -
  have "fst (ahci_transfer (\<lambda>s. s\<lparr>mem := \<lambda>_. 0\<rparr>) False 0 0 5 1 0x20000 one_controller) = 0"
    by (simp add: ahci_transfer_def one_controller_def wr32_def find_cmdslot_def rd32_def load32_zero Let_def
        issue_command_def spin_ready.simps spin_done.simps update32_def upt_conv_Cons del: upt_rec_numeral)
  then obtain s' where "ahci_transfer (\<lambda>s. s\<lparr>mem := \<lambda>_. 0\<rparr>) False 0 0 5 1 0x20000 one_controller = (0, s')"
    by (metis fst_conv surj_pair)
  moreover from transfer_success [OF this] have "load32 (hba_port 0xFEBF0000 0 + 0x20) (mem s') AND ATA_BUSY_DRQ = 0"
    by (simp add: one_controller_def)
  ultimately show ?thesis by blast
qed

text \<open>C20. A device that stays busy makes every transfer fail: the polling loop gives up after a
  million turns, and the function returns 1.\<close>

theorem transfer_times_out:
  assumes "\<And>s. load32 (hba_port (g_abars s0 ! unat controller) port + 0x20) (mem (hw s)) AND ATA_BUSY_DRQ \<noteq> 0"
  shows "fst (ahci_transfer hw w controller port sector count buf s0) = 1"
  using spin_ready_busy [OF assms]
  by (auto simp: ahci_transfer_def issue_command_def Let_def case_prod_unfold split: option.splits)

lemma transfer_times_out_witness:
  "fst (ahci_transfer (\<lambda>s. s\<lparr>mem := store32 (hba_port 0xFEBF0000 0 + 0x20) 0x80 (\<lambda>_. 0)\<rparr>) False 0 0 5 1 0x20000
     one_controller) = 1"
  by (rule transfer_times_out) (simp add: one_controller_def ATA_BUSY_DRQ_def)

end
