(* ===== verification/Fat16.thy ===== *)
theory Fat16
  imports Ahci
begin

unbundle bit_operations_syntax

text \<open>
  The FAT16 volumes of \<open>src/kernel/src/fs/fat16.c\<close> and the stubs of
  \<open>src/kernel/src/fs/vfs.c\<close>. The first sector of a volume is read into the packed structure
  \<open>fat\<close> (\<open>struct bpb\<close>, \<open>struct ebr\<close>); the list of mounted volumes is a chain of heap nodes
  of 72 bytes in the modelled memory, the 62 bytes of a \<open>fat\<close> first and the next pointer at
  offset 64. Sector writes and reads go through \<open>wr\<close> and \<open>rd\<close>, which \<open>fat16_format\<close> and
  \<open>read_fat\<close> take to be the driver's \<open>ahci_write\<close> and \<open>ahci_read\<close> of one sector.
\<close>

record bpb =
  jmp_boot :: "u8 list"
  oem_name :: "u8 list"
  bps :: u16
  spc :: u8
  rsc :: u16
  num_fats :: u8
  rec :: u16
  ts16 :: u16
  media :: u8
  fat_s :: u16
  spt :: u16
  heads :: u16
  hidden :: u32
  ts32 :: u32

record ebr =
  drive_num :: u8
  r1 :: u8
  bsig :: u8
  vol_id :: u32
  vol_lab :: "u8 list"
  f_type :: "u8 list"

record fat =
  fat_bpb :: bpb
  fat_ebr :: ebr

record fat_state = ahci_state +
  vol_head :: u64
  vol_count :: u64
  vol_ready :: bool

definition AHCI :: u32 where "AHCI = 0"
definition FAT_SIZEOF :: u64 where "FAT_SIZEOF = 62"
definition FAT_NODE_SIZEOF :: u64 where "FAT_NODE_SIZEOF = 72"

definition read_bpb :: "u64 \<Rightarrow> memory \<Rightarrow> bpb" where
  "read_bpb a m =
     \<lparr>jmp_boot = get_bytes a 3 m, oem_name = get_bytes (a + 3) 8 m, bps = load16 (a + 11) m, spc = m (a + 13),
      rsc = load16 (a + 14) m, num_fats = m (a + 16), rec = load16 (a + 17) m, ts16 = load16 (a + 19) m,
      media = m (a + 21), fat_s = load16 (a + 22) m, spt = load16 (a + 24) m, heads = load16 (a + 26) m,
      hidden = load32 (a + 28) m, ts32 = load32 (a + 32) m\<rparr>"

definition read_ebr :: "u64 \<Rightarrow> memory \<Rightarrow> ebr" where
  "read_ebr a m =
     \<lparr>drive_num = m a, r1 = m (a + 1), bsig = m (a + 2), vol_id = load32 (a + 3) m,
      vol_lab = get_bytes (a + 7) 11 m, f_type = get_bytes (a + 18) 8 m\<rparr>"

definition read_fat_struct :: "u64 \<Rightarrow> memory \<Rightarrow> fat" where
  "read_fat_struct a m = \<lparr>fat_bpb = read_bpb a m, fat_ebr = read_ebr (a + 36) m\<rparr>"

subsection \<open>The list of volumes\<close>

definition node_next :: "u64 \<Rightarrow> memory \<Rightarrow> u64" where
  "node_next node m = load64 (node + 64) m"

definition node_vol_id :: "u64 \<Rightarrow> memory \<Rightarrow> u32" where
  "node_vol_id node m = load32 (node + 39) m"

definition fat_list_init :: "'z fat_state_scheme \<Rightarrow> 'z fat_state_scheme" where
  "fat_list_init s = s\<lparr>vol_head := 0, vol_count := 0\<rparr>"

partial_function (option) list_last :: "memory \<Rightarrow> u64 \<Rightarrow> u64 option" where
  "list_last m cur = (if node_next cur m \<noteq> 0 then list_last m (node_next cur m) else Some cur)"

definition fat_list_push_back :: "u64 \<Rightarrow> 'z fat_state_scheme \<Rightarrow> (u64, 'z fat_state_scheme) kres" where
  "fat_list_push_back data s =
     kbind (kmalloc FAT_NODE_SIZEOF s) (\<lambda>node s.
     if node = 0 then kret 0 s
     else let s = s\<lparr>mem := memcpy node data FAT_SIZEOF (mem s)\<rparr>;
              s = s\<lparr>mem := store64 (node + 64) 0 (mem s)\<rparr>
       in if vol_head s = 0 then kret node (s\<lparr>vol_head := node, vol_count := vol_count s + 1\<rparr>)
          else case list_last (mem s) (vol_head s) of
                 None \<Rightarrow> Inl Diverges
               | Some cur \<Rightarrow>
                   kret node (s\<lparr>mem := store64 (cur + 64) node (mem s), vol_count := vol_count s + 1\<rparr>))"

partial_function (option) find_vol_id :: "memory \<Rightarrow> u64 \<Rightarrow> u32 \<Rightarrow> u64 option" where
  "find_vol_id m cur vid =
     (if cur = 0 then Some 0
      else if node_vol_id cur m = vid then Some cur
      else find_vol_id m (node_next cur m) vid)"

definition fat_list_find_vol_id :: "u32 \<Rightarrow> 'z fat_state_scheme \<Rightarrow> u64 option" where
  "fat_list_find_vol_id vid s = find_vol_id (mem s) (vol_head s) vid"

partial_function (option) free_nodes :: "u64 \<Rightarrow> 'z fat_state_scheme \<Rightarrow> 'z fat_state_scheme option" where
  "free_nodes cur s =
     (if cur \<noteq> 0 then let tmp = node_next cur (mem s) in free_nodes tmp (kfree cur s) else Some s)"

definition fat_list_free :: "'z fat_state_scheme \<Rightarrow> 'z fat_state_scheme option" where
  "fat_list_free s =
     (case free_nodes (vol_head s) s of
        None \<Rightarrow> None
      | Some s \<Rightarrow> Some (s\<lparr>vol_head := 0, vol_count := 0\<rparr>))"

subsection \<open>Formatting\<close>

definition ROOT_DIR_SECTORS :: u32 where "ROOT_DIR_SECTORS = (512 * 32 + 512 - 1) div 512"

partial_function (option) fat_size_loop :: "u32 \<Rightarrow> u16 \<Rightarrow> u16 option" where
  "fat_size_loop total_sectors fat_size =
     (let data_sectors = total_sectors - 1 - 2 * ucast fat_size - ROOT_DIR_SECTORS in
      if sint data_sectors \<le> 0 then Some 0
      else let cluster_count = data_sectors div 8 in
        if cluster_count < 4085 \<or> cluster_count \<ge> 65525 then Some 0
        else let fat_next = ucast ((cluster_count * 2 + 512 - 1) div 512) in
          if fat_next = fat_size then Some fat_size else fat_size_loop total_sectors fat_next)"

definition fat16_compute_fat_size :: "u32 \<Rightarrow> u16 option" where
  "fat16_compute_fat_size total_sectors = fat_size_loop total_sectors 1"

definition FAT16_OEM :: "u8 list" where "FAT16_OEM = [0x4D, 0x53, 0x44, 0x4F, 0x53, 0x35, 0x2E, 0x30]"
definition FAT16_VOL_LABEL :: "u8 list" where
  "FAT16_VOL_LABEL = [0x4E, 0x4F, 0x20, 0x4E, 0x41, 0x4D, 0x45, 0x20, 0x20, 0x20, 0x20]"
definition FAT16_FS_TYPE :: "u8 list" where "FAT16_FS_TYPE = [0x46, 0x41, 0x54, 0x31, 0x36, 0x20, 0x20, 0x20]"

text \<open>The assignments to the boot sector, in the order of the code: offset and bytes.\<close>

definition boot_fields :: "u32 \<Rightarrow> u16 \<Rightarrow> (nat \<times> u8 list) list" where
  "boot_fields total_sectors fat_size =
     [(0, [0xEB]), (1, [0x3C]), (2, [0x90]), (3, FAT16_OEM),
      (11, [0x00]), (12, [0x02]), (13, [8]), (14, [1]), (15, [0]), (16, [2]), (17, [0x00]), (18, [0x02])]
     @ (if total_sectors \<le> 0xFFFF
        then [(19, [ucast (total_sectors AND 0xFF)]), (20, [ucast (drop_bit 8 total_sectors)])] else [])
     @ [(21, [0xF8]), (22, [ucast (fat_size AND 0xFF)]), (23, [ucast (drop_bit 8 fat_size)]),
        (24, [63]), (25, [0]), (26, [255]), (27, [0]), (28, [0]), (29, [0]), (30, [0]), (31, [0])]
     @ (if total_sectors > 0xFFFF
        then [(32, [ucast (total_sectors AND 0xFF)]), (33, [ucast (drop_bit 8 total_sectors AND 0xFF)]),
              (34, [ucast (drop_bit 16 total_sectors AND 0xFF)]), (35, [ucast (drop_bit 24 total_sectors AND 0xFF)])] else [])
     @ [(36, [0x80]), (37, [0]), (38, [0x29]), (39, [0x78]), (40, [0x56]), (41, [0x34]), (42, [0x12]),
        (43, FAT16_VOL_LABEL), (54, FAT16_FS_TYPE), (510, [0x55]), (511, [0xAA])]"

definition fill_boot :: "u64 \<Rightarrow> u32 \<Rightarrow> u16 \<Rightarrow> memory \<Rightarrow> memory" where
  "fill_boot sector total_sectors fat_size m =
     fold (\<lambda>(i, bs) m. put_bytes (sector + of_nat i) bs m) (boot_fields total_sectors fat_size) (memset sector 0 512 m)"

definition zero_sector :: "u64 \<Rightarrow> 'z fat_state_scheme \<Rightarrow> 'z fat_state_scheme" where
  "zero_sector sector s = s\<lparr>mem := memset sector 0 512 (mem s)\<rparr>"

text \<open>The loops that write consecutive sectors: \<open>for (j = i; j < n; j++)\<close>, \<open>wr\<close> at \<open>base + j\<close>,
  leaving with the error code \<open>err\<close> at the first write that fails.\<close>

type_synonym 's sector_write = "u32 \<Rightarrow> u64 \<Rightarrow> 's \<Rightarrow> u8 \<times> 's"

fun write_sectors :: "'s sector_write \<Rightarrow> u8 \<Rightarrow> u32 \<Rightarrow> u64 \<Rightarrow> nat list \<Rightarrow> 's \<Rightarrow> u8 \<times> 's" where
  "write_sectors wr err base sector [] s = (0, s)"
| "write_sectors wr err base sector (j # js) s =
     (let (r, s) = wr (base + of_nat j) sector s in
      if r \<noteq> 0 then (err, s) else write_sectors wr err base sector js s)"

fun write_fats :: "'z fat_state_scheme sector_write \<Rightarrow> u64 \<Rightarrow> u16 \<Rightarrow> nat list \<Rightarrow> 'z fat_state_scheme \<Rightarrow> u8 \<times> 'z fat_state_scheme" where
  "write_fats wr sector fat_size [] s = (0, s)"
| "write_fats wr sector fat_size (i # is) s =
     (let base = 1 + of_nat i * ucast fat_size; (r, s) = wr base sector s in
      if r \<noteq> 0 then (5, s)
      else let s = zero_sector sector s;
               (r, s) = write_sectors wr 6 base sector [1..<unat fat_size] s
        in if r \<noteq> 0 then (r, s) else write_fats wr sector fat_size is s)"

text \<open>The body of \<open>fat16_format\<close> between \<open>frame_alloc\<close> and \<open>frame_free\<close>.\<close>

definition format_sectors ::
  "'z fat_state_scheme sector_write \<Rightarrow> u64 \<Rightarrow> u32 \<Rightarrow> u16 \<Rightarrow> 'z fat_state_scheme \<Rightarrow> u8 \<times> 'z fat_state_scheme" where
  "format_sectors wr sector total_sectors fat_size s =
     (let s = s\<lparr>mem := fill_boot sector total_sectors fat_size (mem s)\<rparr>;
          (r, s) = wr 0 sector s
      in if r \<noteq> 0 then (4, s)
         else let s = zero_sector sector s;
                  s = s\<lparr>mem := (mem s)(sector := 0xF8, sector + 1 := 0xFF, sector + 2 := 0xFF, sector + 3 := 0xFF)\<rparr>;
                  (r, s) = write_fats wr sector fat_size [0..<2] s
           in if r \<noteq> 0 then (r, s)
              else let s = zero_sector sector s
                in write_sectors wr 7 (1 + 2 * ucast fat_size) sector [0..<unat ROOT_DIR_SECTORS] s)"

definition fat16_format_with ::
  "'z fat_state_scheme sector_write \<Rightarrow> u32 \<Rightarrow> u32 \<Rightarrow> 'z fat_state_scheme \<Rightarrow> (u8, 'z fat_state_scheme) kres" where
  "fat16_format_with wr type total_sectors s =
     (if type \<noteq> AHCI then kret 1 s
      else case fat16_compute_fat_size total_sectors of
             None \<Rightarrow> Inl Diverges
           | Some fat_size \<Rightarrow>
               if fat_size = 0 then kret 2 s
               else let (phys, s) = frame_alloc s in
                 if phys = 0 then kret 3 s
                 else let (r, s) = format_sectors wr (phys_virt s phys) total_sectors fat_size s
                   in kret r (frame_free phys s))"

definition fat16_format ::
  "'z fat_state_ext hw \<Rightarrow> u32 \<Rightarrow> u8 \<Rightarrow> u8 \<Rightarrow> u32 \<Rightarrow> 'z fat_state_scheme \<Rightarrow> (u8, 'z fat_state_scheme) kres" where
  "fat16_format hw type controller port =
     fat16_format_with (\<lambda>lba buf. ahci_write hw controller port lba 1 buf) type"

subsection \<open>Mounting\<close>

definition fat16_read ::
  "'z fat_state_ext hw \<Rightarrow> u32 \<Rightarrow> u8 \<Rightarrow> u8 \<Rightarrow> u32 \<Rightarrow> u8 \<Rightarrow> u64 \<Rightarrow> 'z fat_state_scheme \<Rightarrow> u8 \<times> 'z fat_state_scheme" where
  "fat16_read hw type controller port lba count buffer s =
     (if type \<noteq> AHCI then (1, s) else ahci_read hw controller port lba count buffer s)"

definition read_fat ::
  "'z fat_state_ext hw \<Rightarrow> u32 \<Rightarrow> u8 \<Rightarrow> u8 \<Rightarrow> 'z fat_state_scheme \<Rightarrow> (u64, 'z fat_state_scheme) kres" where
  "read_fat hw type controller port s =
     (let (phys, s) = frame_alloc s in
      if phys = 0 then kret 0 s
      else let sector = phys_virt s phys in
        if type = AHCI then
          let (r, s) = ahci_read hw controller port 0 1 sector s in
          if r \<noteq> 0 then kret 0 (frame_free phys s)
          else kbind (kmalloc FAT_SIZEOF s) (\<lambda>f s.
            if f = 0 then kret 0 (frame_free phys s)
            else let s = s\<lparr>mem := memcpy f sector FAT_SIZEOF (mem s)\<rparr>
              in kret f (frame_free phys s))
        else kret 0 (frame_free phys s))"

definition fat16_validate :: "fat \<Rightarrow> u8" where
  "fat16_validate f =
     (let b = fat_bpb f; e = fat_ebr f in
      if bps b < 512 \<or> bps b > 4096 \<or> bps b AND (bps b - 1) \<noteq> 0 then 1
      else if spc b = 0 \<or> spc b AND (spc b - 1) \<noteq> 0 then 2
      else if rsc b < 1 then 3
      else if num_fats b < 1 then 4
      else if fat_s b = 0 then 5
      else if ts16 b = 0 \<and> ts32 b = 0 then 6
      else if bsig e \<noteq> 0x29 then 7
      else if vol_id e = 0 then 8
      else 0)"

text \<open>The characters of an array that is followed by a zero byte.\<close>

definition c_string :: "u8 list \<Rightarrow> string" where
  "c_string bs = map (\<lambda>b. char_of (unat b)) (takeWhile (\<lambda>b. b \<noteq> 0) bs)"

definition fat16_debug_print :: "fat \<Rightarrow> 'z fat_state_scheme \<Rightarrow> 'z fat_state_scheme" where
  "fat16_debug_print f s =
     (let b = fat_bpb f; e = fat_ebr f;
          oem = c_string (take 8 (oem_name b)); lab = c_string (take 11 (vol_lab e)); type = c_string (take 8 (f_type e));
          s = log_info ''FAT16 BPB: oem='%s' bps=%u spc=%u rsc=%u fats=%u root=%u ts16=%u media=0x%02x fat_s=%u hidden=%u ts32=%u''
            (Str oem # map Word [ucast (bps b), ucast (spc b), ucast (rsc b), ucast (num_fats b), ucast (rec b),
              ucast (ts16 b), ucast (media b), ucast (fat_s b), ucast (hidden b), ucast (ts32 b)]) s
      in log_info (''FAT16 EBR: sig=0x%02x vol_id=0x%08x label='%s' type='%s'' @ [CHR 0x27])
           [Word (ucast (bsig e)), Word (ucast (vol_id e)), Str lab, Str type] s)"

definition fat16_init ::
  "'z fat_state_ext hw \<Rightarrow> u32 \<Rightarrow> u8 \<Rightarrow> u8 \<Rightarrow> 'z fat_state_scheme \<Rightarrow> (u8, 'z fat_state_scheme) kres" where
  "fat16_init hw type controller port s =
     (let s = (if vol_ready s then s else (fat_list_init s)\<lparr>vol_ready := True\<rparr>) in
      kbind (read_fat hw type controller port s) (\<lambda>f s.
      if f = 0 then kret 1 s
      else let d = read_fat_struct f (mem s);
               s = fat16_debug_print d s
        in if fat16_validate d \<noteq> 0 then kret 2 (kfree f s)
           else case fat_list_find_vol_id (vol_id (fat_ebr d)) s of
                  None \<Rightarrow> Inl Diverges
                | Some node \<Rightarrow>
                    if node \<noteq> 0 then kret 3 (kfree f s)
                    else kbind (fat_list_push_back f s) (\<lambda>node s.
                      if node = 0 then kret 4 (kfree f s) else kret 0 (kfree f s))))"

subsection \<open>The file system interface\<close>

definition vfs_mount :: "u32 \<Rightarrow> u8 \<Rightarrow> u8 \<Rightarrow> u8" where "vfs_mount type controller port = 0"
definition vfs_read :: "u64 \<Rightarrow> u64 \<Rightarrow> u32 \<Rightarrow> u8" where "vfs_read path buffer n = 1"
definition vfs_write :: "u64 \<Rightarrow> u64 \<Rightarrow> u32 \<Rightarrow> u8" where "vfs_write path buffer n = 1"
definition vfs_format :: "u32 \<Rightarrow> u8 \<Rightarrow> u8 \<Rightarrow> u32 \<Rightarrow> u8" where "vfs_format type controller port total_sectors = 1"

subsection \<open>The size of a FAT\<close>

definition fat_clusters :: "u32 \<Rightarrow> u16 \<Rightarrow> u32" where
  "fat_clusters total_sectors fat_size = (total_sectors - 1 - 2 * ucast fat_size - ROOT_DIR_SECTORS) div 8"

lemma fat_size_loop_step:
  "fat_size_loop t f =
     (if sint (t - 1 - 2 * ucast f - ROOT_DIR_SECTORS) \<le> 0 then Some 0
      else if fat_clusters t f < 4085 \<or> fat_clusters t f \<ge> 65525 then Some 0
      else let g = ucast ((511 + fat_clusters t f * 2) div 512) in if g = f then Some f else fat_size_loop t g)"
  by (subst fat_size_loop.simps) (simp add: Let_def fat_clusters_def)

lemma fat_size_loop_result:
  assumes "fat_size_loop t f = Some y"
  shows "y = 0 \<or> 0 < sint (t - 1 - 2 * ucast y - ROOT_DIR_SECTORS) \<and> 4085 \<le> fat_clusters t y \<and> fat_clusters t y < 65525 \<and>
       ucast ((511 + fat_clusters t y * 2) div 512) = y"
proof (rule fat_size_loop.raw_induct [OF _ assms])
  fix loop :: "u32 \<Rightarrow> u16 \<Rightarrow> u16 option" and t f y
  assume "\<And>t f y. loop t f = Some y \<Longrightarrow>
      y = 0 \<or> 0 < sint (t - 1 - 2 * ucast y - ROOT_DIR_SECTORS) \<and> 4085 \<le> fat_clusters t y \<and> fat_clusters t y < 65525 \<and>
       ucast ((511 + fat_clusters t y * 2) div 512) = y"
    and "(let data_sectors = t - 1 - 2 * ucast f - ROOT_DIR_SECTORS in
      if sint data_sectors \<le> 0 then Some 0
      else let cluster_count = data_sectors div 8 in
        if cluster_count < 4085 \<or> cluster_count \<ge> 65525 then Some 0
        else let fat_next = ucast ((cluster_count * 2 + 512 - 1) div 512) in
          if fat_next = f then Some f else loop t fat_next) = Some y"
  then show "y = 0 \<or> 0 < sint (t - 1 - 2 * ucast y - ROOT_DIR_SECTORS) \<and> 4085 \<le> fat_clusters t y \<and> fat_clusters t y < 65525 \<and>
       ucast ((511 + fat_clusters t y * 2) div 512) = y"
    unfolding Let_def fat_clusters_def [symmetric]
    by (cases "ucast ((511 + fat_clusters t f * 2) div 512) = f") (auto simp: not_le not_less add.commute split: if_splits)
qed


lemma fat_size_cycle:
  assumes "fat_size_loop t f = Some y"
  shows "t = 32841 \<longrightarrow> f \<notin> {1, 16, 17}"
proof (rule fat_size_loop.raw_induct [OF _ assms])
  fix loop :: "u32 \<Rightarrow> u16 \<Rightarrow> u16 option" and t f y
  assume ih: "\<And>t f y. loop t f = Some y \<Longrightarrow> t = 32841 \<longrightarrow> f \<notin> {1, 16, 17}"
    and step: "(let data_sectors = t - 1 - 2 * ucast f - ROOT_DIR_SECTORS in
      if sint data_sectors \<le> 0 then Some 0
      else let cluster_count = data_sectors div 8 in
        if cluster_count < 4085 \<or> cluster_count \<ge> 65525 then Some 0
        else let fat_next = ucast ((cluster_count * 2 + 512 - 1) div 512) in
          if fat_next = f then Some f else loop t fat_next) = Some y"
  have "loop 32841 16 \<noteq> Some y" "loop 32841 17 \<noteq> Some y" using ih by blast+
  then show "t = 32841 \<longrightarrow> f \<notin> {1, 16, 17}"
    using step by (auto simp: Let_def ROOT_DIR_SECTORS_def)
qed

text \<open>C33. \<open>fat16_compute_fat_size\<close> does not return for a volume of 32841 sectors: its guesses
  alternate between 16 and 17 for ever, and so \<open>fat16_format\<close> hangs.\<close>

theorem fat_size_hangs: "fat16_compute_fat_size 32841 = None \<and> fat16_format hw AHCI controller port 32841 s = Inl Diverges"
proof -
  have "fat16_compute_fat_size 32841 = None"
    using fat_size_cycle [of 32841 1] unfolding fat16_compute_fat_size_def by (cases "fat_size_loop 32841 1") auto
  then show ?thesis by (simp add: fat16_format_def fat16_format_with_def)
qed

text \<open>The entries are counted for the clusters alone, not for the two reserved ones in
  front of them: a volume of 32833 sectors has 4096 clusters and a FAT of exactly 4096 entries,
  so its last two clusters have no entry.\<close>

theorem fat_size_short: "fat16_compute_fat_size 32833 = Some 16 \<and> unat (fat_clusters 32833 16) + 2 > 256 * 16"
proof -
  have "fat16_compute_fat_size 32833 = Some 16"
    unfolding fat16_compute_fat_size_def
    by (simp add: fat_size_loop_step [of _ 1] fat_size_loop_step [of _ 17] fat_size_loop_step [of _ 16]
        fat_clusters_def ROOT_DIR_SECTORS_def Let_def)
  then show ?thesis by (simp add: fat_clusters_def ROOT_DIR_SECTORS_def)
qed


subsection \<open>The boot sector\<close>

fun field_byte :: "(nat \<times> u8 list) list \<Rightarrow> nat \<Rightarrow> u8 \<Rightarrow> u8" where
  "field_byte [] k d = d"
| "field_byte ((i, bs) # fs) k d = field_byte fs k (if i \<le> k \<and> k < i + length bs then bs ! (k - i) else d)"

definition boot_sector :: "u32 \<Rightarrow> u16 \<Rightarrow> u8 list" where
  "boot_sector sectors fat_size = map (\<lambda>k. field_byte (boot_fields sectors fat_size) k 0) [0..<512]"

lemma put_bytes_at:
  assumes "i + length bs \<le> 512" and "k < 512"
  shows "put_bytes (a + of_nat i) bs m (a + of_nat k) =
    (if i \<le> k \<and> k < i + length bs then bs ! (k - i) else m (a + of_nat k))"
proof -
  have "a + of_nat k - (a + of_nat i) = of_nat k - (of_nat i :: u64)" by simp
  moreover have "unat (of_nat k - of_nat i :: u64) = (if i \<le> k then k - i else 18446744073709551616 + k - i)"
    using assms by (auto simp: unat_sub_if' unat_of_nat64)
  ultimately show ?thesis using assms by (auto simp: put_bytes_def)
qed

lemma fold_fields:
  assumes "\<forall>(i, bs)\<in>set fs. i + length bs \<le> 512" and "k < 512"
  shows "fold (\<lambda>(i, bs) m. put_bytes (a + of_nat i) bs m) fs m (a + of_nat k) = field_byte fs k (m (a + of_nat k))"
  using assms(1)
proof (induction fs arbitrary: m)
  case (Cons f fs)
  then show ?case using put_bytes_at [OF _ assms(2)] by (cases f) simp
qed simp

lemma boot_fields_bounds: "\<forall>(i, bs)\<in>set (boot_fields t f). i + length bs \<le> 512"
  by (auto simp: boot_fields_def FAT16_OEM_def FAT16_VOL_LABEL_def FAT16_FS_TYPE_def)

lemma memset_sector: "get_bytes a 512 (memset a c 512 m) = replicate 512 (ucast c)"
  by (simp add: memset_eq get_put_same)

lemma memset_sector_nth: "k < 512 \<Longrightarrow> memset a c 512 m (a + of_nat k) = ucast c"
  using arg_cong [OF memset_sector, of "\<lambda>xs. xs ! k" a c m] by simp

lemma fill_boot_bytes: "get_bytes a 512 (fill_boot a t f m) = boot_sector t f"
proof (rule nth_equalityI)
  fix k assume "k < length (get_bytes a 512 (fill_boot a t f m))"
  then have k: "k < 512" by simp
  then show "get_bytes a 512 (fill_boot a t f m) ! k = boot_sector t f ! k"
    by (simp add: fill_boot_def boot_sector_def fold_fields [OF boot_fields_bounds k] memset_sector_nth
        del: upt_rec_numeral)
qed (simp add: boot_sector_def)

lemma boot_sector_nth: "k < 512 \<Longrightarrow> boot_sector t f ! k = field_byte (boot_fields t f) k 0"
  by (simp add: boot_sector_def del: upt_rec_numeral)

text \<open>A structure read from memory that holds the first 62 bytes of a boot sector.\<close>

lemma boot_image_byte:
  assumes "get_bytes a 62 m = take 62 (boot_sector t f)" and "k < 62"
  shows "m (a + of_nat k) = field_byte (boot_fields t f) k 0"
  using arg_cong [OF assms(1), of "\<lambda>xs. xs ! k"] assms(2) by (simp add: boot_sector_nth)

lemma low_bytes: "ucast (ucast (x AND 0xFF) :: u8) OR push_bit 8 (ucast (ucast (drop_bit 8 x) :: u8)) = (x :: u16)"
proof (rule bit_word_eqI)
  fix n assume n: "n < LENGTH(16)"
  have "x AND 0xFF = take_bit 8 x" by (simp add: take_bit_eq_mask mask_eq_exp_minus_1)
  then show "bit (ucast (ucast (x AND 0xFF) :: u8) OR push_bit 8 (ucast (ucast (drop_bit 8 x) :: u8)) :: u16) n = bit x n"
    by (cases "n < 8") (use n in \<open>auto simp: bit_simps\<close>)
qed


lemma join32:
  "ucast (ucast (x AND 0xFF) :: u8) OR push_bit 8 (ucast (ucast (drop_bit 8 x AND 0xFF) :: u8) OR
     push_bit 8 (ucast (ucast (drop_bit 16 x AND 0xFF) :: u8) OR push_bit 8 (ucast (ucast (drop_bit 24 x AND 0xFF) :: u8))))
   = (x :: u32)" (is "?l = x")
proof (rule bit_word_eqI)
  fix n assume n: "n < LENGTH(32)"
  have m: "y AND 0xFF = take_bit 8 y" for y :: u32 by (simp add: take_bit_eq_mask mask_eq_exp_minus_1)
  consider "n < 8" | "8 \<le> n" "n < 16" | "16 \<le> n" "n < 24" | "24 \<le> n" by linarith
  then show "bit ?l n = bit x n"
    unfolding m by cases (use n in \<open>auto simp: bit_simps\<close>)
qed

lemma load16_bytes: "load16 a m = ucast (m a) OR push_bit 8 (ucast (m (a + 1)))"
proof -
  have "get_bytes a 2 m = [m a, m (a + 1)]" by (simp add: get_bytes_def numeral_2_eq_2)
  then show ?thesis by (simp add: load16_def)
qed

lemma load32_bytes:
  "load32 a m = ucast (m a) OR push_bit 8 (ucast (m (a + 1)) OR push_bit 8 (ucast (m (a + 2)) OR push_bit 8 (ucast (m (a + 3)))))"
proof -
  have "get_bytes a 4 m = [m a, m (a + 1), m (a + 2), m (a + 3)]" by (simp add: get_bytes_def numeral_eq_Suc)
  then show ?thesis by (simp add: load32_def)
qed

lemmas boot_eval = boot_fields_def FAT16_OEM_def FAT16_VOL_LABEL_def FAT16_FS_TYPE_def

lemma boot_image_fields:
  assumes "get_bytes a 62 m = take 62 (boot_sector t f)"
  shows "bps (read_bpb a m) = 512" "spc (read_bpb a m) = 8" "rsc (read_bpb a m) = 1" "num_fats (read_bpb a m) = 2"
    "rec (read_bpb a m) = 512" "fat_s (read_bpb a m) = f" "media (read_bpb a m) = 0xF8"
    "ts16 (read_bpb a m) = (if t \<le> 0xFFFF then ucast t else 0)" "ts32 (read_bpb a m) = (if t \<le> 0xFFFF then 0 else t)"
    "bsig (read_ebr (a + 36) m) = 0x29" "vol_id (read_ebr (a + 36) m) = 0x12345678"
proof -
  note B = boot_image_byte [OF assms]
  note b = B [of 11, simplified] B [of 12, simplified] B [of 13, simplified] B [of 14, simplified] B [of 15, simplified]
    B [of 16, simplified] B [of 17, simplified] B [of 18, simplified] B [of 19, simplified] B [of 20, simplified]
    B [of 21, simplified] B [of 22, simplified] B [of 23, simplified] B [of 32, simplified] B [of 33, simplified]
    B [of 34, simplified] B [of 35, simplified] B [of 38, simplified] B [of 39, simplified] B [of 40, simplified]
    B [of 41, simplified] B [of 42, simplified]
  note r = read_bpb_def read_ebr_def load16_bytes load32_bytes add.assoc
  show "bps (read_bpb a m) = 512" "rsc (read_bpb a m) = 1" "rec (read_bpb a m) = 512"
    by (simp_all add: r b boot_eval)
  show "spc (read_bpb a m) = 8" "num_fats (read_bpb a m) = 2" "media (read_bpb a m) = 0xF8"
    by (simp_all add: r b boot_eval)
  show "fat_s (read_bpb a m) = f" by (simp add: r b boot_eval low_bytes)
  show "ts16 (read_bpb a m) = (if t \<le> 0xFFFF then ucast t else 0)"
  proof (cases "t \<le> 0xFFFF")
    case True
    have "ucast (ucast (t AND 0xFF) :: u8) OR push_bit 8 (ucast (ucast (drop_bit 8 t) :: u8)) = (ucast t :: u16)"
    proof (rule bit_word_eqI)
      fix n assume n: "n < LENGTH(16)"
      have "t AND 0xFF = take_bit 8 t" by (simp add: take_bit_eq_mask mask_eq_exp_minus_1)
      then show "bit (ucast (ucast (t AND 0xFF) :: u8) OR push_bit 8 (ucast (ucast (drop_bit 8 t) :: u8)) :: u16) n = bit (ucast t :: u16) n"
        by (cases "n < 8") (use n in \<open>auto simp: bit_simps\<close>)
    qed
    moreover have "\<not> 0xFFFF < t" using True by simp
    ultimately show ?thesis using True by (simp add: r b boot_eval)
  next
    case False
    then show ?thesis by (simp add: r b boot_eval)
  qed
  show "ts32 (read_bpb a m) = (if t \<le> 0xFFFF then 0 else t)"
  proof (cases "t \<le> 0xFFFF")
    case True
    then have "\<not> 0xFFFF < t" by simp
    then show ?thesis using True by (simp add: r b boot_eval)
  next
    case False
    moreover have "0xFFFF < t" using False by simp
    ultimately show ?thesis by (simp add: r b boot_eval join32 [simplified])
  qed
  show "bsig (read_ebr (a + 36) m) = 0x29" "vol_id (read_ebr (a + 36) m) = 0x12345678"
    by (simp_all add: r b boot_eval)
qed

text \<open>C8. Format, then mount: whoever reads back the first 62 bytes of the boot sector that
  \<open>fat16_format\<close> builds gets a structure that \<open>fat16_validate\<close> accepts, with the geometry the
  volume was formatted with, the FAT size and the sector count among it, and always the same
  volume id.\<close>

theorem format_validates:
  assumes "get_bytes a 62 m = take 62 (boot_sector t f)" and "f \<noteq> 0" and "t \<noteq> 0"
    and "d = read_fat_struct a m"
  shows "fat16_validate d = 0 \<and> bps (fat_bpb d) = 512 \<and> spc (fat_bpb d) = 8 \<and> rsc (fat_bpb d) = 1 \<and>
    num_fats (fat_bpb d) = 2 \<and> rec (fat_bpb d) = 512 \<and> fat_s (fat_bpb d) = f \<and>
    (if ts16 (fat_bpb d) \<noteq> 0 then ucast (ts16 (fat_bpb d)) else ts32 (fat_bpb d)) = t \<and>
    vol_id (fat_ebr d) = 0x12345678"
proof -
  have t: "ucast (ucast t :: u16) = t" if "t \<le> 0xFFFF"
  proof -
    have "unat t < 2 ^ 16" using that by (simp add: word_le_nat_alt)
    then have "take_bit 16 t = t" by (simp add: word_unat_eq_iff unsigned_take_bit_eq take_bit_nat_eq_self_iff)
    then show ?thesis by (auto intro!: bit_word_eqI simp: bit_simps)  (metis bit_take_bit_iff)
  qed
  then have "(ucast t :: u16) \<noteq> 0" if "t \<le> 0xFFFF" using that assms(3) by (metis ucast_0)
  then show ?thesis
    using boot_image_fields [OF assms(1)] assms(2,3) t
    by (auto simp: assms(4) read_fat_struct_def fat16_validate_def Let_def)
qed


subsection \<open>What formatting leaves on the disk\<close>

text \<open>What the sector writes of a driver promise: a write that reports success replaces that one
  sector by the 512 bytes of the buffer, and the buffer is as before. \<open>disk\<close> is what the storage
  holds.\<close>

definition keeps_sectors ::
  "'z fat_state_scheme sector_write \<Rightarrow> ('z fat_state_scheme \<Rightarrow> u32 \<Rightarrow> u8 list) \<Rightarrow> u64 \<Rightarrow> bool" where
  "keeps_sectors wr disk sector \<longleftrightarrow>
     (\<forall>lba s. case wr lba sector s of (r, s') \<Rightarrow>
        get_bytes sector 512 (mem s') = get_bytes sector 512 (mem s) \<and>
        (r = 0 \<longrightarrow> disk s' = (disk s)(lba := get_bytes sector 512 (mem s)))) \<and>
     (\<forall>s m. disk (s\<lparr>mem := m\<rparr>) = disk s)"

lemma keeps_write:
  assumes "keeps_sectors wr disk sector" and "wr lba sector s = (r, s')"
  shows "get_bytes sector 512 (mem s') = get_bytes sector 512 (mem s)"
    and "r = 0 \<Longrightarrow> disk s' = (disk s)(lba := get_bytes sector 512 (mem s))"
  using assms(1) [unfolded keeps_sectors_def, THEN conjunct1, rule_format, of s lba] by (simp_all add: assms(2))

lemma keeps_mem: "keeps_sectors wr disk sector \<Longrightarrow> disk (s\<lparr>mem := m\<rparr>) = disk s"
  by (simp add: keeps_sectors_def)

lemma keeps_zero:
  "keeps_sectors wr disk sector \<Longrightarrow> disk (zero_sector sector s) = disk s"
  "get_bytes sector 512 (mem (zero_sector sector s)) = replicate 512 0"
  by (simp_all add: zero_sector_def keeps_mem memset_sector)

lemma write_sectors_zero:
  assumes "keeps_sectors wr disk sector" and "err \<noteq> 0" and "get_bytes sector 512 (mem s) = bs"
    and "write_sectors wr err base sector js s = (0, s')"
  shows "disk s' = (\<lambda>x. if x \<in> (\<lambda>j. base + of_nat j) ` set js then bs else disk s x) \<and>
    get_bytes sector 512 (mem s') = bs"
  using assms(3,4)
proof (induction js arbitrary: s)
  case (Cons j js)
  obtain r s1 where w: "wr (base + of_nat j) sector s = (r, s1)" by fastforce
  then have r: "r = 0" "write_sectors wr err base sector js s1 = (0, s')"
    using Cons.prems(2) assms(2) by (auto split: if_splits)
  show ?case
    using Cons.IH [OF _ r(2)] keeps_write [OF assms(1) w] r(1) Cons.prems(1) by (auto simp: fun_eq_iff)
qed (auto simp: fun_eq_iff)

definition fat_first :: "u8 list" where
  "fat_first = [0xF8, 0xFF, 0xFF, 0xFF] @ replicate 508 0"

definition in_sectors :: "nat \<Rightarrow> nat \<Rightarrow> u32 \<Rightarrow> bool" where
  "in_sectors a n x \<longleftrightarrow> a \<le> unat x \<and> unat x < a + n"

lemma image_sectors:
  assumes "a + k + n \<le> 2 ^ 32" and "base = of_nat a"
  shows "x \<in> (\<lambda>j. base + of_nat j) ` {k..<k + n} \<longleftrightarrow> in_sectors (a + k) n (x :: u32)"
proof
  assume "x \<in> (\<lambda>j. base + of_nat j) ` {k..<k + n}"
  then obtain j where j: "k \<le> j" "j < k + n" "x = of_nat (a + j)" using assms(2) by auto
  then have "unat x = a + j" using assms(1) by (simp add: unsigned_of_nat take_bit_nat_eq_self_iff del: of_nat_add)
  then show "in_sectors (a + k) n x" using j by (simp add: in_sectors_def)
next
  assume x: "in_sectors (a + k) n x"
  then have "x = base + of_nat (unat x - a)"
    using assms(2) by (simp add: in_sectors_def flip: of_nat_add)
  moreover have "unat x - a \<in> {k..<k + n}" using x by (auto simp: in_sectors_def)
  ultimately show "x \<in> (\<lambda>j. base + of_nat j) ` {k..<k + n}" by blast
qed


lemma write_fat_zero:
  assumes "keeps_sectors wr disk sector" and "get_bytes sector 512 (mem s) = bs" and "i < 2" and "unat f < 2 ^ 16" and "f \<noteq> 0"
    and "write_fats wr sector f (i # is) s = (0, s')"
  obtains s1 where "write_fats wr sector f is s1 = (0, s')"
    and "disk s1 = (\<lambda>x. if unat x = 1 + i * unat f then bs else if in_sectors (1 + i * unat f) (unat f) x
           then replicate 512 0 else disk s x)"
    and "get_bytes sector 512 (mem s1) = replicate 512 0"
proof -
  define base where "base = (1 + of_nat i * ucast f :: u32)"
  have base: "base = of_nat (1 + i * unat f)" by (simp add: base_def)
  obtain r s1 where w: "wr base sector s = (r, s1)" by fastforce
  obtain r2 s2 where w2: "write_sectors wr 6 base sector [1..<unat f] (zero_sector sector s1) = (r2, s2)" by fastforce
  have r: "r = 0" "r2 = 0" "write_fats wr sector f is s2 = (0, s')"
    using assms(6) w w2 by (auto simp: base_def [symmetric] Let_def split: if_splits)
  have lim: "1 + i * unat f + 1 + (unat f - 1) \<le> 2 ^ 32"
  proof -
    have "i * unat f \<le> 1 * unat f" using assms(3) by (intro mult_right_mono) auto
    then have "i * unat f \<le> unat f" by (simp only: mult_1)
    moreover have "unat f < 65536" using assms(4) by simp
    moreover have "(2 :: nat) ^ 32 = 4294967296" by simp
    ultimately show ?thesis by linarith
  qed
  have f0: "0 < unat f" using assms(5) by (simp add: unat_gt_0)
  have img: "x \<in> (\<lambda>j. base + of_nat j) ` set [1..<unat f] \<longleftrightarrow> in_sectors (1 + i * unat f + 1) (unat f - 1) x" for x
    using image_sectors [OF lim base, of x] f0 by simp
  have "1 + i * unat f < 2 ^ 32" using lim f0 by linarith
  then have "unat base = 1 + i * unat f"
    unfolding base by (subst unsigned_of_nat) (simp add: take_bit_nat_eq_self)
  then have ub: "x = base \<longleftrightarrow> unat x = 1 + i * unat f" for x :: u32
    by (simp add: word_unat_eq_iff)
  show thesis
  proof (rule that [of s2])
    show "write_fats wr sector f is s2 = (0, s')" by (rule r(3))
    have z: "disk s2 = (\<lambda>x. if in_sectors (1 + i * unat f + 1) (unat f - 1) x then replicate 512 0 else disk s1 x)"
      "get_bytes sector 512 (mem s2) = replicate 512 0"
      using write_sectors_zero [OF assms(1) _ keeps_zero(2) w2 [unfolded r(2)]]
      by (simp_all only: img keeps_zero(1) [OF assms(1)]) simp_all
    show "get_bytes sector 512 (mem s2) = replicate 512 0" by (rule z(2))
    have "disk s1 = (disk s)(base := bs)" using keeps_write [OF assms(1) w] r(1) assms(2) by simp
    then show "disk s2 = (\<lambda>x. if unat x = 1 + i * unat f then bs else if in_sectors (1 + i * unat f) (unat f) x
           then replicate 512 0 else disk s x)"
      using f0 by (auto simp: z(1) fun_eq_iff in_sectors_def ub)
  qed
qed



text \<open>A storage that never fails, kept in the extension of the state.\<close>

definition ideal_write :: "(u32 \<Rightarrow> u8 list) fat_state_scheme sector_write" where
  "ideal_write lba buf s = (0, fat_state.more_update (\<lambda>d. d(lba := get_bytes buf 512 (mem s))) s)"

definition blank_machine :: "(u32 \<Rightarrow> u8 list) fat_state_scheme" where
  "blank_machine = \<lparr>mem = (\<lambda>_. 0), offset = 0xFFFF800000000000, page_list = 0, kernel_pml4 = 0, cr3 = 0,
     invlpg_log = [], free_list = 0, heap_top = 0, io_log = [], apic_virt = 0, ioapic_virt = 0, apic_space = 0, apic_base_msr = 0, g_abars = [], g_abar_count = 0,
     g_controllers = [], g_count = 0, klog = [], vol_head = 0, vol_count = 0, vol_ready = False, \<dots> = (\<lambda>_. [])\<rparr>"

lemma write_sectors_ok: "(\<And>lba buf s. fst (wr lba buf s) = 0) \<Longrightarrow> fst (write_sectors wr err base sector js s) = 0"
  by (induction js arbitrary: s) (simp_all add: case_prod_unfold Let_def)

lemma write_fats_ok: "(\<And>lba buf s. fst (wr lba buf s) = 0) \<Longrightarrow> fst (write_fats wr sector f is s) = 0"
  by (induction "is" arbitrary: s) (simp_all add: case_prod_unfold Let_def write_sectors_ok)

lemma format_sectors_ok: "(\<And>lba buf s. fst (wr lba buf s) = 0) \<Longrightarrow> fst (format_sectors wr sector t f s) = 0"
  by (simp add: format_sectors_def case_prod_unfold Let_def write_fats_ok write_sectors_ok)


lemma format_validates_witness:
  "fat16_validate (read_fat_struct 0x2000 (put_bytes 0x2000 (take 62 (boot_sector 40000 20)) (\<lambda>_. 0))) = 0"
proof -
  have "length (take 62 (boot_sector 40000 20)) = 62" by (simp add: boot_sector_def)
  then have "get_bytes 0x2000 62 (put_bytes 0x2000 (take 62 (boot_sector 40000 20)) (\<lambda>_. 0)) = take 62 (boot_sector 40000 20)"
    by (simp add: get_put_same)
  from format_validates [OF this _ _ refl] show ?thesis by simp
qed


subsection \<open>Looking up a volume\<close>

fun volumes :: "memory \<Rightarrow> u64 \<Rightarrow> u64 list \<Rightarrow> bool" where
  "volumes m p [] \<longleftrightarrow> p = 0"
| "volumes m p (n # ns) \<longleftrightarrow> p = n \<and> n \<noteq> 0 \<and> volumes m (node_next n m) ns"

lemma find_vol_id_step:
  "find_vol_id m cur vid =
     (if cur = 0 then Some 0 else if node_vol_id cur m = vid then Some cur else find_vol_id m (node_next cur m) vid)"
  by (rule find_vol_id.simps)

lemma list_last_step:
  "list_last m cur = (if node_next cur m \<noteq> 0 then list_last m (node_next cur m) else Some cur)"
  by (rule list_last.simps)

lemma find_vol_id_list:
  "volumes m p ns \<Longrightarrow> find_vol_id m p vid =
     Some (case List.find (\<lambda>n. node_vol_id n m = vid) ns of None \<Rightarrow> 0 | Some n \<Rightarrow> n)"
proof (induction ns arbitrary: p)
  case Nil
  then show ?case using find_vol_id_step [of m 0 vid] by simp
next
  case (Cons n ns)
  then show ?case using find_vol_id_step [of m n vid] by simp
qed

lemma list_last_list: "volumes m p ns \<Longrightarrow> ns \<noteq> [] \<Longrightarrow> list_last m p = Some (last ns)"
proof (induction ns arbitrary: p)
  case (Cons n ns)
  then show ?case using list_last_step [of m n] by (cases ns) auto
qed simp

text \<open>On a well-formed list of volumes the search returns, with the first node that has the
  id, or a null pointer exactly when there is none.\<close>

theorem volume_lookup:
  assumes "volumes (mem s) (vol_head s) ns"
  shows "\<exists>p. fat_list_find_vol_id vid s = Some p \<and>
    (p = 0 \<longleftrightarrow> (\<forall>n\<in>set ns. node_vol_id n (mem s) \<noteq> vid)) \<and>
    (p \<noteq> 0 \<longrightarrow> p \<in> set ns \<and> node_vol_id p (mem s) = vid)"
proof -
  have nz: "volumes m q ns \<Longrightarrow> n \<in> set ns \<Longrightarrow> n \<noteq> 0" for m q n ns
    by (induction ns arbitrary: q) auto
  show ?thesis
  proof (cases "List.find (\<lambda>n. node_vol_id n (mem s) = vid) ns")
    case None
    then have "\<forall>n\<in>set ns. node_vol_id n (mem s) \<noteq> vid" by (auto simp: find_None_iff)
    then show ?thesis using find_vol_id_list [OF assms, of vid] None by (simp add: fat_list_find_vol_id_def)
  next
    case (Some n)
    then have "n \<in> set ns" "node_vol_id n (mem s) = vid" by (auto simp: find_Some_iff)
    then show ?thesis
      using Some find_vol_id_list [OF assms, of vid] nz [OF assms, of n] by (auto simp: fat_list_find_vol_id_def)
  qed
qed

lemma load64_zero: "load64 a (\<lambda>_. 0) = 0"
proof -
  have "get_bytes a 8 (\<lambda>_. 0) = [0, 0, 0, 0, 0, 0, 0, 0]"
    by (simp add: get_bytes_def map_replicate_trivial numeral_eq_Suc)
  then show ?thesis by (simp add: load64_def)
qed

lemma volume_lookup_witness:
  "\<exists>p. fat_list_find_vol_id 7 (blank_machine\<lparr>vol_head := 0x2000\<rparr>) = Some p \<and> p = 0"
  using volume_lookup [of "blank_machine\<lparr>vol_head := 0x2000\<rparr>" "[0x2000]" 7]
  by (auto simp: blank_machine_def node_next_def node_vol_id_def load32_zero load64_zero)

end
