(* ===== verification/Kernel_Boot.thy ===== *)
theory Kernel_Boot
  imports Boot_Paging Log_Display Interrupts Fat16
begin

unbundle bit_operations_syntax

text \<open>
  The boot sequence (\<open>kmain\<close> in \<open>src/kernel/src/main.c\<close>): the state of all components together, the
  log on the terminal, and the calls in the order of the code. What the boot loader and the linker
  provide is \<open>boot_info\<close>. The halt at the end is the value of \<open>kmain\<close>. Interrupts that arrive while
  the sequence runs are not interleaved with it; their handlers are in \<open>Interrupts\<close>. The messages the
  drivers log (\<open>klog\<close>) are printed when their initialisation returns; the terminal shares no memory
  with them.
\<close>

record boot_info =
  bi_framebuffers :: "fb_args list option"
  bi_pixels :: "u64 \<Rightarrow> u32"
  bi_pool :: u64
  bi_revision :: u64
  bi_supported :: bool
  bi_hhdm :: u64
  bi_usable :: u64
  bi_memmap :: "memmap_entry list"
  bi_ist_stack :: u64
  bi_gdt :: u64
  bi_tss :: u64
  bi_idt :: u64
  bi_stubs :: "nat \<Rightarrow> u64"

record boot_state = fat_state +
  ft_ctx :: "fb_context option"
  bump :: bump_state
  cpu :: idt_state

datatype boot_end = Unsupported | Running

subsection \<open>The log\<close>

text \<open>\<open>printk_level\<close> gives its characters to the terminal; without a terminal the first of them goes
  through a null pointer. \<open>fmt_buf\<close> is not used by \<open>printk_level\<close>.\<close>

definition kprint :: "int \<Rightarrow> string \<Rightarrow> fmt_arg list \<Rightarrow> 'z boot_state_scheme \<Rightarrow> (unit, 'z boot_state_scheme) kres" where
  "kprint level fmt args s =
     (case ft_ctx s of
        None \<Rightarrow> Inl NullPointer
      | Some ctx \<Rightarrow>
          (case printk_level level fmt args \<lparr>console = [], fmt_buf = [], fmt_buf_pos = 0\<rparr> of
             Inl _ \<Rightarrow> Inl BadFormat
           | Inr l \<Rightarrow> kret () (s\<lparr>ft_ctx := Some (show_console (console l) ctx)\<rparr>)))"

abbreviation info :: "string \<Rightarrow> 'z boot_state_scheme \<Rightarrow> (unit, 'z boot_state_scheme) kres" where
  "info msg \<equiv> kprint LOG_INFO msg []"

definition print_klog :: "'z boot_state_scheme \<Rightarrow> (unit, 'z boot_state_scheme) kres" where
  "print_klog s = kfold (\<lambda>(level, fmt, args). kprint level fmt args) (klog s) (s\<lparr>klog := []\<rparr>)"

definition start_log :: "boot_info \<Rightarrow> 'z boot_state_scheme \<Rightarrow> (unit, 'z boot_state_scheme) kres" where
  "start_log bi s =
     (case printk_init (bi_pool bi) (bi_framebuffers bi) (bi_pixels bi) (bump s) of
        Inl e \<Rightarrow> Inl e
      | Inr (ctx, b) \<Rightarrow> kret () (s\<lparr>bump := b,
          ft_ctx := (case bi_framebuffers bi of Some (_ # _) \<Rightarrow> ctx | _ \<Rightarrow> ft_ctx s)\<rparr>))"

subsection \<open>The sequence\<close>

definition init_gdt :: "boot_info \<Rightarrow> 'z boot_state_scheme \<Rightarrow> 'z boot_state_scheme" where
  "init_gdt bi s = s\<lparr>cpu := gdt_init (bi_ist_stack bi) (bi_gdt bi) (bi_tss bi) (cpu s)\<rparr>"

definition init_idt :: "boot_info \<Rightarrow> 'z boot_state_scheme \<Rightarrow> 'z boot_state_scheme" where
  "init_idt bi s = (let (c, s) = idt_init (bi_idt bi) (bi_stubs bi) (cpu s) s in s\<lparr>cpu := c\<rparr>)"

text \<open>Memory management, the local APIC with its timer, and the disk.\<close>

definition boot_memory_steps :: "boot_info \<Rightarrow> 'z boot_state_scheme \<Rightarrow> (unit, 'z boot_state_scheme) kres" where
  "boot_memory_steps bi s =
     (let s = hhdm_init (bi_hhdm bi) s in
      kbind (info ''HHDM initialized\<newline>'' s) (\<lambda>_ s.
      case frame_init (bi_usable bi) (bi_memmap bi) s of
        None \<Rightarrow> Inl Diverges
      | Some s \<Rightarrow>
          kbind (info ''Frame allocator initialized\<newline>'' s) (\<lambda>_ s.
          let s = paging_init s in
          info ''Paging initialized\<newline>'' s)))"

definition boot_apic_steps ::
  "io_device \<Rightarrow> ('z boot_state_scheme \<Rightarrow> 'z boot_state_scheme) \<Rightarrow> 'z boot_state_scheme \<Rightarrow> (unit, 'z boot_state_scheme) kres" where
  "boot_apic_steps dev hw s =
     kbind (enable_apic hw True s) (\<lambda>_ s.
     kbind (info ''APIC enabled\<newline>'' s) (\<lambda>_ s.
     kbind (apic_timer_init dev hw 1000 s) (\<lambda>_ s.
     info ''APIC timer initialized at 1000 Hz\<newline>'' s)))"

definition boot_disk_steps ::
  "io_device \<Rightarrow> ('z boot_state_scheme \<Rightarrow> 'z boot_state_scheme) \<Rightarrow> 'z boot_state_scheme \<Rightarrow> (unit, 'z boot_state_scheme) kres" where
  "boot_disk_steps dev hw s =
     kbind (ahci_init dev hw s) (\<lambda>_ s.
     kbind (print_klog s) (\<lambda>_ s.
     kbind (info ''AHCI initialized\<newline>'' s) (\<lambda>_ s.
     kbind (fat16_init hw AHCI 0 0 s) (\<lambda>_ s.
     kbind (print_klog s) (\<lambda>_ s.
     info ''FAT16 initialized\<newline>'' s)))))"

definition kmain ::
  "boot_info \<Rightarrow> io_device \<Rightarrow> ('z boot_state_scheme \<Rightarrow> 'z boot_state_scheme) \<Rightarrow> 'z boot_state_scheme
    \<Rightarrow> (boot_end, 'z boot_state_scheme) kres" where
  "kmain bi dev hw s =
     (let s = s\<lparr>cpu := (cpu s)\<lparr>interrupts := False\<rparr>\<rparr> in
      kbind (start_log bi s) (\<lambda>_ s.
      if \<not> bi_supported bi then
        kbind (kprint LOG_FATAL ''Bootloader does not support base revision: %lu\<newline>'' [Word (bi_revision bi)] s) (\<lambda>_ s.
        kret Unsupported s)
      else
        kbind (info ''Bootloader base revision OK\<newline>'' s) (\<lambda>_ s.
        kbind (info ''GDT initialized\<newline>'' (init_gdt bi s)) (\<lambda>_ s.
        kbind (info ''IDT initialized\<newline>'' (init_idt bi s)) (\<lambda>_ s.
        kbind (boot_memory_steps bi s) (\<lambda>_ s.
        kbind (boot_apic_steps dev hw s) (\<lambda>_ s.
        kbind (boot_disk_steps dev hw s) (\<lambda>_ s.
        kbind (kprint LOG_DEBUG ''Kernel init complete, halting\<newline>'' [] s) (\<lambda>_ s.
        kret Running s)))))))))"

end
