(* ===== verification/Kernel_Steps.thy ===== *)
theory Kernel_Steps
  imports Kernel_Boot Format_Properties
begin

unbundle bit_operations_syntax

text \<open>
  What the steps of the boot sequence leave alone, and that each of them returns.
\<close>

lemma kret_inject [simp]: "kret x s = kret y t \<longleftrightarrow> x = y \<and> s = t"
  by (simp add: kret_def)

subsection \<open>Memory\<close>

text \<open>The state without memory, frame list and shoot-downs.\<close>

definition rest :: "'z paging_state_scheme \<Rightarrow> u64 \<times> u64 \<times> u64 \<times> 'z" where
  "rest s = (offset s, kernel_pml4 s, cr3 s, paging_state.more s)"

lemma rest_updates [simp]:
  "rest (s\<lparr>mem := m\<rparr>) = rest s" "rest (s\<lparr>page_list := p\<rparr>) = rest s" "rest (s\<lparr>invlpg_log := l\<rparr>) = rest s"
  by (simp_all add: rest_def)

lemma rest_eq:
  assumes "rest s' = rest s"
  obtains m p l where "s' = s\<lparr>mem := m, page_list := p, invlpg_log := l\<rparr>"
  using assms by (cases s, cases s') (auto simp: rest_def)

lemma rest_primitives [simp]:
  "rest (put64 a v s) = rest s" "rest (snd (frame_alloc s)) = rest s" "rest (frame_free f s) = rest s"
  by (simp_all add: put64_def frame_alloc_def frame_free_def Let_def)

lemma rest_fold: "(\<And>x s. rest (f x s) = rest s) \<Longrightarrow> rest (fold f xs s) = rest s"
  by (induction xs arbitrary: s) simp_all

lemma rest_ensure_table [simp]: "rest (ensure_table l t v flags s) = rest s"
  by (simp add: ensure_table_def frame_alloc_def Let_def)

lemma rest_walk [simp]: "rest (snd (map_page_walk l t v flags s)) = rest s"
  by (induction l t v flags s rule: map_page_walk.induct) (subst map_page_walk.simps, simp add: Let_def)

lemma rest_map_page [simp]: "rest (map_page r v p flags s) = rest s"
  by (simp add: map_page_def case_prod_unfold Let_def)

lemma rest_for_pages:
  "(\<And>i s s'. body i s = Inr ((), s') \<Longrightarrow> rest s' = rest s) \<Longrightarrow> for_pages i len body s = Inr ((), s') \<Longrightarrow> rest s' = rest s"
proof (induction i len body s arbitrary: s' rule: for_pages.induct)
  case (1 i len body s)
  show ?case
  proof (cases "i < len")
    case True
    then obtain t where t: "body i s = Inr ((), t)" "\<not> i + 0x1000 < i" "for_pages (i + 0x1000) len body t = Inr ((), s')"
      using 1(3) by (subst (asm) for_pages.simps) (auto simp: kbind_eq_Inr split: if_splits)
    then show ?thesis using 1(1) [OF True t(2) 1(2) t(3)] 1(2) [OF t(1)] by simp
  qed (use 1(3) in \<open>subst (asm) for_pages.simps, simp\<close>)
qed

lemma rest_paging_map_page: "paging_map_page r v p len flags s = Inr ((), s') \<Longrightarrow> rest s' = rest s"
proof -
  assume "paging_map_page r v p len flags s = Inr ((), s')"
  then obtain t where t: "for_pages 0 len (\<lambda>i s. kret () (map_page r (v + i) (p + i) flags s)) s = Inr ((), t)"
    and i: "invalidate v len t = Inr ((), s')" by (auto simp: paging_map_page_def kbind_eq_Inr)
  have "rest t = rest s" by (rule rest_for_pages [OF _ t]) auto
  then show ?thesis using i by (auto simp: invalidate_def split: option.splits)
qed

lemma rest_region [simp]: "rest (snd (region_alloc a n s)) = rest s" "rest (region_insert sp r s) = rest s"
  by (simp_all add: region_alloc_def region_insert_def Let_def case_prod_unfold)

lemma rest_vm_map: "vm_map sp pa sz flags s = Inr (v, s') \<Longrightarrow> rest s' = rest s"
proof -
  assume "vm_map sp pa sz flags s = Inr (v, s')"
  then have "\<exists>a r p t. paging_map_page r a pa p flags s = Inr ((), t) \<and> rest s' = rest t"
    unfolding vm_map_def Let_def kbind_kassert
    by (simp add: kbind_eq_Inr case_prod_unfold split: if_splits) (elim exE conjE, intro exI conjI, assumption, simp)
  then show ?thesis by (auto dest: rest_paging_map_page)
qed

lemma rest_create_pml4 [simp]: "rest (snd (paging_create_pml4 s)) = rest s"
proof -
  obtain phys t where a: "frame_alloc s = (phys, t)" by (cases "frame_alloc s")
  then have "rest t = rest s" using rest_primitives(2) [of s] by simp
  then show ?thesis unfolding paging_create_pml4_def a Let_def by (simp add: rest_fold del: upt_rec_numeral)
qed

lemma rest_space [simp]: "rest (snd (vm_space_create hb hs s)) = rest s"
proof -
  obtain phys t where a: "frame_alloc s = (phys, t)" by (cases "frame_alloc s")
  obtain pml4 u where b: "paging_create_pml4 t = (pml4, u)" by (cases "paging_create_pml4 t")
  have "rest u = rest s" using rest_primitives(2) [of s] rest_create_pml4 [of t] by (simp add: a b)
  then show ?thesis unfolding vm_space_create_def a Let_def by (simp add: b)
qed

lemma rest_paging_init: "rest (paging_init s) = rest (s\<lparr>kernel_pml4 := 0xFFFF800000000000 + (cr3 s AND ENTRY_4K_ADDRESS_MASK)\<rparr>)"
  by (simp add: paging_init_def Let_def rest_fold del: upt_rec_numeral)

subsection \<open>The local APIC and its timer\<close>

text \<open>Device registers are memory: what the hardware does before a read changes memory only.\<close>

definition registers :: "('z apic_state_scheme \<Rightarrow> memory) \<Rightarrow> 'z apic_state_scheme \<Rightarrow> 'z apic_state_scheme" where
  "registers hm s = s\<lparr>mem := hm s\<rparr>"

lemma apic_access:
  assumes "apic_virt s \<noteq> 0"
  shows "apic_write reg v s = kret () (s\<lparr>mem := store32 (apic_virt s + 4 * ucast (reg div 4)) v (mem s)\<rparr>)"
    and "apic_read (registers hm) reg s = kret (load32 (apic_virt s + 4 * ucast (reg div 4)) (hm s)) (s\<lparr>mem := hm s\<rparr>)"
  using assms by (simp_all add: apic_write_def apic_read_def registers_def Let_def)

lemma vm_inv_apic [simp]:
  "vm_inv (s\<lparr>apic_space := a\<rparr>) space fs = vm_inv s space fs" "pt_inv (s\<lparr>apic_base_msr := b\<rparr>) r fs = pt_inv s r fs"
  by (simp_all add: vm_inv_def pt_inv_def free_frames_def get64_def footprint_def)

lemma enable_apic_returns:
  assumes inv: "pt_inv s (kernel_pml4 s) (f # g # fs)" and nz: "offset s + f \<noteq> 0" and fs: "4 \<le> length fs"
    and none: "apic_space s = 0"
  shows "\<exists>m p l space msr. enable_apic (registers hm) b s =
    kret () (s\<lparr>mem := m, page_list := p, invlpg_log := l, apic_virt := APIC_HEAP_BASE, apic_space := space, apic_base_msr := msr\<rparr>)"
proof -
  define msr where "msr = apic_base_msr (if apic_base_msr s AND APIC_BASE_ENABLE = 0 then cpu_set_apic_base (cpu_get_apic_base s) b s else s)"
  have s1: "(if apic_base_msr s AND APIC_BASE_ENABLE = 0 then cpu_set_apic_base (cpu_get_apic_base s) b s else s) = s\<lparr>apic_base_msr := msr\<rparr>"
    by (simp add: msr_def cpu_set_apic_base_def Let_def)
  define t where "t = s\<lparr>apic_base_msr := msr\<rparr>"
  have ft: "kernel_pml4 t = kernel_pml4 s" "offset t = offset s" "apic_space t = 0" by (simp_all add: t_def none)
  have "pt_inv t (kernel_pml4 t) (f # g # fs)" using inv by (simp add: t_def)
  from vm_space_create_inv [OF this, of APIC_HEAP_BASE APIC_HEAP_SIZE] nz obtain u where
    u: "vm_space_create APIC_HEAP_BASE APIC_HEAP_SIZE t = (offset s + f, u)" "vm_inv u (offset s + f) fs"
    "get64 (offset s + f + 16) u = APIC_HEAP_BASE + APIC_HEAP_SIZE" "get64 (offset s + f + 24) u = APIC_HEAP_BASE"
    by (auto simp: ft)
  have "rest u = rest t" using rest_space [of APIC_HEAP_BASE APIC_HEAP_SIZE t] u(1) by simp
  then obtain m p l where um: "u = t\<lparr>mem := m, page_list := p, invlpg_log := l\<rparr>" by (rule rest_eq)
  define v where "v = u\<lparr>apic_space := offset s + f\<rparr>"
  have av: "apic_space v = offset s + f" by (simp add: v_def)
  have g: "get64 a v = get64 a u" for a by (simp add: v_def get64_def)
  have "page_aligned APIC_HEAP_BASE" "page_round 0x1000 = 0x1000"
    by (simp_all add: APIC_HEAP_BASE_def page_aligned_def page_round_def)
  then have fit: "space_fits (offset s + f) 0x1000 v"
    using u(3,4) by (simp add: space_fits_def g pages_of_def) (simp add: APIC_HEAP_BASE_def APIC_HEAP_SIZE_def)
  have "vm_inv v (offset s + f) fs" using u(2) by (simp add: v_def)
  moreover have "3 * pages_of 0x1000 + 1 \<le> length fs" using fs by (simp add: pages_of_def)
  moreover have "page_aligned (cpu_get_apic_base s)"
    by (simp add: page_aligned_take_bit cpu_get_apic_base_def APIC_BASE_MASK_def take_bit_and)
  ultimately obtain w where w: "vm_map (offset s + f) (cpu_get_apic_base s) 0x1000 (VM_WRITE OR VM_UNCACHED) v = Inr (APIC_HEAP_BASE, w)"
    using vm_map_inv [OF _ fit, of fs "cpu_get_apic_base s" "VM_WRITE OR VM_UNCACHED"] u(4) g by auto
  then have "rest w = rest v" by (rule rest_vm_map)
  then obtain m' p' l' where wm: "w = v\<lparr>mem := m', page_list := p', invlpg_log := l'\<rparr>" by (rule rest_eq)
  have nz': "APIC_HEAP_BASE \<noteq> 0" by (simp add: APIC_HEAP_BASE_def)
  define x where "x = w\<lparr>apic_virt := APIC_HEAP_BASE\<rparr>"
  have "\<exists>m''. enable_apic (registers hm) b s = kret () (x\<lparr>mem := m''\<rparr>)"
    unfolding enable_apic_def Let_def s1 t_def [symmetric] ft(3) u(1)
    by (simp add: v_def [symmetric] av w x_def [symmetric]) (simp add: x_def nz' apic_access, rule exI, rule refl)
  then obtain m'' where e: "enable_apic (registers hm) b s = kret () (x\<lparr>mem := m''\<rparr>)" ..
  have "x\<lparr>mem := m''\<rparr> = s\<lparr>mem := m'', page_list := p', invlpg_log := l', apic_virt := APIC_HEAP_BASE,
      apic_space := offset s + f, apic_base_msr := msr\<rparr>"
    by (simp add: x_def wm v_def um t_def)
  then show ?thesis unfolding e by (intro exI) (rule arg_cong)
qed

lemma apic_timer_returns:
  assumes virt: "apic_virt s \<noteq> 0" and pit: "\<And>log. bit (dev log (In8 0x40)) 7" and hz: "hz \<noteq> 0"
  shows "\<exists>m l. apic_timer_init dev (registers hm) hz s = kret () (s\<lparr>mem := m, io_log := l\<rparr>)"
proof -
  have poll: "\<exists>l. pit_poll dev t = Some (t\<lparr>io_log := l\<rparr>)" for t :: "'a apic_state_scheme"
  proof -
    have "bit ((ucast (dev (io_log (outb 0x43 0xE2 t)) (In8 0x40)) :: u8) AND push_bit 7 1) 7"
      using pit [of "io_log (outb 0x43 0xE2 t)"] by (simp only: bit_and_iff bit_push_bit_iff bit_unsigned_iff) simp
    then have "(ucast (dev (io_log (outb 0x43 0xE2 t)) (In8 0x40)) :: u8) AND push_bit 7 1 \<noteq> 0" by auto
    then show ?thesis by (subst pit_poll.simps) (auto simp: inb_def outb_def io_emit_def Let_def)
  qed
  have wait: "\<exists>l. pit_wait_ms dev ms t = kret () (t\<lparr>io_log := l\<rparr>)" for ms and t :: "'a apic_state_scheme"
    using poll [of "pit_set_oneshot (ucast (pit_ticks ms)) t"]
    by (auto simp: pit_wait_ms_def pit_set_oneshot_def outb_def io_emit_def)
  define a where "a = apic_virt s"
  define m where "m = store32 (a + 0x320) APIC_LVT_MASKED (store32 (a + 0x380) 0xFFFFFFFF (store32 (a + 0x3E0) 0xB (mem s)))"
  define t where "t = s\<lparr>mem := hm (s\<lparr>mem := m\<rparr>)\<rparr>"
  obtain l where l: "pit_wait_ms dev 10 t = kret () (t\<lparr>io_log := l\<rparr>)" using wait by blast
  have "\<exists>n. apic_timer_count dev (registers hm) s = kret n (t\<lparr>io_log := l, mem := hm (t\<lparr>io_log := l\<rparr>)\<rparr>)"
    unfolding apic_timer_count_def using virt
    by (simp add: apic_access a_def [symmetric] m_def [symmetric] t_def [symmetric] l)
      (simp add: t_def apic_access a_def)
  then obtain n where n: "apic_timer_count dev (registers hm) s = kret n (t\<lparr>io_log := l, mem := hm (t\<lparr>io_log := l\<rparr>)\<rparr>)" ..
  have "\<exists>m. apic_timer_init dev (registers hm) hz s = kret () (t\<lparr>io_log := l, mem := m\<rparr>)"
    by (simp add: apic_timer_init_def apic_timer_calibrate_def n apic_access Let_def t_def virt hz, rule exI, rule refl)
  then obtain m where e: "apic_timer_init dev (registers hm) hz s = kret () (t\<lparr>io_log := l, mem := m\<rparr>)" ..
  have "t\<lparr>io_log := l, mem := m\<rparr> = s\<lparr>mem := m, io_log := l\<rparr>" by (simp add: t_def)
  then show ?thesis unfolding e by (intro exI) (rule arg_cong)
qed

subsection \<open>The disk\<close>

text \<open>On a bus without devices every read of the configuration space gives ones.\<close>

definition empty_bus :: "io_device \<Rightarrow> bool" where
  "empty_bus dev \<longleftrightarrow> (\<forall>log. dev log (In32 0xcfc) = 0xffffffff)"

lemma probe_empty:
  assumes "empty_bus dev"
  shows "\<exists>l. probe_function dev hw bus slot func s = kret 1 (s\<lparr>io_log := l\<rparr>)"
proof -
  have "(ucast (drop_bit 0 (0xffffffff :: u32)) :: u16) = 0xffff" by (simp add: word_unat_eq_iff unsigned_ucast_eq)
  then show ?thesis
    by (simp add: probe_function_def pci_read_config_word_def pci_read_config_dword_def inl_def outl_def io_emit_def
      assms [unfolded empty_bus_def] Let_def) (rule exI, rule refl)
qed

lemma kfold_ports:
  assumes "\<And>x s. \<exists>l. f x s = kret () (s\<lparr>io_log := l\<rparr>)"
  shows "\<exists>l. kfold f xs s = kret () (s\<lparr>io_log := l\<rparr>)"
proof (induction xs arbitrary: s)
  case Nil
  show ?case by (intro exI [of _ "io_log s"]) simp
next
  case (Cons x xs)
  obtain l where "f x s = kret () (s\<lparr>io_log := l\<rparr>)" using assms by blast
  with Cons.IH [of "s\<lparr>io_log := l\<rparr>"] show ?case by simp
qed

lemma ahci_init_empty:
  assumes "empty_bus dev"
  shows "\<exists>l. ahci_init dev hw s = kret 0 (s\<lparr>io_log := l, g_controllers := replicate 8 no_controller, g_count := 0,
    g_abars := replicate 8 0, g_abar_count := 0\<rparr>)"
proof -
  have slot: "\<exists>l. probe_slot dev hw bus slot t = kret () (t\<lparr>io_log := l\<rparr>)" for bus slot and t :: "'a ahci_state_scheme"
    using probe_empty [OF assms, of hw bus "of_nat slot" 0 t] by (auto simp: probe_slot_def)
  have "\<exists>l. kfold (\<lambda>bus. kfold (probe_slot dev hw (of_nat bus)) [0..<32]) [0..<256] t = kret () (t\<lparr>io_log := l\<rparr>)"
    for t :: "'a ahci_state_scheme"
    by (intro kfold_ports slot)
  then obtain l where "kfold (\<lambda>bus. kfold (probe_slot dev hw (of_nat bus)) [0..<32]) [0..<256]
      (s\<lparr>g_controllers := replicate 8 no_controller, g_count := 0, g_abars := replicate 8 0, g_abar_count := 0\<rparr>) =
    kret () (s\<lparr>g_controllers := replicate 8 no_controller, g_count := 0, g_abars := replicate 8 0, g_abar_count := 0, io_log := l\<rparr>)"
    by blast
  then have "ahci_init dev hw s = kret 0 (s\<lparr>io_log := l, g_controllers := replicate 8 no_controller, g_count := 0,
      g_abars := replicate 8 0, g_abar_count := 0\<rparr>)"
    by (simp add: ahci_init_def Let_def del: upt_rec_numeral)
  then show ?thesis ..
qed

text \<open>Without a controller there is no volume; the frame for the boot sector is given back.\<close>

lemma fat16_init_empty:
  assumes "g_abar_count s = 0"
  shows "\<exists>m p h c. fat16_init hw AHCI 0 port s =
    kret 1 (s\<lparr>mem := m, page_list := p, vol_head := h, vol_count := c, vol_ready := True\<rparr>)"
proof -
  have "\<exists>h c. (if vol_ready s then s else (fat_list_init s)\<lparr>vol_ready := True\<rparr>) =
      s\<lparr>vol_head := h, vol_count := c, vol_ready := True\<rparr>"
  proof (cases "vol_ready s")
    case True
    then show ?thesis by (intro exI [of _ "vol_head s"] exI [of _ "vol_count s"]) simp
  next
    case False
    then show ?thesis by (intro exI [of _ 0]) (simp add: fat_list_init_def)
  qed
  then obtain h c where v: "(if vol_ready s then s else (fat_list_init s)\<lparr>vol_ready := True\<rparr>) =
      s\<lparr>vol_head := h, vol_count := c, vol_ready := True\<rparr>" by blast
  have "\<exists>m p. read_fat hw AHCI 0 port t = kret 0 (t\<lparr>mem := m, page_list := p\<rparr>)" if "g_abar_count t = 0" for t :: "'a fat_state_scheme"
  proof -
    obtain phys u where a: "frame_alloc t = (phys, u)" by (cases "frame_alloc t")
    have "\<exists>p. u = t\<lparr>page_list := p\<rparr>"
      using a by (cases "page_list t = 0") (auto simp: frame_alloc_def Let_def intro: exI [of _ "page_list t"])
    then obtain p where u: "u = t\<lparr>page_list := p\<rparr>" ..
    have r: "ahci_read hw 0 port 0 1 b u = (1, u)" for b using that by (simp add: ahci_read_def ahci_transfer_def u)
    show ?thesis
    proof (cases "phys = 0")
      case True
      then have "read_fat hw AHCI 0 port t = kret 0 (t\<lparr>mem := mem t, page_list := p\<rparr>)" by (simp add: read_fat_def a u)
      then show ?thesis by blast
    next
      case False
      then have "read_fat hw AHCI 0 port t = kret 0 (frame_free phys u)" by (simp add: read_fat_def a r Let_def)
      then show ?thesis by (simp add: frame_free_eq u) (intro exI, rule arg_cong, rule refl)
    qed
  qed
  from this [of "s\<lparr>vol_head := h, vol_count := c, vol_ready := True\<rparr>"] assms
  obtain m p where "read_fat hw AHCI 0 port (s\<lparr>vol_head := h, vol_count := c, vol_ready := True\<rparr>) =
      kret 0 (s\<lparr>vol_head := h, vol_count := c, vol_ready := True, mem := m, page_list := p\<rparr>)"
    by auto
  then have "fat16_init hw AHCI 0 port s = kret 1 (s\<lparr>mem := m, page_list := p, vol_head := h, vol_count := c, vol_ready := True\<rparr>)"
    unfolding fat16_init_def v by simp
  then show ?thesis by (intro exI)
qed

subsection \<open>The log\<close>

lemma format_plain:
  assumes "CHR ''%'' \<notin> set msg"
  shows "\<exists>n. format msg args = Inr (msg, n)"
  using format_run_text [OF assms, of "[]" args] by (simp add: format_def)

lemma kprint_line:
  assumes "ft_ctx s = Some ctx" and "format fmt args = Inr (msg, n)" and "LOG_LEVEL \<le> level"
  shows "kprint level fmt args s = kret () (s\<lparr>ft_ctx := Some (show_console (log_line level msg) ctx)\<rparr>)"
  using assms by (simp add: kprint_def printk_level_def log_line_def Let_def)

lemma kprint_plain:
  assumes "ft_ctx s = Some ctx" and "CHR ''%'' \<notin> set msg" and "LOG_LEVEL \<le> level"
  shows "kprint level msg [] s = kret () (s\<lparr>ft_ctx := Some (show_console (log_line level msg) ctx)\<rparr>)"
  using format_plain [OF assms(2), of "[]"] kprint_line [OF assms(1) _ assms(3)] by blast

text \<open>The components' invariants do not see the log.\<close>

lemma pt_inv_log [simp]: "pt_inv (s\<lparr>ft_ctx := c\<rparr>) r fs = pt_inv s r fs"
  by (simp add: pt_inv_def free_frames_def)

end
