(* ===== verification/Kernel_Properties.thy ===== *)
theory Kernel_Properties
  imports Kernel_Steps
begin

unbundle bit_operations_syntax

text \<open>
  The boot sequence as a whole: it reaches the final halt on a machine with a screen, enough memory
  and no disk, and what it does when the boot loader is too old or there is no screen.
\<close>

definition boot_log :: "(int \<times> string) list" where
  "boot_log =
     [(LOG_INFO, ''Bootloader base revision OK\<newline>''), (LOG_INFO, ''GDT initialized\<newline>''), (LOG_INFO, ''IDT initialized\<newline>''),
      (LOG_INFO, ''HHDM initialized\<newline>''), (LOG_INFO, ''Frame allocator initialized\<newline>''), (LOG_INFO, ''Paging initialized\<newline>''),
      (LOG_INFO, ''APIC enabled\<newline>''), (LOG_INFO, ''APIC timer initialized at 1000 Hz\<newline>''),
      (LOG_INFO, ''AHCI initialized\<newline>''), (LOG_INFO, ''FAT16 initialized\<newline>''), (LOG_DEBUG, ''Kernel init complete, halting\<newline>'')]"

lemma log_levels [simp]: "LOG_LEVEL \<le> LOG_INFO" "LOG_LEVEL \<le> LOG_DEBUG" "LOG_LEVEL \<le> LOG_FATAL"
  by (simp_all add: LOG_LEVEL_def LOG_DEBUG_def LOG_INFO_def LOG_FATAL_def)

text \<open>What the kernel relies on at its entry: a frame buffer \<open>printk_init\<close> accepts, the memory map of
  the boot protocol, page tables apart from usable memory, and its own variables unset.\<close>

definition boot_ready_info :: "boot_info \<Rightarrow> bool" where
  "boot_ready_info bi \<longleftrightarrow> (\<exists>fb fbs. bi_framebuffers bi = Some (fb # fbs) \<and> usable_screen fb) \<and> bi_supported bi \<and>
     bi_hhdm bi = 0xFFFF800000000000 \<and> memmap_ok (bi_usable bi) (bi_memmap bi) \<and>
     list_all (\<lambda>p. unat p < 2 ^ 47) (usable_pages (bi_usable bi) (bi_memmap bi)) \<and>
     10 \<le> length (usable_pages (bi_usable bi) (bi_memmap bi))"

definition boot_root :: "'z paging_state_scheme \<Rightarrow> u64" where
  "boot_root s = 0xFFFF800000000000 + (cr3 s AND ENTRY_4K_ADDRESS_MASK)"

definition boot_ready_state :: "boot_info \<Rightarrow> 'z boot_state_scheme \<Rightarrow> bool" where
  "boot_ready_state bi s \<longleftrightarrow> page_list s = 0 \<and> apic_space s = 0 \<and> klog s = [] \<and>
     length (idt_entries (cpu s)) = 256 \<and> bump s = \<lparr>bump_alloc_ptr = 0, bump_alloc_base_offset_added = False, bump_allocated_instance = False\<rparr> \<and>
     pt_tree (mem s) 0xFFFF800000000000 (boot_root s) \<and>
     pt_apart (mem s) 0xFFFF800000000000 (boot_root s) (set (usable_pages (bi_usable bi) (bi_memmap bi)))"

text \<open>The terminal \<open>printk_init\<close> makes on the first frame buffer.\<close>

definition boot_screen :: "boot_info \<Rightarrow> fb_context" where
  "boot_screen bi = fb_finish (fb_prepare (kernel_args (hd (the (bi_framebuffers bi)))) (bi_pixels bi))"

lemma boot_memory_returns:
  assumes bi: "boot_ready_info bi" and s: "page_list s = 0" "ft_ctx s = Some ctx"
    and tables: "pt_tree (mem s) 0xFFFF800000000000 (boot_root s)"
      "pt_apart (mem s) 0xFFFF800000000000 (boot_root s) (set (usable_pages (bi_usable bi) (bi_memmap bi)))"
  shows "\<exists>m p l f g fs. let s' = s\<lparr>mem := m, page_list := p, invlpg_log := l, offset := 0xFFFF800000000000, kernel_pml4 := boot_root s,
      ft_ctx := Some (show_console (log_text (take 3 (drop 3 boot_log))) ctx)\<rparr> in
    boot_memory_steps bi s = kret () s' \<and> pt_inv s' (kernel_pml4 s') (f # g # fs) \<and> 4 \<le> length fs \<and> offset s' + f \<noteq> 0"
proof -
  define off :: u64 where "off = 0xFFFF800000000000"
  define ps where "ps = usable_pages (bi_usable bi) (bi_memmap bi)"
  have b: "bi_hhdm bi = off" "memmap_ok (bi_usable bi) (bi_memmap bi)" "\<And>p. p \<in> set ps \<Longrightarrow> unat p < 2 ^ 47" "10 \<le> length ps"
    using bi by (simp_all add: boot_ready_info_def off_def ps_def list_all_iff)
  have ps: "distinct ps" "\<And>p. p \<in> set ps \<Longrightarrow> p \<noteq> 0 \<and> phys_ok p"
    using b(2) usable_pages_wf [OF b(2)] b(3) by (fastforce simp: memmap_ok_def ps_def intro!: phys_okI)+
  define c1 where "c1 = show_console (log_line LOG_INFO ''HHDM initialized\<newline>'') ctx"
  define c2 where "c2 = show_console (log_line LOG_INFO ''Frame allocator initialized\<newline>'') c1"
  define c3 where "c3 = show_console (log_line LOG_INFO ''Paging initialized\<newline>'') c2"
  have c3: "c3 = show_console (log_text (take 3 (drop 3 boot_log))) ctx"
    by (simp add: boot_log_def log_text_def c3_def c2_def c1_def show_console_append)
  define s1 where "s1 = s\<lparr>offset := off, ft_ctx := Some c1\<rparr>"
  have f1: "mem s1 = mem s" "offset s1 = off" "cr3 s1 = cr3 s" "page_list s1 = 0" "boot_root s1 = boot_root s"
    using s by (simp_all add: s1_def boot_root_def)
  have "pt_inv s1 (boot_root s1) []" using tables(1) f1 by (simp add: pt_inv_def free_frames_def pt_apart_def boot_root_def off_def)
  from pool_inv [OF this ps(2,1)] tables(2) f1 have pool: "pt_inv (fold frame_free ps s1) (boot_root s1) (rev ps)"
    by (simp add: ps_def off_def)
  define s2 where "s2 = fold frame_free ps s1"
  have fi: "frame_init (bi_usable bi) (bi_memmap bi) s1 = Some s2" unfolding s2_def ps_def by (rule frame_init_eq [OF b(2)])
  have r2: "rest s2 = rest s1" unfolding s2_def by (rule rest_fold) simp
  then obtain m p l where e2: "s2 = s1\<lparr>mem := m, page_list := p, invlpg_log := l\<rparr>" by (rule rest_eq)
  define s3 where "s3 = s2\<lparr>ft_ctx := Some c2\<rparr>"
  have "pt_inv s3 (boot_root s1) (rev ps)" using pool by (simp add: s3_def s2_def)
  moreover have "boot_root s1 = 0xFFFF800000000000 + (cr3 s3 AND ENTRY_4K_ADDRESS_MASK)" by (simp add: s3_def e2 boot_root_def)
  ultimately obtain k where k: "k \<le> 4" "pt_inv (paging_init s3) (boot_root s1) (drop k (rev ps))"
    using paging_init_inv [of s3 "boot_root s1" "rev ps"] b(4) by auto
  define s4 where "s4 = (paging_init s3)\<lparr>ft_ctx := Some c3\<rparr>"
  have "rest (paging_init s3) = rest (s3\<lparr>kernel_pml4 := boot_root s1\<rparr>)"
    by (simp add: rest_paging_init boot_root_def s3_def e2)
  then obtain m' p' l' where e4: "paging_init s3 = s3\<lparr>kernel_pml4 := boot_root s1, mem := m', page_list := p', invlpg_log := l'\<rparr>"
    by (rule rest_eq)
  have s4: "s4 = s\<lparr>mem := m', page_list := p', invlpg_log := l', offset := off, kernel_pml4 := boot_root s, ft_ctx := Some c3\<rparr>"
    unfolding s4_def e4 by (simp add: s3_def e2 s1_def boot_root_def)
  have "6 \<le> length (drop k (rev ps))" using k(1) b(4) by simp
  then obtain f g fs where d: "drop k (rev ps) = f # g # fs" "4 \<le> length fs"
    by (cases "drop k (rev ps)"; cases "tl (drop k (rev ps))") auto
  have "f \<in> set ps" using d(1) by (metis in_set_dropD list.set_intros(1) set_rev)
  then have "unat f < 2 ^ 47" by (rule b(3))
  then have "unat (off + f) = unat off + unat f" by (simp add: unat_word_ariths off_def)
  then have "off + f \<noteq> 0" by (auto simp: off_def)
  moreover have "pt_inv s4 (boot_root s) (f # g # fs)" using k(2) d(1) f1 by (simp add: s4_def)
  moreover have "boot_memory_steps bi s = kret () s4"
  proof -
    have "info ''HHDM initialized\<newline>'' (hhdm_init off s) = kret () s1"
      by (subst kprint_plain [of _ ctx]) (simp_all add: hhdm_init_def s(2) s1_def c1_def)
    moreover have "info ''Frame allocator initialized\<newline>'' s2 = kret () s3"
      by (subst kprint_plain [of _ c1]) (simp_all add: e2 s1_def s3_def c2_def)
    moreover have "ft_ctx (paging_init s3) = Some c2" unfolding e4 by (simp add: s3_def)
    then have "info ''Paging initialized\<newline>'' (paging_init s3) = kret () s4"
      by (subst kprint_plain [of _ c2]) (simp_all add: s4_def c3_def)
    ultimately show ?thesis unfolding boot_memory_steps_def Let_def b(1) by (simp only: kbind_kret fi option.case)
  qed
  moreover have "kernel_pml4 s4 = boot_root s" "offset s4 = off" by (simp_all add: s4)
  ultimately show ?thesis
    using d(2) unfolding Let_def off_def [symmetric] c3 [symmetric] s4 [symmetric]
    by (intro exI [of _ m'] exI [of _ p'] exI [of _ l'] exI [of _ f] exI [of _ g] exI [of _ fs]) (simp flip: s4)
qed

lemma boot_apic_returns:
  assumes inv: "pt_inv s (kernel_pml4 s) (f # g # fs)" "offset s + f \<noteq> 0" "4 \<le> length fs" and s: "apic_space s = 0" "ft_ctx s = Some ctx"
    and pit: "\<And>log. bit (dev log (In8 0x40)) 7"
  shows "\<exists>m p l space msr log. boot_apic_steps dev (registers hm) s = kret () (s\<lparr>mem := m, page_list := p, invlpg_log := l,
    io_log := log, apic_virt := APIC_HEAP_BASE, apic_space := space, apic_base_msr := msr,
    ft_ctx := Some (show_console (log_text (take 2 (drop 6 boot_log))) ctx)\<rparr>)"
proof -
  define c1 where "c1 = show_console (log_line LOG_INFO ''APIC enabled\<newline>'') ctx"
  define c2 where "c2 = show_console (log_line LOG_INFO ''APIC timer initialized at 1000 Hz\<newline>'') c1"
  have c2: "c2 = show_console (log_text (take 2 (drop 6 boot_log))) ctx"
    by (simp add: boot_log_def log_text_def c2_def c1_def show_console_append)
  obtain m p l space msr where e: "enable_apic (registers hm) True s =
      kret () (s\<lparr>mem := m, page_list := p, invlpg_log := l, apic_virt := APIC_HEAP_BASE, apic_space := space, apic_base_msr := msr\<rparr>)"
    using enable_apic_returns [OF inv s(1), of hm True] by blast
  define t where "t = s\<lparr>mem := m, page_list := p, invlpg_log := l, apic_virt := APIC_HEAP_BASE, apic_space := space, apic_base_msr := msr\<rparr>"
  have i1: "info ''APIC enabled\<newline>'' t = kret () (t\<lparr>ft_ctx := Some c1\<rparr>)"
    by (subst kprint_plain [of _ ctx]) (simp_all add: t_def s(2) c1_def)
  have "apic_virt (t\<lparr>ft_ctx := Some c1\<rparr>) \<noteq> 0" by (simp add: t_def APIC_HEAP_BASE_def)
  from apic_timer_returns [OF this, of dev 1000 hm] pit obtain m' log where
    timer: "apic_timer_init dev (registers hm) 1000 (t\<lparr>ft_ctx := Some c1\<rparr>) = kret () (t\<lparr>ft_ctx := Some c1, mem := m', io_log := log\<rparr>)"
    by auto
  have i2: "info ''APIC timer initialized at 1000 Hz\<newline>'' (t\<lparr>ft_ctx := Some c1, mem := m', io_log := log\<rparr>) =
      kret () (t\<lparr>mem := m', io_log := log, ft_ctx := Some c2\<rparr>)"
    by (subst kprint_plain [of _ c1]) (simp_all add: c2_def)
  have "boot_apic_steps dev (registers hm) s = kret () (t\<lparr>mem := m', io_log := log, ft_ctx := Some c2\<rparr>)"
    unfolding boot_apic_steps_def e t_def [symmetric] by (simp only: kbind_kret i1 timer i2)
  also have "t\<lparr>mem := m', io_log := log, ft_ctx := Some c2\<rparr> = s\<lparr>mem := m', page_list := p, invlpg_log := l, io_log := log,
      apic_virt := APIC_HEAP_BASE, apic_space := space, apic_base_msr := msr, ft_ctx := Some c2\<rparr>"
    by (simp add: t_def)
  finally show ?thesis unfolding c2 by (intro exI)
qed

lemma boot_disk_returns:
  assumes bus: "empty_bus dev" and s: "klog s = []" "ft_ctx s = Some ctx"
  shows "\<exists>m p log h c. boot_disk_steps dev hw s = kret () (s\<lparr>mem := m, page_list := p, io_log := log,
    g_controllers := replicate 8 no_controller, g_count := 0, g_abars := replicate 8 0, g_abar_count := 0,
    vol_head := h, vol_count := c, vol_ready := True, ft_ctx := Some (show_console (log_text (take 2 (drop 8 boot_log))) ctx)\<rparr>)"
proof -
  define c1 where "c1 = show_console (log_line LOG_INFO ''AHCI initialized\<newline>'') ctx"
  define c2 where "c2 = show_console (log_line LOG_INFO ''FAT16 initialized\<newline>'') c1"
  have c2: "c2 = show_console (log_text (take 2 (drop 8 boot_log))) ctx"
    by (simp add: boot_log_def log_text_def c2_def c1_def show_console_append)
  have pk: "print_klog x = kret () x" if "klog x = []" for x :: "'a boot_state_scheme"
    using that by (simp add: print_klog_def)
  obtain log where a: "ahci_init dev hw s = kret 0 (s\<lparr>io_log := log, g_controllers := replicate 8 no_controller, g_count := 0,
      g_abars := replicate 8 0, g_abar_count := 0\<rparr>)"
    using ahci_init_empty [OF bus] by blast
  define t where "t = s\<lparr>io_log := log, g_controllers := replicate 8 no_controller, g_count := 0, g_abars := replicate 8 0, g_abar_count := 0\<rparr>"
  have t: "klog t = []" "ft_ctx t = Some ctx" "g_abar_count t = 0" by (simp_all add: t_def s)
  have i1: "info ''AHCI initialized\<newline>'' t = kret () (t\<lparr>ft_ctx := Some c1\<rparr>)"
    by (subst kprint_plain [of _ ctx]) (simp_all add: t c1_def)
  have "g_abar_count (t\<lparr>ft_ctx := Some c1\<rparr>) = 0" by (simp add: t)
  from fat16_init_empty [OF this, of hw 0] obtain m p h c where
    f: "fat16_init hw AHCI 0 0 (t\<lparr>ft_ctx := Some c1\<rparr>) = kret 1 (t\<lparr>ft_ctx := Some c1, mem := m, page_list := p, vol_head := h,
      vol_count := c, vol_ready := True\<rparr>)" by auto
  define u where "u = t\<lparr>ft_ctx := Some c1, mem := m, page_list := p, vol_head := h, vol_count := c, vol_ready := True\<rparr>"
  have u: "klog u = []" "ft_ctx u = Some c1" by (simp_all add: u_def t)
  have i2: "info ''FAT16 initialized\<newline>'' u = kret () (u\<lparr>ft_ctx := Some c2\<rparr>)"
    by (subst kprint_plain [of _ c1]) (simp_all add: u c2_def)
  have "boot_disk_steps dev hw s = kret () (u\<lparr>ft_ctx := Some c2\<rparr>)"
    unfolding boot_disk_steps_def a t_def [symmetric] by (simp only: kbind_kret pk [OF t(1)] i1 f u_def [symmetric] pk [OF u(1)] i2)
  also have "u\<lparr>ft_ctx := Some c2\<rparr> = s\<lparr>mem := m, page_list := p, io_log := log,
      g_controllers := replicate 8 no_controller, g_count := 0, g_abars := replicate 8 0, g_abar_count := 0,
      vol_head := h, vol_count := c, vol_ready := True, ft_ctx := Some c2\<rparr>"
    by (simp add: u_def t_def)
  finally show ?thesis unfolding c2 by (intro exI)
qed

lemma start_log_returns:
  assumes fb: "bi_framebuffers bi = Some (fb # fbs)" "usable_screen fb" and "bump s = \<lparr>bump_alloc_ptr = 0, bump_alloc_base_offset_added = False, bump_allocated_instance = False\<rparr>"
  shows "\<exists>b. start_log bi s = kret () (s\<lparr>bump := b, ft_ctx := Some (boot_screen bi)\<rparr>)"
proof -
  from printk_init_context [OF fb(2) assms(3), of "bi_pool bi" fbs "bi_pixels bi"] obtain b where
    "printk_init (bi_pool bi) (Some (fb # fbs)) (bi_pixels bi) (bump s) = kret (Some (boot_screen bi)) b"
    by (auto simp: boot_screen_def fb(1))
  then have "start_log bi s = kret () (s\<lparr>bump := b, ft_ctx := Some (boot_screen bi)\<rparr>)"
    by (simp add: start_log_def fb(1) kret_def)
  then show ?thesis ..
qed

lemma gdt_init_fields [simp]: "idt_entries (gdt_init a b c t) = idt_entries t"
  by (simp add: gdt_init_def gdt_flush_def tss_flush_def Let_def)

text \<open>The terminal after the first \<open>n\<close> messages.\<close>

definition boot_console :: "boot_info \<Rightarrow> nat \<Rightarrow> fb_context" where
  "boot_console bi n = show_console (log_text (take n boot_log)) (boot_screen bi)"

text \<open>Up to the interrupt table nothing of memory is touched.\<close>

lemma kmain_start:
  assumes bi: "boot_ready_info bi" and s: "boot_ready_state bi s"
  shows "\<exists>b cp lg. interrupts cp \<and> (\<forall>v<256. gate_target (idt_entries cp ! v) = bi_stubs bi v) \<and> kmain bi dev hw s =
    kbind (boot_memory_steps bi (s\<lparr>bump := b, cpu := cp, io_log := lg, ft_ctx := Some (boot_console bi 3)\<rparr>)) (\<lambda>_ s.
    kbind (boot_apic_steps dev hw s) (\<lambda>_ s.
    kbind (boot_disk_steps dev hw s) (\<lambda>_ s.
    kbind (kprint LOG_DEBUG ''Kernel init complete, halting\<newline>'' [] s) (\<lambda>_ s.
    kret Running s))))"
proof -
  define c where "c n = show_console (log_text (take n boot_log)) (boot_screen bi)" for n
  have c3: "boot_console bi 3 = c 3" by (simp add: boot_console_def c_def)
  define s0 where "s0 = s\<lparr>cpu := (cpu s)\<lparr>interrupts := False\<rparr>\<rparr>"
  have "bump s0 = \<lparr>bump_alloc_ptr = 0, bump_alloc_base_offset_added = False, bump_allocated_instance = False\<rparr>"
    using s by (simp add: s0_def boot_ready_state_def)
  moreover obtain fb fbs where "bi_framebuffers bi = Some (fb # fbs)" "usable_screen fb"
    using bi by (auto simp: boot_ready_info_def)
  ultimately obtain b where b: "start_log bi s0 = kret () (s0\<lparr>bump := b, ft_ctx := Some (boot_screen bi)\<rparr>)"
    using start_log_returns by blast
  define s1 where "s1 = s0\<lparr>bump := b, ft_ctx := Some (boot_screen bi)\<rparr>"
  define s2 where "s2 = (init_gdt bi (s1\<lparr>ft_ctx := Some (c 1)\<rparr>))\<lparr>ft_ctx := Some (c 2)\<rparr>"
  define s3 where "s3 = (init_idt bi s2)\<lparr>ft_ctx := Some (c 3)\<rparr>"
  have i1: "info ''Bootloader base revision OK\<newline>'' s1 = kret () (s1\<lparr>ft_ctx := Some (c 1)\<rparr>)"
    by (subst kprint_plain [of _ "boot_screen bi"]) (simp_all add: s1_def c_def boot_log_def log_text_def)
  have i2: "info ''GDT initialized\<newline>'' (init_gdt bi (s1\<lparr>ft_ctx := Some (c 1)\<rparr>)) = kret () s2"
    by (subst kprint_plain [of _ "c 1"]) (simp_all add: s2_def init_gdt_def c_def boot_log_def log_text_def show_console_append)
  have i3: "info ''IDT initialized\<newline>'' (init_idt bi s2) = kret () s3"
    by (subst kprint_plain [of _ "c 2"])
      (simp_all add: s3_def s2_def init_idt_def idt_init_def pic_disable_def outb_def io_emit_def Let_def c_def boot_log_def
        log_text_def show_console_append)
  define cp lg where "cp = cpu s3" and "lg = io_log s3"
  have s3: "s3 = s\<lparr>bump := b, cpu := cp, io_log := lg, ft_ctx := Some (c 3)\<rparr>"
    by (simp add: cp_def lg_def s3_def s2_def s1_def s0_def init_idt_def init_gdt_def idt_init_def pic_disable_def outb_def
      io_emit_def Let_def)
  have cp: "interrupts cp" "\<forall>v<256. gate_target (idt_entries cp ! v) = bi_stubs bi v"
    using s idt_fill_nth(1) [of "idt_entries (cpu s)" _ "bi_stubs bi"]
    by (simp_all add: cp_def s3_def s2_def s1_def s0_def init_idt_def init_gdt_def idt_init_def Let_def boot_ready_state_def)
  have "bi_supported bi" using bi by (simp add: boot_ready_info_def)
  then have "kmain bi dev hw s = kbind (boot_memory_steps bi s3) (\<lambda>_ s. kbind (boot_apic_steps dev hw s) (\<lambda>_ s.
    kbind (boot_disk_steps dev hw s) (\<lambda>_ s. kbind (kprint LOG_DEBUG ''Kernel init complete, halting\<newline>'' [] s) (\<lambda>_ s.
    kret Running s))))"
    unfolding kmain_def Let_def s0_def [symmetric] b s1_def [symmetric]
    by (simp only: kbind_kret not_True_eq_False if_False i1 i2 i3)
  then show ?thesis using cp unfolding s3 c3 by blast
qed

lemma kmain_runs:
  assumes bi: "boot_ready_info bi" and s: "boot_ready_state bi s"
    and bus: "empty_bus dev" and pit: "\<And>log. bit (dev log (In8 0x40)) 7"
  shows "\<exists>s'. kmain bi dev (registers hm) s = kret Running s' \<and> interrupts (cpu s') \<and>
    (\<forall>v<256. gate_target (idt_entries (cpu s') ! v) = bi_stubs bi v) \<and> kernel_pml4 s' = boot_root s \<and>
    apic_virt s' = APIC_HEAP_BASE \<and> g_count s' = 0 \<and> vol_ready s' \<and>
    ft_ctx s' = Some (show_console (log_text boot_log) (boot_screen bi))"
proof -
  define c where "c = boot_console bi"
  obtain b cp lg where cp: "interrupts cp" "\<forall>v<256. gate_target (idt_entries cp ! v) = bi_stubs bi v"
    and start: "kmain bi dev (registers hm) s =
      kbind (boot_memory_steps bi (s\<lparr>bump := b, cpu := cp, io_log := lg, ft_ctx := Some (boot_console bi 3)\<rparr>)) (\<lambda>_ s.
      kbind (boot_apic_steps dev (registers hm) s) (\<lambda>_ s.
      kbind (boot_disk_steps dev (registers hm) s) (\<lambda>_ s.
      kbind (kprint LOG_DEBUG ''Kernel init complete, halting\<newline>'' [] s) (\<lambda>_ s.
      kret Running s))))"
    using kmain_start [OF bi s, of dev "registers hm"] by blast
  define s3 where s3: "s3 = s\<lparr>bump := b, cpu := cp, io_log := lg, ft_ctx := Some (c 3)\<rparr>"
  have st: "page_list s3 = 0" "ft_ctx s3 = Some (c 3)" "boot_root s3 = boot_root s" "mem s3 = mem s"
    using s by (simp_all add: s3 boot_ready_state_def boot_root_def)
  have split: "c 6 = show_console (log_text (take 3 (drop 3 boot_log))) (c 3)"
    "c 8 = show_console (log_text (take 2 (drop 6 boot_log))) (c 6)" "c 10 = show_console (log_text (take 2 (drop 8 boot_log))) (c 8)"
    "show_console (log_text boot_log) (boot_screen bi) = show_console (log_line LOG_DEBUG ''Kernel init complete, halting\<newline>'') (c 10)"
    by (simp_all add: c_def boot_console_def boot_log_def log_text_def show_console_append)
  obtain m p l f g fs s4 where s4: "s4 = s3\<lparr>mem := m, page_list := p, invlpg_log := l, offset := 0xFFFF800000000000,
      kernel_pml4 := boot_root s, ft_ctx := Some (c 6)\<rparr>"
    and m: "boot_memory_steps bi s3 = kret () s4" "pt_inv s4 (kernel_pml4 s4) (f # g # fs)" "4 \<le> length fs" "offset s4 + f \<noteq> 0"
    using boot_memory_returns [OF bi st(1,2)] s unfolding st(3,4) split(1) [symmetric] Let_def boot_ready_state_def by blast
  have "apic_space s4 = 0" "ft_ctx s4 = Some (c 6)" using s by (simp_all add: s4 s3 boot_ready_state_def)
  from boot_apic_returns [OF m(2,4,3) this, where hm = hm and dev = dev] pit obtain m' p' l' space msr log s5 where
    s5: "s5 = s4\<lparr>mem := m', page_list := p', invlpg_log := l', io_log := log, apic_virt := APIC_HEAP_BASE, apic_space := space,
      apic_base_msr := msr, ft_ctx := Some (c 8)\<rparr>" and a: "boot_apic_steps dev (registers hm) s4 = kret () s5"
    unfolding split(2) [symmetric] by blast
  have "klog s5 = []" "ft_ctx s5 = Some (c 8)" using s by (simp_all add: s5 s4 s3 boot_ready_state_def)
  from boot_disk_returns [OF bus this, of "registers hm"] obtain m'' p'' log' h n s6 where
    s6: "s6 = s5\<lparr>mem := m'', page_list := p'', io_log := log', g_controllers := replicate 8 no_controller, g_count := 0,
      g_abars := replicate 8 0, g_abar_count := 0, vol_head := h, vol_count := n, vol_ready := True, ft_ctx := Some (c 10)\<rparr>"
    and d: "boot_disk_steps dev (registers hm) s5 = kret () s6"
    unfolding split(3) [symmetric] by blast
  define s7 where "s7 = s6\<lparr>ft_ctx := Some (show_console (log_text boot_log) (boot_screen bi))\<rparr>"
  have i4: "kprint LOG_DEBUG ''Kernel init complete, halting\<newline>'' [] s6 = kret () s7"
    by (subst kprint_plain [of _ "c 10"]) (simp_all add: s6 s7_def split(4))
  have "kmain bi dev (registers hm) s = kret Running s7"
    unfolding start c_def [symmetric] s3 [symmetric] by (simp only: kbind_kret m(1) a d i4)
  then show ?thesis
    by (intro exI [of _ s7] conjI) (use cp in \<open>simp_all add: s7_def s6 s5 s4 s3\<close>)
qed


text \<open>The messages without their line feed.\<close>

definition boot_messages :: "(int \<times> string) list" where
  "boot_messages = map (\<lambda>(level, msg). (level, butlast msg)) boot_log"

lemma boot_messages: "boot_log = end_lines boot_messages" "length boot_messages = 11"
  by (simp_all add: boot_messages_def boot_log_def end_lines_def)

lemma boot_messages_fit: "41 \<le> unat (cols ctx) \<Longrightarrow> log_fits ctx boot_messages"
  by (simp add: log_fits_def boot_messages_def boot_log_def printable_def)


text \<open>The message for a boot loader that is too old.\<close>

lemma arg_size_lu: "arg_size L_L CHR ''u'' = Inr (Some T_ULONG)"
  by (simp add: arg_size_def char_of_def bit_Suc_0_iff)

lemma directive_lu: "directive (''lu'' @ post) (Word w # args) =
  Inr (Some (digits_text False (numeral_of 10 (unat w)), post, args))"
  by (simp add: directive_def width_step_def precision_step_def length_step_def arg_size_lu read_value_def
      convert_def peek_def number_def plain_number)

definition revision_text :: "u64 \<Rightarrow> string" where
  "revision_text w = ''Bootloader does not support base revision: '' @ digits_text False (numeral_of 10 (unat w)) @ ''\<newline>''"

lemma format_revision:
  "\<exists>n. format ''Bootloader does not support base revision: %lu\<newline>'' [Word w] = Inr (revision_text w, n)"
proof -
  have "format_run (''%lu'' @ ''\<newline>'') [Word w] = Inr (digits_text False (numeral_of 10 (unat w)) @ ''\<newline>'')"
    using directive_lu [of "''\<newline>''" w "[]"] by (simp add: format_run.simps peek_def)
  then have "format_run (''Bootloader does not support base revision: '' @ ''%lu'' @ ''\<newline>'') [Word w] = Inr (revision_text w)"
    by (subst format_run_text) (simp_all add: revision_text_def)
  then show ?thesis by (simp add: format_def)
qed

text \<open>C16. The two early ends of the boot. Without a frame buffer the first message goes through the
  null pointer of the terminal. With one, and a boot loader that does not support the base
  revision, the kernel halts after one message, with interrupts off, before it touches memory,
  ports or descriptor tables; the number in it is the first word of the request, its magic.\<close>

theorem kmain_stops:
  assumes none: "ft_ctx s = None"
    and bump: "bump s = \<lparr>bump_alloc_ptr = 0, bump_alloc_base_offset_added = False, bump_allocated_instance = False\<rparr>"
  shows "(bi_framebuffers bi \<in> {None, Some []} \<longrightarrow> kmain bi dev hw s = Inl NullPointer) \<and>
    (bi_framebuffers bi = Some (fb # fbs) \<and> usable_screen fb \<and> \<not> bi_supported bi \<longrightarrow>
      (\<exists>b. kmain bi dev hw s = kret Unsupported (s\<lparr>cpu := (cpu s)\<lparr>interrupts := False\<rparr>, bump := b,
        ft_ctx := Some (show_console (log_line LOG_FATAL (revision_text (bi_revision bi))) (boot_screen bi))\<rparr>)))"
proof (intro conjI impI)
  assume "bi_framebuffers bi \<in> {None, Some []}"
  with none show "kmain bi dev hw s = Inl NullPointer"
    by (auto simp: kmain_def start_log_def printk_init_def kret_def kprint_def Let_def)
next
  assume fb: "bi_framebuffers bi = Some (fb # fbs) \<and> usable_screen fb \<and> \<not> bi_supported bi"
  define t where "t = s\<lparr>cpu := (cpu s)\<lparr>interrupts := False\<rparr>\<rparr>"
  have "bump t = \<lparr>bump_alloc_ptr = 0, bump_alloc_base_offset_added = False, bump_allocated_instance = False\<rparr>"
    by (simp add: t_def bump)
  with fb obtain b where b: "start_log bi t = kret () (t\<lparr>bump := b, ft_ctx := Some (boot_screen bi)\<rparr>)"
    using start_log_returns by blast
  obtain n where "format ''Bootloader does not support base revision: %lu\<newline>'' [Word (bi_revision bi)] = Inr (revision_text (bi_revision bi), n)"
    using format_revision by blast
  note p = kprint_line [of "t\<lparr>bump := b, ft_ctx := Some (boot_screen bi)\<rparr>", OF _ this log_levels(3)]
  have "kmain bi dev hw s = kret Unsupported (t\<lparr>bump := b,
      ft_ctx := Some (show_console (log_line LOG_FATAL (revision_text (bi_revision bi))) (boot_screen bi))\<rparr>)"
    unfolding kmain_def Let_def t_def [symmetric] b using p fb by simp
  then show "\<exists>b. kmain bi dev hw s = kret Unsupported (s\<lparr>cpu := (cpu s)\<lparr>interrupts := False\<rparr>, bump := b,
      ft_ctx := Some (show_console (log_line LOG_FATAL (revision_text (bi_revision bi))) (boot_screen bi))\<rparr>)"
    unfolding t_def by (rule exI)
qed

text \<open>A machine that boots: the ports and the empty bus read as ones.\<close>

definition example_info :: "bool \<Rightarrow> boot_info" where
  "example_info supported = \<lparr>bi_framebuffers = Some [example_screen], bi_pixels = (\<lambda>_. 0), bi_pool = 0x1008,
     bi_revision = 0xf9562b2d5c95a6c8, bi_supported = supported, bi_hhdm = boot_offset, bi_usable = 0, bi_memmap = boot_map,
     bi_ist_stack = 0, bi_gdt = 0x1000, bi_tss = 0x2000, bi_idt = 0x3000, bi_stubs = (\<lambda>v. 0x4000 + of_nat v)\<rparr>"

definition example_machine :: boot_state where
  "example_machine = \<lparr>mem = (\<lambda>_. 0), offset = 0, page_list = 0, kernel_pml4 = 0, cr3 = 0x100000, invlpg_log = [],
     free_list = 0, heap_top = 0, io_log = [], apic_virt = 0, ioapic_virt = 0, apic_space = 0, apic_base_msr = 0xFEE00900,
     g_abars = [], g_abar_count = 0, g_controllers = [], g_count = 0, klog = [], vol_head = 0, vol_count = 0,
     vol_ready = False, ft_ctx = None,
     bump = \<lparr>bump_alloc_ptr = 0, bump_alloc_base_offset_added = False, bump_allocated_instance = False\<rparr>,
     cpu = \<lparr>gdtr = (0, 0), idtr = (0, 0), task_register = 0, cpu_cs = 0, cpu_ds = 0, cpu_es = 0, cpu_fs = 0, cpu_gs = 0,
       cpu_ss = 0, interrupts = True, gdt_entries = [],
       gdt_tss = gdt_encode_tss 0 0, gdt_limit = 0, gdt_base = 0, tss = \<lparr>rsp0 = 0, ist1 = 0, io_map_base = 0\<rparr>,
       idt_entries = replicate 256 \<lparr>isr_low = 0, kernel_cs = 0, ist = 0, attributes = 0, isr_mid = 0, isr_high = 0, idt_reserved = 0\<rparr>\<rparr>\<rparr>"

lemma example_ready:
  "boot_ready_info (example_info True)" "boot_ready_state (example_info True) example_machine"
  "empty_bus (\<lambda>_ _. 0xffffffff)" "bit (0xffffffff :: u32) 7"
proof -
  show "boot_ready_info (example_info True)"
    using boot_pages_wf(4) example_screen_usable
    by (fastforce simp: boot_ready_info_def example_info_def boot_offset_def boot_map_ok length_boot_pages list_all_iff)
  have "boot_root example_machine = boot_offset + 0x100000"
    by (simp add: boot_root_def example_machine_def boot_offset_def ENTRY_4K_ADDRESS_MASK_def)
  then show "boot_ready_state (example_info True) example_machine"
    using empty_tables unfolding boot_ready_state_def
    by (simp add: boot_map_ok example_info_def flip: boot_offset_def) (simp add: example_machine_def)
  show "empty_bus (\<lambda>_ _. 0xffffffff)" "bit (0xffffffff :: u32) 7" by (simp_all add: empty_bus_def)
qed



lemma kmain_stops_witness:
  "(\<exists>s'. kmain (example_info False) (\<lambda>_ _. 0) (registers mem) example_machine = kret Unsupported s' \<and> io_log s' = []) \<and>
    kmain ((example_info True)\<lparr>bi_framebuffers := None\<rparr>) (\<lambda>_ _. 0) (registers mem) example_machine = Inl NullPointer"
proof -
  have "ft_ctx example_machine = None" "bump example_machine =
      \<lparr>bump_alloc_ptr = 0, bump_alloc_base_offset_added = False, bump_allocated_instance = False\<rparr>" "io_log example_machine = []"
    by (simp_all add: example_machine_def)
  with kmain_stops [of example_machine "example_info False" "\<lambda>_ _. 0" "registers mem" example_screen "[]"] example_screen_usable
    kmain_stops [of example_machine "(example_info True)\<lparr>bi_framebuffers := None\<rparr>" "\<lambda>_ _. 0" "registers mem"]
  show ?thesis by (auto simp: example_info_def)
qed

end
